(* ===== verification/Prelude.thy ===== *)
theory Prelude
  imports Main "HOL-Library.State_Monad"
begin

text \<open>
  Shared vocabulary of the development: the collections of rewrite and introduction
  rules the component theories extend, a small program logic for stateful service
  code, and generic lemmas on lists of rows.

  The Go services are translated into the state monad of the library.  A call that can
  fail returns a value of a sum type, the error on the left, and the caller tests it the
  way the Go code tests \<^verbatim>\<open>err != nil\<close>.  \<open>hoare P m Q\<close> says that a run of \<open>m\<close> from a
  state satisfying \<open>P\<close> ends with a result and a state satisfying \<open>Q\<close>; every model is a
  total function, so this is total correctness.
\<close>

section \<open>Collections\<close>

named_theorems hoare_rules \<open>introduction rules of the program logic\<close>
named_theorems run_simps \<open>evaluation of the database primitives\<close>
named_theorems row_simps \<open>lemmas on tables kept as lists of rows\<close>

section \<open>Results of fallible calls\<close>

abbreviation ok :: "'a \<Rightarrow> 'e + 'a" where
  "ok \<equiv> Inr"

abbreviation err :: "'e \<Rightarrow> 'e + 'a" where
  "err \<equiv> Inl"

abbreviation ret :: "'a \<Rightarrow> ('s, 'a) state" where
  "ret \<equiv> State_Monad.return"

text \<open>
  The early return \<^verbatim>\<open>if err != nil { return wrap(err) }\<close>: the continuation runs only on
  success, and the error is passed on through \<open>wrap\<close>.
\<close>

definition check :: "('e \<Rightarrow> 'f) \<Rightarrow> ('s, 'e + 'a) state \<Rightarrow> ('a \<Rightarrow> ('s, 'f + 'b) state) \<Rightarrow> ('s, 'f + 'b) state" where
  "check wrap m k = do { r \<leftarrow> m; case r of Inl e \<Rightarrow> ret (err (wrap e)) | Inr a \<Rightarrow> k a }"

lemma run_check [run_simps]:
  "run_state (check wrap m k) s =
     (case run_state m s of (Inl e, s') \<Rightarrow> (err (wrap e), s') | (Inr a, s') \<Rightarrow> run_state (k a) s')"
  by (simp add: check_def split: prod.splits sum.splits)

section \<open>Program logic\<close>

definition hoare :: "('s \<Rightarrow> bool) \<Rightarrow> ('s, 'a) state \<Rightarrow> ('a \<Rightarrow> 's \<Rightarrow> bool) \<Rightarrow> bool" where
  "hoare P m Q \<longleftrightarrow> (\<forall>s. P s \<longrightarrow> (case run_state m s of (r, s') \<Rightarrow> Q r s'))"

abbreviation preserves :: "('s \<Rightarrow> bool) \<Rightarrow> ('s, 'a) state \<Rightarrow> bool" where
  "preserves I m \<equiv> hoare I m (\<lambda>_. I)"

lemma hoareI: "(\<And>s r s'. P s \<Longrightarrow> run_state m s = (r, s') \<Longrightarrow> Q r s') \<Longrightarrow> hoare P m Q"
  by (auto simp: hoare_def split: prod.splits)

lemma hoareD: "hoare P m Q \<Longrightarrow> P s \<Longrightarrow> run_state m s = (r, s') \<Longrightarrow> Q r s'"
  by (fastforce simp: hoare_def)

lemma preservesD: "preserves I m \<Longrightarrow> I s \<Longrightarrow> I (snd (run_state m s))"
  by (simp add: hoare_def case_prod_beta)

lemma hoare_weaken:
  "hoare P' m Q' \<Longrightarrow> (\<And>s. P s \<Longrightarrow> P' s) \<Longrightarrow> (\<And>r s. Q' r s \<Longrightarrow> Q r s) \<Longrightarrow> hoare P m Q"
  by (fastforce simp: hoare_def)

lemma hoare_return [hoare_rules]: "(\<And>s. P s \<Longrightarrow> Q a s) \<Longrightarrow> hoare P (ret a) Q"
  by (simp add: hoare_def)

lemma hoare_bind:
  "hoare P m R \<Longrightarrow> (\<And>a. hoare (R a) (f a) Q) \<Longrightarrow> hoare P (State_Monad.bind m f) Q"
  by (fastforce simp: hoare_def split: prod.splits)

lemma preserves_return [hoare_rules]: "preserves I (ret a)"
  by (simp add: hoare_def)

lemma preserves_bind [hoare_rules]:
  "preserves I m \<Longrightarrow> (\<And>a. preserves I (f a)) \<Longrightarrow> preserves I (State_Monad.bind m f)"
  by (rule hoare_bind)

lemma preserves_check [hoare_rules]:
  "preserves I m \<Longrightarrow> (\<And>a. preserves I (k a)) \<Longrightarrow> preserves I (check wrap m k)"
  unfolding check_def by (intro preserves_bind) (auto simp: preserves_return split: sum.split)

lemma hoare_check:
  assumes "hoare P m (\<lambda>r s. case r of Inl e \<Rightarrow> Q (err (wrap e)) s | Inr a \<Rightarrow> R a s)"
    and "\<And>a. hoare (R a) (k a) Q"
  shows "hoare P (check wrap m k) Q"
  using assms unfolding hoare_def run_check
  by (fastforce split: prod.splits sum.splits)

text \<open>A condition that only a success has to establish.\<close>

definition on_ok :: "('s \<Rightarrow> bool) \<Rightarrow> 'e + 'a \<Rightarrow> 's \<Rightarrow> bool" where
  "on_ok J r s \<longleftrightarrow> (case r of Inl e \<Rightarrow> True | Inr a \<Rightarrow> J s)"

lemma on_ok_simps [simp]: "on_ok J (Inl e) s" "on_ok J (Inr a) s = J s"
  by (simp_all add: on_ok_def)

lemma hoare_on_ok: "hoare P m (\<lambda>_. J) \<Longrightarrow> hoare P m (on_ok J)"
  by (erule hoare_weaken) (auto simp: on_ok_def split: sum.splits)

lemma hoare_check_ok:
  assumes "hoare P m (on_ok R)" and "\<And>a. hoare R (k a) (on_ok J)"
  shows "hoare P (check wrap m k) (on_ok J)"
  by (rule hoare_check [where R = "\<lambda>_. R"], rule hoare_weaken [OF assms(1)])
    (use assms(2) in \<open>auto simp: on_ok_def split: sum.splits\<close>)

lemma hoare_check_on_ok:
  assumes "hoare P m (\<lambda>r s. case r of Inl e \<Rightarrow> True | Inr a \<Rightarrow> R a s)" and "\<And>a. hoare (R a) (k a) (on_ok J)"
  shows "hoare P (check wrap m k) (on_ok J)"
  by (rule hoare_check [where R = R], rule hoare_weaken [OF assms(1)]) (use assms(2) in \<open>auto split: sum.splits\<close>)

lemma hoare_err_ok: "hoare P (ret (err e)) (on_ok J)"
  by (auto intro: hoare_return)

lemma hoare_return_ok: "hoare J (ret r) (on_ok J)"
  by (cases r) (auto intro: hoare_return)

lemma hoare_if [hoare_rules]:
  "(b \<Longrightarrow> hoare P m Q) \<Longrightarrow> (\<not> b \<Longrightarrow> hoare P n Q) \<Longrightarrow> hoare P (if b then m else n) Q"
  by simp

lemma hoare_case_sum [hoare_rules]:
  "(\<And>e. x = Inl e \<Longrightarrow> hoare P (f e) Q) \<Longrightarrow> (\<And>a. x = Inr a \<Longrightarrow> hoare P (g a) Q) \<Longrightarrow>
   hoare P (case x of Inl e \<Rightarrow> f e | Inr a \<Rightarrow> g a) Q"
  by (cases x) auto

lemma hoare_case_option [hoare_rules]:
  "(x = None \<Longrightarrow> hoare P m Q) \<Longrightarrow> (\<And>a. x = Some a \<Longrightarrow> hoare P (g a) Q) \<Longrightarrow>
   hoare P (case x of None \<Rightarrow> m | Some a \<Rightarrow> g a) Q"
  by (cases x) auto

lemma hoare_case_prod [hoare_rules]:
  "(\<And>a b. x = (a, b) \<Longrightarrow> hoare P (f a b) Q) \<Longrightarrow> hoare P (case x of (a, b) \<Rightarrow> f a b) Q"
  by (cases x) auto

lemma hoare_let [hoare_rules]: "hoare P (f x) Q \<Longrightarrow> hoare P (Let x f) Q"
  by simp

section \<open>Tables as lists of rows\<close>

text \<open>\<open>upd_where p f rows\<close> is \<^verbatim>\<open>UPDATE ... SET f WHERE p\<close>; the row count is \<open>count_where\<close>.\<close>

definition upd_where :: "('r \<Rightarrow> bool) \<Rightarrow> ('r \<Rightarrow> 'r) \<Rightarrow> 'r list \<Rightarrow> 'r list" where
  "upd_where p f rows = map (\<lambda>r. if p r then f r else r) rows"

definition count_where :: "('r \<Rightarrow> bool) \<Rightarrow> 'r list \<Rightarrow> nat" where
  "count_where p rows = length (filter p rows)"

definition del_where :: "('r \<Rightarrow> bool) \<Rightarrow> 'r list \<Rightarrow> 'r list" where
  "del_where p rows = filter (\<lambda>r. \<not> p r) rows"

text \<open>\<^verbatim>\<open>QueryRow\<close>: the first row that satisfies the condition, if any.\<close>

definition find_row :: "('r \<Rightarrow> bool) \<Rightarrow> 'r list \<Rightarrow> 'r option" where
  "find_row p rows = List.find p rows"

definition unique_by :: "('r \<Rightarrow> 'k) \<Rightarrow> 'r list \<Rightarrow> bool" where
  "unique_by key rows \<longleftrightarrow> distinct (map key rows)"

lemma set_upd_where [row_simps]:
  "set (upd_where p f rows) = f ` {r \<in> set rows. p r} \<union> {r \<in> set rows. \<not> p r}"
  by (auto simp: upd_where_def)

lemma upd_where_Nil [simp]: "upd_where p f [] = []"
  by (simp add: upd_where_def)

lemma upd_where_Cons [simp]: "upd_where p f (r # rs) = (if p r then f r else r) # upd_where p f rs"
  by (simp add: upd_where_def)

lemma upd_where_id [row_simps]: "(\<And>r. r \<in> set rows \<Longrightarrow> \<not> p r) \<Longrightarrow> upd_where p f rows = rows"
  by (simp add: upd_where_def map_idI)

lemma length_upd_where [simp]: "length (upd_where p f rows) = length rows"
  by (simp add: upd_where_def)

lemma map_upd_where [row_simps]:
  "(\<And>r. r \<in> set rows \<Longrightarrow> p r \<Longrightarrow> key (f r) = key r) \<Longrightarrow> map key (upd_where p f rows) = map key rows"
  by (auto simp: upd_where_def)

lemma unique_by_upd_where:
  "unique_by key rows \<Longrightarrow> (\<And>r. p r \<Longrightarrow> key (f r) = key r) \<Longrightarrow> unique_by key (upd_where p f rows)"
  by (simp add: unique_by_def map_upd_where)

lemma list_ex_upd_where: "list_ex q rows \<Longrightarrow> (\<And>r. q r \<Longrightarrow> q (f r)) \<Longrightarrow> list_ex q (upd_where p f rows)"
  by (induction rows) auto

lemma set_del_where [row_simps]: "set (del_where p rows) = {r \<in> set rows. \<not> p r}"
  by (simp add: del_where_def)

lemma unique_by_del_where: "unique_by key rows \<Longrightarrow> unique_by key (del_where p rows)"
  by (simp add: unique_by_def del_where_def distinct_map_filter)

lemma unique_by_append1:
  "unique_by key (rows @ [r]) \<longleftrightarrow> unique_by key rows \<and> key r \<notin> key ` set rows"
  by (auto simp: unique_by_def)

lemma unique_by_eq:
  "unique_by key rows \<Longrightarrow> r \<in> set rows \<Longrightarrow> r' \<in> set rows \<Longrightarrow> key r = key r' \<Longrightarrow> r = r'"
  by (auto simp: unique_by_def distinct_map dest: inj_onD)

lemma unique_by_Nil [simp]: "unique_by key []"
  by (simp add: unique_by_def)

lemma find_row_Some: "find_row p rows = Some r \<Longrightarrow> r \<in> set rows \<and> p r"
  by (auto simp: find_row_def find_Some_iff in_set_conv_nth)

lemma find_row_None: "find_row p rows = None \<longleftrightarrow> (\<forall>r \<in> set rows. \<not> p r)"
  by (auto simp: find_row_def find_None_iff)

lemma find_row_Nil [simp]: "find_row p [] = None"
  by (simp add: find_row_def)

lemma find_row_Cons [simp]: "find_row p (r # rs) = (if p r then Some r else find_row p rs)"
  by (simp add: find_row_def)

lemma find_row_unique:
  assumes "unique_by key rows" and "r \<in> set rows" and "key r = k"
  shows "find_row (\<lambda>r. key r = k) rows = Some r"
proof (cases "find_row (\<lambda>r. key r = k) rows")
  case None
  with assms(2,3) show ?thesis by (auto simp: find_row_None)
next
  case (Some r')
  then have "r' \<in> set rows" and "key r' = k" by (auto dest: find_row_Some)
  with assms have "r' = r" by (auto intro: unique_by_eq)
  with Some show ?thesis by simp
qed

lemma count_where_0: "count_where p rows = 0 \<longleftrightarrow> (\<forall>r \<in> set rows. \<not> p r)"
  by (auto simp: count_where_def filter_empty_conv)

lemma count_where_Nil [simp]: "count_where p [] = 0"
  by (simp add: count_where_def)

lemma count_where_Cons [simp]: "count_where p (r # rs) = (if p r then Suc (count_where p rs) else count_where p rs)"
  by (simp add: count_where_def)

lemma count_where_append [simp]: "count_where p (xs @ ys) = count_where p xs + count_where p ys"
  by (simp add: count_where_def)

end
