(* ===== verification/Go_Strings.thy ===== *)
theory Go_Strings
  imports Prelude
begin

text \<open>
  The parts of Go's \<^verbatim>\<open>strings\<close>, \<^verbatim>\<open>strconv\<close> and \<^verbatim>\<open>unicode/utf8\<close> packages the services use.
  A Go string is a sequence of bytes, so it is a \<open>string\<close> (a list of 8-bit characters)
  and \<open>length\<close> is \<^verbatim>\<open>len\<close>.  Ranging over a string decodes UTF-8 as the language
  defines it: an invalid byte is the rune U+FFFD of width 1.  Unicode's case and class
  tables beyond ASCII are parameters of the functions that consult them.
\<close>

section \<open>Bytes and UTF-8\<close>

definition byte :: "char \<Rightarrow> nat" where
  "byte c = of_char c"

lemma byte_lt [simp]: "byte c < 256"
  unfolding byte_def by (metis mod_less_divisor of_char_mod_256 zero_less_numeral)

lemma byte_inj [simp]: "byte c = byte d \<longleftrightarrow> c = d"
  by (simp add: byte_def)

definition rune_error :: nat where
  "rune_error = 0xFFFD"

definition in_range :: "nat \<Rightarrow> nat \<Rightarrow> nat \<Rightarrow> bool" where
  "in_range lo hi b \<longleftrightarrow> lo \<le> b \<and> b \<le> hi"

definition second_byte_ok :: "nat \<Rightarrow> nat \<Rightarrow> bool" where
  "second_byte_ok b0 b1 =
     (if b0 = 0xE0 then in_range 0xA0 0xBF b1
      else if b0 = 0xED then in_range 0x80 0x9F b1
      else if b0 = 0xF0 then in_range 0x90 0xBF b1
      else if b0 = 0xF4 then in_range 0x80 0x8F b1
      else in_range 0x80 0xBF b1)"

text \<open>\<^verbatim>\<open>utf8.DecodeRuneInString\<close>: the first rune and its width in bytes.\<close>

definition decode_rune :: "string \<Rightarrow> nat \<times> nat" where
  "decode_rune s = (case s of
      [] \<Rightarrow> (rune_error, 0)
    | c0 # rest \<Rightarrow>
       (let b0 = byte c0 in
        if b0 < 0x80 then (b0, 1)
        else if in_range 0xC2 0xDF b0 then
          (case rest of c1 # _ \<Rightarrow> let b1 = byte c1 in
             if second_byte_ok b0 b1 then ((b0 - 0xC0) * 64 + (b1 - 0x80), 2) else (rune_error, 1)
           | [] \<Rightarrow> (rune_error, 1))
        else if in_range 0xE0 0xEF b0 then
          (case rest of c1 # c2 # _ \<Rightarrow> let b1 = byte c1; b2 = byte c2 in
             if second_byte_ok b0 b1 \<and> in_range 0x80 0xBF b2
             then ((b0 - 0xE0) * 4096 + (b1 - 0x80) * 64 + (b2 - 0x80), 3) else (rune_error, 1)
           | _ \<Rightarrow> (rune_error, 1))
        else if in_range 0xF0 0xF4 b0 then
          (case rest of c1 # c2 # c3 # _ \<Rightarrow> let b1 = byte c1; b2 = byte c2; b3 = byte c3 in
             if second_byte_ok b0 b1 \<and> in_range 0x80 0xBF b2 \<and> in_range 0x80 0xBF b3
             then ((b0 - 0xF0) * 262144 + (b1 - 0x80) * 4096 + (b2 - 0x80) * 64 + (b3 - 0x80), 4)
             else (rune_error, 1)
           | _ \<Rightarrow> (rune_error, 1))
        else (rune_error, 1)))"

lemma decode_rune_width: "s \<noteq> [] \<Longrightarrow> 1 \<le> snd (decode_rune s)"
  by (auto simp: decode_rune_def Let_def split: list.splits)

text \<open>\<^verbatim>\<open>for i, r := range s\<close>: index, rune and width of every step.\<close>

function range_runes :: "nat \<Rightarrow> string \<Rightarrow> (nat \<times> nat \<times> nat) list" where
  "range_runes i s =
     (if s = [] then []
      else (case decode_rune s of (r, w) \<Rightarrow> (i, r, w) # range_runes (i + w) (drop w s)))"
  by pat_completeness auto
termination
proof (relation "measure (\<lambda>(i, s). length s)", goal_cases)
  case (2 i s r w)
  then have "1 \<le> w" using decode_rune_width [of s] by (metis snd_conv)
  with 2 show ?case by auto
qed simp

declare range_runes.simps [simp del]

definition runes :: "string \<Rightarrow> nat list" where
  "runes s = map (\<lambda>(i, r, w). r) (range_runes 0 s)"

definition valid_utf8 :: "string \<Rightarrow> bool" where
  "valid_utf8 s \<longleftrightarrow> list_all (\<lambda>(i, r, w). \<not> (r = rune_error \<and> w = 1)) (range_runes 0 s)"

definition is_ascii :: "string \<Rightarrow> bool" where
  "is_ascii s \<longleftrightarrow> list_all (\<lambda>c. byte c < 128) s"

lemma range_runes_Nil [simp]: "range_runes i [] = []"
  by (simp add: range_runes.simps)

lemma range_runes_ascii_Cons [simp]:
  "byte c < 128 \<Longrightarrow> range_runes i (c # s) = (i, byte c, 1) # range_runes (Suc i) s"
  by (subst range_runes.simps) (simp add: decode_rune_def Let_def)

lemma range_runes_ascii:
  "is_ascii s \<Longrightarrow> map (\<lambda>(i, r, w). r) (range_runes i s) = map byte s"
  by (induction s arbitrary: i) (auto simp: is_ascii_def)

lemma runes_ascii: "is_ascii s \<Longrightarrow> runes s = map byte s"
  by (simp add: runes_def range_runes_ascii)

text \<open>
  A byte below 0x80 never hides inside a multi-byte rune: the ASCII bytes of a string are
  exactly its runes below 0x80, in order.
\<close>

lemma decode_rune_ascii_bytes:
  assumes "s \<noteq> []" and "decode_rune s = (r, w)"
  shows "filter (\<lambda>b. b < 128) (map byte (take w s)) = (if r < 128 then [r] else [])"
proof -
  obtain c rest where s: "s = c # rest" using assms(1) by (cases s) auto
  show ?thesis using assms(2)
    by (auto simp: s decode_rune_def Let_def rune_error_def in_range_def second_byte_ok_def
        split: list.splits if_splits)
qed

lemma range_runes_ascii_bytes:
  "filter (\<lambda>r. r < 128) (map (\<lambda>(i, r, w). r) (range_runes i s)) = filter (\<lambda>b. b < 128) (map byte s)"
proof (induction i s rule: range_runes.induct)
  case (1 i s)
  show ?case
  proof (cases "s = []")
    case False
    obtain r w where rw: "decode_rune s = (r, w)" by force
    have "filter (\<lambda>b. b < 128) (map byte s) =
        filter (\<lambda>b. b < 128) (map byte (take w s)) @ filter (\<lambda>b. b < 128) (map byte (drop w s))"
      by (metis append_take_drop_id filter_append map_append)
    with decode_rune_ascii_bytes [OF False rw] "1.IH" [OF False rw [symmetric]] False rw
    show ?thesis by (subst range_runes.simps) simp
  qed simp
qed

lemma ascii_byte_in_runes:
  assumes "byte c < 128"
  shows "c \<in> set s \<longleftrightarrow> byte c \<in> set (runes s)"
proof -
  have "byte c \<in> set (filter (\<lambda>b. b < 128) (map byte s)) \<longleftrightarrow> byte c \<in> set (filter (\<lambda>r. r < 128) (runes s))"
    unfolding runes_def range_runes_ascii_bytes ..
  with assms show ?thesis by (auto simp: image_iff)
qed

section \<open>Prefixes, suffixes, substrings\<close>

definition has_prefix :: "string \<Rightarrow> string \<Rightarrow> bool" where
  "has_prefix s p \<longleftrightarrow> take (length p) s = p"

definition has_suffix :: "string \<Rightarrow> string \<Rightarrow> bool" where
  "has_suffix s p \<longleftrightarrow> length p \<le> length s \<and> drop (length s - length p) s = p"

definition trim_prefix :: "string \<Rightarrow> string \<Rightarrow> string" where
  "trim_prefix s p = (if has_prefix s p then drop (length p) s else s)"

definition trim_suffix :: "string \<Rightarrow> string \<Rightarrow> string" where
  "trim_suffix s p = (if has_suffix s p then take (length s - length p) s else s)"

fun contains :: "string \<Rightarrow> string \<Rightarrow> bool" where
  "contains [] sub = (sub = [])"
| "contains (c # s) sub = (has_prefix (c # s) sub \<or> contains s sub)"

lemma has_prefix_append [simp]: "has_prefix (p @ s) p"
  by (simp add: has_prefix_def)

lemma has_prefixE: "has_prefix s p \<Longrightarrow> (\<And>t. s = p @ t \<Longrightarrow> thesis) \<Longrightarrow> thesis"
  unfolding has_prefix_def by (metis append_take_drop_id)

lemma has_prefix_iff: "has_prefix s p \<longleftrightarrow> (\<exists>t. s = p @ t)"
  by (auto elim: has_prefixE)

lemma has_prefix_Cons1 [simp]: "has_prefix (c # s) [d] \<longleftrightarrow> c = d"
  by (simp add: has_prefix_def)

lemma has_prefix_Nil1 [simp]: "\<not> has_prefix [] [d]"
  by (simp add: has_prefix_def)

lemma has_suffix_iff: "has_suffix s p \<longleftrightarrow> (\<exists>t. s = t @ p)"
proof
  assume "has_suffix s p"
  then show "\<exists>t. s = t @ p" unfolding has_suffix_def by (metis append_take_drop_id)
next
  assume "\<exists>t. s = t @ p"
  then show "has_suffix s p" by (auto simp: has_suffix_def)
qed

lemma trim_suffix_append [simp]: "trim_suffix (s @ p) p = s"
  by (auto simp: trim_suffix_def has_suffix_iff)

lemma trim_suffix_cases:
  obtains "s = trim_suffix s p @ p" | "trim_suffix s p = s" and "\<not> has_suffix s p"
  using trim_suffix_append by (metis has_suffix_iff trim_suffix_def)

section \<open>Splitting and joining\<close>

text \<open>\<^verbatim>\<open>strings.Split\<close> with a one-byte separator, and \<^verbatim>\<open>strings.Join\<close>.\<close>

fun split_on :: "char \<Rightarrow> string \<Rightarrow> string list" where
  "split_on c [] = [[]]"
| "split_on c (x # xs) =
     (if x = c then [] # split_on c xs
      else (case split_on c xs of [] \<Rightarrow> [[x]] | y # ys \<Rightarrow> (x # y) # ys))"

fun join :: "string \<Rightarrow> string list \<Rightarrow> string" where
  "join sep [] = []"
| "join sep [x] = x"
| "join sep (x # y # ys) = x @ sep @ join sep (y # ys)"

lemma split_on_nonempty [simp]: "split_on c s \<noteq> []"
  by (cases s) (auto split: list.splits)

lemma join_Cons: "ys \<noteq> [] \<Longrightarrow> join sep (x # ys) = x @ sep @ join sep ys"
  by (cases ys) auto

lemma join_split_on [simp]: "join [c] (split_on c s) = s"
proof (induction s)
  case (Cons x s)
  obtain y ys where sp: "split_on c s = y # ys" using split_on_nonempty by (metis list.exhaust)
  with Cons.IH show ?case by (cases ys) auto
qed simp

lemma split_on_no_sep: "p \<in> set (split_on c s) \<Longrightarrow> c \<notin> set p"
proof (induction s arbitrary: p)
  case (Cons x s)
  obtain y ys where sp: "split_on c s = y # ys" using split_on_nonempty by (metis list.exhaust)
  with Cons show ?case by (auto split: if_splits)
qed simp

lemma split_on_append_sep:
  "c \<notin> set p \<Longrightarrow> split_on c (p @ c # s) = p # split_on c s"
  by (induction p) auto

lemma split_on_append: "split_on c (xs @ c # ys) = split_on c xs @ split_on c ys"
proof (induction xs)
  case (Cons x xs)
  obtain z zs where "split_on c xs = z # zs" using split_on_nonempty by (metis list.exhaust)
  with Cons.IH show ?case by auto
qed simp

lemma split_on_no_sep_id: "c \<notin> set p \<Longrightarrow> split_on c p = [p]"
  by (induction p) auto

lemma split_on_join:
  "xs \<noteq> [] \<Longrightarrow> (\<And>p. p \<in> set xs \<Longrightarrow> c \<notin> set p) \<Longrightarrow> split_on c (join [c] xs) = xs"
  by (induction "[c]" xs rule: join.induct) (auto simp: split_on_append_sep split_on_no_sep_id)

lemma set_join: "set (join sep xs) \<subseteq> set sep \<union> (\<Union>p \<in> set xs. set p)"
  by (induction sep xs rule: join.induct) auto

lemma set_split_on: "p \<in> set (split_on c s) \<Longrightarrow> set p \<subseteq> set s"
proof (induction s arbitrary: p)
  case (Cons x s)
  obtain y ys where sp: "split_on c s = y # ys" using split_on_nonempty by (metis list.exhaust)
  then have "set y \<subseteq> set s" and "\<And>q. q \<in> set ys \<Longrightarrow> set q \<subseteq> set s"
    using Cons.IH by auto
  with sp Cons.prems show ?case by (auto split: if_splits)
qed simp

section \<open>Case and white space\<close>

definition ascii_lower :: "char \<Rightarrow> char" where
  "ascii_lower c = (if in_range 65 90 (byte c) then char_of (byte c + 32) else c)"

text \<open>\<^verbatim>\<open>strings.ToLower\<close>: \<open>uni\<close> is its result on strings that are not pure ASCII.\<close>

definition to_lower :: "(string \<Rightarrow> string) \<Rightarrow> string \<Rightarrow> string" where
  "to_lower uni s = (if is_ascii s then map ascii_lower s else uni s)"

text \<open>The UTF-8 encodings of the runes \<^verbatim>\<open>unicode.IsSpace\<close> accepts.\<close>

definition space_encodings :: "string list" where
  "space_encodings = map (map char_of)
     ([[9], [10], [11], [12], [13], [32], [0xC2, 0x85], [0xC2, 0xA0], [0xE1, 0x9A, 0x80]] @
      map (\<lambda>n. [0xE2, 0x80, n]) ([0x80, 0x81, 0x82, 0x83, 0x84, 0x85, 0x86, 0x87, 0x88, 0x89, 0x8A, 0xA8, 0xA9, 0xAF :: nat]) @
      [[0xE2, 0x81, 0x9F], [0xE3, 0x80, 0x80]])"

definition leading_space :: "string \<Rightarrow> nat" where
  "leading_space s = (case List.find (has_prefix s) space_encodings of None \<Rightarrow> 0 | Some e \<Rightarrow> length e)"

definition trailing_space :: "string \<Rightarrow> nat" where
  "trailing_space s = (case List.find (has_suffix s) space_encodings of None \<Rightarrow> 0 | Some e \<Rightarrow> length e)"

function trim_left :: "string \<Rightarrow> string" where
  "trim_left s = (if s = [] \<or> leading_space s = 0 then s else trim_left (drop (leading_space s) s))"
  by pat_completeness auto
termination by (relation "measure length") auto

function trim_right :: "string \<Rightarrow> string" where
  "trim_right s = (if s = [] \<or> trailing_space s = 0 then s else trim_right (take (length s - trailing_space s) s))"
  by pat_completeness auto
termination by (relation "measure length") auto

declare trim_left.simps [simp del] trim_right.simps [simp del]

definition trim_space :: "string \<Rightarrow> string" where
  "trim_space s = trim_right (trim_left s)"

lemma space_encodings_literal: "space_encodings = [[CHR 0x09], [CHR 0x0A], [CHR 0x0B], [CHR 0x0C], [CHR 0x0D], [CHR 0x20], [CHR 0xC2, CHR 0x85], [CHR 0xC2, CHR 0xA0], [CHR 0xE1, CHR 0x9A, CHR 0x80], [CHR 0xE2, CHR 0x80, CHR 0x80], [CHR 0xE2, CHR 0x80, CHR 0x81], [CHR 0xE2, CHR 0x80, CHR 0x82], [CHR 0xE2, CHR 0x80, CHR 0x83], [CHR 0xE2, CHR 0x80, CHR 0x84], [CHR 0xE2, CHR 0x80, CHR 0x85], [CHR 0xE2, CHR 0x80, CHR 0x86], [CHR 0xE2, CHR 0x80, CHR 0x87], [CHR 0xE2, CHR 0x80, CHR 0x88], [CHR 0xE2, CHR 0x80, CHR 0x89], [CHR 0xE2, CHR 0x80, CHR 0x8A], [CHR 0xE2, CHR 0x80, CHR 0xA8], [CHR 0xE2, CHR 0x80, CHR 0xA9], [CHR 0xE2, CHR 0x80, CHR 0xAF], [CHR 0xE2, CHR 0x81, CHR 0x9F], [CHR 0xE3, CHR 0x80, CHR 0x80]]"
  by (simp add: space_encodings_def char_of_def bit_0)

lemma trim_space_plain: "leading_space s = 0 \<Longrightarrow> trailing_space s = 0 \<Longrightarrow> trim_space s = s"
  by (simp add: trim_space_def trim_left.simps [of s] trim_right.simps [of s])

lemmas space_eval = trim_space_plain leading_space_def trailing_space_def space_encodings_literal has_prefix_def has_suffix_def

lemmas string_eval =
  byte_def in_range_def is_ascii_def to_lower_def ascii_lower_def runes_def valid_utf8_def rune_error_def
  has_prefix_def has_suffix_def trim_prefix_def trim_suffix_def

section \<open>Decimal numbers\<close>

definition is_digit :: "char \<Rightarrow> bool" where
  "is_digit c \<longleftrightarrow> in_range 48 57 (byte c)"

fun digits_val :: "nat \<Rightarrow> string \<Rightarrow> nat option" where
  "digits_val acc [] = Some acc"
| "digits_val acc (c # cs) = (if is_digit c then digits_val (10 * acc + (byte c - 48)) cs else None)"

text \<open>\<^verbatim>\<open>strconv.Atoi\<close> on a 64-bit platform: an optional sign, at least one digit, in range.\<close>

definition atoi :: "string \<Rightarrow> int option" where
  "atoi s =
     (let neg = has_prefix s ''-'';
          body = (if neg \<or> has_prefix s ''+'' then tl s else s) in
      if body = [] then None
      else (case digits_val 0 body of
              None \<Rightarrow> None
            | Some n \<Rightarrow> (let v = (if neg then - int n else int n) in
                if - (2 ^ 63) \<le> v \<and> v < 2 ^ 63 then Some v else None)))"

fun nat_str :: "nat \<Rightarrow> string" where
  "nat_str n = (if n < 10 then [char_of (n + 48)] else nat_str (n div 10) @ [char_of (n mod 10 + 48)])"

declare nat_str.simps [simp del]

text \<open>\<^verbatim>\<open>strconv.Itoa\<close>.\<close>

definition itoa :: "int \<Rightarrow> string" where
  "itoa i = (if i < 0 then ''-'' @ nat_str (nat (- i)) else nat_str (nat i))"

lemma byte_char_of: "n < 256 \<Longrightarrow> byte (char_of n) = n"
  by (simp add: byte_def)

lemma digits_val_append:
  "digits_val acc (xs @ ys) = (case digits_val acc xs of None \<Rightarrow> None | Some m \<Rightarrow> digits_val m ys)"
  by (induction xs arbitrary: acc) auto

lemma digits_val_nat_str: "digits_val 0 (nat_str n) = Some n"
proof (induction n rule: nat_str.induct)
  case (1 n)
  show ?case
    using 1 by (subst nat_str.simps)
      (auto simp: digits_val_append is_digit_def in_range_def byte_char_of)
qed

lemma nat_str_digits: "c \<in> set (nat_str n) \<Longrightarrow> is_digit c"
proof (induction n rule: nat_str.induct)
  case (1 n)
  then show ?case
    by (subst (asm) (2) nat_str.simps) (auto simp: is_digit_def in_range_def byte_char_of split: if_splits)
qed

lemma nat_str_nonempty [simp]: "nat_str n \<noteq> []"
  by (subst nat_str.simps) simp

lemma nat_str_inj [simp]: "nat_str m = nat_str n \<longleftrightarrow> m = n"
  by (metis digits_val_nat_str option.inject)

lemma nat_str_no_sign: "c = CHR ''-'' \<or> c = CHR ''+'' \<Longrightarrow> nat_str n \<noteq> c # s"
proof
  assume "c = CHR ''-'' \<or> c = CHR ''+''" and "nat_str n = c # s"
  then have "is_digit c" by (metis list.set_intros(1) nat_str_digits)
  with \<open>c = CHR ''-'' \<or> c = CHR ''+''\<close> show False
    by (auto simp: is_digit_def in_range_def byte_def)
qed

lemma nat_str_prefix: "\<not> has_prefix (nat_str n) ''-''" "\<not> has_prefix (nat_str n) ''+''"
  by (auto simp: has_prefix_iff nat_str_no_sign)

lemma itoa_inj [simp]: "itoa i = itoa j \<longleftrightarrow> i = j"
proof
  assume eq: "itoa i = itoa j"
  show "i = j"
  proof (cases "i < 0"; cases "j < 0")
    assume "i < 0" "\<not> j < 0"
    with eq show ?thesis by (metis append_Cons append_Nil itoa_def nat_str_no_sign)
  next
    assume "\<not> i < 0" "j < 0"
    with eq show ?thesis by (metis append_Cons append_Nil itoa_def nat_str_no_sign)
  qed (use eq in \<open>auto simp: itoa_def\<close>)
qed simp

lemma atoi_itoa: "- (2 ^ 63) \<le> i \<Longrightarrow> i < 2 ^ 63 \<Longrightarrow> atoi (itoa i) = Some i"
  by (auto simp: atoi_def itoa_def Let_def nat_str_prefix digits_val_nat_str)

lemma atoi_range: "atoi s = Some v \<Longrightarrow> - (2 ^ 63) \<le> v \<and> v < 2 ^ 63"
  by (auto simp: atoi_def Let_def split: if_splits option.splits)

end
