(* ===== verification/Db.thy ===== *)
theory Db
  imports Go_Strings
begin

text \<open>
  The database as the services see it through \<^verbatim>\<open>database/sql\<close>.

  A state carries the tables of the components that extend \<open>db_base\<close>, the database clock,
  the identity sequences, and the world outside the database (\<open>outside\<close>), which no
  rollback undoes.  Every statement can fail: \<open>script\<close> lists what happens to the coming
  statements, each with the time that passes before it runs.  \<open>Done\<close> executes it,
  \<open>Refused\<close> fails without an effect, and \<open>Lost\<close> executes it but the answer does not
  arrive, so the caller sees an error although the write happened.  An exhausted script
  lets every further statement succeed.  Theorems quantify over all scripts, so they hold
  under every pattern of database failures.

  A transaction is atomic: its writes appear together at commit, or not at all.  Inside
  it \<^verbatim>\<open>NOW()\<close> is the time it began.
\<close>

section \<open>State and outcomes\<close>

datatype outcome = Done | Refused | Lost

datatype db_err = DbFail | NoRows | ScanNull | UniqueViolation string | CheckViolation | ForeignKeyViolation

record 'w db_base =
  clock :: int
  tx_start :: "int option"
  script :: "(outcome \<times> nat) list"
  seqs :: "string \<Rightarrow> int"
  outside :: 'w

definition second :: int where "second = 1000000000"
definition minute :: int where "minute = 60 * second"
definition hour :: int where "hour = 60 * minute"

lemmas duration_defs = second_def minute_def hour_def

text \<open>\<^verbatim>\<open>NOW()\<close>.\<close>

definition db_now :: "('w, 'x) db_base_scheme \<Rightarrow> int" where
  "db_now s = (case tx_start s of None \<Rightarrow> clock s | Some t \<Rightarrow> t)"

definition next_outcome :: "(('w, 'x) db_base_scheme, outcome) state" where
  "next_outcome = State (\<lambda>s. case script s of
      [] \<Rightarrow> (Done, s)
    | (oc, d) # rest \<Rightarrow> (oc, s\<lparr>clock := clock s + int d, script := rest\<rparr>))"

text \<open>
  One statement.  \<open>f\<close> is its effect: a constraint violation is an error result without an
  effect on the tables.
\<close>

definition db_stmt :: "(('w, 'x) db_base_scheme \<Rightarrow> (db_err + 'a) \<times> ('w, 'x) db_base_scheme)
    \<Rightarrow> (('w, 'x) db_base_scheme, db_err + 'a) state" where
  "db_stmt f = do {
     oc \<leftarrow> next_outcome;
     case oc of
       Done \<Rightarrow> State f
     | Refused \<Rightarrow> ret (err DbFail)
     | Lost \<Rightarrow> do { _ \<leftarrow> State f; ret (err DbFail) } }"

definition db_query :: "(('w, 'x) db_base_scheme \<Rightarrow> db_err + 'a) \<Rightarrow> (('w, 'x) db_base_scheme, db_err + 'a) state" where
  "db_query g = db_stmt (\<lambda>s. (g s, s))"

text \<open>Reading the process clock: \<^verbatim>\<open>time.Now()\<close>.\<close>

definition time_now :: "(('w, 'x) db_base_scheme, int) state" where
  "time_now = State (\<lambda>s. (clock s, s))"

definition sleep :: "int \<Rightarrow> (('w, 'x) db_base_scheme, unit) state" where
  "sleep d = State (\<lambda>s. ((), s\<lparr>clock := clock s + d\<rparr>))"

section \<open>Transactions\<close>

text \<open>
  What a rollback leaves: the tables of \<open>s0\<close>, everything else as it is now.  A sequence
  never goes back.
\<close>

definition rollback :: "('w, 'x) db_base_scheme \<Rightarrow> ('w, 'x) db_base_scheme \<Rightarrow> ('w, 'x) db_base_scheme" where
  "rollback s0 s1 = s0\<lparr>clock := clock s1, script := script s1, seqs := (\<lambda>t. max (seqs s0 t) (seqs s1 t)), outside := outside s1\<rparr>"

definition end_tx :: "('w, 'x) db_base_scheme \<Rightarrow> ('w, 'x) db_base_scheme \<Rightarrow> ('w, 'x) db_base_scheme" where
  "end_tx s0 s1 = s1\<lparr>tx_start := tx_start s0\<rparr>"

text \<open>
  \<^verbatim>\<open>Begin\<close>, the body, \<^verbatim>\<open>Commit\<close>, with the deferred \<^verbatim>\<open>Rollback\<close> on every error path;
  \<open>wb\<close> and \<open>wc\<close> wrap a failure to begin and to commit.
\<close>

definition with_tx :: "(db_err \<Rightarrow> 'e) \<Rightarrow> (db_err \<Rightarrow> 'e) \<Rightarrow> (('w, 'x) db_base_scheme, 'e + 'a) state
    \<Rightarrow> (('w, 'x) db_base_scheme, 'e + 'a) state" where
  "with_tx wb wc body = do {
     b \<leftarrow> next_outcome;
     if b \<noteq> Done then ret (err (wb DbFail)) else do {
       s0 \<leftarrow> State_Monad.get;
       _ \<leftarrow> State_Monad.set (s0\<lparr>tx_start := Some (clock s0)\<rparr>);
       r \<leftarrow> body;
       case r of
         Inl e \<Rightarrow> do { s1 \<leftarrow> State_Monad.get; _ \<leftarrow> State_Monad.set (rollback s0 s1); ret (err e) }
       | Inr a \<Rightarrow> do {
           c \<leftarrow> next_outcome;
           s1 \<leftarrow> State_Monad.get;
           case c of
             Done \<Rightarrow> do { _ \<leftarrow> State_Monad.set (end_tx s0 s1); ret (ok a) }
           | Refused \<Rightarrow> do { _ \<leftarrow> State_Monad.set (rollback s0 s1); ret (err (wc DbFail)) }
           | Lost \<Rightarrow> do { _ \<leftarrow> State_Monad.set (end_tx s0 s1); ret (err (wc DbFail)) } } } }"

section \<open>Retrying\<close>

text \<open>
  \<^verbatim>\<open>utils.RetryOperation\<close>: up to \<open>n\<close> attempts with a pause between two attempts and none
  after the last.  With no attempt allowed it reports success and leaves the captured
  result at its zero value \<open>z\<close>.
\<close>

fun RetryOperation :: "'a \<Rightarrow> (('w, 'x) db_base_scheme, 'e + 'a) state \<Rightarrow> nat \<Rightarrow> int
    \<Rightarrow> (('w, 'x) db_base_scheme, 'e + 'a) state" where
  "RetryOperation z operation 0 retryDelay = ret (ok z)"
| "RetryOperation z operation (Suc 0) retryDelay = operation"
| "RetryOperation z operation (Suc (Suc n)) retryDelay = do {
     r \<leftarrow> operation;
     case r of
       Inr a \<Rightarrow> ret (ok a)
     | Inl e \<Rightarrow> do { _ \<leftarrow> sleep retryDelay; RetryOperation z operation (Suc n) retryDelay } }"

definition MaxRetries :: nat where "MaxRetries = 1"
definition RetryDelay :: int where "RetryDelay = 2 * second"
definition DbMaxRetries :: nat where "DbMaxRetries = 1"
definition DbRetryDelay :: int where "DbRetryDelay = 5 * second"

abbreviation retry :: "'a \<Rightarrow> (('w, 'x) db_base_scheme, 'e + 'a) state \<Rightarrow> (('w, 'x) db_base_scheme, 'e + 'a) state" where
  "retry z operation \<equiv> RetryOperation z operation MaxRetries RetryDelay"

abbreviation db_retry :: "'a \<Rightarrow> (('w, 'x) db_base_scheme, 'e + 'a) state \<Rightarrow> (('w, 'x) db_base_scheme, 'e + 'a) state" where
  "db_retry z operation \<equiv> RetryOperation z operation DbMaxRetries DbRetryDelay"

lemma RetryOperation_once [simp]:
  "RetryOperation z operation MaxRetries d = operation"
  "RetryOperation z operation DbMaxRetries d = operation"
  by (simp_all add: MaxRetries_def DbMaxRetries_def)

section \<open>Running the primitives\<close>

lemma run_next_outcome [run_simps]:
  "run_state next_outcome s = (case script s of
      [] \<Rightarrow> (Done, s)
    | (oc, d) # rest \<Rightarrow> (oc, s\<lparr>clock := clock s + int d, script := rest\<rparr>))"
  by (simp add: next_outcome_def)

lemma run_db_stmt [run_simps]:
  "run_state (db_stmt f) s = (case run_state next_outcome s of (oc, s1) \<Rightarrow>
     (case oc of Done \<Rightarrow> f s1 | Refused \<Rightarrow> (err DbFail, s1) | Lost \<Rightarrow> (err DbFail, snd (f s1))))"
  by (simp add: db_stmt_def split: prod.splits outcome.splits)

lemma run_db_query [run_simps]:
  "run_state (db_query g) s = (case run_state next_outcome s of (oc, s1) \<Rightarrow>
     (case oc of Done \<Rightarrow> (g s1, s1) | _ \<Rightarrow> (err DbFail, s1)))"
  by (simp add: db_query_def run_db_stmt split: prod.splits outcome.splits)

lemma run_time_now [run_simps]: "run_state time_now s = (clock s, s)"
  by (simp add: time_now_def)

lemma run_sleep [run_simps]: "run_state (sleep d) s = ((), s\<lparr>clock := clock s + d\<rparr>)"
  by (simp add: sleep_def)

text \<open>With nothing left in the script every statement succeeds at once.\<close>

lemma run_next_outcome_calm [simp]: "script s = [] \<Longrightarrow> run_state next_outcome s = (Done, s)"
  by (simp add: run_next_outcome)

lemma run_db_stmt_calm [simp]: "script s = [] \<Longrightarrow> run_state (db_stmt f) s = f s"
  by (simp add: run_db_stmt)

lemma run_db_query_calm [simp]: "script s = [] \<Longrightarrow> run_state (db_query g) s = (g s, s)"
  by (simp add: run_db_query)

lemma run_with_tx_calm:
  assumes "script s = []"
    and "run_state body (s\<lparr>tx_start := Some (clock s)\<rparr>) = (r, s1)" and "script s1 = []"
  shows "run_state (with_tx wb wc body) s =
     (case r of Inl e \<Rightarrow> (err e, rollback s s1) | Inr a \<Rightarrow> (ok a, end_tx s s1))"
  using assms by (simp add: with_tx_def split: sum.splits)

section \<open>Atomicity\<close>

text \<open>The later state has the tables of the earlier one; its sequences may have advanced.\<close>

definition same_tables :: "('w, 'x) db_base_scheme \<Rightarrow> ('w, 'x) db_base_scheme \<Rightarrow> bool" where
  "same_tables s s' \<longleftrightarrow> db_base.more s' = db_base.more s \<and> (\<forall>t. seqs s t \<le> seqs s' t)"

lemma same_tables_refl [simp]: "same_tables s s"
  by (simp add: same_tables_def)

lemma same_tables_trans: "same_tables s s' \<Longrightarrow> same_tables s' s'' \<Longrightarrow> same_tables s s''"
  by (fastforce simp: same_tables_def intro: order_trans)

lemma same_tables_rollback [simp]: "same_tables s (rollback s s1)"
  by (simp add: rollback_def same_tables_def)

lemma same_tables_next_outcome: "run_state next_outcome s = (oc, s') \<Longrightarrow> same_tables s s'"
  by (auto simp: run_next_outcome same_tables_def split: list.splits)

text \<open>
  A transaction either leaves every table as it was, or ends with the tables its body
  produced on success; an error after \<open>Lost\<close> is the only way to see an error and the writes.
\<close>

lemma with_tx_cases:
  assumes "run_state (with_tx wb wc body) s = (r, s')"
  obtains (unchanged) e where "r = err e" and "same_tables s s'"
  | (committed) a s0 s1 where "same_tables s s0" and "tx_start s0 = Some (clock s0)"
      and "run_state body s0 = (ok a, s1)" and "same_tables s1 s'"
      and "r = ok a \<or> r = err (wc DbFail)" and "tx_start s' = tx_start s" and "clock s \<le> clock s0" and "clock s1 \<le> clock s'"
proof -
  obtain oc s1 where n: "run_state next_outcome s = (oc, s1)" by force
  then have st: "same_tables s s1" and tx: "tx_start s1 = tx_start s" and c1: "clock s \<le> clock s1"
    by (auto simp: run_next_outcome same_tables_def split: list.splits)
  let ?s2 = "s1\<lparr>tx_start := Some (clock s1)\<rparr>"
  have st2: "same_tables s ?s2" using st by (simp add: same_tables_def)
  obtain rb s3 where b: "run_state body ?s2 = (rb, s3)" by force
  obtain oc' s4 where n': "run_state next_outcome s3 = (oc', s4)" by force
  then have st5: "same_tables s3 (end_tx s1 s4)" and c4: "clock s3 \<le> clock s4"
    by (auto simp: end_tx_def same_tables_def run_next_outcome split: list.splits prod.splits)
  have undone: "same_tables s (rollback s1 s')" for s'
    by (rule same_tables_trans [OF st]) simp
  show thesis
  proof (cases oc)
    case Done
    show thesis
    proof (cases rb)
      case (Inl e)
      with Done n b assms have "r = err e" and "s' = rollback s1 s3" by (auto simp: with_tx_def)
      with undone show thesis by (auto intro: unchanged)
    next
      case (Inr a)
      show thesis
      proof (cases "oc' = Refused")
        case True
        with Done Inr n b n' assms have "r = err (wc DbFail)" and "s' = rollback s1 s4" by (auto simp: with_tx_def)
        with undone show thesis by (auto intro: unchanged)
      next
        case False
        with Done Inr n b n' assms have "r = ok a \<or> r = err (wc DbFail)" and "s' = end_tx s1 s4"
          by (cases oc'; auto simp: with_tx_def)+
        with committed [OF st2 _ b [unfolded Inr]] st5 tx c1 c4 show thesis by (auto simp: end_tx_def)
      qed
    qed
  qed (use n assms st unchanged in \<open>auto simp: with_tx_def\<close>)
qed

lemma with_tx_ok:
  assumes "run_state (with_tx wb wc body) s = (ok a, s')"
  obtains s0 s1 where "same_tables s s0" and "tx_start s0 = Some (clock s0)"
    and "run_state body s0 = (ok a, s1)" and "same_tables s1 s'"
    and "clock s \<le> clock s0" and "clock s1 \<le> clock s'" and "tx_start s' = tx_start s"
  using assms by (cases rule: with_tx_cases) auto

lemma db_stmt_ok:
  assumes "run_state (db_stmt f) s = (ok a, s')"
  obtains s1 where "same_tables s s1" and "f s1 = (ok a, s')"
  using assms by (auto simp: run_db_stmt split: prod.splits outcome.splits dest: same_tables_next_outcome)

section \<open>Time goes forward\<close>

text \<open>Outside a transaction and not before \<open>t\<close>.\<close>

definition later :: "int \<Rightarrow> ('w, 'x) db_base_scheme \<Rightarrow> bool" where
  "later t s \<longleftrightarrow> t \<le> clock s \<and> tx_start s = None"

lemma later_stmt:
  "(\<And>s. clock (snd (f s)) = clock s \<and> tx_start (snd (f s)) = tx_start s) \<Longrightarrow> preserves (later t) (db_stmt f)"
  unfolding hoare_def run_db_stmt
  by (auto simp: later_def run_next_outcome split_beta split: list.splits outcome.splits)

lemma later_query: "preserves (later t) (db_query g)"
  unfolding db_query_def by (rule later_stmt) simp

lemma later_time_now: "preserves (later t) time_now"
  by (simp add: hoare_def run_time_now)

section \<open>Invariants of tables\<close>

text \<open>
  A predicate on the tables does not look at the clock, the script or the outside world,
  and it bears sequences that advance.  Such an invariant survives every read, and it
  survives a transaction when the transaction's body keeps it.
\<close>

locale table_invariant =
  fixes I :: "('w, 'x) db_base_scheme \<Rightarrow> bool"
  assumes same_tables: "same_tables s s' \<Longrightarrow> I s \<Longrightarrow> I s'"
begin

lemma preserves_next_outcome: "preserves I next_outcome"
  by (rule hoareI) (use same_tables same_tables_next_outcome in blast)

lemma preserves_stmt: "(\<And>s. I s \<Longrightarrow> I (snd (f s))) \<Longrightarrow> preserves I (db_stmt f)"
  using preserves_next_outcome unfolding hoare_def run_db_stmt
  by (auto simp: split_beta split: outcome.splits)

lemma hoare_query: "hoare I (db_query g) (\<lambda>r s. I s \<and> (r = err DbFail \<or> r = g s))"
  using preserves_next_outcome unfolding hoare_def run_db_query
  by (auto simp: split_beta split: outcome.splits)

text \<open>The usual shape of the code: a query whose error is returned at once.\<close>

lemma hoare_check_query:
  assumes "\<And>s e. I s \<Longrightarrow> e = DbFail \<or> g s = err e \<Longrightarrow> Q (err (wrap e)) s"
    and "\<And>a. hoare (\<lambda>s. I s \<and> g s = ok a) (k a) Q"
  shows "hoare I (check wrap (db_query g) k) Q"
  by (rule hoare_check [where R = "\<lambda>a s. I s \<and> g s = ok a"], rule hoare_weaken [OF hoare_query])
    (use assms in \<open>auto split: sum.splits\<close>)

lemma hoare_stmt:
  assumes "\<And>s. I s \<Longrightarrow> Q (err DbFail) s" and "\<And>s. I s \<Longrightarrow> Q (fst (f s)) (snd (f s)) \<and> Q (err DbFail) (snd (f s))"
  shows "hoare I (db_stmt f) Q"
  using preserves_next_outcome assms unfolding hoare_def run_db_stmt
  by (auto simp: split_beta split: outcome.splits)

lemma preserves_query: "preserves I (db_query g)"
  unfolding db_query_def by (rule preserves_stmt) simp

lemma preserves_time_now: "preserves I time_now"
  by (simp add: hoare_def run_time_now)

lemma preserves_sleep: "preserves I (sleep d)"
proof (rule hoareI)
  fix s r s'
  assume "I s" and "run_state (sleep d) s = (r, s')"
  moreover from this(2) have "same_tables s s'" by (auto simp: run_sleep same_tables_def)
  ultimately show "I s'" by (metis same_tables)
qed

lemma hoare_with_tx:
  assumes "hoare I body (on_ok J)" and "table_invariant J" and "\<And>s. I s \<Longrightarrow> J s"
  shows "hoare I (with_tx wb wc body) (\<lambda>r s. J s)"
proof (rule hoareI)
  fix s r s'
  assume I: "I s" and run: "run_state (with_tx wb wc body) s = (r, s')"
  from run show "J s'"
  proof (cases rule: with_tx_cases)
    case (unchanged e)
    with I assms(3) show ?thesis by (metis same_tables)
  next
    case (committed a s0 s1)
    with hoareD [OF assms(1) _ committed(3)] I have "J s1" by (metis same_tables on_ok_simps(2))
    with assms(2) committed(4) show ?thesis by (metis table_invariant.same_tables)
  qed
qed

lemma preserves_with_tx:
  assumes "preserves I body"
  shows "preserves I (with_tx wb wc body)"
  by (rule hoare_with_tx [OF hoare_on_ok [OF assms] table_invariant_axioms])

lemma preserves_retry: "preserves I operation \<Longrightarrow> preserves I (RetryOperation z operation n d)"
  by (induction z operation n d rule: RetryOperation.induct)
    (auto intro!: hoare_rules preserves_sleep)

lemmas preserves_db =
  preserves_query preserves_time_now preserves_sleep preserves_with_tx preserves_retry

end

lemma table_invariant_conj:
  "table_invariant I \<Longrightarrow> table_invariant J \<Longrightarrow> table_invariant (\<lambda>s. I s \<and> J s)"
  unfolding table_invariant_def by blast

lemma table_invariant_imp:
  "(b \<Longrightarrow> table_invariant I) \<Longrightarrow> table_invariant (\<lambda>s. b \<longrightarrow> I s)"
  unfolding table_invariant_def by blast

section \<open>Invariants of tables and world\<close>

text \<open>
  An invariant may also speak about the world outside the database.  Then a transaction that talks to
  the world has to keep it even when its writes are undone.
\<close>

definition same_system :: "('w, 'x) db_base_scheme \<Rightarrow> ('w, 'x) db_base_scheme \<Rightarrow> bool" where
  "same_system s s' \<longleftrightarrow> same_tables s s' \<and> outside s' = outside s"

lemma same_system_refl [simp]: "same_system s s"
  by (simp add: same_system_def)

lemma same_system_trans: "same_system s s' \<Longrightarrow> same_system s' s'' \<Longrightarrow> same_system s s''"
  by (auto simp: same_system_def dest: same_tables_trans)

lemma same_system_next_outcome: "run_state next_outcome s = (oc, s') \<Longrightarrow> same_system s s'"
  by (auto simp: same_system_def run_next_outcome same_tables_def split: list.splits)

lemma same_system_tx: "same_system s (s\<lparr>tx_start := t\<rparr>)" "same_system (s\<lparr>outside := outside s1\<rparr>) (rollback s s1)" "same_system s1 (end_tx s s1)"
  by (simp_all add: same_system_def same_tables_def rollback_def end_tx_def)

text \<open>A computation that leaves the world alone.\<close>

named_theorems silent_rules \<open>computations that do not touch the world outside the database\<close>

definition silent :: "(('w, 'x) db_base_scheme, 'a) state \<Rightarrow> bool" where
  "silent m \<longleftrightarrow> (\<forall>s. outside (snd (run_state m s)) = outside s)"

lemma silent_return [silent_rules]: "silent (ret a)"
  by (simp add: silent_def)

lemma silent_bind [silent_rules]: "silent m \<Longrightarrow> (\<And>a. silent (f a)) \<Longrightarrow> silent (State_Monad.bind m f)"
  by (simp add: silent_def split_beta)

lemma silent_check [silent_rules]: "silent m \<Longrightarrow> (\<And>a. silent (k a)) \<Longrightarrow> silent (check wrap m k)"
  unfolding check_def by (intro silent_bind) (auto intro: silent_return split: sum.split)

lemma silent_stmt: "(\<And>s. outside (snd (f s)) = outside s) \<Longrightarrow> silent (db_stmt f)"
  by (auto simp: silent_def run_db_stmt run_next_outcome split: prod.splits outcome.splits list.splits)

lemma silent_query [silent_rules]: "silent (db_query g)"
  unfolding db_query_def by (rule silent_stmt) simp

lemma silent_if [silent_rules]: "silent m \<Longrightarrow> silent n \<Longrightarrow> silent (if b then m else n)"
  by simp

lemma silent_case_sum [silent_rules]:
  "(\<And>e. silent (f e)) \<Longrightarrow> (\<And>a. silent (g a)) \<Longrightarrow> silent (case x of Inl e \<Rightarrow> f e | Inr a \<Rightarrow> g a)"
  by (cases x) auto

lemma silent_case_option [silent_rules]:
  "silent m \<Longrightarrow> (\<And>a. silent (g a)) \<Longrightarrow> silent (case x of None \<Rightarrow> m | Some a \<Rightarrow> g a)"
  by (cases x) auto

lemma silent_time_now [silent_rules]: "silent time_now"
  by (simp add: silent_def run_time_now)

locale system_invariant =
  fixes I :: "('w, 'x) db_base_scheme \<Rightarrow> bool"
  assumes same_system: "same_system s s' \<Longrightarrow> I s \<Longrightarrow> I s'"
begin

lemma keeps_next_outcome: "preserves I next_outcome"
  by (rule hoareI) (use same_system same_system_next_outcome in blast)

lemma keeps_stmt: "(\<And>s. I s \<Longrightarrow> I (snd (f s))) \<Longrightarrow> preserves I (db_stmt f)"
  using keeps_next_outcome unfolding hoare_def run_db_stmt
  by (auto simp: split_beta split: outcome.splits)

lemma run_stmt:
  assumes "I s" and "run_state (db_stmt f) s = (r, s')"
  obtains s1 where "I s1" and "same_system s s1" and "s' = s1 \<or> s' = snd (f s1)" and "r = err DbFail \<or> r = fst (f s1) \<and> s' = snd (f s1)"
proof -
  obtain oc s1 where n: "run_state next_outcome s = (oc, s1)" by force
  then have "same_system s s1" by (rule same_system_next_outcome)
  moreover from this assms(1) have "I s1" by (rule same_system)
  ultimately show thesis using assms(2) n that by (cases oc) (auto simp: run_db_stmt)
qed

lemma stmt_post:
  assumes "\<And>s. I s \<Longrightarrow> J s \<and> J (snd (f s))"
  shows "hoare I (db_stmt f) (\<lambda>_. J)"
proof (rule hoareI)
  fix s r s'
  assume "I s" and "run_state (db_stmt f) s = (r, s')"
  then obtain s1 where "I s1" "s' = s1 \<or> s' = snd (f s1)" by (rule run_stmt)
  with assms show "J s'" by blast
qed

text \<open>Only the outcome of a statement whose answer arrived matters to the caller.\<close>

lemma stmt_result:
  assumes "\<And>s. I s \<Longrightarrow> case fst (f s) of Inl e \<Rightarrow> True | Inr a \<Rightarrow> R a (snd (f s))"
  shows "hoare I (db_stmt f) (\<lambda>r s. case r of Inl e \<Rightarrow> True | Inr a \<Rightarrow> R a s)"
proof (rule hoareI)
  fix s r s'
  assume "I s" and "run_state (db_stmt f) s = (r, s')"
  then obtain s1 where "I s1" "r = err DbFail \<or> r = fst (f s1) \<and> s' = snd (f s1)" by (rule run_stmt)
  with assms [of s1] show "case r of Inl e \<Rightarrow> True | Inr a \<Rightarrow> R a s'" by auto
qed

lemma keeps_query: "preserves I (db_query g)"
  unfolding db_query_def by (rule keeps_stmt) simp

lemma query_result: "hoare I (db_query g) (\<lambda>r s. I s \<and> (r = err DbFail \<or> r = g s))"
  using keeps_next_outcome unfolding hoare_def run_db_query
  by (auto simp: split_beta split: outcome.splits)

lemma keeps_with_tx:
  assumes body: "\<And>s0 r s1. I s0 \<Longrightarrow> run_state body s0 = (r, s1) \<Longrightarrow> I (s0\<lparr>outside := outside s1\<rparr>) \<and> (\<forall>a. r = ok a \<longrightarrow> I s1)"
  shows "preserves I (with_tx wb wc body)"
proof (rule hoareI)
  fix s r s'
  assume I: "I s" and run: "run_state (with_tx wb wc body) s = (r, s')"
  obtain oc s0 where n: "run_state next_outcome s = (oc, s0)" by force
  with I have I0: "I s0" using same_system same_system_next_outcome by blast
  show "I s'"
  proof (cases oc)
    case Done
    define s1 where "s1 = s0\<lparr>tx_start := Some (clock s0)\<rparr>"
    have I1: "I s1" unfolding s1_def by (rule same_system [OF same_system_tx(1) I0])
    obtain rb s2 where b: "run_state body s1 = (rb, s2)" by force
    obtain oc' s3 where n': "run_state next_outcome s2 = (oc', s3)" by force
    have undo: "I (rollback s0 sx)" if "outside sx = outside s2" for sx
    proof -
      from body [OF I1 b] have "I (s1\<lparr>outside := outside s2\<rparr>)" by simp
      moreover have "same_system (s1\<lparr>outside := outside s2\<rparr>) (rollback s0 sx)"
        using that by (simp add: s1_def same_system_def same_tables_def rollback_def)
      ultimately show ?thesis by (rule same_system [rotated])
    qed
    have out: "outside s3 = outside s2" using same_system_next_outcome [OF n'] by (simp add: same_system_def)
    have keep: "I (end_tx s0 s3)" if "rb = ok a" for a
      using body [OF I1 b] that same_system same_system_next_outcome [OF n'] same_system_tx(3) by metis
    from run show ?thesis
      using n b n' Done undo [OF refl] undo [OF out] keep
      by (auto simp: with_tx_def s1_def split: sum.splits outcome.splits)
  qed (use run n I0 in \<open>auto simp: with_tx_def\<close>)
qed

lemma keeps_silent_tx:
  assumes "silent body" and "hoare I body (on_ok I)"
  shows "preserves I (with_tx wb wc body)"
proof (rule keeps_with_tx)
  fix s0 r s1
  assume I: "I s0" and run: "run_state body s0 = (r, s1)"
  have "s0\<lparr>outside := outside s1\<rparr> = s0" using assms(1) run by (simp add: silent_def) (metis snd_conv db_base.surjective db_base.update_convs(5))
  with I hoareD [OF assms(2) I run] show "I (s0\<lparr>outside := outside s1\<rparr>) \<and> (\<forall>a. r = ok a \<longrightarrow> I s1)" by auto
qed

end

text \<open>An invariant of the tables is one of tables and world.\<close>

sublocale table_invariant \<subseteq> sys: system_invariant I
  by unfold_locales (auto simp: same_system_def intro: same_tables)

end
