(* ===== verification/Rbac.thy ===== *)
theory Rbac
  imports Go_Strings
begin

text \<open>
  Roles (\<^verbatim>\<open>internal/models/roles.go\<close>) and the capability matrix of
  \<^verbatim>\<open>internal/middleware/rbac.go\<close>.  A role is the string stored in \<^verbatim>\<open>users.role\<close>; the
  capabilities are the named actions of the middleware.
\<close>

section \<open>Roles\<close>

definition RoleAdmin :: string where "RoleAdmin = ''admin''"
definition RoleOperator :: string where "RoleOperator = ''operator''"
definition RoleViewer :: string where "RoleViewer = ''viewer''"
definition RoleLegacyUser :: string where "RoleLegacyUser = ''user''"

lemmas role_defs = RoleAdmin_def RoleOperator_def RoleViewer_def RoleLegacyUser_def

definition NormalizeRole :: "string \<Rightarrow> string" where
  "NormalizeRole role = (if role = RoleLegacyUser then RoleOperator else role)"

definition IsValidRole :: "string \<Rightarrow> bool" where
  "IsValidRole role \<longleftrightarrow>
     role = RoleAdmin \<or> role = RoleOperator \<or> role = RoleViewer \<or> role = RoleLegacyUser"

section \<open>Capabilities\<close>

datatype Action =
    ActUserAdmin | ActInstanceWrite | ActGatewayWrite | ActGatewayAdmin | ActConfigWrite
  | ActAlertWrite | ActLogRead | ActApplianceRead | ActApplianceBackup | ActApplianceRestore
  | ActApplianceUpdate | ActApplianceRollback | ActApplianceReset | ActApplianceDiagnostics

definition all_actions :: "Action list" where
  "all_actions =
     [ActUserAdmin, ActInstanceWrite, ActGatewayWrite, ActGatewayAdmin, ActConfigWrite,
      ActAlertWrite, ActLogRead, ActApplianceRead, ActApplianceBackup, ActApplianceRestore,
      ActApplianceUpdate, ActApplianceRollback, ActApplianceReset, ActApplianceDiagnostics]"

definition roleCapabilities :: "(string \<times> Action list) list" where
  "roleCapabilities =
     [(RoleAdmin,
        [ActUserAdmin, ActInstanceWrite, ActGatewayWrite, ActGatewayAdmin, ActConfigWrite,
         ActAlertWrite, ActLogRead, ActApplianceRead, ActApplianceBackup, ActApplianceRestore,
         ActApplianceUpdate, ActApplianceRollback, ActApplianceReset, ActApplianceDiagnostics]),
      (RoleOperator, [ActGatewayWrite, ActAlertWrite, ActApplianceRead]),
      (RoleViewer, [ActApplianceRead])]"

definition Can :: "string \<Rightarrow> Action \<Rightarrow> bool" where
  "Can role action = (case map_of roleCapabilities (NormalizeRole role) of
      None \<Rightarrow> False | Some caps \<Rightarrow> action \<in> set caps)"

lemmas can_defs = Can_def roleCapabilities_def NormalizeRole_def role_defs

lemma Can_admin [simp]: "Can RoleAdmin a"
  by (cases a) (simp_all add: can_defs)

lemma Can_operator: "Can RoleOperator a \<longleftrightarrow> a \<in> {ActGatewayWrite, ActAlertWrite, ActApplianceRead}"
  by (auto simp: can_defs)

lemma Can_viewer: "Can RoleViewer a \<longleftrightarrow> a = ActApplianceRead"
  by (auto simp: can_defs)

lemma Can_legacy: "Can RoleLegacyUser a = Can RoleOperator a"
  by (simp add: can_defs)

lemma Can_invalid: "\<not> IsValidRole role \<Longrightarrow> \<not> Can role a"
  by (auto simp: can_defs IsValidRole_def)

lemma Can_only_admin:
  "a \<notin> {ActGatewayWrite, ActAlertWrite, ActApplianceRead} \<Longrightarrow> Can role a \<Longrightarrow> role = RoleAdmin"
  by (auto simp: can_defs split: if_splits)

section \<open>Least privilege\<close>

text \<open>
  A policy orders the roles and grants each role at least what a lower role holds.  The
  clients of the matrix only need to know where a capability starts.
\<close>

locale role_policy =
  fixes grants :: "'role \<Rightarrow> 'cap \<Rightarrow> bool"
    and rank :: "'role \<Rightarrow> nat"
    and needs :: "'cap \<Rightarrow> nat"
  assumes grants_iff: "grants r c \<longleftrightarrow> needs c \<le> rank r"
begin

lemma grants_mono: "rank r \<le> rank r' \<Longrightarrow> grants r c \<Longrightarrow> grants r' c"
  by (simp add: grants_iff)

lemma denied_mono: "rank r \<le> rank r' \<Longrightarrow> \<not> grants r' c \<Longrightarrow> \<not> grants r c"
  by (simp add: grants_iff)

lemma grants_linear: "(\<forall>c. grants r c \<longrightarrow> grants r' c) \<or> (\<forall>c. grants r' c \<longrightarrow> grants r c)"
  by (metis grants_mono nle_le)

end

text \<open>Unknown roles rank below every role of the model.\<close>

definition role_rank :: "string \<Rightarrow> nat" where
  "role_rank role =
     (if role = RoleAdmin then 3
      else if role = RoleOperator \<or> role = RoleLegacyUser then 2
      else if role = RoleViewer then 1 else 0)"

definition action_needs :: "Action \<Rightarrow> nat" where
  "action_needs a =
     (case a of ActApplianceRead \<Rightarrow> 1 | ActGatewayWrite \<Rightarrow> 2 | ActAlertWrite \<Rightarrow> 2 | _ \<Rightarrow> 3)"

interpretation rbac: role_policy Can role_rank action_needs
proof
  show "Can r c \<longleftrightarrow> action_needs c \<le> role_rank r" for r c
    by (cases c) (auto simp: can_defs role_rank_def action_needs_def)
qed

text \<open>
  The capability matrix is a chain: whatever a role may do, every higher role may do
  too (viewer, then operator and its legacy alias, then admin), a role outside the model
  holds no capability, and everything but the three shared capabilities is held by the
  administrator alone.
\<close>

theorem rbac_matrix_chain:
  "(role_rank r \<le> role_rank r' \<longrightarrow> Can r a \<longrightarrow> Can r' a) \<and>
   (\<not> IsValidRole r \<longrightarrow> \<not> Can r a) \<and>
   (Can r a \<longrightarrow> a = ActApplianceRead \<or> a = ActGatewayWrite \<or> a = ActAlertWrite \<or> r = RoleAdmin)"
  using rbac.grants_mono Can_invalid Can_only_admin by blast

theorem rbac_matrix_chain_witness:
  "Can RoleLegacyUser ActApplianceRead \<and>
   role_rank RoleViewer \<le> role_rank RoleLegacyUser \<and> Can RoleViewer ActApplianceRead \<and>
   \<not> IsValidRole ''root'' \<and> \<not> Can ''root'' ActApplianceRead \<and> Can RoleAdmin ActLogRead"
  using rbac_matrix_chain [of RoleViewer RoleLegacyUser ActApplianceRead]
    rbac_matrix_chain [of "''root''" RoleAdmin ActApplianceRead]
  by (simp add: role_rank_def IsValidRole_def can_defs)

end
