(* ===== verification/Schema.thy ===== *)
theory Schema
  imports Db Rbac
begin

text \<open>
  The tables of the OAM database (\<^verbatim>\<open>database/init\<close>, \<^verbatim>\<open>internal/models\<close>): one record per row type,
  the database state that holds them, and the referential actions a deletion triggers.
  A nullable column is an \<open>option\<close>.  Times are nanoseconds.
\<close>

section \<open>Rows\<close>

record User =
  u_id :: int
  u_username :: string
  u_password :: string
  u_role :: "string option"
  u_email :: "string option"
  u_created :: int
  u_cred_updated :: "bool option"
  u_cred_updated_at :: "int option"
  u_must_change :: "bool option"

record LoxiLBInstance =
  i_id :: int
  i_name :: string
  i_host :: string
  i_port :: string
  i_protocol :: string
  i_description :: "string option"
  i_version :: string
  i_api_endpoint :: string
  i_cimage :: string
  i_ctag :: string
  i_is_active :: "bool option"
  i_created :: int

record APIToken =
  t_id :: int
  t_value :: string
  t_user :: string
  t_scopes :: string
  t_expires :: int
  t_created :: int

record LoginAttempt =
  la_id :: int
  la_username :: string
  la_client_ip :: string
  la_failed_count :: int
  la_last_failed :: int
  la_blocked_until :: "int option"
  la_created :: int
  la_updated :: int

record setting_row =
  set_key :: string
  set_value :: string
  set_created :: int
  set_updated :: int

record Alert =
  a_id :: int
  a_instance :: int
  a_type :: string
  a_severity :: string
  a_message :: string
  a_created :: int
  a_resolved :: "int option"

record Acknowledgment =
  ack_id :: int
  ack_alert :: int
  ack_user :: int
  ack_time :: int

record InstanceSnapshot =
  sn_id :: string
  sn_instance :: int
  sn_name :: string
  sn_description :: string
  sn_trigger :: string
  sn_schema_version :: string
  sn_gateway_version :: string
  sn_size :: int
  sn_checksum :: string
  sn_stored_checksum :: string
  sn_blob :: string
  sn_encrypted :: bool
  sn_pinned :: bool
  sn_checksum_ok :: bool
  sn_created_by :: string
  sn_created :: int
  sn_restore_count :: int
  sn_last_restored :: "int option"
  sn_last_result :: "string option"
  sn_last_response :: "string option"
  sn_last_components :: "string option"

record InstanceSnapshotSchedule =
  sc_instance :: int
  sc_enabled :: bool
  sc_interval_hours :: int
  sc_retain_count :: int
  sc_last_run :: "int option"
  sc_last_result :: "string option"

section \<open>The database\<close>

record 'w oam_db = "'w db_base" +
  users :: "User list"
  instances :: "LoxiLBInstance list"
  api_tokens :: "APIToken list"
  login_attempts :: "LoginAttempt list"
  system_settings :: "setting_row list"
  system_config :: "setting_row list"
  alerts :: "Alert list"
  acknowledgments :: "Acknowledgment list"
  snapshots :: "InstanceSnapshot list"
  schedules :: "InstanceSnapshotSchedule list"

text \<open>
  \<^verbatim>\<open>GENERATED BY DEFAULT AS IDENTITY\<close>: the value the next insert takes.  A sequence advances
  even when the insert fails, and a rollback does not give a value back.
\<close>

definition take_seq :: "string \<Rightarrow> ('w, 'x) db_base_scheme \<Rightarrow> ('w, 'x) db_base_scheme" where
  "take_seq t s = s\<lparr>seqs := (seqs s)(t := seqs s t + 1)\<rparr>"

text \<open>The role \<^verbatim>\<open>CHECK\<close> constraint: a null passes.\<close>

definition role_check :: "string option \<Rightarrow> bool" where
  "role_check r = (case r of None \<Rightarrow> True | Some x \<Rightarrow> x \<in> set [''admin'', ''operator'', ''viewer'', ''user''])"

lemma role_check_valid [simp]: "role_check (Some r) \<longleftrightarrow> IsValidRole r"
  by (auto simp: role_check_def IsValidRole_def role_defs)

lemma role_check_None [simp]: "role_check None"
  by (simp add: role_check_def)

lemma same_tables_oam:
  "same_tables s s' \<Longrightarrow> users s' = users s \<and> instances s' = instances s \<and> api_tokens s' = api_tokens s \<and>
     login_attempts s' = login_attempts s \<and> system_settings s' = system_settings s \<and> system_config s' = system_config s \<and>
     alerts s' = alerts s \<and> acknowledgments s' = acknowledgments s \<and> snapshots s' = snapshots s \<and> schedules s' = schedules s"
  by (cases s; cases s') (auto simp: same_tables_def)

text \<open>Facts on single tables bear reads and rollbacks.\<close>

lemma table_invariant_users: "table_invariant (\<lambda>s :: ('w, 'x) oam_db_scheme. F (users s))"
  by (rule table_invariant.intro) (simp add: same_tables_oam)

lemma table_invariant_tokens: "table_invariant (\<lambda>s :: ('w, 'x) oam_db_scheme. F (users s) (api_tokens s))"
  by (rule table_invariant.intro) (simp add: same_tables_oam)

text \<open>\<^verbatim>\<open>ON DELETE CASCADE\<close> of the foreign keys onto users and instances.\<close>

definition delete_users_where :: "(User \<Rightarrow> bool) \<Rightarrow> ('w, 'x) oam_db_scheme \<Rightarrow> ('w, 'x) oam_db_scheme" where
  "delete_users_where p s =
     (let gone = map u_id (filter p (users s)) in
      s\<lparr>users := del_where p (users s),
        acknowledgments := del_where (\<lambda>a. ack_user a \<in> set gone) (acknowledgments s)\<rparr>)"

definition delete_instances_where :: "(LoxiLBInstance \<Rightarrow> bool) \<Rightarrow> ('w, 'x) oam_db_scheme \<Rightarrow> ('w, 'x) oam_db_scheme" where
  "delete_instances_where p s =
     (let gone = map i_id (filter p (instances s));
          gone_alerts = map a_id (filter (\<lambda>a. a_instance a \<in> set gone) (alerts s)) in
      s\<lparr>instances := del_where p (instances s),
        alerts := del_where (\<lambda>a. a_instance a \<in> set gone) (alerts s),
        acknowledgments := del_where (\<lambda>k. ack_alert k \<in> set gone_alerts) (acknowledgments s),
        snapshots := del_where (\<lambda>n. sn_instance n \<in> set gone) (snapshots s),
        schedules := del_where (\<lambda>n. sc_instance n \<in> set gone) (schedules s)\<rparr>)"

end
