(* ===== verification/Password.thy ===== *)
theory Password
  imports Go_Strings
begin

text \<open>
  Stored password hashes (\<^verbatim>\<open>pkg/utils/password.go\<close>): the versioned PBKDF2 format written
  today, the two legacy formats still verified, and the test that decides whether a login
  rehashes.  \<^verbatim>\<open>encoding/base64\<close> is modelled; PBKDF2, bcrypt (golang.org/x/crypto) and SHA-256
  are the fields of \<open>crypto\<close>.
\<close>

section \<open>Standard base64\<close>

definition b64_char :: "nat \<Rightarrow> char" where
  "b64_char n = char_of
     (if n < 26 then n + 65 else if n < 52 then n + 71 else if n < 62 then n - 4 else if n = 62 then 43 else 47)"

definition b64_val :: "char \<Rightarrow> nat option" where
  "b64_val c = (let b = byte c in
     if in_range 65 90 b then Some (b - 65)
     else if in_range 97 122 b then Some (b - 71)
     else if in_range 48 57 b then Some (b + 4)
     else if b = 43 then Some 62 else if b = 47 then Some 63 else None)"

fun b64_encode :: "string \<Rightarrow> string" where
  "b64_encode [] = []"
| "b64_encode [a] = [b64_char (byte a div 4), b64_char ((byte a mod 4) * 16), CHR ''='', CHR ''='']"
| "b64_encode [a, b] =
     [b64_char (byte a div 4), b64_char ((byte a mod 4) * 16 + byte b div 16), b64_char ((byte b mod 16) * 4), CHR ''='']"
| "b64_encode (a # b # c # rest) =
     [b64_char (byte a div 4), b64_char ((byte a mod 4) * 16 + byte b div 16),
      b64_char ((byte b mod 16) * 4 + byte c div 64), b64_char (byte c mod 64)] @ b64_encode rest"

definition sextets3 :: "nat \<Rightarrow> nat \<Rightarrow> nat \<Rightarrow> nat \<Rightarrow> string" where
  "sextets3 v w x y =
     [char_of (v * 4 + w div 16), char_of ((w mod 16) * 16 + x div 4), char_of ((x mod 4) * 64 + y)]"

text \<open>Quantums of four characters; padding may only end the input.\<close>

fun b64_quads :: "string \<Rightarrow> string option" where
  "b64_quads [] = Some []"
| "b64_quads (a # b # c # d # rest) =
     (case (b64_val a, b64_val b) of
        (Some v, Some w) \<Rightarrow>
          if rest = [] \<and> c = CHR ''='' \<and> d = CHR ''='' then Some [char_of (v * 4 + w div 16)]
          else (case b64_val c of
              None \<Rightarrow> None
            | Some x \<Rightarrow>
                if rest = [] \<and> d = CHR ''='' then Some [char_of (v * 4 + w div 16), char_of ((w mod 16) * 16 + x div 4)]
                else (case (b64_val d, b64_quads rest) of
                    (Some y, Some out) \<Rightarrow> Some (sextets3 v w x y @ out)
                  | _ \<Rightarrow> None))
      | _ \<Rightarrow> None)"
| "b64_quads _ = None"

text \<open>\<^verbatim>\<open>base64.StdEncoding.DecodeString\<close>: carriage returns and line feeds are skipped.\<close>

definition b64_decode :: "string \<Rightarrow> string option" where
  "b64_decode s = b64_quads (filter (\<lambda>c. c \<noteq> CHR 0x0D \<and> c \<noteq> CHR 0x0A) s)"

text \<open>\<^verbatim>\<open>base64.URLEncoding\<close>.\<close>

definition b64url_encode :: "string \<Rightarrow> string" where
  "b64url_encode s = map (\<lambda>c. if c = CHR ''+'' then CHR ''-'' else if c = CHR ''/'' then CHR ''_'' else c) (b64_encode s)"

section \<open>Hash formats\<close>

record crypto =
  pbkdf2_key :: "string \<Rightarrow> string \<Rightarrow> nat \<Rightarrow> nat \<Rightarrow> string"
  bcrypt_matches :: "string \<Rightarrow> string \<Rightarrow> bool"
  sha256_sum :: "string \<Rightarrow> string"

definition SaltSize :: nat where "SaltSize = 16"
definition PBKDF2Rounds :: nat where "PBKDF2Rounds = 600000"
definition PBKDF2KeySize :: nat where "PBKDF2KeySize = 32"
definition legacyPBKDF2Rounds :: nat where "legacyPBKDF2Rounds = 10000"
definition pbkdf2Prefix :: string where "pbkdf2Prefix = ''pbkdf2-sha256''"

lemmas hash_consts = SaltSize_def PBKDF2Rounds_def PBKDF2KeySize_def legacyPBKDF2Rounds_def

datatype hash_error = SaltUnavailable

text \<open>\<open>salt\<close> is what the random source delivers; \<open>None\<close> when it fails.\<close>

definition HashPassword :: "crypto \<Rightarrow> string option \<Rightarrow> string \<Rightarrow> hash_error + string" where
  "HashPassword C salt password = (case salt of
      None \<Rightarrow> err SaltUnavailable
    | Some sl \<Rightarrow>
        (let hash = pbkdf2_key C password sl PBKDF2Rounds PBKDF2KeySize in
         ok (pbkdf2Prefix @ ''$'' @ itoa (int PBKDF2Rounds) @ ''$'' @ b64_encode sl @ ''$'' @ b64_encode hash)))"

definition verifyVersionedPBKDF2Password :: "crypto \<Rightarrow> string \<Rightarrow> string \<Rightarrow> bool" where
  "verifyVersionedPBKDF2Password C password storedHash =
     (let parts = split_on CHR ''$'' storedHash in
      if length parts \<noteq> 4 then False
      else (case atoi (parts ! 1) of
          None \<Rightarrow> False
        | Some rounds \<Rightarrow>
            if rounds < 1 then False
            else (case b64_decode (parts ! 2) of
                None \<Rightarrow> False
              | Some salt \<Rightarrow>
                  (case b64_decode (parts ! 3) of
                     None \<Rightarrow> False
                   | Some storedKey \<Rightarrow>
                       if length storedKey = 0 then False
                       else storedKey = pbkdf2_key C password salt (nat rounds) (length storedKey)))))"

definition verifyLegacyPBKDF2Password :: "crypto \<Rightarrow> string \<Rightarrow> string \<Rightarrow> bool" where
  "verifyLegacyPBKDF2Password C password storedHash =
     (case b64_decode storedHash of
        None \<Rightarrow> False
      | Some bytes \<Rightarrow>
          if length bytes < SaltSize + PBKDF2KeySize then False
          else drop SaltSize bytes = pbkdf2_key C password (take SaltSize bytes) legacyPBKDF2Rounds PBKDF2KeySize)"

text \<open>No branch of \<^verbatim>\<open>VerifyPassword\<close> returns an error, so the result is the verdict alone.\<close>

definition VerifyPassword :: "crypto \<Rightarrow> string \<Rightarrow> string \<Rightarrow> bool" where
  "VerifyPassword C password storedHash =
     (if has_prefix storedHash (pbkdf2Prefix @ ''$'') then verifyVersionedPBKDF2Password C password storedHash
      else if bcrypt_matches C storedHash password then True
      else verifyLegacyPBKDF2Password C password storedHash)"

definition VerifyDefaultPassword :: "crypto \<Rightarrow> string \<Rightarrow> string \<Rightarrow> bool" where
  "VerifyDefaultPassword C defaultConfigPassword storedHash = VerifyPassword C defaultConfigPassword storedHash"

definition NeedsRehash :: "string \<Rightarrow> bool" where
  "NeedsRehash storedHash =
     (if \<not> has_prefix storedHash (pbkdf2Prefix @ ''$'') then True
      else
        (let parts = split_on CHR ''$'' storedHash in
         if length parts \<noteq> 4 then True
         else (case atoi (parts ! 1) of None \<Rightarrow> True | Some rounds \<Rightarrow> rounds < int PBKDF2Rounds)))"

definition GetPasswordHashInfo :: "string \<Rightarrow> string" where
  "GetPasswordHashInfo storedHash =
     (if has_prefix storedHash (pbkdf2Prefix @ ''$'') then ''pbkdf2-versioned''
      else if length storedHash \<ge> 60 \<and> take 4 storedHash \<in> {''$2a$'', ''$2b$'', ''$2y$''} then ''bcrypt''
      else (case b64_decode storedHash of
          None \<Rightarrow> ''unknown''
        | Some bytes \<Rightarrow> if length bytes = SaltSize + PBKDF2KeySize then ''pbkdf2-legacy'' else ''unknown''))"

section \<open>Base64 round trip\<close>

lemma b64_val_char [simp]: "n < 64 \<Longrightarrow> b64_val (b64_char n) = Some n"
  by (auto simp: b64_val_def b64_char_def Let_def byte_char_of in_range_def)

lemma b64_char_code: "n < 64 \<Longrightarrow> 43 \<le> byte (b64_char n) \<and> byte (b64_char n) \<noteq> 61"
  by (auto simp: b64_char_def byte_char_of)

lemma b64_char_not_pad: "n < 64 \<Longrightarrow> b64_char n \<noteq> CHR ''=''"
  using b64_char_code [of n] by (auto simp: byte_def)

lemma byte_div_bounds [simp]: "byte a div 4 < 64" "byte a div 16 < 16" "byte a div 64 < 4"
  using byte_lt [of a] by (simp_all add: div_less_iff_less_mult)

lemma byte_sextets [simp]:
  "(byte a mod 4) * 16 < 64" "(byte a mod 4) * 16 + byte b div 16 < 64"
  "(byte b mod 16) * 4 < 64" "(byte b mod 16) * 4 + byte c div 64 < 64"
  using byte_div_bounds [of b] byte_div_bounds [of c]
    mod_less_divisor [of 4 "byte a"] mod_less_divisor [of 16 "byte b"] by linarith+

lemma char_of_byte [simp]: "char_of (byte c) = c"
  by (simp add: byte_def)

lemma byte_regroup [simp]:
  "byte b div 16 div 16 = 0" "byte c div 64 div 4 = 0"
  "byte b div 16 mod 16 = byte b div 16" "byte c div 64 mod 4 = byte c div 64"
  by simp_all

lemma b64_encode_alphabet: "list_all (\<lambda>x. x = CHR ''='' \<or> b64_val x \<noteq> None) (b64_encode s)"
  by (induction s rule: b64_encode.induct) simp_all

lemma b64_val_separators [simp]:
  "b64_val (CHR ''$'') = None" "b64_val (CHR 0x0D) = None" "b64_val (CHR 0x0A) = None"
  by (simp_all add: b64_val_def byte_def in_range_def)

lemma b64_encode_plain:
  "CHR ''$'' \<notin> set (b64_encode s)" "CHR 0x0D \<notin> set (b64_encode s)" "CHR 0x0A \<notin> set (b64_encode s)"
proof -
  have "x = CHR ''='' \<or> b64_val x \<noteq> None" if "x \<in> set (b64_encode s)" for x
    using b64_encode_alphabet that by (simp add: list_all_iff)
  from this [of "CHR ''$''"] this [of "CHR 0x0D"] this [of "CHR 0x0A"]
  show "CHR ''$'' \<notin> set (b64_encode s)" "CHR 0x0D \<notin> set (b64_encode s)" "CHR 0x0A \<notin> set (b64_encode s)"
    by auto
qed

lemma b64_quads_encode: "b64_quads (b64_encode s) = Some s"
  by (induction s rule: b64_encode.induct)
    (simp_all add: sextets3_def b64_char_not_pad div_mult_mod_eq)

lemma b64_decode_encode [simp]: "b64_decode (b64_encode s) = Some s"
proof -
  have "filter (\<lambda>c. c \<noteq> CHR 0x0D \<and> c \<noteq> CHR 0x0A) (b64_encode s) = b64_encode s"
    using b64_encode_plain by (auto simp: filter_id_conv)
  then show ?thesis by (simp add: b64_decode_def b64_quads_encode)
qed

section \<open>Hashing and verifying\<close>

lemma versioned_parts:
  "split_on CHR ''$'' (pbkdf2Prefix @ ''$'' @ nat_str r @ ''$'' @ b64_encode sl @ ''$'' @ b64_encode h) =
     [pbkdf2Prefix, nat_str r, b64_encode sl, b64_encode h]"
proof -
  have "CHR ''$'' \<notin> set (nat_str r)" using nat_str_digits by (fastforce simp: is_digit_def in_range_def byte_def)
  moreover have "CHR ''$'' \<notin> set pbkdf2Prefix" by (simp add: pbkdf2Prefix_def)
  ultimately show ?thesis
    using b64_encode_plain(1) by (simp add: split_on_append_sep split_on_no_sep_id)
qed

lemma versioned_prefix: "has_prefix (pbkdf2Prefix @ ''$'' @ s) (pbkdf2Prefix @ ''$'')"
  by (auto simp: has_prefix_iff)

lemma verify_versioned:
  assumes "0 < r" and "int r < 2 ^ 63" and "h \<noteq> []"
  shows "VerifyPassword C password (pbkdf2Prefix @ ''$'' @ nat_str r @ ''$'' @ b64_encode sl @ ''$'' @ b64_encode h)
     \<longleftrightarrow> h = pbkdf2_key C password sl r (length h)"
proof -
  have "atoi (nat_str r) = Some (int r)" using atoi_itoa [of "int r"] assms(2) by (simp add: itoa_def)
  with assms(1,3) versioned_parts [of r sl h] versioned_prefix show ?thesis
    by (auto simp: VerifyPassword_def verifyVersionedPBKDF2Password_def Let_def)
qed

lemma HashPassword_ok:
  "HashPassword C (Some sl) password = ok (pbkdf2Prefix @ ''$'' @ nat_str PBKDF2Rounds @ ''$'' @ b64_encode sl @ ''$'' @
     b64_encode (pbkdf2_key C password sl PBKDF2Rounds PBKDF2KeySize))"
  by (simp add: HashPassword_def itoa_def Let_def)

text \<open>
  C5. Hash and verify round trip: with a key derivation that returns as many bytes as asked
  for, a freshly stored hash accepts exactly the passwords that derive the same key under
  the stored salt, so it accepts the password it was made from, and it is up to date: a
  login with it never rehashes.
\<close>

theorem hash_verify_roundtrip:
  assumes "\<And>p s r n. length (pbkdf2_key C p s r n) = n"
    and "HashPassword C (Some salt) password = ok stored"
  shows "(VerifyPassword C candidate stored \<longleftrightarrow>
      pbkdf2_key C candidate salt PBKDF2Rounds PBKDF2KeySize = pbkdf2_key C password salt PBKDF2Rounds PBKDF2KeySize) \<and>
    VerifyPassword C password stored \<and> \<not> NeedsRehash stored"
proof (intro conjI)
  let ?h = "pbkdf2_key C password salt PBKDF2Rounds PBKDF2KeySize"
  have h: "?h \<noteq> []" "length ?h = PBKDF2KeySize"
    using assms(1) [of password salt PBKDF2Rounds PBKDF2KeySize] by (auto simp: hash_consts)
  from assms(2) have stored: "stored = pbkdf2Prefix @ ''$'' @ nat_str PBKDF2Rounds @ ''$'' @ b64_encode salt @ ''$'' @ b64_encode ?h"
    by (simp add: HashPassword_ok)
  have rounds: "0 < PBKDF2Rounds" "int PBKDF2Rounds < 2 ^ 63" by (simp_all add: hash_consts)
  show iff: "VerifyPassword C candidate stored \<longleftrightarrow>
      pbkdf2_key C candidate salt PBKDF2Rounds PBKDF2KeySize = ?h" for candidate
    using verify_versioned [OF rounds h(1), of C candidate salt] h(2) by (auto simp: stored)
  show "VerifyPassword C password stored" by (simp add: iff)
  have "atoi (nat_str PBKDF2Rounds) = Some (int PBKDF2Rounds)"
    using atoi_itoa [of "int PBKDF2Rounds"] rounds(2) by (simp add: itoa_def)
  then show "\<not> NeedsRehash stored"
    using versioned_parts [of PBKDF2Rounds salt ?h] versioned_prefix by (simp add: NeedsRehash_def stored Let_def)
qed

text \<open>A stand-in for the primitives: the key is the padded password, the digest the padded data.\<close>

definition demo_crypto :: crypto where
  "demo_crypto = \<lparr>pbkdf2_key = (\<lambda>p s r n. take n (p @ replicate n (CHR 0x00))), bcrypt_matches = (\<lambda>h p. False),
     sha256_sum = (\<lambda>d. take 32 (d @ replicate 32 (CHR 0x00)))\<rparr>"

theorem hash_verify_roundtrip_witness:
  "\<exists>stored. HashPassword demo_crypto (Some ''0123456789abcdef'') ''S3cret-pass'' = ok stored \<and>
     VerifyPassword demo_crypto ''S3cret-pass'' stored \<and> \<not> VerifyPassword demo_crypto ''other'' stored \<and>
     \<not> NeedsRehash stored"
proof -
  have len: "length (pbkdf2_key demo_crypto p s r n) = n" for p s r n by (simp add: demo_crypto_def)
  obtain stored where st: "HashPassword demo_crypto (Some ''0123456789abcdef'') ''S3cret-pass'' = ok stored"
    by (simp add: HashPassword_ok)
  have "pbkdf2_key demo_crypto ''other'' ''0123456789abcdef'' PBKDF2Rounds PBKDF2KeySize \<noteq>
      pbkdf2_key demo_crypto ''S3cret-pass'' ''0123456789abcdef'' PBKDF2Rounds PBKDF2KeySize"
    by (simp add: demo_crypto_def hash_consts)
  with st hash_verify_roundtrip [OF len st, of "''other''"] show ?thesis by blast
qed

end
