(* ===== verification/Password_Policy.thy ===== *)
theory Password_Policy
  imports Schema Password
begin

text \<open>
  The password rules of \<^verbatim>\<open>UserService.validatePassword\<close> (\<^verbatim>\<open>internal/services/user_service.go\<close>).
  The character loop is translated step by step and then shown equal to the declarative
  policy.  Above ASCII the classes are those of the Unicode tables, the fields of \<open>unicode\<close>.
\<close>

section \<open>Errors of the user service\<close>

datatype user_err =
    UDb db_err
  | PwTooShort | PwSameAsUsername | PwRepeated | PwNoUpper | PwNoLower | PwNoNumber | PwNoSpecial | PwReused
  | UsernameExists | UserNotFound | InvalidRole | NoValidFields | HashFailed hash_error
  | ErrUserNotFound | ErrInvalidPassword | ErrSystemError | ErrAdminDeletion
  | AdminNotFound | CurrentPasswordIncorrect
  | PasswordValidationFailed user_err | BeginFailed db_err | CommitFailed db_err | RevokeFailed db_err

section \<open>Character classes\<close>

record unicode =
  uni_upper :: "nat \<Rightarrow> bool"
  uni_lower :: "nat \<Rightarrow> bool"
  uni_number :: "nat \<Rightarrow> bool"
  uni_punct :: "nat \<Rightarrow> bool"
  uni_symbol :: "nat \<Rightarrow> bool"

definition IsUpper :: "unicode \<Rightarrow> nat \<Rightarrow> bool" where
  "IsUpper U r \<longleftrightarrow> (if r < 128 then in_range 65 90 r else uni_upper U r)"

definition IsLower :: "unicode \<Rightarrow> nat \<Rightarrow> bool" where
  "IsLower U r \<longleftrightarrow> (if r < 128 then in_range 97 122 r else uni_lower U r)"

definition IsNumber :: "unicode \<Rightarrow> nat \<Rightarrow> bool" where
  "IsNumber U r \<longleftrightarrow> (if r < 128 then in_range 48 57 r else uni_number U r)"

definition ascii_symbol :: "nat \<Rightarrow> bool" where
  "ascii_symbol r \<longleftrightarrow> r \<in> set (map byte ''$+<=>^`|~'')"

definition IsSymbol :: "unicode \<Rightarrow> nat \<Rightarrow> bool" where
  "IsSymbol U r \<longleftrightarrow> (if r < 128 then ascii_symbol r else uni_symbol U r)"

definition IsPunct :: "unicode \<Rightarrow> nat \<Rightarrow> bool" where
  "IsPunct U r \<longleftrightarrow>
     (if r < 128 then (in_range 33 47 r \<or> in_range 58 64 r \<or> in_range 91 96 r \<or> in_range 123 126 r) \<and> \<not> ascii_symbol r
      else uni_punct U r)"

lemmas class_defs = IsUpper_def IsLower_def IsNumber_def IsSymbol_def IsPunct_def ascii_symbol_def

section \<open>The scan\<close>

definition MinPasswordLength :: nat where "MinPasswordLength = 9"

record pw_scan =
  hasUpper :: bool
  hasLower :: bool
  hasNumber :: bool
  hasSpecial :: bool
  prevChar :: nat
  repeatCount :: nat

definition classify :: "unicode \<Rightarrow> nat \<Rightarrow> pw_scan \<Rightarrow> pw_scan" where
  "classify U ch st =
     (if IsUpper U ch then st\<lparr>hasUpper := True\<rparr>
      else if IsLower U ch then st\<lparr>hasLower := True\<rparr>
      else if IsNumber U ch then st\<lparr>hasNumber := True\<rparr>
      else if IsPunct U ch \<or> IsSymbol U ch then st\<lparr>hasSpecial := True\<rparr>
      else st)"

fun scan_password :: "unicode \<Rightarrow> pw_scan \<Rightarrow> (nat \<times> nat \<times> nat) list \<Rightarrow> user_err + pw_scan" where
  "scan_password U st [] = ok st"
| "scan_password U st ((i, ch, w) # rest) =
     (let st = classify U ch st in
      if i > 0 then
        if ch = prevChar st then
          (let st = st\<lparr>repeatCount := repeatCount st + 1\<rparr> in
           if repeatCount st \<ge> 2 then err PwRepeated
           else scan_password U (st\<lparr>prevChar := ch\<rparr>) rest)
        else scan_password U (st\<lparr>repeatCount := 0, prevChar := ch\<rparr>) rest
      else scan_password U (st\<lparr>prevChar := ch\<rparr>) rest)"

definition scan_start :: pw_scan where
  "scan_start = \<lparr>hasUpper = False, hasLower = False, hasNumber = False, hasSpecial = False, prevChar = 0, repeatCount = 0\<rparr>"

text \<open>The part of \<^verbatim>\<open>validatePassword\<close> that needs no database.\<close>

definition password_policy :: "unicode \<Rightarrow> string \<Rightarrow> string \<Rightarrow> user_err + unit" where
  "password_policy U username password =
     (if length password < MinPasswordLength then err PwTooShort
      else if password = username then err PwSameAsUsername
      else (case scan_password U scan_start (range_runes 0 password) of
          Inl e \<Rightarrow> err e
        | Inr st \<Rightarrow>
            if \<not> hasUpper st then err PwNoUpper
            else if \<not> hasLower st then err PwNoLower
            else if \<not> hasNumber st then err PwNoNumber
            else if \<not> hasSpecial st then err PwNoSpecial
            else ok ()))"

text \<open>The whole check, with the reuse rule: the stored password of that name must not match.\<close>

definition validatePassword ::
    "crypto \<Rightarrow> unicode \<Rightarrow> string \<Rightarrow> string \<Rightarrow> (('w, 'x) oam_db_scheme, user_err + unit) state" where
  "validatePassword C U username password =
     (case password_policy U username password of
        Inl e \<Rightarrow> ret (err e)
      | Inr _ \<Rightarrow> do {
          r \<leftarrow> db_query (\<lambda>s. case find_row (\<lambda>u. u_username u = username) (users s) of
                 None \<Rightarrow> err NoRows | Some u \<Rightarrow> ok (u_password u));
          case r of
            Inl e \<Rightarrow> if e = NoRows then ret (ok ()) else ret (err (UDb e))
          | Inr previousPassword \<Rightarrow>
              if VerifyPassword C password previousPassword then ret (err PwReused) else ret (ok ()) })"

section \<open>The policy, declaratively\<close>

fun no_triple :: "nat list \<Rightarrow> bool" where
  "no_triple (a # b # c # rest) \<longleftrightarrow> \<not> (a = b \<and> b = c) \<and> no_triple (b # c # rest)"
| "no_triple _ \<longleftrightarrow> True"

definition rune_special :: "unicode \<Rightarrow> nat \<Rightarrow> bool" where
  "rune_special U r \<longleftrightarrow>
     \<not> IsUpper U r \<and> \<not> IsLower U r \<and> \<not> IsNumber U r \<and> (IsPunct U r \<or> IsSymbol U r)"

definition rune_number :: "unicode \<Rightarrow> nat \<Rightarrow> bool" where
  "rune_number U r \<longleftrightarrow> \<not> IsUpper U r \<and> \<not> IsLower U r \<and> IsNumber U r"

definition rune_lower :: "unicode \<Rightarrow> nat \<Rightarrow> bool" where
  "rune_lower U r \<longleftrightarrow> \<not> IsUpper U r \<and> IsLower U r"

definition strong_password :: "unicode \<Rightarrow> string \<Rightarrow> string \<Rightarrow> bool" where
  "strong_password U username password \<longleftrightarrow>
     MinPasswordLength \<le> length password \<and> password \<noteq> username \<and> no_triple (runes password) \<and>
     list_ex (IsUpper U) (runes password) \<and> list_ex (rune_lower U) (runes password) \<and>
     list_ex (rune_number U) (runes password) \<and> list_ex (rune_special U) (runes password)"

lemma classify_flags:
  "hasUpper (classify U r st) \<longleftrightarrow> hasUpper st \<or> IsUpper U r"
  "hasLower (classify U r st) \<longleftrightarrow> hasLower st \<or> rune_lower U r"
  "hasNumber (classify U r st) \<longleftrightarrow> hasNumber st \<or> rune_number U r"
  "hasSpecial (classify U r st) \<longleftrightarrow> hasSpecial st \<or> rune_special U r"
  "prevChar (classify U r st) = prevChar st" "repeatCount (classify U r st) = repeatCount st"
  by (auto simp: classify_def rune_lower_def rune_number_def rune_special_def)

text \<open>What the scan reports from a later position, where a predecessor is known.\<close>

lemma scan_tail_ok:
  "scan_password U st xs = ok st' \<Longrightarrow>
   (hasUpper st' \<longleftrightarrow> hasUpper st \<or> list_ex (\<lambda>(i, r, w). IsUpper U r) xs) \<and>
   (hasLower st' \<longleftrightarrow> hasLower st \<or> list_ex (\<lambda>(i, r, w). rune_lower U r) xs) \<and>
   (hasNumber st' \<longleftrightarrow> hasNumber st \<or> list_ex (\<lambda>(i, r, w). rune_number U r) xs) \<and>
   (hasSpecial st' \<longleftrightarrow> hasSpecial st \<or> list_ex (\<lambda>(i, r, w). rune_special U r) xs)"
proof (induction xs arbitrary: st)
  case (Cons x xs)
  obtain i r w where x: "x = (i, r, w)" by (cases x)
  from Cons.prems obtain st1 where "scan_password U st1 xs = ok st'"
    and "hasUpper st1 = hasUpper (classify U r st)" and "hasLower st1 = hasLower (classify U r st)"
    and "hasNumber st1 = hasNumber (classify U r st)" and "hasSpecial st1 = hasSpecial (classify U r st)"
    by (auto simp: x Let_def split: if_splits)
  with Cons.IH show ?case by (auto simp: x classify_flags)
qed simp

lemma scan_repeat:
  assumes "list_all (\<lambda>x. 0 < fst x) xs" and "repeatCount st \<le> 1"
  shows "(\<exists>st'. scan_password U st xs = ok st') \<longleftrightarrow>
    (if repeatCount st = 1 then no_triple (prevChar st # prevChar st # map (\<lambda>(i, r, w). r) xs)
     else no_triple (prevChar st # map (\<lambda>(i, r, w). r) xs))"
  using assms
proof (induction xs arbitrary: st)
  case (Cons x xs)
  obtain i r w where x: "x = (i, r, w)" by (cases x)
  from Cons.prems have i: "0 < i" and xs: "list_all (\<lambda>x. 0 < fst x) xs" by (auto simp: x)
  have triple_ne: "no_triple (a # a # b # ys) = no_triple (b # ys)" if "a \<noteq> b" for a b :: nat and ys
    using that by (cases ys) auto
  show ?case
  proof (cases "r = prevChar st")
    case True
    show ?thesis
    proof (cases "repeatCount st = 1")
      case True
      with \<open>r = prevChar st\<close> i show ?thesis by (simp add: x Let_def classify_flags)
    next
      case False
      with Cons.prems have "repeatCount st = 0" by simp
      with True i Cons.IH [OF xs, of "(classify U r st)\<lparr>repeatCount := 1, prevChar := r\<rparr>"] show ?thesis
        by (simp add: x Let_def classify_flags)
    qed
  next
    case False
    have one: "no_triple (a # b # ys) = no_triple (b # ys)" if "a \<noteq> b" for a b :: nat and ys
      using that by (cases ys) auto
    from False i Cons.IH [OF xs, of "(classify U r st)\<lparr>repeatCount := 0, prevChar := r\<rparr>"] Cons.prems show ?thesis
      by (auto simp: x Let_def classify_flags triple_ne one)
  qed
qed auto

lemma range_runes_pos: "0 < i \<Longrightarrow> list_all (\<lambda>x. 0 < fst x) (range_runes i s)"
proof (induction i s rule: range_runes.induct)
  case (1 i s)
  then show ?case by (subst range_runes.simps) (auto split: prod.splits)
qed

lemma scan_total:
  "(\<exists>st'. scan_password U scan_start (range_runes 0 p) = ok st') \<longleftrightarrow> no_triple (runes p)"
proof (cases "p = []")
  case False
  obtain r w where rw: "decode_rune p = (r, w)" by force
  then have "1 \<le> w" using decode_rune_width [OF False] by simp
  then have pos: "list_all (\<lambda>x. 0 < fst x) (range_runes w (drop w p))" by (intro range_runes_pos) simp
  have rr: "range_runes 0 p = (0, r, w) # range_runes w (drop w p)"
    using False rw by (subst range_runes.simps) simp
  have rc: "repeatCount (classify U r scan_start) = 0" by (simp add: classify_flags scan_start_def)
  show ?thesis
    using scan_repeat [OF pos, of "(classify U r scan_start)\<lparr>prevChar := r\<rparr>" U] rc
    by (simp add: rr runes_def)
qed (simp add: runes_def)

lemma password_policy_strong: "password_policy U n p = ok () \<longleftrightarrow> strong_password U n p"
proof (cases "scan_password U scan_start (range_runes 0 p)")
  case (Inl e)
  then have "\<not> no_triple (runes p)" using scan_total [of U p] by simp
  with Inl show ?thesis by (simp add: password_policy_def strong_password_def)
next
  case (Inr st)
  then have "no_triple (runes p)" using scan_total [of U p] by blast
  moreover have "list_ex P (runes p) = list_ex (\<lambda>(i, r, w). P r) (range_runes 0 p)" for P
    by (auto simp: runes_def list_ex_iff) force+
  ultimately show ?thesis
    using scan_tail_ok [OF Inr] Inr by (auto simp: password_policy_def strong_password_def scan_start_def)
qed

section \<open>The password rules\<close>


text \<open>ASCII-only tables and an empty database, for evaluation.\<close>

definition ascii_tables :: unicode where
  "ascii_tables = \<lparr>uni_upper = (\<lambda>_. False), uni_lower = (\<lambda>_. False), uni_number = (\<lambda>_. False),
     uni_punct = (\<lambda>_. False), uni_symbol = (\<lambda>_. False)\<rparr>"

definition empty_db :: "unit oam_db" where
  "empty_db = \<lparr>clock = 0, tx_start = None, script = [], seqs = (\<lambda>_. 1), outside = (),
     users = [], instances = [], api_tokens = [], login_attempts = [], system_settings = [], system_config = [],
     alerts = [], acknowledgments = [], snapshots = [], schedules = []\<rparr>"

lemma empty_db_simps [simp]:
  "script empty_db = []" "users empty_db = []" "clock empty_db = 0" "tx_start empty_db = None"
  "seqs empty_db t = 1" "api_tokens empty_db = []" "login_attempts empty_db = []"
  by (simp_all add: empty_db_def)


end
