(* ===== verification/Users.thy ===== *)
theory Users
  imports Password_Policy "HOL-Library.AList"
begin

text \<open>
  User accounts (\<^verbatim>\<open>internal/services/user_service.go\<close>): creating, reading, changing and
  deleting users, and the rule that the last administrator stays.

  Every operation runs against the database of \<open>Db\<close>, so each statement may fail.  \<open>salt\<close> is
  what the random source delivers to the operation; \<open>Env\<close> gathers the parameters fixed per
  process: the cryptographic primitives, the Unicode tables, how the database reads a text
  parameter compared with an integer column, and the configured default password and token
  lifetime.
\<close>

section \<open>Environment and statements\<close>

record Env =
  env_crypto :: crypto
  env_unicode :: unicode
  pg_int :: "string \<Rightarrow> int option"
  DefaultConfigPassword :: string
  TokenExpirationMinutes :: int

type_synonym ('w, 'x, 'a) user_m = "(('w, 'x) oam_db_scheme, user_err + 'a) state"

text \<open>\<^verbatim>\<open>QueryRow\<close> on users: \<open>p\<close> is the condition, \<open>f\<close> reads the selected columns.\<close>

definition select_user :: "(User \<Rightarrow> bool) \<Rightarrow> (User \<Rightarrow> db_err + 'a) \<Rightarrow> (('w, 'x) oam_db_scheme, db_err + 'a) state" where
  "select_user p f = db_query (\<lambda>s. case find_row p (users s) of None \<Rightarrow> err NoRows | Some u \<Rightarrow> f u)"

definition scan_text :: "string option \<Rightarrow> db_err + string" where
  "scan_text v = (case v of None \<Rightarrow> err ScanNull | Some x \<Rightarrow> ok x)"

text \<open>\<^verbatim>\<open>sql.NullString\<close> read into a string: empty when null.\<close>

definition null_text :: "string option \<Rightarrow> string" where
  "null_text v = (case v of None \<Rightarrow> [] | Some x \<Rightarrow> x)"

definition new_user :: "int \<Rightarrow> int \<Rightarrow> string \<Rightarrow> string \<Rightarrow> string \<Rightarrow> string \<Rightarrow> User" where
  "new_user ident now name email pw role =
     \<lparr>u_id = ident, u_username = name, u_password = pw, u_role = Some role, u_email = Some email,
      u_created = now, u_cred_updated = Some False, u_cred_updated_at = None, u_must_change = Some False\<rparr>"

text \<open>\<^verbatim>\<open>INSERT INTO users ... RETURNING id\<close>.\<close>

definition insert_user :: "string \<Rightarrow> string \<Rightarrow> string \<Rightarrow> string
    \<Rightarrow> ('w, 'x) oam_db_scheme \<Rightarrow> (db_err + int) \<times> ('w, 'x) oam_db_scheme" where
  "insert_user name email pw role s =
     (let ident = seqs s ''users''; s' = take_seq ''users'' s in
      if \<not> role_check (Some role) then (err CheckViolation, s')
      else if ident \<in> set (map u_id (users s)) then (err (UniqueViolation ''users_pkey''), s')
      else if name \<in> set (map u_username (users s)) then (err (UniqueViolation ''users_username_key''), s')
      else (ok ident, s'\<lparr>users := users s @ [new_user ident (db_now s) name email pw role]\<rparr>))"

text \<open>\<^verbatim>\<open>UPDATE users SET f WHERE id = userID\<close>, with the unique user name and the role check.\<close>

definition update_user :: "int \<Rightarrow> (User \<Rightarrow> User)
    \<Rightarrow> ('w, 'x) oam_db_scheme \<Rightarrow> (db_err + nat) \<times> ('w, 'x) oam_db_scheme" where
  "update_user userID f s =
     (let rows = upd_where (\<lambda>u. u_id u = userID) f (users s) in
      if \<not> list_all (\<lambda>u. role_check (u_role u)) rows then (err CheckViolation, s)
      else if \<not> unique_by u_username rows then (err (UniqueViolation ''users_username_key''), s)
      else (ok (count_where (\<lambda>u. u_id u = userID) (users s)), s\<lparr>users := rows\<rparr>))"

definition delete_tokens_of :: "string \<Rightarrow> ('w, 'x) oam_db_scheme \<Rightarrow> (db_err + unit) \<times> ('w, 'x) oam_db_scheme" where
  "delete_tokens_of owner s = (ok (), s\<lparr>api_tokens := del_where (\<lambda>t. t_user t = owner) (api_tokens s)\<rparr>)"

definition IsDuplicateKeyError :: "db_err \<Rightarrow> bool" where
  "IsDuplicateKeyError e = (case e of UniqueViolation c \<Rightarrow> True | _ \<Rightarrow> False)"

section \<open>Creating users\<close>

text \<open>The name check both ways of adding a user start with.\<close>

definition name_taken :: "string \<Rightarrow> (('w, 'x) oam_db_scheme, db_err + bool) state" where
  "name_taken name = do {
     r \<leftarrow> select_user (\<lambda>u. u_username u = name) (\<lambda>u. ok (u_id u));
     case r of Inr _ \<Rightarrow> ret (ok True) | Inl e \<Rightarrow> if e = NoRows then ret (ok False) else ret (err e) }"

definition AddUserWithArgs :: "Env \<Rightarrow> string option \<Rightarrow> string \<Rightarrow> string \<Rightarrow> string \<Rightarrow> ('w, 'x, int) user_m" where
  "AddUserWithArgs E salt name email password = retry 0 (
     check UDb (name_taken name) (\<lambda>taken.
       if taken then ret (err UsernameExists)
       else check id (validatePassword (env_crypto E) (env_unicode E) name password) (\<lambda>_.
         case HashPassword (env_crypto E) salt password of
           Inl e \<Rightarrow> ret (err (HashFailed e))
         | Inr hashed \<Rightarrow>
             check (\<lambda>e. if IsDuplicateKeyError e then UsernameExists else UDb e)
               (db_stmt (insert_user name email hashed ''viewer'')) (\<lambda>ident. ret (ok ident)))))"

definition AddUser :: "Env \<Rightarrow> string option \<Rightarrow> string \<Rightarrow> string \<Rightarrow> string \<Rightarrow> ('w, 'x, int) user_m" where
  "AddUser E salt username email password = AddUserWithArgs E salt username email password"

definition CreateUserWithRole ::
    "Env \<Rightarrow> string option \<Rightarrow> string \<Rightarrow> string \<Rightarrow> string \<Rightarrow> string \<Rightarrow> ('w, 'x, int) user_m" where
  "CreateUserWithRole E salt username email password role0 =
     (let role = (if role0 = [] then RoleViewer else role0) in
      if \<not> IsValidRole role then ret (err InvalidRole)
      else retry 0 (with_tx BeginFailed CommitFailed (
        check UDb (name_taken username) (\<lambda>taken.
          if taken then ret (err UsernameExists)
          else check PasswordValidationFailed (validatePassword (env_crypto E) (env_unicode E) username password) (\<lambda>_.
            case HashPassword (env_crypto E) salt password of
              Inl e \<Rightarrow> ret (err (HashFailed e))
            | Inr hashed \<Rightarrow>
                check (\<lambda>e. if IsDuplicateKeyError e then UsernameExists else UDb e)
                  (db_stmt (insert_user username email hashed role)) (\<lambda>ident. ret (ok ident)))))))"

section \<open>Reading users\<close>

text \<open>The model \<^verbatim>\<open>models.User\<close> an API response is built from.\<close>

record user_view =
  v_id :: int
  v_username :: string
  v_password :: string
  v_role :: string
  v_email :: string
  v_created :: int

definition GetUsers :: "('w, 'x, user_view list) user_m" where
  "GetUsers = retry [] (check UDb (db_query (\<lambda>s. ok (map (\<lambda>u.
     \<lparr>v_id = u_id u, v_username = u_username u, v_password = u_password u, v_role = null_text (u_role u),
      v_email = null_text (u_email u), v_created = u_created u\<rparr>) (users s)))) (\<lambda>us. ret (ok us)))"

definition GetUserByUsername :: "string \<Rightarrow> ('w, 'x, user_view) user_m" where
  "GetUserByUsername username = check UDb (retry
     \<lparr>v_id = 0, v_username = [], v_password = [], v_role = [], v_email = [], v_created = 0\<rparr>
     (select_user (\<lambda>u. u_username u = username) (\<lambda>u.
        case scan_text (u_role u) of
          Inl e \<Rightarrow> err e
        | Inr role \<Rightarrow> ok \<lparr>v_id = u_id u, v_username = u_username u, v_password = [], v_role = role,
                         v_email = null_text (u_email u), v_created = u_created u\<rparr>)))
     (\<lambda>v. ret (ok v))"

definition GetAdminCount :: "('w, 'x, nat) user_m" where
  "GetAdminCount = check UDb (db_query (\<lambda>s. ok (count_where (\<lambda>u. u_role u = Some ''admin'') (users s)))) (\<lambda>n. ret (ok n))"

definition GetTotalUserCount :: "('w, 'x, nat) user_m" where
  "GetTotalUserCount = check UDb (db_query (\<lambda>s. ok (length (users s)))) (\<lambda>n. ret (ok n))"

section \<open>Changing users\<close>

text \<open>
  A JSON value of the update request: only strings matter here; of another value the text
  \<^verbatim>\<open>%v\<close> prints is kept.  The request is a Go map, whose
  iteration order is not fixed: the list is the map in the order of this iteration (of a key
  given twice only the first binding is in the map), so a theorem for every list covers
  every order.
\<close>

datatype json = JNull | JString string | JOther string

datatype column_set = SetUsername string | SetEmail string | SetRole string | SetPassword string

fun apply_set :: "column_set \<Rightarrow> User \<Rightarrow> User" where
  "apply_set (SetUsername v) u = u\<lparr>u_username := v\<rparr>"
| "apply_set (SetEmail v) u = u\<lparr>u_email := Some v\<rparr>"
| "apply_set (SetRole v) u = u\<lparr>u_role := Some v\<rparr>"
| "apply_set (SetPassword v) u = u\<lparr>u_password := v\<rparr>"

record update_plan =
  setParts :: "column_set list"
  roleChanged :: bool
  passwordChanged :: bool

definition lookup_string :: "string \<Rightarrow> (string \<times> json) list \<Rightarrow> string option" where
  "lookup_string k updates = (case map_of updates k of Some (JString v) \<Rightarrow> Some v | _ \<Rightarrow> None)"

fun collect_updates :: "Env \<Rightarrow> string option \<Rightarrow> string \<Rightarrow> (string \<times> json) list \<Rightarrow> (string \<times> json) list \<Rightarrow> update_plan
    \<Rightarrow> ('w, 'x, update_plan) user_m" where
  "collect_updates E salt existing updates [] pl = ret (ok pl)"
| "collect_updates E salt existing updates ((field, value) # rest) pl =
     (case value of
        JString v \<Rightarrow>
          if field = ''username'' \<and> v \<noteq> [] then
            collect_updates E salt existing updates rest (pl\<lparr>setParts := setParts pl @ [SetUsername v]\<rparr>)
          else if field = ''email'' then
            collect_updates E salt existing updates rest (pl\<lparr>setParts := setParts pl @ [SetEmail v]\<rparr>)
          else if field = ''role'' \<and> v \<noteq> [] then
            (if \<not> IsValidRole v then ret (err InvalidRole)
             else collect_updates E salt existing updates rest
               (pl\<lparr>setParts := setParts pl @ [SetRole v], roleChanged := True\<rparr>))
          else if field = ''password'' \<and> v \<noteq> [] then
            (let usernameForValidation = (case lookup_string ''username'' updates of
                   Some un \<Rightarrow> if un \<noteq> [] then un else existing | None \<Rightarrow> existing) in
             check PasswordValidationFailed (validatePassword (env_crypto E) (env_unicode E) usernameForValidation v) (\<lambda>_.
               case HashPassword (env_crypto E) salt v of
                 Inl e \<Rightarrow> ret (err (HashFailed e))
               | Inr hashed \<Rightarrow> collect_updates E salt existing updates rest
                   (pl\<lparr>setParts := setParts pl @ [SetPassword hashed], passwordChanged := True\<rparr>)))
          else collect_updates E salt existing updates rest pl
      | _ \<Rightarrow> collect_updates E salt existing updates rest pl)"

text \<open>
  The last administrator: under a table lock, the role is read and, when the user is an
  administrator and would cease to be one, the administrators are counted.  An id the
  database cannot read as an integer fails the select.
\<close>

definition protectLastAdmin :: "int option \<Rightarrow> bool \<Rightarrow> ('w, 'x, unit) user_m" where
  "protectLastAdmin ident remainsAdmin =
     check UDb (db_query (\<lambda>s. ok ())) (\<lambda>_.
     check (\<lambda>e. if e = NoRows then ErrUserNotFound else UDb e)
       (case ident of
          None \<Rightarrow> db_query (\<lambda>s. err DbFail)
        | Some i \<Rightarrow> select_user (\<lambda>u. u_id u = i) (\<lambda>u. scan_text (u_role u))) (\<lambda>role.
       if role = ''admin'' \<and> \<not> remainsAdmin then
         check UDb (db_query (\<lambda>s. ok (count_where (\<lambda>u. u_role u = Some ''admin'') (users s)))) (\<lambda>count.
           if count \<le> 1 then ret (err ErrAdminDeletion) else ret (ok ()))
       else ret (ok ())))"

definition update_error :: "db_err \<Rightarrow> user_err" where
  "update_error e = (if IsDuplicateKeyError e then UsernameExists else UDb e)"

definition apply_plan :: "update_plan \<Rightarrow> User \<Rightarrow> User" where
  "apply_plan pl u = fold apply_set (setParts pl) u"

text \<open>The write: in a transaction when the role or the password changes, alone otherwise.\<close>

definition write_update :: "int \<Rightarrow> (string \<times> json) list \<Rightarrow> update_plan \<Rightarrow> ('w, 'x, unit) user_m" where
  "write_update userID updates pl =
     (if passwordChanged pl \<or> roleChanged pl then
        with_tx BeginFailed CommitFailed (
          check id (if roleChanged pl
                    then protectLastAdmin (Some userID) (map_of updates ''role'' = Some (JString ''admin''))
                    else ret (ok ())) (\<lambda>_.
          check update_error (db_stmt (update_user userID (apply_plan pl))) (\<lambda>_.
            if passwordChanged pl
            then check RevokeFailed (db_stmt (delete_tokens_of (itoa userID))) (\<lambda>_. ret (ok ()))
            else ret (ok ()))))
      else check update_error (db_stmt (update_user userID (apply_plan pl))) (\<lambda>_. ret (ok ())))"

definition UpdateUser :: "Env \<Rightarrow> string option \<Rightarrow> int \<Rightarrow> (string \<times> json) list \<Rightarrow> ('w, 'x, unit) user_m" where
  "UpdateUser E salt userID request = (let updates = AList.clearjunk request in retry () (
     check (\<lambda>e. if e = NoRows then UserNotFound else UDb e)
       (select_user (\<lambda>u. u_id u = userID) (\<lambda>u. ok (u_username u))) (\<lambda>existing.
     check id (collect_updates E salt existing updates updates \<lparr>setParts = [], roleChanged = False, passwordChanged = False\<rparr>) (\<lambda>pl.
       if setParts pl = [] then ret (err NoValidFields) else write_update userID updates pl))))"

text \<open>The id arrives as text; the database reads it, or refuses the statement.\<close>

definition delete_user_row :: "int option \<Rightarrow> ('w, 'x) oam_db_scheme \<Rightarrow> (db_err + unit) \<times> ('w, 'x) oam_db_scheme" where
  "delete_user_row ident s = (case ident of
      None \<Rightarrow> (err DbFail, s)
    | Some i \<Rightarrow> (ok (), delete_users_where (\<lambda>u. u_id u = i) s))"

definition DeleteUser :: "Env \<Rightarrow> string \<Rightarrow> ('w, 'x, unit) user_m" where
  "DeleteUser E ident = retry () (with_tx UDb UDb (
     check id (protectLastAdmin (pg_int E ident) False) (\<lambda>_.
     check UDb (db_stmt (delete_user_row (pg_int E ident))) (\<lambda>_. ret (ok ())))))"

section \<open>Invariant\<close>

definition is_admin :: "User \<Rightarrow> bool" where
  "is_admin u \<longleftrightarrow> u_role u = Some RoleAdmin"

definition users_wf :: "('w, 'x) oam_db_scheme \<Rightarrow> bool" where
  "users_wf s \<longleftrightarrow> unique_by u_id (users s) \<and> unique_by u_username (users s) \<and>
     list_all (\<lambda>u. role_check (u_role u) \<and> u_id u < seqs s ''users'') (users s) \<and> unique_by t_value (api_tokens s)"

definition has_admin :: "('w, 'x) oam_db_scheme \<Rightarrow> bool" where
  "has_admin s \<longleftrightarrow> list_ex is_admin (users s)"

text \<open>The ids in \<open>G\<close> were in use once and belong to nobody.\<close>

definition ids_gone :: "int set \<Rightarrow> ('w, 'x) oam_db_scheme \<Rightarrow> bool" where
  "ids_gone G s \<longleftrightarrow> (\<forall>i \<in> G. i < seqs s ''users'' \<and> i \<notin> u_id ` set (users s))"

definition user_inv :: "int set \<Rightarrow> ('w, 'x) oam_db_scheme \<Rightarrow> bool" where
  "user_inv G s \<longleftrightarrow> users_wf s \<and> has_admin s \<and> ids_gone G s"

definition admin_besides :: "int \<Rightarrow> ('w, 'x) oam_db_scheme \<Rightarrow> bool" where
  "admin_besides i s \<longleftrightarrow> list_ex (\<lambda>u. is_admin u \<and> u_id u \<noteq> i) (users s)"

lemmas user_inv_defs = user_inv_def users_wf_def has_admin_def ids_gone_def

lemma admin_text [simp]: "u_role u = Some ''admin'' \<longleftrightarrow> is_admin u"
  by (simp add: is_admin_def RoleAdmin_def)

interpretation uinv: table_invariant "user_inv G :: ('w, 'x) oam_db_scheme \<Rightarrow> bool"
proof
  fix s s' :: "('w, 'x) oam_db_scheme"
  assume st: "same_tables s s'" and "user_inv G s"
  moreover from st have "seqs s ''users'' \<le> seqs s' ''users''" by (simp add: same_tables_def)
  ultimately show "user_inv G s'" by (auto simp: user_inv_defs same_tables_oam list_all_iff)
qed

lemma take_seq_simps [simp]:
  "users (take_seq t s) = users s" "api_tokens (take_seq t s) = api_tokens s"
  "seqs (take_seq t s) t' = (if t' = t then seqs s t + 1 else seqs s t')"
  by (simp_all add: take_seq_def)

lemma insert_user_inv:
  assumes "user_inv G s"
  shows "user_inv G (snd (insert_user name email pw role s))"
  using assms by (fastforce simp: insert_user_def Let_def user_inv_defs new_user_def unique_by_append1 list_all_iff)

lemma update_user_inv:
  assumes "user_inv G s" and keep_id: "\<And>u. u_id (f u) = u_id u"
    and adm: "(\<forall>u. is_admin u \<longrightarrow> is_admin (f u)) \<or> admin_besides i s"
  shows "user_inv G (snd (update_user i f s))"
proof -
  let ?rows = "upd_where (\<lambda>u. u_id u = i) f (users s)"
  have uid: "unique_by u_id ?rows" using assms by (intro unique_by_upd_where) (auto simp: user_inv_defs)
  moreover have "\<forall>u \<in> set ?rows. u_id u < seqs s ''users''"
    using assms by (auto simp: user_inv_defs set_upd_where list_all_iff)
  moreover have "list_ex is_admin ?rows"
    using assms(1) adm unfolding user_inv_def has_admin_def admin_besides_def set_upd_where list_ex_iff by blast
  moreover have "u_id ` set ?rows = u_id ` set (users s)"
    using map_upd_where [of "users s" "\<lambda>u. u_id u = i" u_id f] keep_id by (metis list.set_map)
  ultimately show ?thesis
    using assms(1) uid by (simp add: update_user_def Let_def user_inv_defs list_all_iff)
qed

lemma delete_users_inv:
  assumes "user_inv G s" and "admin_besides i s"
  shows "user_inv G (delete_users_where (\<lambda>u. u_id u = i) s)"
  using assms unfolding user_inv_defs admin_besides_def delete_users_where_def Let_def
  by (auto simp: set_del_where list_all_iff list_ex_iff intro: unique_by_del_where)

section \<open>The last administrator\<close>

lemma one_of_two:
  assumes "unique_by u_id us" and "1 < count_where is_admin us"
  shows "list_ex (\<lambda>u. is_admin u \<and> u_id u \<noteq> i) us"
proof (rule ccontr)
  assume none: "\<not> ?thesis"
  have "distinct (map u_id (filter is_admin us))"
    using assms(1) by (simp add: unique_by_def distinct_map_filter)
  moreover from none have "set (map u_id (filter is_admin us)) \<subseteq> {i}" by (auto simp: list_ex_iff)
  ultimately have "length (map u_id (filter is_admin us)) \<le> 1"
    by (metis card.empty card_insert_disjoint card_mono distinct_card empty_iff finite.emptyI finite_insert One_nat_def)
  with assms(2) show False by (simp add: count_where_def)
qed

lemma other_admin:
  assumes "user_inv G s" and "find_row (\<lambda>u. u_id u = i) (users s) = Some u" and "\<not> is_admin u"
  shows "admin_besides i s"
proof -
  from assms(1) obtain x where x: "x \<in> set (users s)" "is_admin x" by (auto simp: user_inv_defs list_ex_iff)
  with assms have "u_id x \<noteq> i" by (auto simp: user_inv_defs dest!: find_row_Some dest: unique_by_eq)
  with x show ?thesis by (auto simp: admin_besides_def list_ex_iff)
qed

lemma role_query_ok:
  "(case r of None \<Rightarrow> err NoRows | Some u \<Rightarrow> scan_text (u_role u)) = ok role \<longleftrightarrow> (\<exists>u. r = Some u \<and> u_role u = Some role)"
  by (auto simp: scan_text_def split: option.splits)

lemma protectLastAdmin_ok:
  "hoare (user_inv G) (protectLastAdmin ident remains)
     (\<lambda>r s. user_inv G s \<and> (r = ok () \<longrightarrow> (\<exists>i. ident = Some i \<and> (remains \<or> admin_besides i s))))"
proof (cases ident)
  case None
  show ?thesis unfolding protectLastAdmin_def None option.case
    by (rule uinv.hoare_check_query, simp, rule hoare_weaken [OF uinv.hoare_check_query [where Q = "\<lambda>r s. user_inv G s \<and> r \<noteq> ok ()"]])
      (auto simp: hoare_def)
next
  case (Some i)
  let ?R = "\<lambda>role s :: ('a, 'b) oam_db_scheme. user_inv G s \<and> (role = ''admin'' \<or> admin_besides i s)"
  have count: "hoare (user_inv G)
      (check UDb (db_query (\<lambda>s :: ('a, 'b) oam_db_scheme. ok (count_where is_admin (users s))))
        (\<lambda>count. if count \<le> 1 then ret (err ErrAdminDeletion) else ret (ok ())))
      (\<lambda>r s. user_inv G s \<and> (r = ok () \<longrightarrow> admin_besides i s))"
    by (rule uinv.hoare_check_query)
      (auto simp: hoare_def user_inv_defs admin_besides_def intro: one_of_two)
  have step: "hoare (user_inv G)
      (check (\<lambda>e. if e = NoRows then ErrUserNotFound else UDb e)
        (db_query (\<lambda>s :: ('a, 'b) oam_db_scheme.
          case find_row (\<lambda>u. u_id u = i) (users s) of None \<Rightarrow> err NoRows | Some u \<Rightarrow> scan_text (u_role u)))
        (\<lambda>role. if role = ''admin'' \<and> \<not> remains
          then check UDb (db_query (\<lambda>s. ok (count_where is_admin (users s))))
            (\<lambda>count. if count \<le> 1 then ret (err ErrAdminDeletion) else ret (ok ()))
          else ret (ok ())))
      (\<lambda>r s. user_inv G s \<and> (r = ok () \<longrightarrow> remains \<or> admin_besides i s))"
  proof (rule uinv.hoare_check_query, unfold role_query_ok, goal_cases)
    case (2 role)
    show ?case
    proof (rule hoare_if, goal_cases)
      case 1
      show ?case by (rule hoare_weaken [OF count]) auto
    next
      case 2
      then show ?case by (intro hoare_return) (auto simp: is_admin_def RoleAdmin_def dest!: other_admin)
    qed
  qed simp
  show ?thesis
    unfolding protectLastAdmin_def Some option.case select_user_def admin_text
    by (rule uinv.hoare_check_query) (auto intro!: hoare_weaken [OF step])
qed

section \<open>Every operation keeps the invariant\<close>

lemma preserves_validatePassword: "table_invariant I \<Longrightarrow> preserves I (validatePassword C U n p)"
  unfolding validatePassword_def by (intro hoare_rules table_invariant.preserves_query)

lemma preserves_select_user: "table_invariant I \<Longrightarrow> preserves I (select_user p f)"
  unfolding select_user_def by (rule table_invariant.preserves_query)

lemma preserves_name_taken: "table_invariant I \<Longrightarrow> preserves I (name_taken n)"
  unfolding name_taken_def by (intro hoare_rules preserves_select_user)

lemma AddUserWithArgs_inv: "preserves (user_inv G) (AddUserWithArgs E salt name email password)"
  unfolding AddUserWithArgs_def RetryOperation_once
  by (intro hoare_rules preserves_name_taken preserves_validatePassword uinv.preserves_stmt
      uinv.table_invariant_axioms insert_user_inv)

lemma CreateUserWithRole_inv: "preserves (user_inv G) (CreateUserWithRole E salt name email password role)"
  unfolding CreateUserWithRole_def RetryOperation_once
  by (intro hoare_rules preserves_name_taken preserves_validatePassword uinv.preserves_stmt uinv.preserves_with_tx
      uinv.table_invariant_axioms insert_user_inv)

text \<open>What the collected assignments may contain.\<close>

definition plan_ok :: "(string \<times> json) list \<Rightarrow> update_plan \<Rightarrow> bool" where
  "plan_ok updates pl \<longleftrightarrow> (\<forall>c \<in> set (setParts pl). case c of
      SetRole r \<Rightarrow> roleChanged pl \<and> IsValidRole r \<and> (''role'', JString r) \<in> set updates
    | SetPassword h \<Rightarrow> passwordChanged pl
    | SetUsername n \<Rightarrow> n \<noteq> []
    | SetEmail m \<Rightarrow> True)"

lemma plan_ok_snoc:
  "plan_ok us pl \<Longrightarrow> n \<noteq> [] \<Longrightarrow> plan_ok us (pl\<lparr>setParts := setParts pl @ [SetUsername n]\<rparr>)"
  "plan_ok us pl \<Longrightarrow> plan_ok us (pl\<lparr>setParts := setParts pl @ [SetEmail m]\<rparr>)"
  "plan_ok us pl \<Longrightarrow> IsValidRole r \<Longrightarrow> (''role'', JString r) \<in> set us \<Longrightarrow>
     plan_ok us (pl\<lparr>setParts := setParts pl @ [SetRole r], roleChanged := True\<rparr>)"
  "plan_ok us pl \<Longrightarrow> plan_ok us (pl\<lparr>setParts := setParts pl @ [SetPassword h], passwordChanged := True\<rparr>)"
  by (auto simp: plan_ok_def split: column_set.splits)

lemma collect_updates_ok:
  assumes "table_invariant I" and "plan_ok updates pl" and "set rest \<subseteq> set updates"
  shows "hoare I (collect_updates E salt existing updates rest pl)
    (\<lambda>r s. I s \<and> (\<forall>pl'. r = ok pl' \<longrightarrow> plan_ok updates pl'))"
  using assms(2,3)
proof (induction rest arbitrary: pl)
  case (Cons x rest)
  obtain field val where x: "x = (field, val)" by force
  show ?case
  proof (cases val)
    case (JString v)
    have pw: "hoare I (check PasswordValidationFailed (validatePassword (env_crypto E) (env_unicode E) n v) (\<lambda>_.
               case HashPassword (env_crypto E) salt v of
                 Inl e \<Rightarrow> ret (err (HashFailed e))
               | Inr hashed \<Rightarrow> collect_updates E salt existing updates rest
                   (pl\<lparr>setParts := setParts pl @ [SetPassword hashed], passwordChanged := True\<rparr>)))
      (\<lambda>r s. I s \<and> (\<forall>pl'. r = ok pl' \<longrightarrow> plan_ok updates pl'))" for n
      using Cons.prems
      by (intro hoare_check [where R = "\<lambda>_. I"] hoare_weaken [OF preserves_validatePassword [OF assms(1)]] hoare_case_sum
          hoare_return Cons.IH plan_ok_snoc(4))
        (auto split: sum.splits)
    from Cons.prems have v: "(field, JString v) \<in> set updates" by (simp add: x JString)
    have sub: "set rest \<subseteq> set updates" using Cons.prems by simp
    show ?thesis
      unfolding x JString collect_updates.simps json.case Let_def
      by (intro hoare_if pw Cons.IH sub plan_ok_snoc Cons.prems(1) hoare_return) (use v in auto)
  qed (use Cons x in auto)
qed (auto intro: hoare_return)

lemma apply_set_id [simp]: "u_id (apply_set c u) = u_id u"
  by (cases c) auto

lemma apply_sets_id: "u_id (fold apply_set cs u) = u_id u"
  by (induction cs arbitrary: u) auto

lemma apply_plan_id [simp]: "u_id (apply_plan pl u) = u_id u"
  by (simp add: apply_plan_def apply_sets_id)

lemma apply_sets_admin:
  "(\<And>r. SetRole r \<in> set cs \<Longrightarrow> r = RoleAdmin) \<Longrightarrow> is_admin u \<Longrightarrow> is_admin (fold apply_set cs u)"
proof (induction cs arbitrary: u)
  case (Cons c cs)
  then have "is_admin (apply_set c u)" by (cases c) (auto simp: is_admin_def)
  with Cons show ?case by auto
qed simp

lemma apply_plan_admin:
  assumes "plan_ok (AList.clearjunk req) pl"
    and "roleChanged pl \<Longrightarrow> map_of (AList.clearjunk req) ''role'' = Some (JString ''admin'')" and "is_admin u"
  shows "is_admin (apply_plan pl u)"
  unfolding apply_plan_def
proof (rule apply_sets_admin)
  fix r
  assume "SetRole r \<in> set (setParts pl)"
  with assms(1) have "roleChanged pl" and "(''role'', JString r) \<in> set (AList.clearjunk req)" by (auto simp: plan_ok_def)
  with assms(2) show "r = RoleAdmin" by (simp add: RoleAdmin_def)
qed (rule assms(3))

lemma admin_guard_stable:
  "table_invariant (\<lambda>s :: ('w, 'x) oam_db_scheme. user_inv G s \<and> F (\<lambda>i. admin_besides i s))"
proof (rule table_invariant_conj [OF uinv.table_invariant_axioms], rule table_invariant.intro)
  fix s s' :: "('w, 'x) oam_db_scheme"
  assume "same_tables s s'"
  then have "admin_besides i s' = admin_besides i s" for i by (simp add: admin_besides_def same_tables_oam)
  then show "F (\<lambda>i. admin_besides i s) \<Longrightarrow> F (\<lambda>i. admin_besides i s')" by simp
qed

lemma update_user_step:
  assumes "plan_ok (AList.clearjunk req) pl"
  shows "hoare (\<lambda>s. user_inv G s \<and> (roleChanged pl \<longrightarrow> map_of (AList.clearjunk req) ''role'' = Some (JString ''admin'') \<or> admin_besides i s))
    (db_stmt (update_user i (apply_plan pl))) (\<lambda>r s. user_inv G s)"
proof (rule table_invariant.hoare_stmt)
  show "table_invariant (\<lambda>s :: ('a, 'b) oam_db_scheme. user_inv G s \<and>
      (roleChanged pl \<longrightarrow> map_of (AList.clearjunk req) ''role'' = Some (JString ''admin'') \<or> admin_besides i s))"
    by (rule admin_guard_stable)
next
  fix s :: "('a, 'b) oam_db_scheme"
  assume s: "user_inv G s \<and> (roleChanged pl \<longrightarrow> map_of (AList.clearjunk req) ''role'' = Some (JString ''admin'') \<or> admin_besides i s)"
  then have "user_inv G (snd (update_user i (apply_plan pl) s))"
    by (intro update_user_inv) (auto intro: apply_plan_admin [OF assms])
  then show "user_inv G (snd (update_user i (apply_plan pl) s)) \<and> user_inv G (snd (update_user i (apply_plan pl) s))" by simp
qed simp

lemma preserves_delete_tokens: "preserves (user_inv G) (db_stmt (delete_tokens_of owner))"
  by (rule uinv.preserves_stmt) (simp add: delete_tokens_of_def user_inv_defs unique_by_del_where)

lemma write_update_inv:
  assumes pl: "plan_ok (AList.clearjunk req) pl"
  shows "preserves (user_inv G) (write_update i (AList.clearjunk req) pl)"
proof -
  let ?us = "AList.clearjunk req"
  let ?G = "\<lambda>s :: ('a, 'b) oam_db_scheme. user_inv G s \<and>
    (roleChanged pl \<longrightarrow> map_of ?us ''role'' = Some (JString ''admin'') \<or> admin_besides i s)"
  have guard: "hoare (user_inv G) (if roleChanged pl
        then protectLastAdmin (Some i) (map_of ?us ''role'' = Some (JString ''admin'')) else ret (ok ()))
      (on_ok ?G)"
    by (intro hoare_if hoare_weaken [OF protectLastAdmin_ok [where G = G]] hoare_return) (auto simp: on_ok_def split: sum.splits)
  have finish: "preserves (user_inv G) (if passwordChanged pl
        then check RevokeFailed (db_stmt (delete_tokens_of (itoa i))) (\<lambda>_. ret (ok ())) else ret (ok ()))"
    by (intro hoare_if preserves_check preserves_return preserves_delete_tokens)
  show ?thesis
    unfolding write_update_def
  proof (rule hoare_if)
    show "preserves (user_inv G) (with_tx BeginFailed CommitFailed (
       check id (if roleChanged pl
           then protectLastAdmin (Some i) (map_of ?us ''role'' = Some (JString ''admin'')) else ret (ok ())) (\<lambda>_.
       check update_error (db_stmt (update_user i (apply_plan pl))) (\<lambda>_.
         if passwordChanged pl
         then check RevokeFailed (db_stmt (delete_tokens_of (itoa i))) (\<lambda>_. ret (ok ()))
         else ret (ok ())))) :: ('a, 'b, unit) user_m)"
      by (rule uinv.hoare_with_tx [OF _ uinv.table_invariant_axioms], rule hoare_check_ok [OF guard],
          rule hoare_check_ok [OF hoare_on_ok [OF update_user_step [OF pl, where G = G]]], rule hoare_on_ok [OF finish])
    show "preserves (user_inv G) (check update_error (db_stmt (update_user i (apply_plan pl))) (\<lambda>_. ret (ok ())) :: ('a, 'b, unit) user_m)"
      if "\<not> (passwordChanged pl \<or> roleChanged pl)"
      by (intro preserves_check preserves_return hoare_weaken [OF update_user_step [OF pl, where G = G]]) (use that in auto)
  qed
qed

lemma UpdateUser_inv: "preserves (user_inv G) (UpdateUser E salt userID req)"
  unfolding UpdateUser_def Let_def RetryOperation_once
proof (rule preserves_check [OF preserves_select_user [OF uinv.table_invariant_axioms]], goal_cases)
  case (1 existing)
  show ?case
  proof (rule hoare_check [where R = "\<lambda>pl s. user_inv G s \<and> plan_ok (AList.clearjunk req) pl"],
      rule hoare_weaken [OF collect_updates_ok [OF uinv.table_invariant_axioms]], goal_cases)
    case (5 pl)
    show ?case
    proof (cases "plan_ok (AList.clearjunk req) pl")
      case True
      show ?thesis
        by (rule hoare_weaken [where P' = "user_inv G" and Q' = "\<lambda>_. user_inv G"], intro hoare_if preserves_return write_update_inv True) auto
    qed (simp add: hoare_def)
  qed (auto simp: plan_ok_def split: sum.splits)
qed

lemma DeleteUser_inv: "preserves (user_inv G) (DeleteUser E ident)"
  unfolding DeleteUser_def RetryOperation_once
proof (rule uinv.hoare_with_tx [OF _ uinv.table_invariant_axioms])
  let ?G = "\<lambda>s :: ('a, 'b) oam_db_scheme. user_inv G s \<and> (\<exists>i. pg_int E ident = Some i \<and> admin_besides i s)"
  have del: "hoare ?G (db_stmt (delete_user_row (pg_int E ident))) (\<lambda>r s. user_inv G s)"
  proof (rule table_invariant.hoare_stmt)
    show "table_invariant ?G"
      by (rule admin_guard_stable)
  qed (auto simp: delete_user_row_def delete_users_inv)
  have guard: "hoare (user_inv G) (protectLastAdmin (pg_int E ident) False) (on_ok ?G)"
    by (rule hoare_weaken [OF protectLastAdmin_ok [where G = G]]) (auto simp: on_ok_def split: sum.splits)
  show "hoare (user_inv G) (check id (protectLastAdmin (pg_int E ident) False)
      (\<lambda>_. check UDb (db_stmt (delete_user_row (pg_int E ident))) (\<lambda>_. ret (ok ()))) :: ('a, 'b, unit) user_m) (on_ok (user_inv G))"
    by (rule hoare_check_ok [OF guard], rule hoare_check_ok [OF hoare_on_ok [OF del]], rule hoare_return_ok)
qed simp

end
