(* ===== verification/Sessions.thy ===== *)
theory Sessions
  imports Users
begin

text \<open>
  Credentials and sessions (\<^verbatim>\<open>internal/services/user_service.go\<close>): checking a login, issuing,
  validating and revoking API tokens, the first-setup and break-glass credential changes.
\<close>

section \<open>Checking credentials\<close>

definition ValidateUser :: "Env \<Rightarrow> string option \<Rightarrow> string \<Rightarrow> string \<Rightarrow> ('w, 'x, int) user_m" where
  "ValidateUser E salt username password = do {
     r \<leftarrow> retry None (do {
            q \<leftarrow> select_user (\<lambda>u. u_username u = username) (\<lambda>u. ok (u_id u, u_password u));
            case q of
              Inr row \<Rightarrow> ret (ok (Some row))
            | Inl e \<Rightarrow> if e = NoRows then ret (ok None) else ret (err e) });
     case r of
       Inl e \<Rightarrow> ret (err ErrSystemError)
     | Inr None \<Rightarrow> ret (err ErrUserNotFound)
     | Inr (Some (user_id, hashed)) \<Rightarrow>
         if VerifyPassword (env_crypto E) password hashed then
           (if NeedsRehash hashed then
              (case HashPassword (env_crypto E) salt password of
                 Inl e \<Rightarrow> ret (ok user_id)
               | Inr newHash \<Rightarrow> do {
                   _ \<leftarrow> db_stmt (\<lambda>s. (ok (), s\<lparr>users := upd_where (\<lambda>u. u_id u = user_id \<and> u_password u = hashed)
                          (\<lambda>u. u\<lparr>u_password := newHash\<rparr>) (users s)\<rparr>));
                   ret (ok user_id) })
            else ret (ok user_id))
         else ret (err ErrInvalidPassword) }"

section \<open>Tokens\<close>

text \<open>\<^verbatim>\<open>InsertTokenQuery\<close>, with the unique token value.\<close>

definition insert_token :: "string \<Rightarrow> string \<Rightarrow> string \<Rightarrow> int
    \<Rightarrow> ('w, 'x) oam_db_scheme \<Rightarrow> (db_err + unit) \<times> ('w, 'x) oam_db_scheme" where
  "insert_token token owner scopes expires s =
     (let ident = seqs s ''api_tokens''; s' = take_seq ''api_tokens'' s in
      if token \<in> set (map t_value (api_tokens s)) then (err (UniqueViolation ''uk_token_value''), s')
      else (ok (), s'\<lparr>api_tokens := api_tokens s @
        [\<lparr>t_id = ident, t_value = token, t_user = owner, t_scopes = scopes, t_expires = expires, t_created = db_now s\<rparr>]\<rparr>))"

definition token_lifetime :: "Env \<Rightarrow> int" where
  "token_lifetime E = TokenExpirationMinutes E * minute"

definition SaveTokenForCredentials :: "Env \<Rightarrow> int \<Rightarrow> string \<Rightarrow> string \<Rightarrow> string \<Rightarrow> ('w, 'x, unit) user_m" where
  "SaveTokenForCredentials E userID username password token = with_tx UDb UDb (
     check (\<lambda>e. if e = NoRows then ErrUserNotFound else UDb e)
       (select_user (\<lambda>u. u_id u = userID \<and> u_username u = username) (\<lambda>u. ok (u_password u))) (\<lambda>hash.
     if \<not> VerifyPassword (env_crypto E) password hash then ret (err ErrInvalidPassword)
     else do {
       now \<leftarrow> time_now;
       check UDb (db_stmt (insert_token token (itoa userID) [] (now + token_lifetime E))) (\<lambda>_. ret (ok ())) }))"

definition saveToken :: "Env \<Rightarrow> string \<Rightarrow> string \<Rightarrow> ('w, 'x, unit) user_m" where
  "saveToken E userId token = do {
     now \<leftarrow> time_now;
     check UDb (db_stmt (insert_token token userId (join '','' []) (now + token_lifetime E))) (\<lambda>_. ret (ok ())) }"

definition SaveToken :: "Env \<Rightarrow> string \<Rightarrow> string \<Rightarrow> ('w, 'x, unit) user_m" where
  "SaveToken E username token = saveToken E username token"

text \<open>\<^verbatim>\<open>ValidateTokenQuery\<close>: the token joined with its owner, while it has not expired.\<close>

definition token_row :: "string \<Rightarrow> ('w, 'x) oam_db_scheme \<Rightarrow> APIToken option" where
  "token_row token s =
     find_row (\<lambda>t. t_value t = token \<and> list_ex (\<lambda>u. itoa (u_id u) = t_user t) (users s) \<and> db_now s < t_expires t) (api_tokens s)"

definition ValidateToken :: "string \<Rightarrow> ('w, 'x, bool) user_m" where
  "ValidateToken token = do {
     r \<leftarrow> retry False (do {
            q \<leftarrow> db_query (\<lambda>s. case token_row token s of None \<Rightarrow> err NoRows | Some t \<Rightarrow> ok (t_user t));
            case q of Inr owner \<Rightarrow> ret (ok True) | Inl e \<Rightarrow> if e = NoRows then ret (ok False) else ret (err e) });
     case r of Inl e \<Rightarrow> ret (err (UDb e)) | Inr found \<Rightarrow> ret (ok found) }"

definition Logout :: "string \<Rightarrow> ('w, 'x, unit) user_m" where
  "Logout token = retry () (check UDb
     (db_stmt (\<lambda>s. (ok (), s\<lparr>api_tokens := del_where (\<lambda>t. t_value t = token) (api_tokens s)\<rparr>))) (\<lambda>_. ret (ok ())))"

definition PingDB :: "('w, 'x, unit) user_m" where
  "PingDB = retry () (check UDb (db_query (\<lambda>s. ok ())) (\<lambda>_. ret (ok ())))"

section \<open>Installation id and credential status\<close>

definition generateInstallationID :: "Env \<Rightarrow> int \<Rightarrow> string" where
  "generateInstallationID E now =
     (let data = itoa now @ ''-'' @ itoa (now div second) @ ''-'' @ ''oam-loxilb'' in
      ''OAM-INST-'' @ b64url_encode (take 16 (sha256_sum (env_crypto E) data)))"

definition insert_setting :: "string \<Rightarrow> string \<Rightarrow> ('w, 'x) oam_db_scheme \<Rightarrow> (db_err + unit) \<times> ('w, 'x) oam_db_scheme" where
  "insert_setting k v s =
     (if k \<in> set (map set_key (system_settings s)) then (err (UniqueViolation ''system_settings_setting_key_key''), s)
      else (ok (), s\<lparr>system_settings := system_settings s @
        [\<lparr>set_key = k, set_value = v, set_created = db_now s, set_updated = db_now s\<rparr>]\<rparr>))"

definition GetSystemInstallationID :: "Env \<Rightarrow> ('w, 'x, string) user_m" where
  "GetSystemInstallationID E = do {
     q \<leftarrow> db_query (\<lambda>s. case find_row (\<lambda>r. set_key r = ''installation_id'') (system_settings s) of
            None \<Rightarrow> err NoRows | Some r \<Rightarrow> ok (set_value r));
     case q of
       Inr v \<Rightarrow> ret (ok v)
     | Inl e \<Rightarrow>
         if e = NoRows then do {
           now \<leftarrow> time_now;
           (let ident = generateInstallationID E now in
            check UDb (db_stmt (insert_setting ''installation_id'' ident)) (\<lambda>_. ret (ok ident))) }
         else ret (err (UDb e)) }"

definition CheckDefaultAdminCredentials :: "Env \<Rightarrow> ('w, 'x, bool \<times> int) user_m" where
  "CheckDefaultAdminCredentials E = do {
     q \<leftarrow> select_user (\<lambda>u. u_username u = ''admin'' \<and> u_role u = Some ''admin'') (\<lambda>u. ok (u_id u, u_password u));
     case q of
       Inl e \<Rightarrow> if e = NoRows then ret (ok (False, 0)) else ret (err (UDb e))
     | Inr (userID, hashed) \<Rightarrow>
         ret (ok (VerifyDefaultPassword (env_crypto E) (DefaultConfigPassword E) hashed, userID)) }"

record AdminCredentialStatus =
  NeedsCredentialUpdate :: bool
  AdminExists :: bool
  HasDefaultCredentials_f :: bool
  CredentialsUpdated :: bool
  InstallationID :: string
  AdminUserID :: int

definition credential_status :: "bool \<Rightarrow> int \<Rightarrow> bool \<Rightarrow> string \<Rightarrow> AdminCredentialStatus" where
  "credential_status hasDefault adminUserID credentialsUpdated installationID =
     \<lparr>NeedsCredentialUpdate = (hasDefault \<and> \<not> credentialsUpdated), AdminExists = (adminUserID > 0),
      HasDefaultCredentials_f = hasDefault, CredentialsUpdated = credentialsUpdated,
      InstallationID = installationID, AdminUserID = adminUserID\<rparr>"

definition GetAdminCredentialStatus :: "Env \<Rightarrow> ('w, 'x, AdminCredentialStatus) user_m" where
  "GetAdminCredentialStatus E = check id (CheckDefaultAdminCredentials E) (\<lambda>(hasDefault, adminUserID).
     check UDb (if adminUserID > 0
                then select_user (\<lambda>u. u_id u = adminUserID) (\<lambda>u. ok (u_cred_updated u = Some True))
                else ret (ok False)) (\<lambda>credentialsUpdated. do {
       inst \<leftarrow> GetSystemInstallationID E;
       ret (ok (credential_status hasDefault adminUserID credentialsUpdated
         (case inst of Inl _ \<Rightarrow> [] | Inr v \<Rightarrow> v))) }))"

definition HasDefaultCredentials :: "Env \<Rightarrow> int \<Rightarrow> ('w, 'x, bool) user_m" where
  "HasDefaultCredentials E userID = check UDb (select_user (\<lambda>u. u_id u = userID) (\<lambda>u. ok (u_password u))) (\<lambda>hashed.
     ret (ok (VerifyDefaultPassword (env_crypto E) (DefaultConfigPassword E) hashed)))"

definition MarkCredentialsUpdated :: "int \<Rightarrow> ('w, 'x, unit) user_m" where
  "MarkCredentialsUpdated userID = check UDb (db_stmt (\<lambda>s. update_user userID
     (\<lambda>u. u\<lparr>u_cred_updated := Some True, u_cred_updated_at := Some (db_now s)\<rparr>) s)) (\<lambda>_. ret (ok ()))"

section \<open>Replacing the administrator's credentials\<close>

text \<open>The upsert of one \<^verbatim>\<open>system_config\<close> key.\<close>

definition upsert_config :: "string \<Rightarrow> string \<Rightarrow> ('w, 'x) oam_db_scheme \<Rightarrow> (db_err + unit) \<times> ('w, 'x) oam_db_scheme" where
  "upsert_config k v s =
     (if k \<in> set (map set_key (system_config s))
      then (ok (), s\<lparr>system_config := upd_where (\<lambda>r. set_key r = k) (\<lambda>r. r\<lparr>set_value := v, set_updated := db_now s\<rparr>) (system_config s)\<rparr>)
      else (ok (), s\<lparr>system_config := system_config s @
        [\<lparr>set_key = k, set_value = v, set_created = db_now s, set_updated = db_now s\<rparr>]\<rparr>))"

definition new_credentials :: "string \<Rightarrow> string \<Rightarrow> string \<Rightarrow> int \<Rightarrow> User \<Rightarrow> User" where
  "new_credentials name hash email now u =
     u\<lparr>u_username := name, u_password := hash, u_email := Some email,
       u_cred_updated := Some True, u_cred_updated_at := Some now, u_must_change := Some False\<rparr>"

text \<open>The writes at the end of the transaction.\<close>

definition replace_credentials :: "int \<Rightarrow> string \<Rightarrow> string \<Rightarrow> string \<Rightarrow> ('w, 'x, unit) user_m" where
  "replace_credentials userID newUsername hash newEmail =
     check UDb (db_stmt (\<lambda>s. update_user userID (new_credentials newUsername hash newEmail (db_now s)) s)) (\<lambda>_.
     check UDb (db_stmt (upsert_config ''admin_credentials_updated'' ''true'')) (\<lambda>_.
     check RevokeFailed (db_stmt (delete_tokens_of (itoa userID))) (\<lambda>_. ret (ok ()))))"

definition UpdateAdminCredentials ::
    "Env \<Rightarrow> string option \<Rightarrow> string \<Rightarrow> string \<Rightarrow> string \<Rightarrow> string \<Rightarrow> string \<Rightarrow> ('w, 'x, unit) user_m" where
  "UpdateAdminCredentials E salt currentUsername currentPassword newUsername newPassword newEmail =
     db_retry () (with_tx BeginFailed CommitFailed (
       check (\<lambda>e. if e = NoRows then AdminNotFound else UDb e)
         (select_user (\<lambda>u. u_username u = currentUsername \<and> u_role u = Some ''admin'') (\<lambda>u. ok (u_id u, u_password u)))
         (\<lambda>(userID, hashed).
       if \<not> VerifyPassword (env_crypto E) currentPassword hashed then ret (err CurrentPasswordIncorrect)
       else check PasswordValidationFailed (validatePassword (env_crypto E) (env_unicode E) newUsername newPassword) (\<lambda>_.
       check id (if newUsername \<noteq> currentUsername
                 then do {
                   q \<leftarrow> select_user (\<lambda>u. u_username u = newUsername \<and> u_id u \<noteq> userID) (\<lambda>u. ok (u_id u));
                   case q of
                     Inr _ \<Rightarrow> ret (err UsernameExists)
                   | Inl e \<Rightarrow> if e = NoRows then ret (ok ()) else ret (err (UDb e)) }
                 else ret (ok ())) (\<lambda>_.
       case HashPassword (env_crypto E) salt newPassword of
         Inl e \<Rightarrow> ret (err (HashFailed e))
       | Inr hash \<Rightarrow> replace_credentials userID newUsername hash newEmail)))))"

definition default_admin_email :: string where "default_admin_email = ''admin@oam-loxilb.local''"

definition default_credentials :: "string \<Rightarrow> User \<Rightarrow> User" where
  "default_credentials hash u =
     u\<lparr>u_username := ''admin'', u_email := Some default_admin_email, u_password := hash, u_cred_updated := Some False\<rparr>"

definition ResetAdminToDefault :: "Env \<Rightarrow> string option \<Rightarrow> ('w, 'x, int) user_m" where
  "ResetAdminToDefault E salt = db_retry 0 (with_tx BeginFailed CommitFailed (do {
     q \<leftarrow> select_user (\<lambda>u. u_role u = Some ''admin'') (\<lambda>u. ok (u_id u));
     check id
       (case q of
          Inl e \<Rightarrow>
            if e = NoRows then
              (case HashPassword (env_crypto E) salt (DefaultConfigPassword E) of
                 Inl h \<Rightarrow> ret (err (HashFailed h))
               | Inr hash \<Rightarrow> check UDb (db_stmt (insert_user ''admin'' default_admin_email hash ''admin'')) (\<lambda>ident. ret (ok ident)))
            else ret (err (UDb e))
        | Inr existing \<Rightarrow>
            (case HashPassword (env_crypto E) salt (DefaultConfigPassword E) of
               Inl h \<Rightarrow> ret (err (HashFailed h))
             | Inr hash \<Rightarrow> check UDb (db_stmt (update_user existing (default_credentials hash))) (\<lambda>_. ret (ok existing))))
       (\<lambda>existing. check RevokeFailed (db_stmt (delete_tokens_of (itoa existing))) (\<lambda>_. ret (ok existing))) }))"

section \<open>Every operation keeps the account invariant\<close>

lemma uinv_tokens_only:
  assumes "user_inv G s" and "users s' = users s" and "seqs s' ''users'' = seqs s ''users''" and "unique_by t_value (api_tokens s')"
  shows "user_inv G s'"
  using assms by (simp add: user_inv_defs)

lemma insert_token_inv: "user_inv G s \<Longrightarrow> user_inv G (snd (insert_token tok owner sc ex s))"
  by (rule uinv_tokens_only [of G s]) (auto simp: insert_token_def Let_def unique_by_append1 user_inv_defs)

lemma del_tokens_inv: "user_inv G s \<Longrightarrow> user_inv G (s\<lparr>api_tokens := del_where p (api_tokens s)\<rparr>)"
  by (rule uinv_tokens_only [of G s]) (auto simp: user_inv_defs unique_by_del_where)

text \<open>A rewrite of rows that keeps ids, names and roles.\<close>

lemma same_identity_inv:
  assumes "user_inv G s"
    and f: "\<And>u. u_id (f u) = u_id u \<and> u_username (f u) = u_username u \<and> u_role (f u) = u_role u"
  shows "user_inv G (s\<lparr>users := upd_where p f (users s)\<rparr>)"
proof -
  have "map u_id (upd_where p f (users s)) = map u_id (users s)" by (rule map_upd_where) (use f in auto)
  then have "u_id ` set (upd_where p f (users s)) = u_id ` set (users s)" by (metis list.set_map)
  moreover have "unique_by u_id (upd_where p f (users s))" "unique_by u_username (upd_where p f (users s))"
    using assms by (auto simp: user_inv_defs intro!: unique_by_upd_where)
  moreover have "list_all (\<lambda>u. role_check (u_role u) \<and> u_id u < seqs s ''users'') (upd_where p f (users s))"
    using assms by (auto simp: user_inv_defs list_all_iff set_upd_where)
  moreover have "list_ex is_admin (upd_where p f (users s))"
    using assms by (intro list_ex_upd_where) (auto simp: user_inv_defs is_admin_def)
  ultimately show ?thesis using assms(1) by (simp add: user_inv_defs)
qed

lemma ValidateUser_inv: "preserves (user_inv G) (ValidateUser E salt username password)"
  unfolding ValidateUser_def RetryOperation_once
  by (intro hoare_rules preserves_select_user uinv.table_invariant_axioms uinv.preserves_stmt)
    (auto intro!: same_identity_inv)

lemma SaveTokenForCredentials_inv: "preserves (user_inv G) (SaveTokenForCredentials E i n p tok)"
  unfolding SaveTokenForCredentials_def
  by (intro hoare_rules uinv.preserves_db preserves_select_user uinv.table_invariant_axioms uinv.preserves_stmt insert_token_inv)

lemma SaveToken_inv: "preserves (user_inv G) (SaveToken E n tok)"
  unfolding SaveToken_def saveToken_def
  by (intro hoare_rules uinv.preserves_db uinv.preserves_stmt insert_token_inv)

lemma ValidateToken_inv: "preserves (user_inv G) (ValidateToken tok)"
  unfolding ValidateToken_def RetryOperation_once by (intro hoare_rules uinv.preserves_query)

lemma Logout_inv: "preserves (user_inv G) (Logout tok)"
  unfolding Logout_def RetryOperation_once
  by (intro hoare_rules uinv.preserves_stmt) (auto intro: del_tokens_inv)

lemma insert_setting_inv: "user_inv G s \<Longrightarrow> user_inv G (snd (insert_setting k v s))"
  by (auto simp: insert_setting_def user_inv_defs)

lemma upsert_config_inv: "user_inv G s \<Longrightarrow> user_inv G (snd (upsert_config k v s))"
  by (auto simp: upsert_config_def user_inv_defs)

lemma GetSystemInstallationID_inv: "preserves (user_inv G) (GetSystemInstallationID E)"
  unfolding GetSystemInstallationID_def
  by (intro hoare_rules uinv.preserves_db uinv.preserves_stmt insert_setting_inv)

lemma CheckDefaultAdminCredentials_inv: "preserves (user_inv G) (CheckDefaultAdminCredentials E)"
  unfolding CheckDefaultAdminCredentials_def
  by (intro hoare_rules preserves_select_user uinv.table_invariant_axioms)

lemma GetAdminCredentialStatus_inv: "preserves (user_inv G) (GetAdminCredentialStatus E)"
  unfolding GetAdminCredentialStatus_def
  by (intro hoare_rules CheckDefaultAdminCredentials_inv GetSystemInstallationID_inv preserves_select_user uinv.table_invariant_axioms)

lemma update_admin_kept:
  "user_inv G s \<Longrightarrow> (\<And>u. u_id (f u) = u_id u \<and> u_role (f u) = u_role u) \<Longrightarrow> user_inv G (snd (update_user i f s))"
  by (intro update_user_inv) (auto simp: is_admin_def)

lemma MarkCredentialsUpdated_inv: "preserves (user_inv G) (MarkCredentialsUpdated i)"
  unfolding MarkCredentialsUpdated_def
  by (intro hoare_rules uinv.preserves_stmt update_admin_kept) auto

lemma replace_credentials_inv: "preserves (user_inv G) (replace_credentials i n h m)"
  unfolding replace_credentials_def
  by (intro hoare_rules uinv.preserves_stmt update_admin_kept upsert_config_inv preserves_delete_tokens)
    (auto simp: new_credentials_def)

lemma UpdateAdminCredentials_inv: "preserves (user_inv G) (UpdateAdminCredentials E salt cu cp nu np ne)"
  unfolding UpdateAdminCredentials_def RetryOperation_once
  by (intro hoare_rules uinv.preserves_with_tx preserves_select_user preserves_validatePassword uinv.table_invariant_axioms
      replace_credentials_inv)

lemma ResetAdminToDefault_inv: "preserves (user_inv G) (ResetAdminToDefault E salt)"
  unfolding ResetAdminToDefault_def RetryOperation_once
  by (intro hoare_rules uinv.preserves_with_tx preserves_select_user uinv.table_invariant_axioms uinv.preserves_stmt
      insert_user_inv update_admin_kept preserves_delete_tokens)
    (auto simp: default_credentials_def)

section \<open>A changed password ends every session\<close>

text \<open>Users whose stored password differs from \<open>us\<close> own no token.\<close>

definition revoked_since :: "User list \<Rightarrow> ('w, 'x) oam_db_scheme \<Rightarrow> bool" where
  "revoked_since us s \<longleftrightarrow> (\<forall>u \<in> set us. \<forall>u' \<in> set (users s).
     u_id u' = u_id u \<and> u_password u' \<noteq> u_password u \<longrightarrow> (\<forall>t \<in> set (api_tokens s). t_user t \<noteq> itoa (u_id u)))"

text \<open>Only user \<open>i\<close> may have another password than in \<open>us\<close>.\<close>

definition changed_only :: "int \<Rightarrow> User list \<Rightarrow> ('w, 'x) oam_db_scheme \<Rightarrow> bool" where
  "changed_only i us s \<longleftrightarrow> (\<forall>u \<in> set us. \<forall>u' \<in> set (users s).
     u_id u' = u_id u \<and> u_password u' \<noteq> u_password u \<longrightarrow> u_id u = i)"

definition from_users :: "User list \<Rightarrow> ('w, 'x) oam_db_scheme \<Rightarrow> bool" where
  "from_users us s \<longleftrightarrow> users s = us \<and> unique_by u_id us"

interpretation from_users: table_invariant "from_users us :: ('w, 'x) oam_db_scheme \<Rightarrow> bool"
  by unfold_locales (simp add: from_users_def same_tables_oam)

interpretation changed_only: table_invariant "changed_only i us :: ('w, 'x) oam_db_scheme \<Rightarrow> bool"
  by unfold_locales (simp add: changed_only_def same_tables_oam)

interpretation revoked_since: table_invariant "revoked_since us :: ('w, 'x) oam_db_scheme \<Rightarrow> bool"
  by unfold_locales (simp add: revoked_since_def same_tables_oam)

lemma from_users_changed: "from_users us s \<Longrightarrow> changed_only i us s"
  by (auto simp: from_users_def changed_only_def dest: unique_by_eq)

lemma from_users_revoked: "from_users us s \<Longrightarrow> revoked_since us s"
  by (auto simp: from_users_def revoked_since_def dest: unique_by_eq)

lemma update_changed_only:
  assumes "from_users us s" and "\<And>u. u_id (f u) = u_id u"
  shows "changed_only i us (snd (update_user i f s))"
proof -
  have "changed_only i us s" using assms(1) by (rule from_users_changed)
  moreover have "changed_only i us (s\<lparr>users := upd_where (\<lambda>u. u_id u = i) f (users s)\<rparr>)"
    using assms by (auto simp: changed_only_def from_users_def set_upd_where) (metis unique_by_eq)+
  ultimately show ?thesis by (auto simp: update_user_def Let_def)
qed

lemma update_keeps_revoked:
  assumes "from_users us s" and "\<And>u. u_id (f u) = u_id u \<and> u_password (f u) = u_password u"
  shows "revoked_since us (snd (update_user i f s))"
proof -
  have "revoked_since us s" using assms(1) by (rule from_users_revoked)
  moreover have "revoked_since us (s\<lparr>users := upd_where (\<lambda>u. u_id u = i) f (users s)\<rparr>)"
    using assms by (auto simp: revoked_since_def from_users_def set_upd_where) (metis unique_by_eq)+
  ultimately show ?thesis by (auto simp: update_user_def Let_def)
qed

lemma revoke_step:
  "hoare (changed_only i us) (check RevokeFailed (db_stmt (delete_tokens_of (itoa i))) (\<lambda>_. ret (ok a)))
     (on_ok (revoked_since us))"
  by (rule hoare_check_ok [where R = "revoked_since us"], rule changed_only.hoare_stmt)
    (auto intro!: hoare_return simp: delete_tokens_of_def changed_only_def revoked_since_def set_del_where)

lemma preserves_protectLastAdmin: "table_invariant I \<Longrightarrow> preserves I (protectLastAdmin ident rem)"
  unfolding protectLastAdmin_def
  by (intro hoare_rules preserves_select_user table_invariant.preserves_query)

lemma update_step:
  assumes "\<And>u s. u_id (f s u) = u_id u"
  shows "hoare (from_users us) (db_stmt (\<lambda>s. update_user i (f s) s)) (\<lambda>_. changed_only i us)"
  by (rule from_users.hoare_stmt) (auto intro: from_users_changed update_changed_only [OF _ assms])

lemma apply_sets_password:
  "(\<And>h. SetPassword h \<notin> set cs) \<Longrightarrow> u_password (fold apply_set cs u) = u_password u"
proof (induction cs arbitrary: u)
  case (Cons c cs)
  have "u_password (apply_set c u) = u_password u" using Cons.prems [of "case c of SetPassword h \<Rightarrow> h"] by (cases c) auto
  with Cons show ?case by auto
qed simp

lemma update_plain_step:
  assumes "plan_ok upd pl" and "\<not> passwordChanged pl"
  shows "hoare (from_users us) (db_stmt (update_user i (apply_plan pl))) (\<lambda>_. revoked_since us)"
proof (rule from_users.hoare_stmt)
  have "u_password (apply_plan pl u) = u_password u" for u
    unfolding apply_plan_def using assms by (intro apply_sets_password) (auto simp: plan_ok_def split: column_set.splits)
  then show "revoked_since us (snd (update_user i (apply_plan pl) s)) \<and> revoked_since us (snd (update_user i (apply_plan pl) s))"
    if "from_users us s" for s :: "('a, 'b) oam_db_scheme" using that by (simp add: update_keeps_revoked)
qed (rule from_users_revoked)

lemma write_update_revokes:
  assumes pl: "plan_ok upd pl"
  shows "hoare (from_users us) (write_update i upd pl) (\<lambda>_. revoked_since us)"
proof -
  have guard: "hoare (from_users us) (if roleChanged pl then protectLastAdmin (Some i) b else ret (ok ())) (on_ok (from_users us))" for b
    by (intro hoare_on_ok hoare_if preserves_protectLastAdmin from_users.table_invariant_axioms preserves_return)
  note tx = from_users.hoare_with_tx [OF hoare_check_ok [OF guard] revoked_since.table_invariant_axioms from_users_revoked]
  show ?thesis
  proof (cases "passwordChanged pl")
    case True
    have upd: "hoare (from_users us) (db_stmt (update_user i (apply_plan pl))) (\<lambda>_. changed_only i us)"
      by (rule update_step) simp
    show ?thesis
      unfolding write_update_def if_P [OF True] if_P [OF disjI1 [OF True]]
      by (rule tx, rule hoare_check_ok [OF hoare_on_ok [OF upd]], rule revoke_step)
  next
    case False
    have upd: "hoare (from_users us) (db_stmt (update_user i (apply_plan pl))) (\<lambda>_. revoked_since us)"
      by (rule update_plain_step [OF pl False])
    have alone: "hoare (from_users us) (check update_error (db_stmt (update_user i (apply_plan pl))) (\<lambda>_. ret (ok ()))) (\<lambda>_. revoked_since us)"
      by (rule hoare_check [where R = "\<lambda>_. revoked_since us"], rule hoare_weaken [OF upd]) (auto intro!: hoare_return split: sum.splits)
    show ?thesis
      unfolding write_update_def if_not_P [OF False]
      by (rule hoare_if, rule tx, rule hoare_check_ok [OF hoare_on_ok [OF upd]], rule hoare_return_ok, assumption, rule alone)
  qed
qed

lemma UpdateUser_revokes: "hoare (from_users us) (UpdateUser E salt i req) (\<lambda>_. revoked_since us)"
  unfolding UpdateUser_def Let_def RetryOperation_once
proof (rule hoare_check [where R = "\<lambda>_. from_users us"], rule hoare_weaken [OF preserves_select_user [OF from_users.table_invariant_axioms]], goal_cases)
  case (3 existing)
  show ?case
  proof (rule hoare_check [where R = "\<lambda>pl s. from_users us s \<and> plan_ok (AList.clearjunk req) pl"],
      rule hoare_weaken [OF collect_updates_ok [OF from_users.table_invariant_axioms]], goal_cases)
    case (5 pl)
    show ?case
    proof (cases "plan_ok (AList.clearjunk req) pl")
      case True
      show ?thesis
        by (rule hoare_weaken [where P' = "from_users us" and Q' = "\<lambda>_. revoked_since us"],
            intro hoare_if hoare_return write_update_revokes True) (auto intro: from_users_revoked)
    qed (simp add: hoare_def)
  qed (auto simp: plan_ok_def intro: from_users_revoked split: sum.splits)
qed (auto intro: from_users_revoked split: sum.splits)

lemma replace_credentials_revokes:
  "hoare (from_users us) (replace_credentials i n h m) (on_ok (revoked_since us))"
proof -
  have upd: "hoare (from_users us) (db_stmt (\<lambda>s. update_user i (new_credentials n h m (db_now s)) s)) (\<lambda>_. changed_only i us)"
    by (rule update_step) (simp add: new_credentials_def)
  have cfg: "preserves (changed_only i us) (db_stmt (upsert_config k v))" for k v
    by (rule changed_only.preserves_stmt) (auto simp: upsert_config_def changed_only_def)
  show ?thesis
    unfolding replace_credentials_def
    by (rule hoare_check_ok [OF hoare_on_ok [OF upd]], rule hoare_check_ok [OF hoare_on_ok [OF cfg]], rule revoke_step)
qed

lemma preserves_name_check:
  "table_invariant I \<Longrightarrow> preserves I (if b then do { q \<leftarrow> select_user p f; case q of Inr _ \<Rightarrow> ret (err e1)
     | Inl e \<Rightarrow> if e = NoRows then ret (ok ()) else ret (err (UDb e)) } else ret (ok ()))"
  by (intro hoare_rules preserves_select_user)

lemma UpdateAdminCredentials_revokes:
  "hoare (from_users us) (UpdateAdminCredentials E salt cu cp nu np ne) (\<lambda>_. revoked_since us)"
  unfolding UpdateAdminCredentials_def RetryOperation_once
  by (rule from_users.hoare_with_tx [OF _ revoked_since.table_invariant_axioms from_users_revoked],
      rule hoare_check_ok [OF hoare_on_ok [OF preserves_select_user [OF from_users.table_invariant_axioms]]])
    (auto intro!: hoare_case_prod hoare_if hoare_case_sum replace_credentials_revokes
      hoare_check_ok [OF hoare_on_ok [OF preserves_validatePassword [OF from_users.table_invariant_axioms]]]
      hoare_check_ok [OF hoare_on_ok [OF preserves_name_check [OF from_users.table_invariant_axioms]]]
      hoare_return [where Q = "on_ok (revoked_since us)"])

lemma insert_changed_only:
  assumes "from_users us s"
  shows "changed_only i us (snd (insert_user n m h r s))"
  using assms by (auto simp: insert_user_def Let_def changed_only_def from_users_def new_user_def dest: unique_by_eq)

lemma ResetAdminToDefault_revokes:
  "hoare (from_users us) (ResetAdminToDefault E salt) (\<lambda>_. revoked_since us)"
proof -
  have ins: "hoare (from_users us) (check UDb (db_stmt (insert_user n m h r)) (\<lambda>ident. ret (ok ident)))
      (\<lambda>r s. \<forall>i. r = ok i \<longrightarrow> changed_only i us s)" for n m h r
    by (rule hoare_check [where R = "\<lambda>_ s. \<forall>i. changed_only i us s"], rule from_users.hoare_stmt)
      (auto intro!: hoare_return insert_changed_only split: sum.splits)
  have upd: "hoare (from_users us) (check UDb (db_stmt (update_user j (default_credentials h))) (\<lambda>_. ret (ok j)))
      (\<lambda>r s. \<forall>i. r = ok i \<longrightarrow> changed_only i us s)" for j h
    by (rule hoare_check [where R = "\<lambda>_. changed_only j us"], rule hoare_weaken [OF update_step])
      (auto intro!: hoare_return simp: default_credentials_def split: sum.splits)
  let ?store = "\<lambda>q. case q of
          Inl e \<Rightarrow>
            if e = NoRows then
              (case HashPassword (env_crypto E) salt (DefaultConfigPassword E) of
                 Inl h \<Rightarrow> ret (err (HashFailed h))
               | Inr hash \<Rightarrow> check UDb (db_stmt (insert_user ''admin'' default_admin_email hash ''admin'')) (\<lambda>ident. ret (ok ident)))
            else ret (err (UDb e))
        | Inr existing \<Rightarrow>
            (case HashPassword (env_crypto E) salt (DefaultConfigPassword E) of
               Inl h \<Rightarrow> ret (err (HashFailed h))
             | Inr hash \<Rightarrow> check UDb (db_stmt (update_user existing (default_credentials hash))) (\<lambda>_. ret (ok existing)))"
  have written: "hoare (from_users us) (?store q) (\<lambda>r s. \<forall>i. r = ok i \<longrightarrow> changed_only i us s)" for q
    by (intro hoare_case_sum hoare_if ins upd hoare_return) auto
  have "hoare (from_users us) (do {
      q \<leftarrow> select_user (\<lambda>u. u_role u = Some ''admin'') (\<lambda>u. ok (u_id u));
      check id (?store q)
       (\<lambda>existing. check RevokeFailed (db_stmt (delete_tokens_of (itoa existing))) (\<lambda>_. ret (ok existing))) })
      (on_ok (revoked_since us))"
    by (rule hoare_bind [OF preserves_select_user [OF from_users.table_invariant_axioms]],
        rule hoare_check [where R = "\<lambda>i. changed_only i us"], rule hoare_weaken [OF written])
      (auto intro: revoke_step split: sum.splits)
  then show ?thesis
    unfolding ResetAdminToDefault_def RetryOperation_once
    by (rule from_users.hoare_with_tx [OF _ revoked_since.table_invariant_axioms from_users_revoked])
qed

end
