(* ===== verification/Lockout.thy ===== *)
theory Lockout
  imports Password_Policy
begin

text \<open>
  Failed-login tracking per user name and client address
  (\<^verbatim>\<open>internal/services/user_service.go\<close>, the queries of \<^verbatim>\<open>internal/config/queries.go\<close>):
  the stored record, the exponential lockout, and how many guesses it lets through.
\<close>

section \<open>Operations\<close>

definition MaxFailedLoginAttempts :: int where "MaxFailedLoginAttempts = 5"
definition LoginLockoutBase :: int where "LoginLockoutBase = 1 * minute"
definition LoginLockoutMax :: int where "LoginLockoutMax = 15 * minute"
definition LoginAttemptWindow :: int where "LoginAttemptWindow = 10 * minute"

lemmas lockout_consts = MaxFailedLoginAttempts_def LoginLockoutBase_def LoginLockoutMax_def LoginAttemptWindow_def

definition attempt_key :: "string \<Rightarrow> string \<Rightarrow> LoginAttempt \<Rightarrow> bool" where
  "attempt_key username ip a \<longleftrightarrow> la_username a = username \<and> la_client_ip a = ip"

text \<open>
  \<^verbatim>\<open>GetLoginAttempt\<close> returns a zero record when there is no row; \<open>None\<close> stands for it (count
  zero, zero time, not blocked).
\<close>

definition GetLoginAttempt :: "string \<Rightarrow> string \<Rightarrow> (('w, 'x) oam_db_scheme, user_err + LoginAttempt option) state" where
  "GetLoginAttempt username clientIP = check UDb (retry None (do {
     q \<leftarrow> db_query (\<lambda>s. case find_row (attempt_key username clientIP) (login_attempts s) of None \<Rightarrow> err NoRows | Some a \<Rightarrow> ok a);
     case q of Inr a \<Rightarrow> ret (ok (Some a)) | Inl e \<Rightarrow> if e = NoRows then ret (ok None) else ret (err e) }))
     (\<lambda>a. ret (ok a))"

definition attempt_blocked :: "LoginAttempt option \<Rightarrow> int \<Rightarrow> bool" where
  "attempt_blocked a now = (case a of
      None \<Rightarrow> False
    | Some at \<Rightarrow> (case la_blocked_until at of None \<Rightarrow> False | Some b \<Rightarrow> now < b))"

text \<open>The remaining time is read against the process clock, the verdict against \<open>now\<close>.\<close>

definition IsLoginBlocked :: "string \<Rightarrow> string \<Rightarrow> int \<Rightarrow> (('w, 'x) oam_db_scheme, user_err + bool \<times> int) state" where
  "IsLoginBlocked username clientIP now = check id (GetLoginAttempt username clientIP) (\<lambda>a.
     if attempt_blocked a now then do {
       t \<leftarrow> time_now;
       ret (ok (True, (case a of Some at \<Rightarrow> (case la_blocked_until at of Some b \<Rightarrow> b - t | None \<Rightarrow> 0) | None \<Rightarrow> 0))) }
     else ret (ok (False, 0)))"

text \<open>The loop that doubles the lockout.\<close>

fun lockout_loop :: "nat \<Rightarrow> int \<Rightarrow> int" where
  "lockout_loop i duration =
     (if i > 1 \<and> duration < LoginLockoutMax then lockout_loop (i - 1) (duration * 2) else duration)"

declare lockout_loop.simps [simp del]

definition lockout_duration :: "int \<Rightarrow> int" where
  "lockout_duration newFailedCount =
     (let duration = lockout_loop (nat (newFailedCount - MaxFailedLoginAttempts)) LoginLockoutBase in
      if duration > LoginLockoutMax then LoginLockoutMax else duration)"

definition upsert_attempt :: "string \<Rightarrow> string \<Rightarrow> int \<Rightarrow> int option
    \<Rightarrow> ('w, 'x) oam_db_scheme \<Rightarrow> (db_err + unit) \<times> ('w, 'x) oam_db_scheme" where
  "upsert_attempt username ip now blocked s =
     (let s' = take_seq ''login_attempts'' s in
      if list_ex (attempt_key username ip) (login_attempts s)
      then (ok (), s'\<lparr>login_attempts := upd_where (attempt_key username ip)
             (\<lambda>a. a\<lparr>la_failed_count := la_failed_count a + 1, la_last_failed := now, la_blocked_until := blocked,
                   la_updated := db_now s\<rparr>) (login_attempts s)\<rparr>)
      else (ok (), s'\<lparr>login_attempts := login_attempts s @
             [\<lparr>la_id = seqs s ''login_attempts'', la_username = username, la_client_ip = ip, la_failed_count = 1,
               la_last_failed = now, la_blocked_until = blocked, la_created = db_now s, la_updated = db_now s\<rparr>]\<rparr>))"

definition reset_attempt :: "string \<Rightarrow> string \<Rightarrow> int
    \<Rightarrow> ('w, 'x) oam_db_scheme \<Rightarrow> (db_err + unit) \<times> ('w, 'x) oam_db_scheme" where
  "reset_attempt username ip now s =
     (ok (), s\<lparr>login_attempts := upd_where (attempt_key username ip)
        (\<lambda>a. a\<lparr>la_failed_count := 1, la_last_failed := now, la_blocked_until := None, la_updated := db_now s\<rparr>)
        (login_attempts s)\<rparr>)"

text \<open>
  The result is the lockout end, if one was set, with the error; the write can fail after
  the lockout end was computed.
\<close>

definition RecordFailedLogin ::
    "string \<Rightarrow> string \<Rightarrow> int \<Rightarrow> (('w, 'x) oam_db_scheme, int option \<times> (user_err + unit)) state" where
  "RecordFailedLogin username clientIP now = do {
     r \<leftarrow> GetLoginAttempt username clientIP;
     case r of
       Inl e \<Rightarrow> ret (None, err e)
     | Inr a \<Rightarrow>
         (let shouldReset = (case a of None \<Rightarrow> False | Some at \<Rightarrow> now - la_last_failed at > LoginAttemptWindow) in
          if shouldReset then do {
            w \<leftarrow> db_stmt (reset_attempt username clientIP now);
            ret (None, case w of Inl e \<Rightarrow> err (UDb e) | Inr _ \<Rightarrow> ok ()) }
          else
            (let newFailedCount = (case a of None \<Rightarrow> 0 | Some at \<Rightarrow> la_failed_count at) + 1;
                 blockedUntil = (if newFailedCount > MaxFailedLoginAttempts then Some (now + lockout_duration newFailedCount) else None) in
             do {
               w \<leftarrow> db_stmt (upsert_attempt username clientIP now blockedUntil);
               ret (blockedUntil, case w of Inl e \<Rightarrow> err (UDb e) | Inr _ \<Rightarrow> ok ()) })) }"

definition ClearLoginAttempts :: "string \<Rightarrow> string \<Rightarrow> (('w, 'x) oam_db_scheme, user_err + unit) state" where
  "ClearLoginAttempts username clientIP = retry () (check UDb
     (db_stmt (\<lambda>s. (ok (), s\<lparr>login_attempts := del_where (attempt_key username clientIP) (login_attempts s)\<rparr>))) (\<lambda>_. ret (ok ())))"

section \<open>The lockout schedule\<close>

lemma lockout_loop_pow:
  "0 < d \<Longrightarrow> d < LoginLockoutMax \<Longrightarrow>
   min LoginLockoutMax (lockout_loop (Suc k) d) = min LoginLockoutMax (d * 2 ^ k)"
proof (induction k arbitrary: d)
  case 0
  then show ?case by (subst lockout_loop.simps) simp
next
  case (Suc k)
  have unfold: "lockout_loop (Suc (Suc k)) d = lockout_loop (Suc k) (d * 2)"
    using Suc.prems by (subst lockout_loop.simps) simp
  show ?case
  proof (cases "d * 2 < LoginLockoutMax")
    case True
    with Suc.IH [of "d * 2"] Suc.prems show ?thesis by (simp add: unfold mult.assoc)
  next
    case False
    then have "lockout_loop (Suc k) (d * 2) = d * 2" by (subst lockout_loop.simps) simp
    moreover have "LoginLockoutMax \<le> d * 2 ^ Suc k"
    proof -
      have "d * 2 \<le> d * 2 * 2 ^ k" using Suc.prems by simp
      with False show ?thesis by (simp add: mult.assoc mult.left_commute)
    qed
    ultimately show ?thesis using False by (simp add: unfold)
  qed
qed

lemma lockout_duration_pow:
  assumes "MaxFailedLoginAttempts < n"
  shows "lockout_duration n = min LoginLockoutMax (LoginLockoutBase * 2 ^ nat (n - MaxFailedLoginAttempts - 1))"
proof -
  have "nat (n - MaxFailedLoginAttempts) = Suc (nat (n - MaxFailedLoginAttempts - 1))" using assms by linarith
  moreover have "0 < LoginLockoutBase" "LoginLockoutBase < LoginLockoutMax" by (simp_all add: lockout_consts duration_defs)
  ultimately show ?thesis
    using lockout_loop_pow [of LoginLockoutBase "nat (n - MaxFailedLoginAttempts - 1)"]
    by (auto simp: lockout_duration_def Let_def min_def split: if_splits)
qed

section \<open>One recorded failure\<close>

text \<open>What the lockout depends on: failures counted, time of the last one, end of the lockout.\<close>

type_synonym attempt_view = "int \<times> int \<times> int option"

definition attempt_view :: "string \<Rightarrow> string \<Rightarrow> ('w, 'x) oam_db_scheme \<Rightarrow> attempt_view option" where
  "attempt_view username ip s = map_option (\<lambda>a. (la_failed_count a, la_last_failed a, la_blocked_until a))
     (find_row (attempt_key username ip) (login_attempts s))"

text \<open>The specification of a failure at \<open>now\<close>.\<close>

definition fail_step :: "attempt_view option \<Rightarrow> int \<Rightarrow> attempt_view" where
  "fail_step a now = (case a of
      None \<Rightarrow> (1, now, None)
    | Some (c, l, b) \<Rightarrow>
        if now - l > LoginAttemptWindow then (1, now, None)
        else (c + 1, now,
          if c + 1 > MaxFailedLoginAttempts
          then Some (now + min LoginLockoutMax (LoginLockoutBase * 2 ^ nat (c - MaxFailedLoginAttempts)))
          else None))"

lemma find_row_upd_where:
  "(\<And>r. p r \<Longrightarrow> p (f r)) \<Longrightarrow> find_row p (upd_where p f rows) = map_option f (find_row p rows)"
  by (induction rows) auto

lemma find_attempt_upd:
  "(\<And>a. la_username (f a) = la_username a \<and> la_client_ip (f a) = la_client_ip a) \<Longrightarrow>
   find_row (attempt_key u ip) (upd_where (attempt_key u ip) f rows) = map_option f (find_row (attempt_key u ip) rows)"
  by (rule find_row_upd_where) (simp add: attempt_key_def)

lemma find_row_append_new:
  "\<not> list_ex p rows \<Longrightarrow> p r \<Longrightarrow> find_row p (rows @ [r]) = Some r"
  by (induction rows) auto

lemma view_same_tables: "same_tables s s' \<Longrightarrow> attempt_view u ip s' = attempt_view u ip s"
  by (simp add: attempt_view_def same_tables_oam)

lemma GetLoginAttempt_ok:
  assumes "run_state (GetLoginAttempt u ip) s = (ok a, s')"
  shows "same_tables s s' \<and> a = find_row (attempt_key u ip) (login_attempts s)"
  using assms
  by (auto simp: GetLoginAttempt_def run_simps same_tables_def split: list.splits outcome.splits option.splits sum.splits)

lemma upsert_view:
  "attempt_view u ip (snd (upsert_attempt u ip now b s)) =
     Some (case attempt_view u ip s of None \<Rightarrow> (1, now, b) | Some (c, l, b') \<Rightarrow> (c + 1, now, b))"
proof (cases "find_row (attempt_key u ip) (login_attempts s)")
  case None
  then have "\<not> list_ex (attempt_key u ip) (login_attempts s)" by (auto simp: find_row_None list_ex_iff)
  with None show ?thesis
    by (simp add: attempt_view_def upsert_attempt_def Let_def find_row_append_new attempt_key_def)
next
  case (Some a)
  then have "list_ex (attempt_key u ip) (login_attempts s)" by (auto simp: list_ex_iff dest: find_row_Some)
  with Some show ?thesis
    by (simp add: attempt_view_def upsert_attempt_def Let_def find_attempt_upd)
qed

lemma reset_view:
  "attempt_view u ip s = Some v \<Longrightarrow> attempt_view u ip (snd (reset_attempt u ip now s)) = Some (1, now, None)"
  by (auto simp: attempt_view_def reset_attempt_def find_attempt_upd)

lemma fail_step_fresh: "fail_step None now = (1, now, None)"
  by (simp add: fail_step_def)

lemma RecordFailedLogin_step:
  assumes "run_state (RecordFailedLogin u ip now) s = ((b, ok ()), s')"
  shows "attempt_view u ip s' = Some (fail_step (attempt_view u ip s) now) \<and> b = snd (snd (fail_step (attempt_view u ip s) now))"
proof -
  obtain r s1 where g: "run_state (GetLoginAttempt u ip) s = (r, s1)" by force
  obtain a where r: "r = ok a" using assms g by (cases r) (auto simp: RecordFailedLogin_def)
  from GetLoginAttempt_ok [OF g [unfolded r]]
  have st: "same_tables s s1" and a: "a = find_row (attempt_key u ip) (login_attempts s)" by auto
  have view: "attempt_view u ip s2 = map_option (\<lambda>a. (la_failed_count a, la_last_failed a, la_blocked_until a)) a"
    if "same_tables s1 s2" for s2
    using view_same_tables [OF st] view_same_tables [OF that] by (simp add: attempt_view_def a)
  let ?reset = "case a of None \<Rightarrow> False | Some at \<Rightarrow> now - la_last_failed at > LoginAttemptWindow"
  let ?n = "(case a of None \<Rightarrow> 0 | Some at \<Rightarrow> la_failed_count at) + 1"
  let ?b = "if ?n > MaxFailedLoginAttempts then Some (now + lockout_duration ?n) else None"
  show ?thesis
  proof (cases ?reset)
    case True
    obtain w s3 where w: "run_state (db_stmt (reset_attempt u ip now)) s1 = (w, s3)" by force
    from assms g r True w have "w = ok ()" "b = None" "s3 = s'"
      by (auto simp: RecordFailedLogin_def split: sum.splits)
    with w obtain s2 where "same_tables s1 s2" and "reset_attempt u ip now s2 = (ok (), s')" by (auto elim: db_stmt_ok)
    with True view [of s2] view_same_tables [OF st] view [OF same_tables_refl] reset_view [of u ip s2 _ now] \<open>b = None\<close>
    show ?thesis by (auto simp: fail_step_def split: option.splits)
  next
    case False
    obtain w s3 where w: "run_state (db_stmt (upsert_attempt u ip now ?b)) s1 = (w, s3)" by force
    from assms g r False w have b: "w = ok ()" "b = ?b" "s3 = s'"
      by (auto simp: RecordFailedLogin_def Let_def split: sum.splits)
    with w obtain s2 where "same_tables s1 s2" and "upsert_attempt u ip now ?b s2 = (ok (), s')" by (auto elim: db_stmt_ok)
    with view [of s2] upsert_view [of u ip now ?b s2]
    have v': "attempt_view u ip s' = Some (?n, now, ?b)" by (cases a) auto
    have "fail_step (attempt_view u ip s) now = (?n, now, ?b)"
      using False view_same_tables [OF st] view [OF same_tables_refl]
      by (cases a) (auto simp: fail_step_def lockout_duration_pow lockout_consts algebra_simps)
    with v' b(2) show ?thesis by simp
  qed
qed

lemma find_row_upd_other:
  "(\<And>r. q r \<Longrightarrow> \<not> p r) \<Longrightarrow> (\<And>r. p r \<Longrightarrow> \<not> q (f r)) \<Longrightarrow> find_row q (upd_where p f rows) = find_row q rows"
  by (induction rows) auto

lemma attempt_stmt_others:
  assumes "(u', ip') \<noteq> (u, ip)"
  shows "attempt_view u' ip' (snd (upsert_attempt u ip now b s)) = attempt_view u' ip' s"
    and "attempt_view u' ip' (snd (reset_attempt u ip now s)) = attempt_view u' ip' s"
proof -
  have other: "find_row (attempt_key u' ip') (upd_where (attempt_key u ip) f rows) = find_row (attempt_key u' ip') rows"
    if "\<And>a. la_username (f a) = la_username a \<and> la_client_ip (f a) = la_client_ip a" for f rows
    using assms that by (intro find_row_upd_other) (auto simp: attempt_key_def)
  have new: "find_row (attempt_key u' ip') (rows @ [r]) = find_row (attempt_key u' ip') rows"
    if "attempt_key u ip r" for rows r
    using assms that by (induction rows) (auto simp: attempt_key_def)
  show "attempt_view u' ip' (snd (upsert_attempt u ip now b s)) = attempt_view u' ip' s"
    by (auto simp: attempt_view_def upsert_attempt_def Let_def other new attempt_key_def take_seq_def)
  show "attempt_view u' ip' (snd (reset_attempt u ip now s)) = attempt_view u' ip' s"
    by (simp add: attempt_view_def reset_attempt_def other)
qed

lemma db_stmt_keeps:
  assumes "run_state (db_stmt f) s = (r, s')" and "\<And>s. V (snd (f s)) = V s" and "\<And>s s'. same_tables s s' \<Longrightarrow> V s' = V s"
  shows "V s' = V s"
proof -
  obtain oc s1 where n: "run_state next_outcome s = (oc, s1)" by force
  then have "V s1 = V s" using same_tables_next_outcome assms(3) by blast
  moreover from assms(1) n have "s' = s1 \<or> s' = snd (f s1)" by (cases oc) (auto simp: run_db_stmt)
  ultimately show ?thesis using assms(2) by auto
qed

lemma GetLoginAttempt_keeps: "run_state (GetLoginAttempt u ip) s = (r, s') \<Longrightarrow> same_tables s s'"
  by (auto simp: GetLoginAttempt_def run_simps same_tables_def split: list.splits outcome.splits option.splits sum.splits if_splits)

lemma RecordFailedLogin_others:
  assumes "run_state (RecordFailedLogin u ip now) s = (r, s')" and "(u', ip') \<noteq> (u, ip)"
  shows "attempt_view u' ip' s' = attempt_view u' ip' s"
proof -
  let ?V = "attempt_view u' ip'"
  obtain q s1 where g: "run_state (GetLoginAttempt u ip) s = (q, s1)" by force
  then have v1: "?V s1 = ?V s" by (metis GetLoginAttempt_keeps view_same_tables)
  have stmt: "?V s2 = ?V s1" if "run_state (db_stmt f) s1 = (w, s2)" and "f = reset_attempt u ip now \<or> (\<exists>b. f = upsert_attempt u ip now b)" for f w s2
    using db_stmt_keeps [OF that(1), of ?V] that(2) attempt_stmt_others [OF assms(2)] view_same_tables by metis
  from assms(1) g v1 show ?thesis
    by (cases q) (auto simp: RecordFailedLogin_def Let_def dest!: stmt split: if_splits prod.splits)
qed

text \<open>
  C14. The lockout schedule: a recorded failure restarts the count when the last one is more
  than ten minutes old; otherwise it raises the count by one, and from the sixth failure on
  it blocks the pair for one minute, doubled with every further failure and capped at
  fifteen.  The reported lockout end is the stored one, and no other pair is affected.
\<close>

theorem failed_login_schedule:
  assumes "run_state (RecordFailedLogin u ip now) s = ((b, ok ()), s')"
  shows "attempt_view u ip s' = Some (fail_step (attempt_view u ip s) now) \<and>
    b = snd (snd (fail_step (attempt_view u ip s) now)) \<and>
    (\<forall>u' ip'. (u', ip') \<noteq> (u, ip) \<longrightarrow> attempt_view u' ip' s' = attempt_view u' ip' s)"
  using RecordFailedLogin_step [OF assms] RecordFailedLogin_others [OF assms] by blast

text \<open>A record with seven failures, the last one two minutes ago.\<close>

definition demo_locked :: "unit oam_db" where
  "demo_locked = empty_db\<lparr>login_attempts := [\<lparr>la_id = 1, la_username = ''bob'', la_client_ip = ''10.0.0.2'',
     la_failed_count = 7, la_last_failed = 0, la_blocked_until = Some (2 * minute), la_created = 0, la_updated = 0\<rparr>]\<rparr>"

theorem failed_login_schedule_witness:
  "\<exists>s'. run_state (RecordFailedLogin ''bob'' ''10.0.0.2'' (2 * minute)) demo_locked =
      ((Some (6 * minute), ok ()), s') \<and>
     attempt_view ''bob'' ''10.0.0.2'' s' = Some (8, 2 * minute, Some (6 * minute))"
proof -
  obtain b r s' where run: "run_state (RecordFailedLogin ''bob'' ''10.0.0.2'' (2 * minute)) demo_locked = ((b, r), s')"
    by (metis surj_pair)
  moreover have "snd (fst (run_state (RecordFailedLogin ''bob'' ''10.0.0.2'' (2 * minute)) demo_locked)) = ok ()"
    by (simp add: RecordFailedLogin_def GetLoginAttempt_def run_check demo_locked_def attempt_key_def Let_def
        upsert_attempt_def lockout_consts duration_defs take_seq_def)
  ultimately have ok: "run_state (RecordFailedLogin ''bob'' ''10.0.0.2'' (2 * minute)) demo_locked = ((b, ok ()), s')" by simp
  have "fail_step (attempt_view ''bob'' ''10.0.0.2'' demo_locked) (2 * minute) = (8, 2 * minute, Some (6 * minute))"
    by (simp add: fail_step_def attempt_view_def demo_locked_def attempt_key_def lockout_consts duration_defs)
  with failed_login_schedule [OF ok] ok show ?thesis by auto
qed

section \<open>How many guesses get through\<close>

text \<open>
  A failed guess at \<open>t\<close>, the way the login handler treats it: refused while blocked, otherwise
  recorded.  \<open>guesses\<close> runs a list of them and is \<open>None\<close> as soon as one is refused or its
  record could not be written.
\<close>

definition guess :: "string \<Rightarrow> string \<Rightarrow> int \<Rightarrow> ('w, 'x) oam_db_scheme \<Rightarrow> ('w, 'x) oam_db_scheme option" where
  "guess u ip t s = (case run_state (IsLoginBlocked u ip t) s of
      (Inr (False, _), s1) \<Rightarrow> (case run_state (RecordFailedLogin u ip t) s1 of ((_, Inr _), s2) \<Rightarrow> Some s2 | _ \<Rightarrow> None)
    | _ \<Rightarrow> None)"

fun guesses :: "string \<Rightarrow> string \<Rightarrow> int list \<Rightarrow> ('w, 'x) oam_db_scheme \<Rightarrow> ('w, 'x) oam_db_scheme option" where
  "guesses u ip [] s = Some s"
| "guesses u ip (t # ts) s = Option.bind (guess u ip t s) (guesses u ip ts)"

definition view_blocked :: "attempt_view option \<Rightarrow> int \<Rightarrow> bool" where
  "view_blocked v now \<longleftrightarrow> (case v of Some (c, l, Some b) \<Rightarrow> now < b | _ \<Rightarrow> False)"

lemma IsLoginBlocked_free:
  assumes "run_state (IsLoginBlocked u ip t) s = (ok (False, r), s')"
  shows "same_tables s s' \<and> \<not> view_blocked (attempt_view u ip s) t"
proof -
  obtain q s1 where g: "run_state (GetLoginAttempt u ip) s = (q, s1)" by force
  with assms obtain a where q: "q = ok a" "\<not> attempt_blocked a t" "s' = s1"
    by (auto simp: IsLoginBlocked_def run_simps split: sum.splits if_splits)
  with GetLoginAttempt_ok [OF g [unfolded q(1)]] show ?thesis
    by (auto simp: attempt_blocked_def view_blocked_def attempt_view_def split: option.splits)
qed

lemma guess_step:
  assumes "guess u ip t s = Some s'"
  shows "\<not> view_blocked (attempt_view u ip s) t \<and> attempt_view u ip s' = Some (fail_step (attempt_view u ip s) t)"
proof -
  obtain q s1 where i: "run_state (IsLoginBlocked u ip t) s = (q, s1)" by force
  with assms obtain r where q: "q = ok (False, r)"
    by (cases q) (auto simp: guess_def split: prod.splits bool.splits)
  obtain b w s2 where "run_state (RecordFailedLogin u ip t) s1 = ((b, w), s2)" by (metis surj_pair)
  with assms i q have rec: "run_state (RecordFailedLogin u ip t) s1 = ((b, ok ()), s')"
    by (cases w) (auto simp: guess_def)
  from IsLoginBlocked_free [OF i [unfolded q]] RecordFailedLogin_step [OF rec] show ?thesis
    by (metis view_same_tables)
qed

text \<open>While the gaps stay inside the window the count grows by one per guess.\<close>

lemma fail_step_in_window:
  "t - l \<le> LoginAttemptWindow \<Longrightarrow> \<exists>b. fail_step (Some (c, l, b0)) t = (c + 1, t, b) \<and>
     (c + 1 > MaxFailedLoginAttempts \<longrightarrow> b = Some (t + min LoginLockoutMax (LoginLockoutBase * 2 ^ nat (c - MaxFailedLoginAttempts))))"
  by (auto simp: fail_step_def)

lemma guesses_in_window:
  assumes "guesses u ip ts s = Some s'" and "attempt_view u ip s = Some (c, l, b)" and "sorted (l # ts)"
    and "last (l # ts) - l \<le> LoginAttemptWindow" and "ts \<noteq> []" and "0 \<le> c"
  shows "\<exists>b'. attempt_view u ip s' = Some (c + int (length ts), last ts, b') \<and>
    (c + int (length ts) > MaxFailedLoginAttempts \<longrightarrow>
      b' = Some (last ts + min LoginLockoutMax (LoginLockoutBase * 2 ^ nat (c + int (length ts) - 1 - MaxFailedLoginAttempts))))"
  using assms
proof (induction ts arbitrary: s c l b)
  case (Cons t ts)
  obtain s1 where g: "guess u ip t s = Some s1" and gs: "guesses u ip ts s1 = Some s'"
    using Cons.prems(1) by (auto simp: bind_eq_Some_conv)
  have tl: "t - l \<le> LoginAttemptWindow" "l \<le> t"
  proof -
    have "t \<le> last (t # ts)" using Cons.prems(3) by (cases ts rule: rev_cases) (auto simp: sorted_append)
    with Cons.prems(3,4) show "t - l \<le> LoginAttemptWindow" "l \<le> t" by auto
  qed
  from guess_step [OF g] Cons.prems(2) fail_step_in_window [OF tl(1)] obtain b1 where
    v: "attempt_view u ip s1 = Some (c + 1, t, b1)"
    and b1: "c + 1 > MaxFailedLoginAttempts \<longrightarrow> b1 = Some (t + min LoginLockoutMax (LoginLockoutBase * 2 ^ nat (c - MaxFailedLoginAttempts)))"
    by (metis option.inject)
  show ?case
  proof (cases "ts = []")
    case True
    with gs v b1 show ?thesis by simp
  next
    case False
    with Cons.IH [OF gs v] Cons.prems(3,4,6) tl show ?thesis by (auto simp: algebra_simps)
  qed
qed simp

lemma guesses_append: "guesses u ip (xs @ ys) s = Option.bind (guesses u ip xs s) (guesses u ip ys)"
proof (induction xs arbitrary: s)
  case (Cons x xs)
  then show ?case by (cases "guess u ip x s") auto
qed simp

lemma lockout_at_cap:
  assumes "10 \<le> n"
  shows "min LoginLockoutMax (LoginLockoutBase * 2 ^ nat (n - 1 - MaxFailedLoginAttempts)) = LoginLockoutMax"
proof -
  have "(4::nat) \<le> nat (n - 1 - MaxFailedLoginAttempts)" using assms by (simp add: lockout_consts)
  then have "(2::int) ^ 4 \<le> 2 ^ nat (n - 1 - MaxFailedLoginAttempts)" by (intro power_increasing) auto
  then show ?thesis by (simp add: lockout_consts duration_defs)
qed

text \<open>
  C13. Online guessing is slow: whatever the stored record was and whatever statements of the
  database fail, eleven failed guesses for one user name from one address that were all
  checked span more than the ten-minute window.
\<close>

theorem guess_rate_bound:
  assumes "guesses u ip ts s = Some s'" and "sorted ts" and "length ts = 11"
    and "list_all (\<lambda>a. 1 \<le> la_failed_count a) (login_attempts s)"
  shows "last ts - hd ts > LoginAttemptWindow"
proof (rule ccontr)
  assume close: "\<not> ?thesis"
  obtain t0 ts1 where ts1: "ts = t0 # ts1" "length ts1 = 10" using assms(3) by (cases ts) auto
  then obtain mid t where mid: "ts1 = mid @ [t]" "length mid = 9" by (cases ts1 rule: rev_cases) auto
  from assms(1) ts1 mid obtain s0 s1 where g0: "guess u ip t0 s = Some s0" and g1: "guesses u ip mid s0 = Some s1"
    and g2: "guess u ip t s1 = Some s'" by (auto simp: guesses_append bind_eq_Some_conv)
  have srt: "sorted (t0 # mid)" "last (t0 # mid) \<le> t" "t0 \<le> t"
    using assms(2) ts1 mid by (auto simp: sorted_append)
  obtain c b where v0: "attempt_view u ip s0 = Some (c, t0, b)" and c: "1 \<le> c"
    using guess_step [OF g0] assms(4)
    by (force simp: fail_step_def attempt_view_def list_all_iff split: option.splits if_splits dest: find_row_Some)
  have "t - t0 \<le> LoginAttemptWindow" using close ts1 mid by simp
  moreover have "mid \<noteq> []" using mid by auto
  ultimately have "last (t0 # mid) - t0 \<le> LoginAttemptWindow" using srt by auto
  from guesses_in_window [OF g1 v0 srt(1) this \<open>mid \<noteq> []\<close>] mid c lockout_at_cap [of "c + 9"] obtain b' where
    "attempt_view u ip s1 = Some (c + 9, last mid, b')" and "b' = Some (last mid + LoginLockoutMax)"
    by (auto simp: MaxFailedLoginAttempts_def)
  with guess_step [OF g2] have "last mid + LoginLockoutMax \<le> t" by (auto simp: view_blocked_def)
  moreover have "t0 \<le> last mid" using srt(1) mid by (cases mid rule: rev_cases) auto
  ultimately show False using close ts1 mid by (simp add: lockout_consts duration_defs)
qed

text \<open>
  The cap is longer than the window: whoever waits out a full lockout starts again with an
  empty count.
\<close>

lemma capped_lockout_restarts_count:
  assumes "attempt_view u ip s = Some (c, l, Some (l + LoginLockoutMax))" and "guess u ip t s = Some s'"
  shows "attempt_view u ip s' = Some (1, t, None)"
proof -
  from guess_step [OF assms(2)] assms(1) have "l + LoginLockoutMax \<le> t" by (simp add: view_blocked_def)
  then have "t - l > LoginAttemptWindow" by (simp add: lockout_consts duration_defs)
  with guess_step [OF assms(2)] assms(1) show ?thesis by (simp add: fail_step_def)
qed

text \<open>On a database that answers, every guess that is not blocked is recorded.\<close>

fun guesses_allowed :: "attempt_view option \<Rightarrow> int list \<Rightarrow> bool" where
  "guesses_allowed v [] \<longleftrightarrow> True"
| "guesses_allowed v (t # ts) \<longleftrightarrow> \<not> view_blocked v t \<and> guesses_allowed (Some (fail_step v t)) ts"

lemma guess_calm:
  assumes "script s = []" and "\<not> view_blocked (attempt_view u ip s) t"
  shows "\<exists>s'. guess u ip t s = Some s' \<and> script s' = []"
proof -
  have free: "\<not> attempt_blocked (find_row (attempt_key u ip) (login_attempts s)) t"
    using assms(2) by (auto simp: attempt_blocked_def view_blocked_def attempt_view_def split: option.splits)
  have get: "run_state (GetLoginAttempt u ip) s = (ok (find_row (attempt_key u ip) (login_attempts s)), s)"
    using assms(1) by (auto simp: GetLoginAttempt_def run_check split: option.splits)
  show ?thesis
    using assms(1) free
    by (auto simp: guess_def IsLoginBlocked_def run_check get RecordFailedLogin_def Let_def upsert_attempt_def
        reset_attempt_def take_seq_def split: option.splits)
qed

lemma guesses_calm:
  "script s = [] \<Longrightarrow> guesses_allowed (attempt_view u ip s) ts \<Longrightarrow> \<exists>s'. guesses u ip ts s = Some s'"
proof (induction ts arbitrary: s)
  case (Cons t ts)
  then obtain s1 where "guess u ip t s = Some s1" "script s1 = []" using guess_calm [of s u ip t] by auto
  with Cons guess_step [of u ip t s s1] show ?case by auto
qed simp

text \<open>Eleven guesses at the earliest times the lockout allows, from an empty record.\<close>

definition demo_times :: "int list" where
  "demo_times = map (\<lambda>k. k * minute) [0, 0, 0, 0, 0, 0, 1, 3, 7, 15, 30]"

theorem guess_rate_bound_witness:
  "\<exists>s'. guesses ''alice'' ''10.0.0.1'' demo_times empty_db = Some s' \<and>
     last demo_times - hd demo_times > LoginAttemptWindow"
proof -
  have "\<exists>s'. guesses ''alice'' ''10.0.0.1'' demo_times empty_db = Some s'"
    by (rule guesses_calm) (simp_all add: demo_times_def attempt_view_def fail_step_def view_blocked_def lockout_consts duration_defs)
  then obtain s' where g: "guesses ''alice'' ''10.0.0.1'' demo_times empty_db = Some s'" ..
  have "last demo_times - hd demo_times > LoginAttemptWindow"
    by (rule guess_rate_bound [OF g]) (simp_all add: demo_times_def duration_defs)
  with g show ?thesis by blast
qed

end
