(* ===== verification/Accounts.thy ===== *)
theory Accounts
  imports Sessions Lockout
begin

text \<open>
  The user service as one interface: the calls a client of \<^verbatim>\<open>UserService\<close> can make, in any
  order and with any database failures, and what holds after every history of them.
\<close>

section \<open>Histories of calls\<close>

datatype user_call =
    CAddUser "string option" string string string
  | CCreateUserWithRole "string option" string string string string
  | CUpdateUser "string option" int "(string \<times> json) list"
  | CDeleteUser string
  | CValidateUser "string option" string string
  | CSaveTokenForCredentials int string string string
  | CSaveToken string string
  | CValidateToken string
  | CLogout string
  | CGetAdminCredentialStatus
  | CUpdateAdminCredentials "string option" string string string string string
  | CMarkCredentialsUpdated int
  | CResetAdminToDefault "string option"
  | CIsLoginBlocked string string int
  | CRecordFailedLogin string string int
  | CClearLoginAttempts string string
  | CWait nat

definition exec :: "('s, 'a) state \<Rightarrow> 's \<Rightarrow> 's" where
  "exec m s = snd (run_state m s)"

fun run_call :: "Env \<Rightarrow> user_call \<Rightarrow> ('w, 'x) oam_db_scheme \<Rightarrow> ('w, 'x) oam_db_scheme" where
  "run_call E (CAddUser salt n m p) = exec (AddUser E salt n m p)"
| "run_call E (CCreateUserWithRole salt n m p r) = exec (CreateUserWithRole E salt n m p r)"
| "run_call E (CUpdateUser salt i req) = exec (UpdateUser E salt i req)"
| "run_call E (CDeleteUser i) = exec (DeleteUser E i)"
| "run_call E (CValidateUser salt n p) = exec (ValidateUser E salt n p)"
| "run_call E (CSaveTokenForCredentials i n p t) = exec (SaveTokenForCredentials E i n p t)"
| "run_call E (CSaveToken n t) = exec (SaveToken E n t)"
| "run_call E (CValidateToken t) = exec (ValidateToken t)"
| "run_call E (CLogout t) = exec (Logout t)"
| "run_call E CGetAdminCredentialStatus = exec (GetAdminCredentialStatus E)"
| "run_call E (CUpdateAdminCredentials salt cu cp nu np ne) = exec (UpdateAdminCredentials E salt cu cp nu np ne)"
| "run_call E (CMarkCredentialsUpdated i) = exec (MarkCredentialsUpdated i)"
| "run_call E (CResetAdminToDefault salt) = exec (ResetAdminToDefault E salt)"
| "run_call E (CIsLoginBlocked n ip now) = exec (IsLoginBlocked n ip now)"
| "run_call E (CRecordFailedLogin n ip now) = exec (RecordFailedLogin n ip now)"
| "run_call E (CClearLoginAttempts n ip) = exec (ClearLoginAttempts n ip)"
| "run_call E (CWait d) = exec (sleep (int d))"

definition run_calls :: "Env \<Rightarrow> user_call list \<Rightarrow> ('w, 'x) oam_db_scheme \<Rightarrow> ('w, 'x) oam_db_scheme" where
  "run_calls E cs s = fold (run_call E) cs s"

section \<open>The account invariant along a history\<close>

lemma attempts_only_inv:
  "user_inv G s \<Longrightarrow> users s' = users s \<Longrightarrow> api_tokens s' = api_tokens s \<Longrightarrow> seqs s' ''users'' = seqs s ''users'' \<Longrightarrow> user_inv G s'"
  by (simp add: user_inv_defs)

lemma GetLoginAttempt_inv: "preserves (user_inv G) (GetLoginAttempt u ip)"
  unfolding GetLoginAttempt_def RetryOperation_once by (intro hoare_rules uinv.preserves_query)

lemma IsLoginBlocked_inv: "preserves (user_inv G) (IsLoginBlocked u ip now)"
  unfolding IsLoginBlocked_def by (intro hoare_rules GetLoginAttempt_inv uinv.preserves_time_now)

lemma upsert_attempt_inv: "user_inv G s \<Longrightarrow> user_inv G (snd (upsert_attempt u ip now b s))"
  by (erule attempts_only_inv) (auto simp: upsert_attempt_def Let_def take_seq_def)

lemma reset_attempt_inv: "user_inv G s \<Longrightarrow> user_inv G (snd (reset_attempt u ip now s))"
  by (erule attempts_only_inv) (auto simp: reset_attempt_def)

lemma RecordFailedLogin_inv: "preserves (user_inv G) (RecordFailedLogin u ip now)"
  unfolding RecordFailedLogin_def
  by (intro hoare_rules GetLoginAttempt_inv uinv.preserves_stmt upsert_attempt_inv reset_attempt_inv)

lemma ClearLoginAttempts_inv: "preserves (user_inv G) (ClearLoginAttempts u ip)"
  unfolding ClearLoginAttempts_def RetryOperation_once
  by (intro hoare_rules uinv.preserves_stmt) (auto intro: attempts_only_inv)

lemma preserves_exec: "preserves I m \<Longrightarrow> I s \<Longrightarrow> I (exec m s)"
  unfolding exec_def by (rule preservesD)

lemma AddUser_inv: "preserves (user_inv G) (AddUser E salt n m p)"
  unfolding AddUser_def by (rule AddUserWithArgs_inv)

lemmas account_ops_inv =
  AddUser_inv CreateUserWithRole_inv UpdateUser_inv DeleteUser_inv ValidateUser_inv SaveTokenForCredentials_inv
  SaveToken_inv ValidateToken_inv Logout_inv GetAdminCredentialStatus_inv UpdateAdminCredentials_inv
  MarkCredentialsUpdated_inv ResetAdminToDefault_inv IsLoginBlocked_inv RecordFailedLogin_inv ClearLoginAttempts_inv
  uinv.preserves_sleep

lemma run_call_inv: "user_inv G s \<Longrightarrow> user_inv G (run_call E c s)"
  by (cases c) (auto intro!: preserves_exec account_ops_inv)

lemma run_calls_inv: "user_inv G s \<Longrightarrow> user_inv G (run_calls E cs s)"
  unfolding run_calls_def by (induction cs arbitrary: s) (auto intro: run_call_inv)

text \<open>
  C6. No history of calls and database failures breaks the accounts: user ids and user names
  stay unique, every role is one of the model, token values stay unique, and at least one
  administrator remains.
\<close>

theorem accounts_stay_consistent:
  assumes "users_wf s" and "has_admin s"
  shows "users_wf (run_calls E cs s) \<and> has_admin (run_calls E cs s)"
  using run_calls_inv [of "{}" s E cs] assms by (simp add: user_inv_def ids_gone_def)

text \<open>A database with one administrator and one viewer.\<close>

definition demo_env :: Env where
  "demo_env = \<lparr>env_crypto = demo_crypto, env_unicode = ascii_tables, pg_int = atoi,
     DefaultConfigPassword = ''Default-9pass'', TokenExpirationMinutes = 60\<rparr>"

definition demo_admin :: User where
  "demo_admin = new_user 1 0 ''admin'' ''a@x'' ''old-hash'' ''admin''"

definition demo_viewer :: User where
  "demo_viewer = new_user 2 0 ''bob'' ''b@x'' ''bob-hash'' ''viewer''"

definition demo_db :: "unit oam_db" where
  "demo_db = empty_db\<lparr>users := [demo_admin, demo_viewer], seqs := (\<lambda>_. 3),
     api_tokens := [\<lparr>t_id = 1, t_value = ''tok'', t_user = ''2'', t_scopes = [], t_expires = hour, t_created = 0\<rparr>]\<rparr>"

lemma demo_db_inv: "users_wf demo_db" "has_admin demo_db"
  by (simp_all add: users_wf_def has_admin_def demo_db_def demo_admin_def demo_viewer_def new_user_def unique_by_def
      is_admin_def IsValidRole_def role_defs)

theorem accounts_stay_consistent_witness:
  "has_admin (run_calls demo_env [CDeleteUser ''1'', CUpdateUser None 1 [(''role'', JString ''viewer'')], CLogout ''tok''] demo_db)"
  using accounts_stay_consistent [OF demo_db_inv, of demo_env] by blast

section \<open>Sessions after a credential change\<close>

lemma hoare_exec: "hoare P m (\<lambda>_. Q) \<Longrightarrow> P s \<Longrightarrow> Q (exec m s)"
  by (simp add: hoare_def exec_def case_prod_beta)

text \<open>
  C7. Whatever fails in the database, an administrator's update, the first-setup credential
  change and the break-glass reset never leave a user with a new password and an old
  session: whoever has another stored password afterwards owns no token.
\<close>

theorem password_change_ends_sessions:
  assumes "users_wf s"
  shows "revoked_since (users s) (exec (UpdateUser E salt i req) s) \<and>
    revoked_since (users s) (exec (UpdateAdminCredentials E salt cu cp nu np ne) s) \<and>
    revoked_since (users s) (exec (ResetAdminToDefault E salt) s)"
proof -
  have "from_users (users s) s" using assms by (simp add: from_users_def users_wf_def)
  with hoare_exec [OF UpdateUser_revokes] hoare_exec [OF UpdateAdminCredentials_revokes] hoare_exec [OF ResetAdminToDefault_revokes]
  show ?thesis by blast
qed

theorem password_change_ends_sessions_witness:
  "revoked_since (users demo_db) (exec (UpdateUser demo_env (Some ''0123456789abcdef'') 2 [(''email'', JString ''new@x'')]) demo_db) \<and>
   revoked_since (users demo_db) (exec (ResetAdminToDefault demo_env (Some ''0123456789abcdef'')) demo_db)"
  using password_change_ends_sessions [OF demo_db_inv(1), of demo_env "Some ''0123456789abcdef''" 2 "[(''email'', JString ''new@x'')]"]
    password_change_ends_sessions [OF demo_db_inv(1), of demo_env "Some ''0123456789abcdef''"] by blast

section \<open>Deleted users\<close>

definition id_used :: "int \<Rightarrow> ('w, 'x) oam_db_scheme \<Rightarrow> bool" where
  "id_used i s \<longleftrightarrow> users_wf s \<and> i \<in> u_id ` set (users s)"

interpretation id_used: table_invariant "id_used i :: ('w, 'x) oam_db_scheme \<Rightarrow> bool"
proof
  fix s s' :: "('w, 'x) oam_db_scheme"
  assume st: "same_tables s s'" and "id_used i s"
  moreover from st have "seqs s ''users'' \<le> seqs s' ''users''" by (simp add: same_tables_def)
  ultimately show "id_used i s'" by (auto simp: id_used_def users_wf_def same_tables_oam list_all_iff)
qed

interpretation users_wf: table_invariant "users_wf :: ('w, 'x) oam_db_scheme \<Rightarrow> bool"
proof
  fix s s' :: "('w, 'x) oam_db_scheme"
  assume st: "same_tables s s'" and "users_wf s"
  moreover from st have "seqs s ''users'' \<le> seqs s' ''users''" by (simp add: same_tables_def)
  ultimately show "users_wf s'" by (auto simp: users_wf_def same_tables_oam list_all_iff)
qed

lemma protectLastAdmin_found: "hoare users_wf (protectLastAdmin (Some i) rem) (on_ok (id_used i))"
proof -
  have count: "hoare (id_used i) (check UDb (db_query (\<lambda>s. ok (count_where is_admin (users s))))
      (\<lambda>count. if count \<le> 1 then ret (err ErrAdminDeletion) else ret (ok ()))) (on_ok (id_used i))"
    by (intro hoare_on_ok hoare_rules id_used.preserves_query)
  have found: "id_used i s" if "users_wf s" and "find_row (\<lambda>u. u_id u = i) (users s) = Some u" for s :: "('a, 'b) oam_db_scheme" and u
    using that by (auto simp: id_used_def dest!: find_row_Some)
  have step: "hoare (\<lambda>s. users_wf s \<and> (\<exists>u. find_row (\<lambda>u. u_id u = i) (users s) = Some u \<and> u_role u = Some role))
      (if role = ''admin'' \<and> \<not> rem
       then check UDb (db_query (\<lambda>s. ok (count_where is_admin (users s))))
         (\<lambda>count. if count \<le> 1 then ret (err ErrAdminDeletion) else ret (ok ()))
       else ret (ok ())) (on_ok (id_used i :: ('a, 'b) oam_db_scheme \<Rightarrow> bool))" for role
    by (rule hoare_weaken [where P' = "id_used i" and Q' = "on_ok (id_used i)"], intro hoare_if count hoare_return_ok)
      (auto intro: found)
  show ?thesis
    unfolding protectLastAdmin_def option.case select_user_def admin_text
    by (rule users_wf.hoare_check_query, simp, rule hoare_weaken [OF users_wf.hoare_check_query [where Q = "on_ok (id_used i)"]],
        simp, unfold role_query_ok, rule step) simp_all
qed

lemma DeleteUser_gone:
  assumes "users_wf s" and "pg_int E ident = Some i" and "run_state (DeleteUser E ident) s = (ok (), s')"
  shows "ids_gone {i} s'"
proof -
  have del: "hoare (id_used i) (db_stmt (delete_user_row (Some i))) (on_ok (ids_gone {i} :: ('a, 'b) oam_db_scheme \<Rightarrow> bool))"
    by (rule id_used.hoare_stmt)
      (auto simp: delete_user_row_def delete_users_where_def Let_def ids_gone_def id_used_def users_wf_def list_all_iff set_del_where)
  have body: "hoare users_wf (check id (protectLastAdmin (Some i) False)
      (\<lambda>_. check UDb (db_stmt (delete_user_row (Some i))) (\<lambda>_. ret (ok ())))) (on_ok (ids_gone {i} :: ('a, 'b) oam_db_scheme \<Rightarrow> bool))"
    by (rule hoare_check_ok [OF protectLastAdmin_found], rule hoare_check_ok [OF del], rule hoare_return_ok)
  from assms(3) obtain s0 s1 where st: "same_tables s s0" "same_tables s1 s'" and run:
    "run_state (check id (protectLastAdmin (Some i) False)
      (\<lambda>_. check UDb (db_stmt (delete_user_row (Some i))) (\<lambda>_. ret (ok ())))) s0 = (ok (), s1)"
    unfolding DeleteUser_def RetryOperation_once assms(2) by (rule with_tx_ok)
  have "users_wf s0" using assms(1) st(1) users_wf.same_tables by blast
  from hoareD [OF body this run] have "ids_gone {i} s1" by simp
  with st(2) show ?thesis by (auto simp: ids_gone_def same_tables_oam same_tables_def) (metis order_less_le_trans)
qed

text \<open>The store's verdict on a token.\<close>

lemma ValidateToken_true:
  assumes "run_state (ValidateToken tok) s = (ok True, s')"
  shows "\<exists>t u. t \<in> set (api_tokens s) \<and> t_value t = tok \<and> u \<in> set (users s) \<and> itoa (u_id u) = t_user t"
  using assms
  by (auto simp: ValidateToken_def token_row_def list_ex_iff run_simps split: list.splits prod.splits outcome.splits option.splits sum.splits if_splits
      dest!: find_row_Some) blast

text \<open>
  C8. A deleted user never authenticates again: after a successful deletion, no later
  history of calls and failures makes a token of that user id valid, since the id is never
  given to anyone else.
\<close>

theorem deleted_user_never_authenticates:
  assumes "users_wf s" and "has_admin s"
    and "pg_int E ident = Some i" and "run_state (DeleteUser E ident) s = (ok (), s1)"
    and "t \<in> set (api_tokens (run_calls E cs s1))" and "t_user t = itoa i"
  shows "fst (run_state (ValidateToken (t_value t)) (run_calls E cs s1)) \<noteq> ok True"
proof
  assume valid: "fst (run_state (ValidateToken (t_value t)) (run_calls E cs s1)) = ok True"
  have "user_inv {} s" using assms(1,2) by (simp add: user_inv_def ids_gone_def)
  then have "user_inv {} s1" using hoareD [OF DeleteUser_inv _ assms(4)] by blast
  then have "user_inv {i} s1" using DeleteUser_gone [OF assms(1,3,4)] by (simp add: user_inv_def)
  then have inv: "user_inv {i} (run_calls E cs s1)" by (rule run_calls_inv)
  from valid obtain s2 where "run_state (ValidateToken (t_value t)) (run_calls E cs s1) = (ok True, s2)"
    by (metis prod.collapse)
  from ValidateToken_true [OF this] obtain t' u where t': "t' \<in> set (api_tokens (run_calls E cs s1))" "t_value t' = t_value t"
    and u: "u \<in> set (users (run_calls E cs s1))" "itoa (u_id u) = t_user t'" by blast
  from inv t' assms(5) have "t' = t" by (auto simp: user_inv_defs dest: unique_by_eq)
  with u assms(6) inv show False by (auto simp: user_inv_defs)
qed

lemma demo_delete:
  "run_state (DeleteUser demo_env ''2'') demo_db = (ok (), demo_db\<lparr>users := [demo_admin]\<rparr>)"
proof -
  have two: "atoi ''2'' = Some 2" by (simp add: atoi_def string_eval is_digit_def)
  have body: "run_state (check id (protectLastAdmin (Some 2) False)
      (\<lambda>_. check UDb (db_stmt (delete_user_row (Some 2))) (\<lambda>_. ret (ok ())))) (demo_db\<lparr>tx_start := Some (clock demo_db)\<rparr>) =
      (ok (), demo_db\<lparr>tx_start := Some (clock demo_db), users := [demo_admin]\<rparr>)"
    by (simp add: run_check protectLastAdmin_def select_user_def demo_db_def demo_admin_def demo_viewer_def new_user_def
        scan_text_def delete_user_row_def delete_users_where_def Let_def del_where_def empty_db_def)
  show ?thesis
    using run_with_tx_calm [of demo_db _ _ _ UDb UDb, OF _ body]
    by (simp add: DeleteUser_def demo_env_def two end_tx_def) (simp add: demo_db_def empty_db_def)
qed

theorem deleted_user_never_authenticates_witness:
  "\<exists>t \<in> set (api_tokens (run_calls demo_env [CWait 5] (demo_db\<lparr>users := [demo_admin]\<rparr>))). t_user t = itoa 2 \<and>
     fst (run_state (ValidateToken (t_value t)) (run_calls demo_env [CWait 5] (demo_db\<lparr>users := [demo_admin]\<rparr>))) \<noteq> ok True"
proof -
  have two: "pg_int demo_env ''2'' = Some 2" by (simp add: demo_env_def atoi_def string_eval is_digit_def)
  let ?s = "run_calls demo_env [CWait 5] (demo_db\<lparr>users := [demo_admin]\<rparr>)"
  let ?t = "\<lparr>t_id = 1, t_value = ''tok'', t_user = ''2'', t_scopes = [], t_expires = hour, t_created = 0\<rparr> :: APIToken"
  have "''2'' = itoa 2" by code_simp
  then have "?t \<in> set (api_tokens ?s)" and "t_user ?t = itoa 2"
    by (simp_all add: run_calls_def exec_def run_sleep demo_db_def)
  with deleted_user_never_authenticates [OF demo_db_inv two demo_delete, of ?t "[CWait 5]"] show ?thesis by blast
qed

section \<open>The life of a token\<close>

lemma find_row_snoc: "find_row p (rows @ [r]) = (case find_row p rows of Some x \<Rightarrow> Some x | None \<Rightarrow> if p r then Some r else None)"
  by (induction rows) auto

lemma SaveTokenForCredentials_calm:
  assumes "script s = []" and "tx_start s = None" and "run_state (SaveTokenForCredentials E i n p tok) s = (ok (), s1)"
  shows "(\<exists>u \<in> set (users s). u_id u = i \<and> u_username u = n \<and> VerifyPassword (env_crypto E) p (u_password u)) \<and>
    script s1 = [] \<and> tx_start s1 = None \<and> clock s1 = clock s \<and> users s1 = users s \<and>
    tok \<notin> t_value ` set (api_tokens s) \<and>
    (\<exists>t. api_tokens s1 = api_tokens s @ [t] \<and> t_value t = tok \<and> t_user t = itoa i \<and> t_expires t = clock s + token_lifetime E)"
proof -
  let ?body = "check (\<lambda>e. if e = NoRows then ErrUserNotFound else UDb e)
       (select_user (\<lambda>u. u_id u = i \<and> u_username u = n) (\<lambda>u. ok (u_password u))) (\<lambda>hash.
     if \<not> VerifyPassword (env_crypto E) p hash then ret (err ErrInvalidPassword)
     else do {
       now \<leftarrow> time_now;
       check UDb (db_stmt (insert_token tok (itoa i) [] (now + token_lifetime E))) (\<lambda>_. ret (ok ())) })"
  let ?s0 = "s\<lparr>tx_start := Some (clock s)\<rparr>"
  obtain r s2 where body: "run_state ?body ?s0 = (r, s2)" by force
  have calm: "script s2 = []"
    using body assms(1) by (auto simp: run_check select_user_def insert_token_def take_seq_def Let_def run_time_now
        split: option.splits if_splits sum.splits)
  from run_with_tx_calm [OF assms(1) body calm, of UDb UDb] assms(3)
  have r: "r = ok ()" and s1: "s1 = end_tx s s2"
    by (auto simp: SaveTokenForCredentials_def split: sum.splits)
  from body assms(1) r obtain u where u: "find_row (\<lambda>u. u_id u = i \<and> u_username u = n) (users s) = Some u"
      "VerifyPassword (env_crypto E) p (u_password u)" "tok \<notin> t_value ` set (api_tokens s)"
    and s2: "s2 = snd (insert_token tok (itoa i) [] (clock s + token_lifetime E) ?s0)"
    by (auto simp: run_check select_user_def insert_token_def Let_def run_time_now split: option.splits if_splits)
  from u(1) have "u \<in> set (users s)" "u_id u = i" "u_username u = n" by (auto dest: find_row_Some)
  with u(2,3) assms(1,2) show ?thesis by (auto simp: s1 s2 end_tx_def insert_token_def Let_def take_seq_def)
qed

lemma ValidateToken_calm:
  assumes "script s = []"
  shows "fst (run_state (ValidateToken tok) s) = ok (token_row tok s \<noteq> None)"
  using assms by (auto simp: ValidateToken_def split: option.splits)

text \<open>
  C12. On a database that answers, a token issued for credentials belongs to a user with that
  id, name and password, validates until its lifetime has passed and not after, and does
  not validate once it was logged out.
\<close>

theorem token_lifecycle:
  assumes "script s = []" and "tx_start s = None"
    and "run_state (SaveTokenForCredentials E i n p tok) s = (ok (), s1)"
  shows "(\<exists>u \<in> set (users s). u_id u = i \<and> u_username u = n \<and> VerifyPassword (env_crypto E) p (u_password u)) \<and>
    fst (run_state (ValidateToken tok) (s1\<lparr>clock := clock s + d\<rparr>)) = ok (d < token_lifetime E) \<and>
    fst (run_state (ValidateToken tok) (exec (Logout tok) s1)) = ok False"
proof -
  note issued = SaveTokenForCredentials_calm [OF assms]
  from issued obtain t where t: "api_tokens s1 = api_tokens s @ [t]" "t_value t = tok" "t_user t = itoa i"
    "t_expires t = clock s + token_lifetime E" and new: "tok \<notin> t_value ` set (api_tokens s)" by blast
  from issued have owner: "list_ex (\<lambda>u. u_id u = i) (users s1)" by (auto simp: list_ex_iff)
  have none: "find_row (\<lambda>t. t_value t = tok \<and> P t) (api_tokens s) = None" for P
    using new by (auto simp: find_row_None)
  have "(token_row tok (s1\<lparr>clock := clock s + d\<rparr>) \<noteq> None) = (d < token_lifetime E)"
    using issued owner by (auto simp: token_row_def t none find_row_snoc db_now_def)
  moreover have "script (exec (Logout tok) s1) = []" and "token_row tok (exec (Logout tok) s1) = None"
    using issued by (auto simp: exec_def Logout_def run_check token_row_def find_row_None set_del_where)
  ultimately show ?thesis using issued by (simp add: ValidateToken_calm)
qed

definition demo_hash :: string where
  "demo_hash = pbkdf2Prefix @ ''$'' @ nat_str 1 @ ''$'' @ b64_encode [] @ ''$'' @ b64_encode ''pw''"

definition demo_login_db :: "unit oam_db" where
  "demo_login_db = empty_db\<lparr>users := [new_user 7 0 ''carol'' ''c@x'' demo_hash ''viewer'']\<rparr>"

lemma demo_login:
  "\<exists>s1. run_state (SaveTokenForCredentials demo_env 7 ''carol'' ''pw'' ''jwt-1'') demo_login_db = (ok (), s1)"
proof -
  have "VerifyPassword demo_crypto ''pw'' demo_hash"
    unfolding demo_hash_def by (subst verify_versioned) (simp_all add: demo_crypto_def)
  then show ?thesis
    by (simp add: SaveTokenForCredentials_def with_tx_def run_check select_user_def run_time_now demo_login_db_def demo_env_def
        new_user_def insert_token_def Let_def take_seq_def)
qed

theorem token_lifecycle_witness:
  "\<exists>s1. run_state (SaveTokenForCredentials demo_env 7 ''carol'' ''pw'' ''jwt-1'') demo_login_db = (ok (), s1) \<and>
     fst (run_state (ValidateToken ''jwt-1'') (s1\<lparr>clock := clock demo_login_db + minute\<rparr>)) = ok True \<and>
     fst (run_state (ValidateToken ''jwt-1'') (s1\<lparr>clock := clock demo_login_db + hour\<rparr>)) = ok False \<and>
     fst (run_state (ValidateToken ''jwt-1'') (exec (Logout ''jwt-1'') s1)) = ok False"
proof -
  obtain s1 where s1: "run_state (SaveTokenForCredentials demo_env 7 ''carol'' ''pw'' ''jwt-1'') demo_login_db = (ok (), s1)"
    using demo_login by blast
  have "script demo_login_db = []" "tx_start demo_login_db = None" by (simp_all add: demo_login_db_def)
  note life = token_lifecycle [OF this s1]
  have "minute < token_lifetime demo_env" "\<not> hour < token_lifetime demo_env"
    by (simp_all add: token_lifetime_def demo_env_def duration_defs)
  with s1 life [of minute] life [of hour] show ?thesis by auto
qed

end
