(* ===== verification/Gateway_Path.thy ===== *)
theory Gateway_Path
  imports Rbac
begin

text \<open>
  The Gateway proxy's path rules (\<^verbatim>\<open>internal/services/gateway_path.go\<close>): the canonical form
  of a proxied path, the outbound URL built from it, and what a request requires of its
  caller.  \<open>uni\<close> is the lower-casing of strings that are not pure ASCII.
\<close>

section \<open>Canonical paths\<close>

definition gatewayAPIVersion :: string where "gatewayAPIVersion = ''v1''"

datatype gateway_path_error = EncodedSeparator | NotAbsolute | BadCharacter | BadSegment

record GatewayPath =
  rel :: string
  versioned :: bool

definition bad_path_rune :: "nat \<Rightarrow> bool" where
  "bad_path_rune r \<longleftrightarrow>
     r < 0x20 \<or> r = 0x7f \<or> r = byte (CHR 0x5C) \<or> r = byte (CHR ''?'') \<or> r = byte (CHR ''#'')"

definition CanonicalGatewayPath ::
    "(string \<Rightarrow> string) \<Rightarrow> string \<Rightarrow> string \<Rightarrow> gateway_path_error + GatewayPath" where
  "CanonicalGatewayPath uni decoded escaped =
     (let lowered = to_lower uni escaped in
      if contains lowered ''%2f'' \<or> contains lowered ''%5c'' then err EncodedSeparator
      else if \<not> has_prefix decoded ''/'' \<or> \<not> valid_utf8 decoded then err NotAbsolute
      else if list_ex bad_path_rune (runes decoded) then err BadCharacter
      else
        (let trimmed = trim_suffix decoded ''/'' in
         if trimmed = [] then ok \<lparr>rel = ''/'', versioned = False\<rparr>
         else
           (let segments = split_on CHR ''/'' (tl trimmed) in
            if list_ex (\<lambda>segment. segment = [] \<or> segment = ''.'' \<or> segment = ''..'') segments
            then err BadSegment
            else if hd segments = gatewayAPIVersion
            then ok \<lparr>rel = ''/'' @ join ''/'' (tl segments), versioned = True\<rparr>
            else ok \<lparr>rel = ''/'' @ join ''/'' segments, versioned = False\<rparr>)))"

section \<open>The outbound URL\<close>

text \<open>
  \<^verbatim>\<open>net/url\<close> parses the instance endpoint; a parsed URL keeps the authority part and the
  path apart, so the parser is a parameter that returns both, and \<open>out_url\<close> is what the
  code sets on the parsed value before it prints it.
\<close>

record out_url =
  authority :: string
  url_path :: string
  raw_query :: string

datatype target_error = TargetPathInvalid | TargetUrlInvalid

definition gatewayTargetURL ::
    "(string \<Rightarrow> (string \<times> string) option) \<Rightarrow> string \<Rightarrow> GatewayPath \<Rightarrow> string \<Rightarrow> target_error + out_url" where
  "gatewayTargetURL url_parse apiEndpoint path rawQuery =
     (if rel path = [] then err TargetPathInvalid
      else (case url_parse (trim_suffix apiEndpoint ''/'') of
          None \<Rightarrow> err TargetUrlInvalid
        | Some (auth, p) \<Rightarrow>
            (let base = trim_suffix p ''/'';
                 base = (if versioned path \<and> \<not> has_suffix base (''/'' @ gatewayAPIVersion)
                         then base @ ''/'' @ gatewayAPIVersion else base) in
             ok \<lparr>authority = auth, url_path = base @ trim_suffix (rel path) ''/'', raw_query = rawQuery\<rparr>)))"

section \<open>Access classes\<close>

datatype GatewayAccess =
  GatewayAccessDenied | GatewayAccessAdmin | GatewayAccessOperator | GatewayAccessAuthenticated

definition GatewayMethodAllowed :: "string \<Rightarrow> bool" where
  "GatewayMethodAllowed method \<longleftrightarrow>
     method \<in> set [''GET'', ''HEAD'', ''POST'', ''PUT'', ''PATCH'', ''DELETE'']"

definition gatewayDocumentFamilies :: "string list" where
  "gatewayDocumentFamilies = [''snapshot'', ''export'', ''restore'', ''import'', ''persist'']"

definition gatewayConfigFamilies :: "string list" where
  "gatewayConfigFamilies =
     [''ai'', ''bfd'', ''bgp'', ''cert'', ''cistate'', ''conntrack'', ''cors'', ''dpu'', ''endpoint'',
      ''endpointhoststate'', ''fdb'', ''firewall'', ''gpu'', ''halfclose'', ''ipfilter'', ''ipsec'',
      ''ipv4address'', ''ipv6address'', ''l4trace'', ''l7policy'', ''llamafirewall'', ''loadbalancer'',
      ''metrics'', ''mirror'', ''neighbor'', ''opa'', ''params'', ''pii'', ''policy'', ''port'', ''route'',
      ''securityrate'', ''session'', ''sessionulcl'', ''trace'', ''tunnel'', ''vlan'', ''worker'']"

definition gatewayOperationalFamilies :: "string list" where
  "gatewayOperationalFamilies =
     [''diagnostics'', ''maintenance'', ''meta'', ''metrics'', ''nodegraph'', ''sni'', ''status'', ''version'']"

definition is_read :: "string \<Rightarrow> bool" where
  "is_read method \<longleftrightarrow> method = ''GET'' \<or> method = ''HEAD''"

definition ClassifyGatewayRequest :: "string \<Rightarrow> GatewayPath \<Rightarrow> GatewayAccess" where
  "ClassifyGatewayRequest method path =
     (if rel path = [] then GatewayAccessDenied
      else
        (let segments = split_on CHR ''/'' (trim_prefix (rel path) ''/'');
             family = hd segments;
             sub = (if length segments > 1 then segments ! 1 else []);
             read = is_read method;
             standard = (if read then GatewayAccessAuthenticated else GatewayAccessOperator) in
         if family = ''auth'' then GatewayAccessDenied
         else if family = ''config'' then
           (if sub \<in> set gatewayDocumentFamilies then GatewayAccessAdmin
            else if sub \<in> set gatewayConfigFamilies then standard
            else GatewayAccessAdmin)
         else if family = ''audit'' then
           (if \<not> read then GatewayAccessAdmin
            else if sub = ''status'' \<and> length segments = 2 then GatewayAccessAuthenticated
            else GatewayAccessOperator)
         else if family = ''logs'' \<or> family = ''log-archives'' then
           (if read then GatewayAccessOperator else GatewayAccessAdmin)
         else if family \<in> set gatewayOperationalFamilies then standard
         else GatewayAccessAdmin))"

text \<open>The decision of \<^verbatim>\<open>RequireGatewayAccess\<close> for an access class.\<close>

definition access_allowed :: "string \<Rightarrow> GatewayAccess \<Rightarrow> bool" where
  "access_allowed role access = (case access of
      GatewayAccessAuthenticated \<Rightarrow> True
    | GatewayAccessOperator \<Rightarrow> Can role ActGatewayWrite
    | GatewayAccessAdmin \<Rightarrow> Can role ActGatewayAdmin
    | GatewayAccessDenied \<Rightarrow> False)"

section \<open>What a canonical path looks like\<close>

text \<open>
  \<open>clean_path\<close> is the cleaning a router applies to a rooted path before it routes:
  empty and dot segments vanish, a dot-dot segment removes its predecessor.
\<close>

fun clean_segments :: "string list \<Rightarrow> string list \<Rightarrow> string list" where
  "clean_segments acc [] = rev acc"
| "clean_segments acc (x # xs) =
     (if x = [] \<or> x = ''.'' then clean_segments acc xs
      else if x = ''..'' then clean_segments (tl acc) xs
      else clean_segments (x # acc) xs)"

definition clean_path :: "string \<Rightarrow> string" where
  "clean_path p = ''/'' @ join ''/'' (clean_segments [] (split_on CHR ''/'' p))"

definition plain_segment :: "string \<Rightarrow> bool" where
  "plain_segment p \<longleftrightarrow> p \<noteq> [] \<and> p \<noteq> ''.'' \<and> p \<noteq> ''..'' \<and> CHR ''/'' \<notin> set p"

definition clean_char :: "char \<Rightarrow> bool" where
  "clean_char c \<longleftrightarrow> \<not> bad_path_rune (byte c)"

definition canonical_form :: "GatewayPath \<Rightarrow> string list \<Rightarrow> bool" where
  "canonical_form path segs \<longleftrightarrow>
     rel path = ''/'' @ join ''/'' segs \<and> list_all plain_segment segs \<and> list_all clean_char (rel path)"

lemma clean_segments_plain: "list_all plain_segment xs \<Longrightarrow> clean_segments acc xs = rev acc @ xs"
  by (induction xs arbitrary: acc) (auto simp: plain_segment_def)

lemma split_rooted:
  "list_all plain_segment segs \<Longrightarrow> segs \<noteq> [] \<Longrightarrow>
   split_on CHR ''/'' (''/'' @ join ''/'' segs) = [] # segs"
  by (auto simp: split_on_join plain_segment_def list_all_iff)

lemma clean_path_canonical: "canonical_form path segs \<Longrightarrow> clean_path (rel path) = rel path"
proof (cases "segs = []")
  case False
  assume "canonical_form path segs"
  with False show ?thesis
    using split_rooted [of segs]
    by (auto simp: canonical_form_def clean_path_def clean_segments_plain simp del: split_on.simps)
qed (simp add: canonical_form_def clean_path_def)

lemma bad_rune_lt: "bad_path_rune r \<Longrightarrow> r < 128"
  by (auto simp: bad_path_rune_def byte_def)

lemma no_bad_rune_clean:
  assumes "\<not> list_ex bad_path_rune (runes s)"
  shows "list_all clean_char s"
  unfolding list_all_iff clean_char_def
proof (intro ballI notI)
  fix c
  assume c: "c \<in> set s" and bad: "bad_path_rune (byte c)"
  from bad_rune_lt [OF bad] c have "byte c \<in> set (runes s)" by (simp add: ascii_byte_in_runes)
  with bad assms show False by (auto simp: list_ex_iff)
qed

lemma canonical_checks:
  assumes "CanonicalGatewayPath uni decoded escaped = ok path"
  shows "\<not> contains (to_lower uni escaped) ''%2f''" and "\<not> contains (to_lower uni escaped) ''%5c''"
    and "has_prefix decoded ''/''" and "list_all clean_char decoded"
  using assms by (auto simp: CanonicalGatewayPath_def Let_def no_bad_rune_clean split: if_splits)

lemma canonical_unfold:
  assumes "CanonicalGatewayPath uni decoded escaped = ok path"
  obtains (root) "path = \<lparr>rel = ''/'', versioned = False\<rparr>" and "decoded = ''/''"
  | (segs) all t where "decoded = ''/'' @ join ''/'' all @ t" and "t = [] \<or> t = ''/''"
      and "all \<noteq> []" and "list_all plain_segment all"
      and "path = (if hd all = gatewayAPIVersion then \<lparr>rel = ''/'' @ join ''/'' (tl all), versioned = True\<rparr>
                   else \<lparr>rel = ''/'' @ join ''/'' all, versioned = False\<rparr>)"
proof -
  let ?t = "trim_suffix decoded ''/''"
  note pre = canonical_checks(3) [OF assms]
  obtain e where e: "decoded = ?t @ e" "e = [] \<or> e = ''/''"
    by (rule trim_suffix_cases [of decoded "''/''"]) auto
  show thesis
  proof (cases "?t = []")
    case True
    with assms e pre show thesis
      by (intro root) (auto simp: CanonicalGatewayPath_def Let_def split: if_splits)
  next
    case False
    with pre e(1) obtain u where u: "?t = CHR ''/'' # u" by (cases ?t) auto
    let ?all = "split_on CHR ''/'' u"
    from assms u have
      path: "path = (if hd ?all = gatewayAPIVersion then \<lparr>rel = ''/'' @ join ''/'' (tl ?all), versioned = True\<rparr>
                     else \<lparr>rel = ''/'' @ join ''/'' ?all, versioned = False\<rparr>)"
      and ok_segs: "\<not> list_ex (\<lambda>segment. segment = [] \<or> segment = ''.'' \<or> segment = ''..'') ?all"
      by (auto simp: CanonicalGatewayPath_def Let_def split: if_splits)
    have "list_all plain_segment ?all"
      using ok_segs by (auto simp: list_all_iff list_ex_iff plain_segment_def dest: split_on_no_sep)
    with path e u show thesis by (intro segs [of ?all e]) auto
  qed
qed

lemma clean_slash: "clean_char (CHR ''/'')"
  by (simp add: clean_char_def bad_path_rune_def byte_def)

lemma clean_rooted_join:
  assumes "list_all clean_char (''/'' @ join ''/'' all @ t)"
  shows "list_all clean_char (''/'' @ join ''/'' all)" and "list_all clean_char (''/'' @ join ''/'' (tl all))"
  using assms clean_slash by (cases all; cases "tl all"; auto)+

lemma canonical_form_exists:
  assumes "CanonicalGatewayPath uni decoded escaped = ok path"
  shows "\<exists>segs t. canonical_form path segs \<and> (t = [] \<or> t = ''/'') \<and>
     decoded = ''/'' @ join ''/'' (if versioned path then gatewayAPIVersion # segs else segs) @ t"
  using assms
proof (cases rule: canonical_unfold)
  case root
  then show ?thesis by (intro exI [of _ "[]"]) (auto simp: canonical_form_def clean_slash)
next
  case (segs all t)
  note clean = clean_rooted_join [OF canonical_checks(4) [OF assms, unfolded segs(1)]]
  show ?thesis
  proof (cases "hd all = gatewayAPIVersion")
    case True
    with segs(3) have "all = gatewayAPIVersion # tl all" by (metis list.collapse)
    with segs True clean show ?thesis
      by (intro exI [of _ "tl all"] exI [of _ t]) (auto simp: canonical_form_def list_all_iff dest: list.set_sel(2))
  next
    case False
    with segs clean show ?thesis
      by (intro exI [of _ all] exI [of _ t]) (auto simp: canonical_form_def)
  qed
qed


section \<open>The forwarded path is the authorized path\<close>

lemma canonical_no_trailing_slash:
  assumes "canonical_form path segs"
  shows "trim_suffix (rel path) ''/'' = (if segs = [] then [] else rel path)"
proof (cases "segs = []")
  case True
  with assms show ?thesis by (simp add: canonical_form_def trim_suffix_def has_suffix_def)
next
  case False
  have "\<not> has_suffix (rel path) ''/''"
  proof
    assume "has_suffix (rel path) ''/''"
    then obtain t where t: "rel path = t @ ''/''" by (auto simp: has_suffix_iff)
    have split: "split_on CHR ''/'' (rel path) = [] # segs"
      using assms False split_rooted [of segs] by (simp add: canonical_form_def)
    have "last (split_on CHR ''/'' (t @ ''/'')) = []"
      by (simp add: split_on_append)
    with t split False have "last segs = []" by simp
    with assms False show False by (auto simp: canonical_form_def list_all_iff plain_segment_def)
  qed
  with False show ?thesis by (simp add: trim_suffix_def)
qed

lemma plain_version: "plain_segment gatewayAPIVersion"
  by (simp add: plain_segment_def gatewayAPIVersion_def)

text \<open>The segments below the authority a router sees for the API root plus a canonical path.\<close>

definition api_root :: "string list \<Rightarrow> bool \<Rightarrow> string list" where
  "api_root base v = (if v \<and> (base = [] \<or> last base \<noteq> gatewayAPIVersion) then base @ [gatewayAPIVersion] else base)"

lemma join_append: "xs \<noteq> [] \<Longrightarrow> ys \<noteq> [] \<Longrightarrow> join sep (xs @ ys) = join sep xs @ sep @ join sep ys"
proof (induction sep xs rule: join.induct)
  case (2 sep x)
  then show ?case by (simp add: join_Cons)
qed auto

definition rooted :: "string list \<Rightarrow> string" where
  "rooted segs = (if segs = [] then [] else ''/'' @ join ''/'' segs)"

lemma rooted_append: "rooted (xs @ ys) = rooted xs @ rooted ys"
  by (auto simp: rooted_def join_append)

lemma split_on_rooted: "list_all plain_segment segs \<Longrightarrow> split_on CHR ''/'' (rooted segs) = [] # segs"
  using split_rooted [of segs] by (auto simp: rooted_def)

lemma rooted_suffix_version:
  assumes "list_all plain_segment base"
  shows "has_suffix (rooted base) (''/'' @ gatewayAPIVersion) \<longleftrightarrow> base \<noteq> [] \<and> last base = gatewayAPIVersion"
proof
  assume "has_suffix (rooted base) (''/'' @ gatewayAPIVersion)"
  then obtain t where t: "rooted base = t @ ''/'' @ gatewayAPIVersion" by (auto simp: has_suffix_iff)
  have "last (split_on CHR ''/'' (t @ ''/'' @ gatewayAPIVersion)) = gatewayAPIVersion"
    by (simp add: split_on_append gatewayAPIVersion_def)
  with t split_on_rooted [OF assms] have "last ([] # base) = gatewayAPIVersion" by metis
  then show "base \<noteq> [] \<and> last base = gatewayAPIVersion" by (auto simp: gatewayAPIVersion_def split: if_splits)
next
  assume "base \<noteq> [] \<and> last base = gatewayAPIVersion"
  then have "base = butlast base @ [gatewayAPIVersion]" by (metis append_butlast_last_id)
  then have "rooted base = rooted (butlast base) @ rooted [gatewayAPIVersion]" by (metis rooted_append)
  then show "has_suffix (rooted base) (''/'' @ gatewayAPIVersion)"
    by (auto simp: has_suffix_iff rooted_def)
qed

lemma target_path:
  assumes "canonical_form path segs" and "url_parse (trim_suffix ep ''/'') = Some (auth, p)"
    and "trim_suffix p ''/'' = rooted base" and "list_all plain_segment base"
  shows "gatewayTargetURL url_parse ep path q = ok \<lparr>authority = auth,
     url_path = rooted (api_root base (versioned path) @ segs), raw_query = q\<rparr>"
proof -
  have rel: "rel path \<noteq> []" using assms(1) by (simp add: canonical_form_def)
  have tail: "trim_suffix (rel path) ''/'' = rooted segs"
    using canonical_no_trailing_slash [OF assms(1)] assms(1) by (auto simp: rooted_def canonical_form_def)
  have "(if versioned path \<and> \<not> has_suffix (rooted base) (''/'' @ gatewayAPIVersion)
         then rooted base @ ''/'' @ gatewayAPIVersion else rooted base) = rooted (api_root base (versioned path))"
    using rooted_suffix_version [OF assms(4)] by (auto simp: api_root_def rooted_append) (simp_all add: rooted_def)
  with rel tail assms(2,3) show ?thesis
    by (simp add: gatewayTargetURL_def Let_def rooted_append split: if_splits)
qed

text \<open>
  C2. Whatever spelling a client sends, a path the proxy accepts is already in the form a
  router gives it: cleaning dot segments, empty segments and slashes changes nothing, and it
  contains no control character, backslash, question mark or number sign.  No encoded slash
  or backslash was in the request path.
\<close>

theorem canonical_gateway_path_is_clean:
  assumes "CanonicalGatewayPath uni decoded escaped = ok path"
  shows "clean_path (rel path) = rel path \<and> hd (rel path) = CHR ''/'' \<and> list_all clean_char (rel path) \<and>
    \<not> contains (to_lower uni escaped) ''%2f'' \<and> \<not> contains (to_lower uni escaped) ''%5c''"
proof (intro conjI)
  obtain segs where c: "canonical_form path segs" using canonical_form_exists [OF assms] by blast
  show "clean_path (rel path) = rel path" by (rule clean_path_canonical [OF c])
  show "hd (rel path) = CHR ''/''" and "list_all clean_char (rel path)"
    using c by (auto simp: canonical_form_def)
  show "\<not> contains (to_lower uni escaped) ''%2f''" and "\<not> contains (to_lower uni escaped) ''%5c''"
    using canonical_checks [OF assms] by simp_all
qed

theorem canonical_gateway_path_is_clean_witness:
  "CanonicalGatewayPath id ''/v1/config/loadbalancer/all/'' ''/v1/config/loadbalancer/all/'' =
     ok \<lparr>rel = ''/config/loadbalancer/all'', versioned = True\<rparr> \<and>
   clean_path ''/config/loadbalancer/all'' = ''/config/loadbalancer/all''"
proof -
  have h: "CanonicalGatewayPath id ''/v1/config/loadbalancer/all/'' ''/v1/config/loadbalancer/all/'' =
     ok \<lparr>rel = ''/config/loadbalancer/all'', versioned = True\<rparr>"
    by (simp add: CanonicalGatewayPath_def Let_def string_eval bad_path_rune_def gatewayAPIVersion_def)
  show ?thesis using h canonical_gateway_path_is_clean [OF h] by simp
qed

text \<open>
  C1. What was authorized is what is forwarded: for an instance endpoint with a clean base
  path, the outbound URL consists of the endpoint's authority, the API root (with the
  version segment exactly once) and precisely the segments of the canonical path that the
  access decision looked at; the query is the caller's, and cleaning the outbound path
  changes nothing.
\<close>

theorem forwarded_path_is_authorized_path:
  assumes "CanonicalGatewayPath uni decoded escaped = ok path"
    and "url_parse (trim_suffix ep ''/'') = Some (auth, p)"
    and "trim_suffix p ''/'' = rooted base" and "list_all plain_segment base"
  shows "\<exists>segs u. rel path = ''/'' @ join ''/'' segs \<and>
     gatewayTargetURL url_parse ep path q = ok u \<and>
     authority u = auth \<and> raw_query u = q \<and>
     split_on CHR ''/'' (url_path u) = [] # api_root base (versioned path) @ segs \<and>
     clean_segments [] (split_on CHR ''/'' (url_path u)) = api_root base (versioned path) @ segs"
proof -
  obtain segs where c: "canonical_form path segs" using canonical_form_exists [OF assms(1)] by blast
  have plain: "list_all plain_segment (api_root base (versioned path) @ segs)"
    using c assms(4) plain_version by (auto simp: api_root_def canonical_form_def)
  from target_path [where url_parse = url_parse and q = q, OF c assms(2-4)] split_on_rooted [OF plain] clean_segments_plain [OF plain]
  show ?thesis using c by (intro exI [of _ segs]) (auto simp: canonical_form_def)
qed

theorem forwarded_path_is_authorized_path_witness:
  "\<exists>segs u. ''/config/vlan'' = ''/'' @ join ''/'' segs \<and>
     gatewayTargetURL (\<lambda>e. Some (''https://gw:8091'', ''/netlox/v1'')) ''https://gw:8091/netlox/v1''
       \<lparr>rel = ''/config/vlan'', versioned = True\<rparr> ''a=b'' = ok u \<and>
     authority u = ''https://gw:8091'' \<and> raw_query u = ''a=b'' \<and>
     split_on CHR ''/'' (url_path u) = [] # api_root [''netlox'', ''v1''] True @ segs"
proof -
  have c: "CanonicalGatewayPath id ''/v1/config/vlan'' ''/v1/config/vlan'' =
      ok \<lparr>rel = ''/config/vlan'', versioned = True\<rparr>"
    by (simp add: CanonicalGatewayPath_def Let_def string_eval bad_path_rune_def gatewayAPIVersion_def)
  have t: "trim_suffix ''/netlox/v1'' ''/'' = rooted [''netlox'', ''v1'']"
    by (simp add: trim_suffix_def has_suffix_def rooted_def)
  have p: "list_all plain_segment [''netlox'', ''v1'']"
    by (simp add: plain_segment_def)
  show ?thesis
    using forwarded_path_is_authorized_path [where url_parse = "\<lambda>e. Some (''https://gw:8091'', ''/netlox/v1'')"
        and ep = "''https://gw:8091/netlox/v1''" and q = "''a=b''", OF c refl t p]
    by auto
qed

section \<open>Least privilege of the classification\<close>

lemma classify_write:
  "\<not> is_read method \<Longrightarrow> ClassifyGatewayRequest method path \<noteq> GatewayAccessAuthenticated"
  by (simp add: ClassifyGatewayRequest_def Let_def)

lemma classify_read_of_write:
  "access_allowed role (ClassifyGatewayRequest method path) \<Longrightarrow>
   is_read m \<Longrightarrow> access_allowed role (ClassifyGatewayRequest m path)"
  by (auto simp: ClassifyGatewayRequest_def Let_def access_allowed_def Can_operator
      dest: rbac.grants_mono split: if_splits GatewayAccess.splits)
    (auto simp: rbac.grants_iff action_needs_def)

definition gateway_family :: "GatewayPath \<Rightarrow> string" where
  "gateway_family path = hd (split_on CHR ''/'' (trim_prefix (rel path) ''/''))"

definition listed_family :: "GatewayPath \<Rightarrow> bool" where
  "listed_family path \<longleftrightarrow>
     gateway_family path \<in> {''config'', ''audit'', ''logs'', ''log-archives''} \<union> set gatewayOperationalFamilies"



end
