(* ===== verification/Middleware.thy ===== *)
theory Middleware
  imports Accounts Gateway_Path
begin

text \<open>
  The request pipeline in front of the handlers (\<^verbatim>\<open>internal/middleware\<close>): bearer-token
  authentication, the caller's resolution from the database, the capability gate, the
  gateway gate and the cross-origin headers.  Signing and parsing of JSON web tokens
  (golang-jwt) are the fields of \<open>jwt\<close>; a gate that aborts returns its reply on the left.
\<close>

section \<open>Claims and replies\<close>

record Claims =
  c_username :: string
  c_role :: string
  c_user_id :: int
  c_jti :: string
  c_issued :: int
  c_expires :: int

datatype jwt_err = JwtExpired | JwtInvalid

record jwt =
  jwt_sign :: "Claims \<Rightarrow> string option"
  jwt_parse :: "int \<Rightarrow> string \<Rightarrow> jwt_err + Claims"

datatype reply_body =
    BError string
  | BUserError user_err
  | BRetryAfter string int
  | BMessage string
  | BLogin int string
  | BCreated int
  | BUpdated int
  | BUser user_view
  | BUsers "user_view list"
  | BStatus AdminCredentialStatus
  | BAdminUpdated string "string option"

datatype reply = Reply (reply_status: int) (reply_body: reply_body)

definition AuthenticationUnavailable :: reply where
  "AuthenticationUnavailable = Reply 503 (BRetryAfter ''Authentication is temporarily unavailable'' 5)"

type_synonym ('w, 'x, 'a) gate = "(('w, 'x) oam_db_scheme, reply + 'a) state"

section \<open>Authentication\<close>

text \<open>
  \<^verbatim>\<open>utils.ValidateToken\<close> and \<^verbatim>\<open>utils.GenerateToken\<close>; \<open>jti\<close> is what the random source gives.
\<close>

definition GenerateToken :: "jwt \<Rightarrow> string option \<Rightarrow> int \<Rightarrow> string \<Rightarrow> string \<Rightarrow> int \<Rightarrow> int \<Rightarrow> string option" where
  "GenerateToken J jti now username role userID expirationMinutes = (case jti of
      None \<Rightarrow> None
    | Some tokenID \<Rightarrow> jwt_sign J \<lparr>c_username = username, c_role = role, c_user_id = userID, c_jti = tokenID,
        c_issued = now, c_expires = now + expirationMinutes * minute\<rparr>)"

definition TokenAuthMiddleware :: "jwt \<Rightarrow> string \<Rightarrow> ('w, 'x, Claims) gate" where
  "TokenAuthMiddleware J header =
     (if header = [] then ret (err (Reply 401 (BError ''Authorization header is required'')))
      else (let token = trim_prefix header ''Bearer '' in do {
        now \<leftarrow> time_now;
        case jwt_parse J now token of
          Inl e \<Rightarrow> ret (err (Reply 401 (BError (if e = JwtExpired then ''Token is expired'' else ''Invalid token''))))
        | Inr claims \<Rightarrow> do {
            r \<leftarrow> ValidateToken token;
            case r of
              Inl e \<Rightarrow> ret (err AuthenticationUnavailable)
            | Inr valid \<Rightarrow>
                if \<not> valid then ret (err (Reply 401 (BError ''Token has been revoked''))) else ret (ok claims) } }))"

section \<open>Authorization\<close>

definition resolveCaller :: "Claims \<Rightarrow> (('w, 'x) oam_db_scheme, user_view option) state" where
  "resolveCaller claims = do {
     r \<leftarrow> GetUserByUsername (c_username claims);
     ret (case r of Inl e \<Rightarrow> None | Inr u \<Rightarrow> Some u) }"

definition forbidden_role :: reply where
  "forbidden_role = Reply 403 (BError ''Forbidden: your role does not permit this operation'')"

definition RequireCapability :: "Action \<Rightarrow> Claims \<Rightarrow> ('w, 'x, user_view) gate" where
  "RequireCapability action claims = do {
     user \<leftarrow> resolveCaller claims;
     case user of
       None \<Rightarrow> ret (err (Reply 401 (BError ''Unauthorized'')))
     | Some u \<Rightarrow> if \<not> Can (v_role u) action then ret (err forbidden_role) else ret (ok u) }"

definition RequireAdmin :: "Claims \<Rightarrow> ('w, 'x, user_view) gate" where
  "RequireAdmin = RequireCapability ActUserAdmin"

definition RequireGatewayAccess :: "(string \<Rightarrow> string) \<Rightarrow> string \<Rightarrow> string \<Rightarrow> string \<Rightarrow> Claims \<Rightarrow> ('w, 'x, user_view \<times> GatewayPath) gate" where
  "RequireGatewayAccess uni method decoded escaped claims = do {
     user \<leftarrow> resolveCaller claims;
     case user of
       None \<Rightarrow> ret (err (Reply 401 (BError ''Unauthorized'')))
     | Some u \<Rightarrow>
         if \<not> GatewayMethodAllowed method then ret (err (Reply 405 (BError ''Method not allowed through the gateway proxy'')))
         else (case CanonicalGatewayPath uni decoded escaped of
             Inl e \<Rightarrow> ret (err (Reply 400 (BError ''Invalid gateway path'')))
           | Inr path \<Rightarrow>
               if \<not> access_allowed (v_role u) (ClassifyGatewayRequest method path) then ret (err forbidden_role)
               else ret (ok (u, path))) }"

section \<open>Cross-origin headers\<close>

definition parseAllowedOrigins :: "string \<Rightarrow> string list" where
  "parseAllowedOrigins v = filter (\<lambda>x. x \<noteq> []) (map trim_space (split_on CHR '','' v))"

definition parseTrustedProxies :: "string \<Rightarrow> string list" where
  "parseTrustedProxies v = filter (\<lambda>x. x \<noteq> []) (map trim_space (split_on CHR '','' v))"

definition CORSUsingWildcard :: "string list \<Rightarrow> bool" where
  "CORSUsingWildcard allowed \<longleftrightarrow> length allowed = 0"

text \<open>The headers set, and whether the request is answered here (a preflight).\<close>

definition CORSMiddleware :: "string list \<Rightarrow> string \<Rightarrow> string \<Rightarrow> string \<Rightarrow> string \<Rightarrow> (string \<times> string) list \<times> int option" where
  "CORSMiddleware allowed allowHeaders exposeHeaders origin method =
     ((if CORSUsingWildcard allowed then [(''Access-Control-Allow-Origin'', ''*'')]
       else if origin \<noteq> [] \<and> origin \<in> set allowed
       then [(''Access-Control-Allow-Origin'', origin), (''Access-Control-Allow-Credentials'', ''true''), (''Vary'', ''Origin'')]
       else []) @
      [(''Access-Control-Allow-Methods'', ''GET, POST, PUT, PATCH, DELETE, OPTIONS''),
       (''Access-Control-Allow-Headers'', allowHeaders),
       (''Access-Control-Expose-Headers'', exposeHeaders)],
      if method = ''OPTIONS'' then Some 200 else None)"

section \<open>What reaching a handler means\<close>

text \<open>A route of the protected group with a capability: authentication, then the gate.\<close>

definition protected_route :: "jwt \<Rightarrow> Action \<Rightarrow> string \<Rightarrow> ('w, 'x, user_view) gate" where
  "protected_route J action header = check id (TokenAuthMiddleware J header) (RequireCapability action)"

definition gateway_route :: "jwt \<Rightarrow> (string \<Rightarrow> string) \<Rightarrow> string \<Rightarrow> string \<Rightarrow> string \<Rightarrow> string \<Rightarrow> ('w, 'x, user_view \<times> GatewayPath) gate" where
  "gateway_route J uni method decoded escaped header =
     check id (TokenAuthMiddleware J header) (RequireGatewayAccess uni method decoded escaped)"

text \<open>Whoever passes authentication holds a verified, unrevoked token of an existing user.\<close>

definition live_token :: "jwt \<Rightarrow> string \<Rightarrow> Claims \<Rightarrow> ('w, 'x) oam_db_scheme \<Rightarrow> bool" where
  "live_token J header claims s \<longleftrightarrow>
     (\<exists>now. jwt_parse J now (trim_prefix header ''Bearer '') = ok claims) \<and>
     (\<exists>t \<in> set (api_tokens s). t_value t = trim_prefix header ''Bearer '' \<and> clock s < t_expires t \<and>
        (\<exists>u \<in> set (users s). itoa (u_id u) = t_user t))"

definition caller_row :: "Claims \<Rightarrow> user_view \<Rightarrow> ('w, 'x) oam_db_scheme \<Rightarrow> bool" where
  "caller_row claims v s \<longleftrightarrow> (\<exists>u \<in> set (users s). u_username u = c_username claims \<and> u_id u = v_id v \<and>
     u_username u = v_username v \<and> u_role u = Some (v_role v))"

lemma db_query_run:
  assumes "run_state (db_query g) s = (r, s')"
  shows "same_tables s s' \<and> clock s \<le> clock s' \<and> tx_start s' = tx_start s \<and> (r = err DbFail \<or> r = g s')"
  using assms by (auto simp: run_db_query same_tables_def run_next_outcome split: list.splits outcome.splits prod.splits)

lemma ValidateToken_ok:
  assumes "run_state (ValidateToken tok) s = (ok True, s')" and "tx_start s = None"
  shows "same_tables s s' \<and> tx_start s' = None \<and>
    (\<exists>t \<in> set (api_tokens s). t_value t = tok \<and> clock s < t_expires t \<and> (\<exists>u \<in> set (users s). itoa (u_id u) = t_user t))"
proof -
  let ?g = "\<lambda>s :: ('a, 'b) oam_db_scheme. case token_row tok s of None \<Rightarrow> err NoRows | Some t \<Rightarrow> ok (t_user t)"
  obtain q s1 where q: "run_state (db_query ?g) s = (q, s1)" by force
  with assms(1) obtain o' where "q = ok o'" and s1: "s1 = s'"
    by (cases q) (auto simp: ValidateToken_def split: if_splits)
  with db_query_run [OF q] obtain t where "token_row tok s' = Some t"
    by (auto split: option.splits)
  with db_query_run [OF q] assms(2) s1 show ?thesis
    by (auto simp: token_row_def list_ex_iff db_now_def same_tables_oam dest!: find_row_Some intro!: bexI [of _ t])
qed

lemma TokenAuth_ok:
  assumes "run_state (TokenAuthMiddleware J header) s = (ok claims, s')" and "tx_start s = None"
  shows "same_tables s s' \<and> tx_start s' = None \<and> live_token J header claims s"
proof -
  let ?tok = "trim_prefix header ''Bearer ''"
  from assms(1) have h: "header \<noteq> []" by (auto simp: TokenAuthMiddleware_def)
  with assms(1) obtain c where p: "jwt_parse J (clock s) ?tok = ok c"
    by (cases "jwt_parse J (clock s) ?tok") (auto simp: TokenAuthMiddleware_def Let_def run_time_now)
  obtain r s1 where v: "run_state (ValidateToken ?tok) s = (r, s1)" by force
  from assms(1) h p v have "r = ok True \<and> c = claims \<and> s1 = s'"
    by (cases r) (auto simp: TokenAuthMiddleware_def Let_def run_time_now split: if_splits)
  with ValidateToken_ok [of ?tok s s'] p v assms(2) show ?thesis by (auto simp: live_token_def)
qed

lemma resolveCaller_ok:
  assumes "run_state (resolveCaller claims) s = (Some v, s')"
  shows "same_tables s s' \<and> caller_row claims v s"
proof -
  obtain r s1 where g: "run_state (GetUserByUsername (c_username claims)) s = (r, s1)" by force
  with assms have r: "r = ok v" "s1 = s'" by (cases r; auto simp: resolveCaller_def)+
  obtain q s2 where q: "run_state (select_user (\<lambda>u. u_username u = c_username claims) (\<lambda>u.
        case scan_text (u_role u) of
          Inl e \<Rightarrow> err e
        | Inr role \<Rightarrow> ok \<lparr>v_id = u_id u, v_username = u_username u, v_password = [], v_role = role,
                         v_email = null_text (u_email u), v_created = u_created u\<rparr>)) s = (q, s2)" by force
  with g r have "q = ok v" "s2 = s'" by (cases q; auto simp: GetUserByUsername_def run_check)+
  with db_query_run [OF q [unfolded select_user_def]] show ?thesis
    by (auto simp: caller_row_def same_tables_oam scan_text_def split: option.splits sum.splits dest!: find_row_Some)
qed

lemma caller_after:
  assumes "same_tables s s1 \<and> tx_start s1 = None \<and> live_token J header claims s" and "run_state (resolveCaller claims) s1 = (Some v, s')"
  shows "same_tables s s' \<and> (\<exists>claims. live_token J header claims s \<and> caller_row claims v s)"
proof -
  from resolveCaller_ok [OF assms(2)] assms(1) have "same_tables s s'" and "caller_row claims v s"
    by (auto simp: caller_row_def same_tables_oam intro: same_tables_trans)
  with assms(1) show ?thesis by blast
qed

text \<open>
  C11. No protected handler runs for an unauthorized caller: whatever fails in the database,
  a request that gets through carries a token that verifies, is stored, has not expired and
  belongs to an existing user, and the account named in its claims exists and has, in the
  database now, a role with the required capability.
\<close>

theorem protected_route_authorized:
  assumes "run_state (protected_route J action header) s = (ok v, s')" and "tx_start s = None"
  shows "same_tables s s' \<and> (\<exists>claims. live_token J header claims s \<and> caller_row claims v s) \<and> Can (v_role v) action"
proof -
  obtain a s1 where auth: "run_state (TokenAuthMiddleware J header) s = (a, s1)" by force
  with assms(1) obtain claims where a: "a = ok claims" by (cases a) (auto simp: protected_route_def run_check)
  note live = TokenAuth_ok [OF auth [unfolded a] assms(2)]
  obtain c s2 where c: "run_state (resolveCaller claims) s1 = (c, s2)" by force
  with assms(1) auth a have "c = Some v" "Can (v_role v) action" "s2 = s'"
    by (cases c; auto simp: protected_route_def run_check RequireCapability_def split: if_splits)+
  with caller_after [OF live, of v s'] c show ?thesis by blast
qed

text \<open>
  The gateway gate, in the same words: the method is one the proxy forwards, and the
  canonical path handed to the handler is one the caller's role may reach with it.
\<close>

lemma gateway_route_ok:
  assumes "run_state (gateway_route J uni method decoded escaped header) s = (ok (v, path), s')" and "tx_start s = None"
  shows "same_tables s s' \<and> (\<exists>claims. live_token J header claims s \<and> caller_row claims v s) \<and>
    GatewayMethodAllowed method \<and> CanonicalGatewayPath uni decoded escaped = ok path \<and>
    access_allowed (v_role v) (ClassifyGatewayRequest method path)"
proof -
  obtain a s1 where auth: "run_state (TokenAuthMiddleware J header) s = (a, s1)" by force
  with assms(1) obtain claims where a: "a = ok claims" by (cases a) (auto simp: gateway_route_def run_check)
  note live = TokenAuth_ok [OF auth [unfolded a] assms(2)]
  obtain c s2 where c: "run_state (resolveCaller claims) s1 = (c, s2)" by force
  with assms(1) auth a have "c = Some v" "GatewayMethodAllowed method" "CanonicalGatewayPath uni decoded escaped = ok path"
      "access_allowed (v_role v) (ClassifyGatewayRequest method path)" "s2 = s'"
    by (cases c; auto simp: gateway_route_def run_check RequireGatewayAccess_def split: if_splits sum.splits)+
  with caller_after [OF live, of v s'] c show ?thesis by blast
qed

section \<open>Evaluation\<close>

text \<open>A stand-in for the token library: the token is the user name and never expires.\<close>

definition demo_jwt :: jwt where
  "demo_jwt = \<lparr>jwt_sign = (\<lambda>c. Some (c_username c @ ''.'' @ c_jti c)),
     jwt_parse = (\<lambda>now t. if t = [] then err JwtInvalid else
       ok \<lparr>c_username = takeWhile (\<lambda>c. c \<noteq> CHR ''.'') t, c_role = [], c_user_id = 0, c_jti = [], c_issued = 0, c_expires = 0\<rparr>)\<rparr>"

definition demo_session_db :: "unit oam_db" where
  "demo_session_db = demo_db\<lparr>api_tokens :=
     [\<lparr>t_id = 1, t_value = ''admin.1'', t_user = ''1'', t_scopes = [], t_expires = hour, t_created = 0\<rparr>]\<rparr>"

lemma itoa_1: "itoa 1 = ''1''"
  by code_simp

theorem protected_route_authorized_witness:
  "\<exists>v s'. run_state (protected_route demo_jwt ActUserAdmin ''Bearer admin.1'') demo_session_db = (ok v, s') \<and>
     v_id v = 1 \<and> Can (v_role v) ActUserAdmin"
proof -
  have tok: "trim_prefix ''Bearer admin.1'' ''Bearer '' = ''admin.1''" by (simp add: string_eval)
  have "\<exists>v. run_state (protected_route demo_jwt ActUserAdmin ''Bearer admin.1'') demo_session_db = (ok v, demo_session_db) \<and> v_id v = 1"
    by (simp add: protected_route_def run_check TokenAuthMiddleware_def tok run_time_now demo_jwt_def ValidateToken_def token_row_def
        demo_session_db_def demo_db_def demo_admin_def demo_viewer_def new_user_def itoa_1 db_now_def duration_defs
        RequireCapability_def resolveCaller_def GetUserByUsername_def select_user_def scan_text_def can_defs)
  then obtain v where v: "run_state (protected_route demo_jwt ActUserAdmin ''Bearer admin.1'') demo_session_db = (ok v, demo_session_db)"
    and "v_id v = 1" by blast
  moreover have "tx_start demo_session_db = None" by (simp add: demo_session_db_def demo_db_def)
  ultimately show ?thesis using protected_route_authorized [OF v] by blast
qed

text \<open>Credentials are offered to a listed origin only, and never together with the wildcard.\<close>

lemma cors_credentials_only_listed:
  assumes "(''Access-Control-Allow-Credentials'', v) \<in> set (fst (CORSMiddleware origins ah eh origin method))"
  shows "origin \<in> set origins" and "(''Access-Control-Allow-Origin'', origin) \<in> set (fst (CORSMiddleware origins ah eh origin method))"
    and "\<not> CORSUsingWildcard origins"
  using assms by (auto simp: CORSMiddleware_def split: if_splits)

text \<open>
  The store ties a token to a user id, the caller is looked up by the name in its claims:
  when that name belongs to another account, for instance after the owner was renamed and
  the name given away, the token acts as that account.
\<close>

lemma token_acts_as_name_holder:
  assumes "script s = []" and "header \<noteq> []" and "jwt_parse J (clock s) (trim_prefix header ''Bearer '') = ok claims"
    and "token_row (trim_prefix header ''Bearer '') s = Some t"
    and "find_row (\<lambda>u. u_username u = c_username claims) (users s) = Some u" and "u_role u = Some role" and "Can role action"
  shows "\<exists>v. run_state (protected_route J action header) s = (ok v, s) \<and> v_id v = u_id u"
  using assms
  by (simp add: protected_route_def run_check TokenAuthMiddleware_def Let_def run_time_now ValidateToken_def
      RequireCapability_def resolveCaller_def GetUserByUsername_def select_user_def scan_text_def)

text \<open>A token of user 2, who was renamed; user 3, an administrator, has the old name.\<close>

lemma renamed_owner_token_escalates:
  "\<exists>s v. s = demo_db\<lparr>users := [demo_admin, demo_viewer\<lparr>u_username := ''rob''\<rparr>, new_user 3 0 ''tok'' ''c@x'' ''h'' ''admin'']\<rparr> \<and>
     t_user (hd (api_tokens s)) = itoa 2 \<and> t_value (hd (api_tokens s)) = ''tok'' \<and>
     run_state (protected_route demo_jwt ActUserAdmin ''Bearer tok'') s = (ok v, s) \<and> v_id v = 3"
proof -
  let ?s = "demo_db\<lparr>users := [demo_admin, demo_viewer\<lparr>u_username := ''rob''\<rparr>, new_user 3 0 ''tok'' ''c@x'' ''h'' ''admin'']\<rparr>"
  have two: "itoa 2 = ''2''" by code_simp
  have tok: "trim_prefix ''Bearer tok'' ''Bearer '' = ''tok''" by (simp add: string_eval)
  have "\<exists>v. run_state (protected_route demo_jwt ActUserAdmin ''Bearer tok'') ?s = (ok v, ?s) \<and>
      v_id v = u_id (new_user 3 0 ''tok'' ''c@x'' ''h'' ''admin'')"
    by (rule token_acts_as_name_holder [where role = "''admin''" and t = "hd (api_tokens demo_db)"
          and claims = "\<lparr>c_username = ''tok'', c_role = [], c_user_id = 0, c_jti = [], c_issued = 0, c_expires = 0\<rparr>"])
      (simp_all add: tok demo_jwt_def token_row_def demo_db_def demo_admin_def demo_viewer_def new_user_def two itoa_1 db_now_def
        duration_defs can_defs)
  then show ?thesis using two by (simp add: demo_db_def new_user_def)
qed

end
