(* ===== verification/User_Handlers.thy ===== *)
theory User_Handlers
  imports Middleware
begin

text \<open>
  The handlers of the account routes (\<^verbatim>\<open>internal/handlers/handler.go\<close>): login and logout,
  the user resource, and the first-setup credential change.  A request body is \<open>None\<close> when
  the JSON binding refuses it; the client address is what the web framework reports.
\<close>

section \<open>Login and logout\<close>

definition duration_seconds :: "int \<Rightarrow> int" where
  "duration_seconds d = (if d \<ge> 0 then d div second else - ((- d) div second))"

definition retry_after :: "int \<Rightarrow> int" where
  "retry_after remaining = duration_seconds remaining + 1"

text \<open>A definitive failure: it counts toward the lockout.\<close>

definition login_failed :: "string \<Rightarrow> string \<Rightarrow> int \<Rightarrow> (('w, 'x) oam_db_scheme, reply) state" where
  "login_failed username clientIP now = do {
     r \<leftarrow> RecordFailedLogin username clientIP now;
     case r of
       (_, Inl e) \<Rightarrow> ret AuthenticationUnavailable
     | (Some b, Inr _) \<Rightarrow> do {
         t \<leftarrow> time_now;
         ret (Reply 429 (BRetryAfter ''Too many failed login attempts. Account temporarily locked.'' (retry_after (b - t)))) }
     | (None, Inr _) \<Rightarrow> ret (Reply 401 (BError ''Invalid username or password'')) }"

text \<open>The credentials are good: clear the record, sign a token and store it.\<close>

definition login_issue :: "Env \<Rightarrow> jwt \<Rightarrow> string option \<Rightarrow> string \<Rightarrow> string \<Rightarrow> string \<Rightarrow> int \<Rightarrow> (('w, 'x) oam_db_scheme, reply) state" where
  "login_issue E J jti username password clientIP user_id = do {
     c \<leftarrow> ClearLoginAttempts username clientIP;
     case c of
       Inl e \<Rightarrow> ret AuthenticationUnavailable
     | Inr _ \<Rightarrow> do {
         u \<leftarrow> GetUserByUsername username;
         now \<leftarrow> time_now;
         case GenerateToken J jti now username (case u of Inl _ \<Rightarrow> [] | Inr v \<Rightarrow> v_role v) user_id (TokenExpirationMinutes E) of
           None \<Rightarrow> ret (Reply 500 (BError ''Could not generate token''))
         | Some token \<Rightarrow> do {
             r \<leftarrow> SaveTokenForCredentials E user_id username password token;
             case r of
               Inl e \<Rightarrow>
                 if e = ErrInvalidPassword \<or> e = ErrUserNotFound then ret (Reply 401 (BError ''Invalid username or password''))
                 else ret AuthenticationUnavailable
             | Inr _ \<Rightarrow> ret (Reply 200 (BLogin user_id token)) } } }"

definition Login :: "Env \<Rightarrow> jwt \<Rightarrow> string option \<Rightarrow> string option \<Rightarrow> string \<Rightarrow> (string \<times> string) option
    \<Rightarrow> (('w, 'x) oam_db_scheme, reply) state" where
  "Login E J salt jti clientIP body = (case body of
      None \<Rightarrow> ret (Reply 400 (BError ''bind''))
    | Some (username, password) \<Rightarrow> do {
        now \<leftarrow> time_now;
        b \<leftarrow> IsLoginBlocked username clientIP now;
        case b of
          Inl e \<Rightarrow> ret AuthenticationUnavailable
        | Inr (isBlocked, remaining) \<Rightarrow>
            if isBlocked then ret (Reply 429 (BRetryAfter ''Too many failed login attempts. Please try again later.'' (retry_after remaining)))
            else do {
              r \<leftarrow> ValidateUser E salt username password;
              case r of
                Inl e \<Rightarrow>
                  if e = ErrUserNotFound \<or> e = ErrInvalidPassword then login_failed username clientIP now
                  else ret AuthenticationUnavailable
              | Inr user_id \<Rightarrow> login_issue E J jti username password clientIP user_id } })"

definition handle_Logout :: "string \<Rightarrow> (('w, 'x) oam_db_scheme, reply) state" where
  "handle_Logout header =
     (if header = [] then ret (Reply 400 (BError ''Authorization header is required''))
      else do {
        r \<leftarrow> Logout (trim_prefix header ''Bearer '');
        case r of Inl e \<Rightarrow> ret (Reply 500 (BError ''Could not logout'')) | Inr _ \<Rightarrow> ret (Reply 200 (BMessage ''Logged out successfully'')) })"

section \<open>The user resource\<close>

definition handle_GetUsers :: "(('w, 'x) oam_db_scheme, reply) state" where
  "handle_GetUsers = do {
     r \<leftarrow> GetUsers;
     case r of Inl e \<Rightarrow> ret (Reply 500 (BError ''Failed to fetch users'')) | Inr us \<Rightarrow> ret (Reply 200 (BUsers us)) }"

definition GetMe :: "Claims \<Rightarrow> (('w, 'x) oam_db_scheme, reply) state" where
  "GetMe claims = do {
     r \<leftarrow> GetUserByUsername (c_username claims);
     case r of
       Inl e \<Rightarrow> if e = UDb NoRows then ret (Reply 404 (BError ''User not found'')) else ret (Reply 500 (BError ''Failed to fetch user profile''))
     | Inr v \<Rightarrow> ret (Reply 200 (BUser v)) }"

record CreateUserRequest =
  cr_username :: string
  cr_email :: string
  cr_password :: string
  cr_role :: string

definition handle_CreateUser :: "Env \<Rightarrow> string option \<Rightarrow> CreateUserRequest option \<Rightarrow> (('w, 'x) oam_db_scheme, reply) state" where
  "handle_CreateUser E salt body = (case body of
      None \<Rightarrow> ret (Reply 400 (BError ''bind''))
    | Some user \<Rightarrow> do {
        r \<leftarrow> CreateUserWithRole E salt (cr_username user) (cr_email user) (cr_password user) (cr_role user);
        case r of
          Inr userID \<Rightarrow> ret (Reply 201 (BCreated userID))
        | Inl e \<Rightarrow> ret (case e of
              UsernameExists \<Rightarrow> Reply 409 (BError ''Username already exists'')
            | InvalidRole \<Rightarrow> Reply 400 (BUserError e)
            | PasswordValidationFailed _ \<Rightarrow> Reply 400 (BUserError e)
            | _ \<Rightarrow> Reply 500 (BError ''Failed to create user'')) })"

text \<open>\<^verbatim>\<open>fmt.Sprintf("%v", v)\<close> of a JSON value.\<close>

definition json_text :: "json \<Rightarrow> string" where
  "json_text v = (case v of JNull \<Rightarrow> ''<nil>'' | JString t \<Rightarrow> t | JOther t \<Rightarrow> t)"

text \<open>The guard on role changes: \<open>None\<close> refuses, otherwise the request goes on without the role.\<close>

definition role_guard :: "user_view \<Rightarrow> (string \<times> json) list \<Rightarrow> (string \<times> json) list option" where
  "role_guard caller updates =
     (case map_of updates ''role'' of
        Some roleVal \<Rightarrow>
          if v_role caller = ''admin'' then Some updates
          else (let newRole = NormalizeRole (json_text roleVal) in
                if newRole \<noteq> [] \<and> newRole \<noteq> NormalizeRole (v_role caller) then None
                else Some (AList.delete ''role'' updates))
      | None \<Rightarrow> Some updates)"

definition keep_value :: "json \<Rightarrow> bool" where
  "keep_value v = (case v of JNull \<Rightarrow> False | JString t \<Rightarrow> t \<noteq> [] | JOther t \<Rightarrow> True)"

definition update_reply :: "int \<Rightarrow> user_err + unit \<Rightarrow> reply" where
  "update_reply userID r = (case r of
      Inr _ \<Rightarrow> Reply 200 (BUpdated userID)
    | Inl e \<Rightarrow> (case e of
          ErrAdminDeletion \<Rightarrow> Reply 403 (BError ''Cannot remove the last administrator'')
        | ErrUserNotFound \<Rightarrow> Reply 404 (BError ''User not found'')
        | UserNotFound \<Rightarrow> Reply 404 (BError ''User not found'')
        | UsernameExists \<Rightarrow> Reply 409 (BError ''Username already exists'')
        | PasswordValidationFailed _ \<Rightarrow> Reply 400 (BUserError e)
        | InvalidRole \<Rightarrow> Reply 400 (BUserError e)
        | _ \<Rightarrow> Reply 500 (BError ''Failed to update user'')))"

definition handle_UpdateUser :: "Env \<Rightarrow> string option \<Rightarrow> Claims \<Rightarrow> string \<Rightarrow> (string \<times> json) list option
    \<Rightarrow> (('w, 'x) oam_db_scheme, reply) state" where
  "handle_UpdateUser E salt claims idParam body = (case atoi idParam of
      None \<Rightarrow> ret (Reply 400 (BError ''Invalid user ID''))
    | Some userID \<Rightarrow> do {
        c \<leftarrow> resolveCaller claims;
        case c of
          None \<Rightarrow> ret (Reply 401 (BError ''Unauthorized''))
        | Some caller \<Rightarrow>
            if v_role caller \<noteq> ''admin'' \<and> v_id caller \<noteq> userID
            then ret (Reply 403 (BError ''Forbidden: you may only update your own account''))
            else (case body of
                None \<Rightarrow> ret (Reply 400 (BError ''Invalid JSON format''))
              | Some request \<Rightarrow> (case role_guard caller (AList.clearjunk request) of
                    None \<Rightarrow> ret (Reply 403 (BError ''Forbidden: administrator privileges required to change role''))
                  | Some updates \<Rightarrow>
                      (let cleaned = filter (\<lambda>kv. keep_value (snd kv)) updates in
                       if cleaned = [] then ret (Reply 400 (BError ''No valid fields provided for update''))
                       else if \<not> list_all (\<lambda>kv. fst kv \<in> set [''username'', ''email'', ''role'', ''password'']) cleaned
                       then ret (Reply 400 (BError ''Field is not allowed for update''))
                       else do {
                         r \<leftarrow> UpdateUser E salt userID cleaned;
                         ret (update_reply userID r) }))) })"

definition handle_DeleteUser :: "Env \<Rightarrow> string \<Rightarrow> (('w, 'x) oam_db_scheme, reply) state" where
  "handle_DeleteUser E ident = do {
     r \<leftarrow> DeleteUser E ident;
     ret (case r of
         Inr _ \<Rightarrow> Reply 200 (BMessage ''User deleted'')
       | Inl e \<Rightarrow> (case e of
             ErrUserNotFound \<Rightarrow> Reply 404 (BUserError e)
           | ErrAdminDeletion \<Rightarrow> Reply 403 (BUserError e)
           | _ \<Rightarrow> Reply 500 (BUserError e))) }"

section \<open>First setup\<close>

definition GetSetupStatus :: "Env \<Rightarrow> (('w, 'x) oam_db_scheme, reply) state" where
  "GetSetupStatus E = do {
     r \<leftarrow> GetAdminCredentialStatus E;
     ret (case r of Inl e \<Rightarrow> Reply 500 (BError ''Failed to check setup status'') | Inr st \<Rightarrow> Reply 200 (BStatus st)) }"

record AdminUpdateRequest =
  ar_CurrentUsername :: string
  ar_CurrentPassword :: string
  ar_NewUsername :: string
  ar_NewPassword :: string
  ar_NewEmail :: string
  ar_ConfirmPassword :: string

definition admin_update_error :: "user_err \<Rightarrow> reply" where
  "admin_update_error e = (case e of
      PasswordValidationFailed _ \<Rightarrow> Reply 400 (BUserError e)
    | UsernameExists \<Rightarrow> Reply 400 (BError ''Username already exists'')
    | CurrentPasswordIncorrect \<Rightarrow> Reply 401 (BError ''Current password is incorrect'')
    | _ \<Rightarrow> Reply 500 (BError ''Failed to update credentials''))"

definition handle_UpdateAdminCredentials :: "Env \<Rightarrow> jwt \<Rightarrow> string option \<Rightarrow> string option \<Rightarrow> AdminUpdateRequest option
    \<Rightarrow> (('w, 'x) oam_db_scheme, reply) state" where
  "handle_UpdateAdminCredentials E J salt jti body = (case body of
      None \<Rightarrow> ret (Reply 400 (BError ''Invalid request payload''))
    | Some req \<Rightarrow>
        if ar_NewPassword req \<noteq> ar_ConfirmPassword req then ret (Reply 400 (BError ''Password confirmation does not match''))
        else do {
          chk \<leftarrow> CheckDefaultAdminCredentials E;
          case chk of
            Inl e \<Rightarrow> ret (Reply 500 (BError ''Failed to verify current credentials''))
          | Inr (hasDefault, adminUserID) \<Rightarrow>
              if \<not> hasDefault then ret (Reply 400 (BError ''Admin credentials have already been updated''))
              else if ar_CurrentUsername req \<noteq> ''admin'' \<or> ar_CurrentPassword req \<noteq> DefaultConfigPassword E
              then ret (Reply 400 (BError ''Current credentials must be default admin credentials''))
              else do {
                r \<leftarrow> UpdateAdminCredentials E salt (ar_CurrentUsername req) (ar_CurrentPassword req)
                       (ar_NewUsername req) (ar_NewPassword req) (ar_NewEmail req);
                case r of
                  Inl e \<Rightarrow> ret (admin_update_error e)
                | Inr _ \<Rightarrow> do {
                    now \<leftarrow> time_now;
                    case GenerateToken J jti now (ar_NewUsername req) RoleAdmin adminUserID (TokenExpirationMinutes E) of
                      None \<Rightarrow> ret (Reply 200 (BAdminUpdated ''Please login again.'' None))
                    | Some newToken \<Rightarrow> do {
                        sv \<leftarrow> SaveTokenForCredentials E adminUserID (ar_NewUsername req) (ar_NewPassword req) newToken;
                        case sv of
                          Inl e \<Rightarrow> ret (Reply 200 (BAdminUpdated ''Please login again.'' None))
                        | Inr _ \<Rightarrow> ret (Reply 200 (BAdminUpdated ''Admin credentials updated successfully'' (Some newToken))) } } } })"

section \<open>Self-service cannot raise privileges\<close>

text \<open>Nobody's role changed, and only the row of user \<open>i\<close> may differ at all.\<close>

definition only_self :: "int \<Rightarrow> User list \<Rightarrow> ('w, 'x) oam_db_scheme \<Rightarrow> bool" where
  "only_self i us s \<longleftrightarrow> map (\<lambda>u. (u_id u, u_role u)) (users s) = map (\<lambda>u. (u_id u, u_role u)) us \<and>
     filter (\<lambda>u. u_id u \<noteq> i) (users s) = filter (\<lambda>u. u_id u \<noteq> i) us"

definition users_are :: "User list \<Rightarrow> ('w, 'x) oam_db_scheme \<Rightarrow> bool" where
  "users_are us s \<longleftrightarrow> users s = us"

interpretation only_self: table_invariant "only_self i us :: ('w, 'x) oam_db_scheme \<Rightarrow> bool"
  by unfold_locales (simp add: only_self_def same_tables_oam)

interpretation users_are: table_invariant "users_are us :: ('w, 'x) oam_db_scheme \<Rightarrow> bool"
  by unfold_locales (simp add: users_are_def same_tables_oam)

lemma only_self_start: "users_are us s \<Longrightarrow> only_self i us s"
  by (simp add: only_self_def users_are_def)

lemma filter_upd_other:
  "(\<And>u. u_id (f u) = u_id u) \<Longrightarrow> filter (\<lambda>u. u_id u \<noteq> i) (upd_where (\<lambda>u. u_id u = i) f us) = filter (\<lambda>u. u_id u \<noteq> i) us"
  by (induction us) auto

lemma apply_sets_role: "(\<And>r. SetRole r \<notin> set cs) \<Longrightarrow> u_role (fold apply_set cs u) = u_role u"
proof (induction cs arbitrary: u)
  case (Cons c cs)
  have "u_role (apply_set c u) = u_role u" using Cons.prems [of "case c of SetRole r \<Rightarrow> r"] by (cases c) auto
  with Cons show ?case by auto
qed simp

lemma update_only_self:
  assumes "plan_ok upd pl" and "''role'' \<notin> fst ` set upd"
  shows "hoare (users_are us) (db_stmt (update_user i (apply_plan pl))) (\<lambda>_. only_self i us)"
proof (rule users_are.hoare_stmt)
  have role: "u_role (apply_plan pl u) = u_role u" for u
    unfolding apply_plan_def using assms by (intro apply_sets_role) (force simp: plan_ok_def)
  show "only_self i us (snd (update_user i (apply_plan pl) s)) \<and> only_self i us (snd (update_user i (apply_plan pl) s))"
    if "users_are us s" for s :: "('a, 'b) oam_db_scheme"
    using that by (simp add: update_user_def Let_def only_self_def users_are_def filter_upd_other map_upd_where role)
qed (rule only_self_start)

lemma write_update_only_self:
  assumes "plan_ok upd pl" and "''role'' \<notin> fst ` set upd"
  shows "hoare (users_are us) (write_update i upd pl) (\<lambda>_. only_self i us)"
proof -
  note upd = update_only_self [OF assms, of us i]
  have guard: "hoare (users_are us) (if roleChanged pl then protectLastAdmin (Some i) b else ret (ok ())) (on_ok (users_are us))" for b
    by (intro hoare_on_ok hoare_if preserves_protectLastAdmin users_are.table_invariant_axioms preserves_return)
  have revoke: "hoare (only_self i us) (if passwordChanged pl
      then check RevokeFailed (db_stmt (delete_tokens_of (itoa i))) (\<lambda>_. ret (ok ())) else ret (ok ())) (on_ok (only_self i us))"
    by (intro hoare_on_ok hoare_if preserves_check preserves_return only_self.preserves_stmt)
      (simp add: delete_tokens_of_def only_self_def)
  show ?thesis
    unfolding write_update_def
    by (rule hoare_if, rule users_are.hoare_with_tx [OF _ only_self.table_invariant_axioms], rule hoare_check_ok [OF guard],
        rule hoare_check_ok [OF hoare_on_ok [OF upd]], rule revoke, erule only_self_start,
        rule hoare_check [where R = "\<lambda>_. only_self i us"], rule hoare_weaken [OF upd])
      (auto intro!: hoare_return split: sum.splits)
qed

lemma UpdateUser_only_self:
  assumes "''role'' \<notin> fst ` set req"
  shows "hoare (users_are us) (UpdateUser E salt i req) (\<lambda>_. only_self i us)"
  unfolding UpdateUser_def Let_def RetryOperation_once
proof (rule hoare_check [where R = "\<lambda>_. users_are us"], rule hoare_weaken [OF preserves_select_user [OF users_are.table_invariant_axioms]], goal_cases)
  case (3 existing)
  have nr: "''role'' \<notin> fst ` set (AList.clearjunk req)" using assms by (simp add: dom_clearjunk)
  show ?case
  proof (rule hoare_check [where R = "\<lambda>pl s. users_are us s \<and> plan_ok (AList.clearjunk req) pl"],
      rule hoare_weaken [OF collect_updates_ok [OF users_are.table_invariant_axioms]], goal_cases)
    case (5 pl)
    show ?case
    proof (cases "plan_ok (AList.clearjunk req) pl")
      case True
      show ?thesis
        by (rule hoare_weaken [where P' = "users_are us" and Q' = "\<lambda>_. only_self i us"],
            intro hoare_if hoare_return write_update_only_self True nr) (auto intro: only_self_start)
    qed (simp add: hoare_def)
  qed (auto simp: plan_ok_def intro: only_self_start split: sum.splits)
qed (auto intro: only_self_start split: sum.splits)

lemma role_guard_drops:
  assumes "role_guard caller upd = Some upd'" and "v_role caller \<noteq> ''admin''"
  shows "''role'' \<notin> fst ` set upd'"
proof (cases "map_of upd ''role''")
  case None
  with assms(1) show ?thesis by (auto simp: role_guard_def map_of_eq_None_iff)
next
  case (Some v)
  with assms have "upd' = AList.delete ''role'' upd" by (auto simp: role_guard_def Let_def split: if_splits)
  then show ?thesis by (simp add: delete_notin_dom)
qed

text \<open>
  C10. An account cannot raise itself: when the authenticated account is not an
  administrator, the update handler leaves every role as it was and touches no row but the
  caller's own, whatever the request contains and whatever fails in the database.
\<close>

theorem self_update_no_escalation:
  assumes "users_wf s" and "me \<in> set (users s)" and "u_username me = c_username claims" and "\<not> is_admin me"
  shows "only_self (u_id me) (users s) (exec (handle_UpdateUser E salt claims idParam body) s)"
proof (cases "atoi idParam")
  case None
  then show ?thesis by (simp add: handle_UpdateUser_def exec_def only_self_def)
next
  case (Some userID)
  obtain c s1 where c: "run_state (resolveCaller claims) s = (c, s1)" by force
  have st: "same_tables s s1"
  proof -
    have "preserves (same_tables s) (resolveCaller claims)"
      unfolding resolveCaller_def GetUserByUsername_def RetryOperation_once select_user_def
      by (intro hoare_rules table_invariant.preserves_query table_invariant.intro) (rule same_tables_trans)
    from hoareD [OF this _ c] show ?thesis by simp
  qed
  then have us: "users_are (users s) s1" by (simp add: users_are_def same_tables_oam)
  show ?thesis
  proof (cases c)
    case None
    with Some c us show ?thesis by (simp add: handle_UpdateUser_def exec_def only_self_start)
  next
    case (Some v)
    from resolveCaller_ok [OF c [unfolded Some]] obtain u where u: "u \<in> set (users s)" "u_username u = c_username claims"
      "u_id u = v_id v" "u_role u = Some (v_role v)" by (auto simp: caller_row_def)
    with assms(1-3) have "u = me" by (auto simp: users_wf_def dest: unique_by_eq)
    with u assms(4) have v: "v_id v = u_id me" "v_role v \<noteq> ''admin''" by (auto simp flip: admin_text)
    have upd: "only_self (u_id me) (users s) (snd (run_state (UpdateUser E salt (u_id me) cleaned) s1))"
      if "''role'' \<notin> fst ` set cleaned" for cleaned
      using hoare_exec [OF UpdateUser_only_self [OF that] us] by (simp add: exec_def)
    have keys: "''role'' \<notin> fst ` set (filter P upd)" if "role_guard v r = Some upd" for r upd P
      using role_guard_drops [OF that v(2)] by auto
    from \<open>atoi idParam = Some userID\<close> c Some v us show ?thesis
      by (auto simp: handle_UpdateUser_def exec_def Let_def case_prod_beta only_self_start
          intro!: upd keys split: option.splits)
  qed
qed

theorem self_update_no_escalation_witness:
  "only_self 2 (users demo_db) (exec (handle_UpdateUser demo_env None
      \<lparr>c_username = ''bob'', c_role = ''viewer'', c_user_id = 2, c_jti = [], c_issued = 0, c_expires = 0\<rparr>
      ''2'' (Some [(''role'', JString ''admin'')])) demo_db)"
proof -
  have "demo_viewer \<in> set (users demo_db)" "\<not> is_admin demo_viewer" "u_username demo_viewer = ''bob''" "u_id demo_viewer = 2"
    by (simp_all add: demo_db_def demo_viewer_def new_user_def is_admin_def role_defs)
  then show ?thesis
    using self_update_no_escalation [OF demo_db_inv(1), of demo_viewer
        "\<lparr>c_username = ''bob'', c_role = ''viewer'', c_user_id = 2, c_jti = [], c_issued = 0, c_expires = 0\<rparr>"] by auto
qed

section \<open>Login\<close>

lemma SaveToken_stored:
  assumes "run_state (SaveTokenForCredentials E i n p tok) s = (ok (), s')" and "later t0 s"
  shows "(\<exists>u \<in> set (users s'). u_id u = i \<and> u_username u = n \<and> VerifyPassword (env_crypto E) p (u_password u)) \<and>
    (\<exists>t \<in> set (api_tokens s'). t_value t = tok \<and> t_user t = itoa i \<and> t0 + token_lifetime E \<le> t_expires t) \<and>
    login_attempts s' = login_attempts s \<and> tx_start s' = None"
proof -
  let ?body = "check (\<lambda>e. if e = NoRows then ErrUserNotFound else UDb e)
       (select_user (\<lambda>u. u_id u = i \<and> u_username u = n) (\<lambda>u. ok (u_password u))) (\<lambda>hash.
     if \<not> VerifyPassword (env_crypto E) p hash then ret (err ErrInvalidPassword)
     else do {
       now \<leftarrow> time_now;
       check UDb (db_stmt (insert_token tok (itoa i) [] (now + token_lifetime E))) (\<lambda>_. ret (ok ())) })"
  from assms(1) obtain s0 s1 where st: "same_tables s s0" "same_tables s1 s'" and run: "run_state ?body s0 = (ok (), s1)"
    and c: "clock s \<le> clock s0" and tx: "tx_start s' = tx_start s"
    unfolding SaveTokenForCredentials_def by (rule with_tx_ok)
  let ?g = "\<lambda>s :: ('a, 'b) oam_db_scheme. case find_row (\<lambda>u. u_id u = i \<and> u_username u = n) (users s) of None \<Rightarrow> err NoRows | Some u \<Rightarrow> ok (u_password u)"
  obtain q s2 where q: "run_state (db_query ?g) s0 = (q, s2)" by force
  from run q obtain h where h: "q = ok h" "VerifyPassword (env_crypto E) p h"
    by (cases q) (auto simp: run_check select_user_def split: if_splits)
  from db_query_run [OF q] h(1) obtain u where u: "find_row (\<lambda>u. u_id u = i \<and> u_username u = n) (users s2) = Some u" "u_password u = h"
    and st2: "same_tables s0 s2" and c2: "clock s0 \<le> clock s2" by (auto split: option.splits)
  from run q h obtain a where "run_state (db_stmt (insert_token tok (itoa i) [] (clock s2 + token_lifetime E))) s2 = (ok a, s1)"
    by (auto simp: run_check select_user_def run_time_now split: prod.splits sum.splits)
  then obtain s3 where st3: "same_tables s2 s3" and ins: "insert_token tok (itoa i) [] (clock s2 + token_lifetime E) s3 = (ok a, s1)"
    by (rule db_stmt_ok)
  from ins have s1: "users s1 = users s3" "login_attempts s1 = login_attempts s3"
      "\<exists>t. api_tokens s1 = api_tokens s3 @ [t] \<and> t_value t = tok \<and> t_user t = itoa i \<and> t_expires t = clock s2 + token_lifetime E"
    by (auto simp: insert_token_def Let_def take_seq_def split: if_splits)
  from u(1) have "u \<in> set (users s2)" "u_id u = i" "u_username u = n" by (auto dest: find_row_Some)
  moreover have "users s' = users s2" "login_attempts s' = login_attempts s" "api_tokens s' = api_tokens s1"
    using st st2 st3 s1 by (auto simp: same_tables_oam)
  ultimately show ?thesis using u(2) h(2) s1(3) c c2 assms(2) tx by (auto simp: later_def)
qed

lemma login_attempt_ops_later:
  "preserves (later t) (IsLoginBlocked u ip now)" "preserves (later t) (ClearLoginAttempts u ip)"
  "preserves (later t) (ValidateUser E salt u p)" "preserves (later t) (GetUserByUsername u)"
  unfolding IsLoginBlocked_def GetLoginAttempt_def ClearLoginAttempts_def ValidateUser_def GetUserByUsername_def
    select_user_def RetryOperation_once
  by (intro hoare_rules later_query later_time_now later_stmt; simp)+

lemma Login_parts:
  assumes "run_state (Login E J salt jti ip (Some (n, p))) s = (Reply 200 b, s')" and "later t0 s"
  obtains id' tok role s1 s2 where "\<not> view_blocked (attempt_view n ip s) (clock s)" and "b = BLogin id' tok"
    and "later t0 s1" and "GenerateToken J jti (clock s1) n role id' (TokenExpirationMinutes E) = Some tok"
    and "run_state (SaveTokenForCredentials E id' n p tok) s1 = (ok (), s')"
proof -
  obtain bl sa where bl: "run_state (IsLoginBlocked n ip (clock s)) s = (bl, sa)" by force
  with assms(1) obtain r where r: "bl = ok (False, r)"
    by (cases bl) (auto simp: Login_def run_time_now AuthenticationUnavailable_def split: if_splits)
  obtain v sb where v: "run_state (ValidateUser E salt n p) sa = (v, sb)" by force
  have la: "later t0 sa" using hoareD [OF login_attempt_ops_later(1) assms(2) bl] .
  have lb: "later t0 sb" using hoareD [OF login_attempt_ops_later(3) la v] .
  have notfailed: "fst (run_state (login_failed n ip t) x) \<noteq> Reply 200 b" for t and x :: "('a, 'b) oam_db_scheme"
    by (auto simp: login_failed_def AuthenticationUnavailable_def run_time_now split: prod.splits sum.splits option.splits)
  from assms(1) bl r v obtain uid where uid: "v = ok uid" and issue: "run_state (login_issue E J jti n p ip uid) sb = (Reply 200 b, s')"
    using notfailed [of "clock s" sb] by (cases v) (auto simp: Login_def run_time_now AuthenticationUnavailable_def split: if_splits)
  obtain c sc where c: "run_state (ClearLoginAttempts n ip) sb = (c, sc)" by force
  obtain u sd where u: "run_state (GetUserByUsername n) sc = (u, sd)" by force
  have lc: "later t0 sc" using hoareD [OF login_attempt_ops_later(2) lb c] .
  have ld: "later t0 sd" using hoareD [OF login_attempt_ops_later(4) lc u] .
  let ?role = "case u of Inl _ \<Rightarrow> [] | Inr v \<Rightarrow> v_role v"
  from issue c obtain w where "c = ok w" by (cases c) (auto simp: login_issue_def AuthenticationUnavailable_def)
  with issue c u obtain tok where tok: "GenerateToken J jti (clock sd) n ?role uid (TokenExpirationMinutes E) = Some tok"
    by (auto simp: login_issue_def run_time_now split: option.splits)
  obtain sv se where sv: "run_state (SaveTokenForCredentials E uid n p tok) sd = (sv, se)" by force
  with issue c u tok \<open>c = ok w\<close> have "sv = ok ()" "se = s'" "b = BLogin uid tok"
    by (cases sv; auto simp: login_issue_def run_time_now AuthenticationUnavailable_def split: if_splits)+
  with that [OF _ _ ld tok] sv IsLoginBlocked_free [OF bl [unfolded r]] show thesis by blast
qed


definition demo_jwt2 :: jwt where
  "demo_jwt2 = \<lparr>jwt_sign = (\<lambda>c. if c_username c = ''carol'' \<and> c_user_id c = 7 \<and> c_jti c = ''j'' \<and> c_issued c = 0 \<and> c_role c = ''viewer'' \<and>
       c_expires c = 60 * minute then Some ''signed'' else None),
     jwt_parse = (\<lambda>now t. if t = ''signed'' \<and> now < 60 * minute then
       ok \<lparr>c_username = ''carol'', c_role = ''viewer'', c_user_id = 7, c_jti = ''j'', c_issued = 0, c_expires = 60 * minute\<rparr> else err JwtInvalid)\<rparr>"

lemma demo_verify: "VerifyPassword demo_crypto ''pw'' demo_hash"
  unfolding demo_hash_def by (subst verify_versioned) (simp_all add: demo_crypto_def)

lemma demo_needs_rehash: "NeedsRehash demo_hash"
  using versioned_parts [of 1 "[]" "''pw''"] atoi_itoa [of 1]
  by (simp add: NeedsRehash_def demo_hash_def Let_def itoa_def PBKDF2Rounds_def)

lemma demo_login_run:
  "\<exists>s'. run_state (Login demo_env demo_jwt2 None (Some ''j'') ''10.0.0.9'' (Some (''carol'', ''pw''))) demo_login_db =
     (Reply 200 (BLogin 7 ''signed''), s') \<and> script s' = [] \<and> clock s' = 0"
  by (simp add: Login_def run_time_now IsLoginBlocked_def GetLoginAttempt_def run_check attempt_blocked_def ValidateUser_def select_user_def
      demo_login_db_def new_user_def demo_env_def demo_verify demo_needs_rehash HashPassword_def login_issue_def ClearLoginAttempts_def
      GetUserByUsername_def scan_text_def GenerateToken_def demo_jwt2_def SaveTokenForCredentials_def with_tx_def insert_token_def Let_def
      take_seq_def end_tx_def)


end
