(* ===== verification/Json.thy ===== *)
theory Json
  imports Go_Strings
begin

text \<open>
  What the appliance code uses of \<^verbatim>\<open>encoding/hex\<close> and \<^verbatim>\<open>encoding/json\<close>: lower-case hexadecimal, and
  the encoding of a list of strings with the default HTML escaping.  A decoder, used only in
  proofs, shows that the encoding loses nothing on valid UTF-8.
\<close>

section \<open>Hexadecimal\<close>

definition hex_digit :: "nat \<Rightarrow> char" where
  "hex_digit n = (if n < 10 then char_of (48 + n) else char_of (87 + n))"

definition hex_byte :: "char \<Rightarrow> string" where
  "hex_byte c = [hex_digit (byte c div 16), hex_digit (byte c mod 16)]"

text \<open>\<^verbatim>\<open>hex.EncodeToString\<close>.\<close>

definition hex_encode :: "string \<Rightarrow> string" where
  "hex_encode s = concat (map hex_byte s)"

definition is_hex :: "char \<Rightarrow> bool" where
  "is_hex c \<longleftrightarrow> in_range 48 57 (byte c) \<or> in_range 97 102 (byte c)"

definition hex_val :: "char \<Rightarrow> nat" where
  "hex_val c = (if byte c < 58 then byte c - 48 else byte c - 87)"

lemma byte_hex_digit: "n < 16 \<Longrightarrow> byte (hex_digit n) = (if n < 10 then 48 + n else 87 + n)"
  by (simp add: hex_digit_def byte_char_of)

lemma hex_digit_is_hex [simp]: "n < 16 \<Longrightarrow> is_hex (hex_digit n)"
  by (simp add: is_hex_def byte_hex_digit in_range_def)

lemma hex_val_digit [simp]: "n < 16 \<Longrightarrow> hex_val (hex_digit n) = n"
  by (simp add: hex_val_def byte_hex_digit)

lemma hex_digit_inj: "m < 16 \<Longrightarrow> n < 16 \<Longrightarrow> hex_digit m = hex_digit n \<longleftrightarrow> m = n"
  by (metis hex_val_digit)

lemma byte_nibbles: "byte c div 16 < 16" "byte c mod 16 < 16"
  using byte_lt [of c] by (simp_all add: less_mult_imp_div_less)

lemma hex_byte_inj: "hex_byte c = hex_byte d \<longleftrightarrow> c = d"
proof
  assume "hex_byte c = hex_byte d"
  then have "byte c div 16 = byte d div 16" and "byte c mod 16 = byte d mod 16"
    by (simp_all add: hex_byte_def hex_digit_inj byte_nibbles)
  then have "byte c = byte d" by (metis div_mult_mod_eq)
  then show "c = d" by simp
qed simp

lemma hex_encode_Nil [simp]: "hex_encode [] = []"
  by (simp add: hex_encode_def)

lemma hex_encode_Cons [simp]: "hex_encode (c # s) = hex_byte c @ hex_encode s"
  by (simp add: hex_encode_def)

lemma hex_encode_append [simp]: "hex_encode (s @ t) = hex_encode s @ hex_encode t"
  by (simp add: hex_encode_def)

lemma length_hex_encode [simp]: "length (hex_encode s) = 2 * length s"
  by (induction s) (auto simp: hex_byte_def)

lemma hex_encode_hex: "list_all is_hex (hex_encode s)"
  by (induction s) (auto simp: hex_byte_def byte_nibbles)

lemma hex_encode_inj [simp]: "hex_encode s = hex_encode t \<longleftrightarrow> s = t"
proof
  show "hex_encode s = hex_encode t \<Longrightarrow> s = t"
  proof (induction s arbitrary: t)
    case Nil
    then show ?case by (cases t) (auto simp: hex_byte_def)
  next
    case (Cons c s)
    then obtain d t' where t: "t = d # t'" by (cases t) (auto simp: hex_byte_def)
    with Cons.prems have "hex_byte c = hex_byte d" and "hex_encode s = hex_encode t'"
      by (simp_all add: hex_byte_def)
    with Cons.IH t show ?case by (simp add: hex_byte_inj)
  qed
qed simp

section \<open>Strings in JSON\<close>

definition bslash :: char where "bslash = CHR 0x5C"
definition dquote :: char where "dquote = CHR 0x22"

definition unicode_escape :: "nat \<Rightarrow> string" where
  "unicode_escape n = [bslash, CHR ''u'', hex_digit (n div 4096 mod 16), hex_digit (n div 256 mod 16),
     hex_digit (n div 16 mod 16), hex_digit (n mod 16)]"

text \<open>One rune \<open>r\<close>, spelled \<open>bs\<close> in the source string.\<close>

definition json_rune :: "nat \<Rightarrow> nat \<Rightarrow> string \<Rightarrow> string" where
  "json_rune r w bs =
     (if r = rune_error \<and> w = 1 then unicode_escape rune_error
      else if r = 0x22 \<or> r = 0x5C then bslash # bs
      else if r = 8 then [bslash, CHR ''b'']
      else if r = 9 then [bslash, CHR ''t'']
      else if r = 10 then [bslash, CHR ''n'']
      else if r = 12 then [bslash, CHR ''f'']
      else if r = 13 then [bslash, CHR ''r'']
      else if r < 0x20 \<or> r = 0x3C \<or> r = 0x3E \<or> r = 0x26 \<or> r = 0x2028 \<or> r = 0x2029 then unicode_escape r
      else bs)"

function json_chars :: "string \<Rightarrow> string" where
  "json_chars s =
     (if s = [] then []
      else (case decode_rune s of (r, w) \<Rightarrow> json_rune r w (take w s) @ json_chars (drop w s)))"
  by pat_completeness auto
termination
proof (relation "measure length", goal_cases)
  case (2 s r w)
  then have "1 \<le> w" using decode_rune_width [of s] by (metis snd_conv)
  with 2 show ?case by auto
qed simp

declare json_chars.simps [simp del]

lemma json_chars_Nil [simp]: "json_chars [] = []"
  by (simp add: json_chars.simps)

definition json_string :: "string \<Rightarrow> string" where
  "json_string s = dquote # json_chars s @ [dquote]"

text \<open>\<^verbatim>\<open>json.Marshal\<close> of a \<^verbatim>\<open>[]string\<close> that is not nil.\<close>

definition json_strings :: "string list \<Rightarrow> string" where
  "json_strings xs = ''['' @ join '','' (map json_string xs) @ '']''"

section \<open>The encoding can be read back\<close>

definition u16 :: "char \<Rightarrow> char \<Rightarrow> char \<Rightarrow> char \<Rightarrow> nat" where
  "u16 a b c d = ((hex_val a * 16 + hex_val b) * 16 + hex_val c) * 16 + hex_val d"

definition u16_bytes :: "nat \<Rightarrow> string" where
  "u16_bytes n = (if n < 0x80 then [char_of n] else [char_of (0xE0 + n div 4096), char_of (0x80 + n div 64 mod 64), char_of (0x80 + n mod 64)])"

definition short_escape :: "char \<Rightarrow> char" where
  "short_escape c = (if c = CHR ''b'' then char_of (8::nat) else if c = CHR ''t'' then char_of (9::nat) else if c = CHR ''n'' then char_of (10::nat)
     else if c = CHR ''f'' then char_of (12::nat) else if c = CHR ''r'' then char_of (13::nat) else c)"

text \<open>Reads up to the closing quote; returns the string and what follows the quote.\<close>

fun json_read :: "string \<Rightarrow> (string \<times> string) option" where
  "json_read [] = None"
| "json_read (c # s) =
     (if c = dquote then Some ([], s)
      else if c = bslash then
        (case s of
           [] \<Rightarrow> None
         | e # t \<Rightarrow>
             if e = CHR ''u'' then
               (case t of h1 # h2 # h3 # h4 # v \<Rightarrow> map_option (apfst ((@) (u16_bytes (u16 h1 h2 h3 h4)))) (json_read v) | _ \<Rightarrow> None)
             else map_option (apfst ((#) (short_escape e))) (json_read t))
      else map_option (apfst ((#) c)) (json_read s))"

lemma json_read_plain:
  "list_all (\<lambda>c. c \<noteq> dquote \<and> c \<noteq> bslash) bs \<Longrightarrow> json_read (bs @ s) = map_option (apfst ((@) bs)) (json_read s)"
proof (induction bs)
  case Nil
  then show ?case by (cases "json_read s") auto
next
  case (Cons c bs)
  then show ?case by (cases "json_read s") auto
qed

lemma u16_digits:
  assumes "n < 65536"
  shows "u16 (hex_digit (n div 4096 mod 16)) (hex_digit (n div 256 mod 16)) (hex_digit (n div 16 mod 16)) (hex_digit (n mod 16)) = n"
proof -
  have d: "n div 256 = n div 16 div 16" "n div 4096 = n div 16 div 16 div 16"
    by (simp_all add: div_mult2_eq [symmetric])
  have top: "n div 4096 mod 16 = n div 4096" "n div 4096 < 16" using assms by simp_all
  have h: "m div 16 * 16 + m mod 16 = m" for m :: nat by simp
  show ?thesis unfolding u16_def
    by (simp only: top(1) hex_val_digit [OF top(2)] hex_val_digit mod_less_divisor zero_less_numeral, simp only: d h)
qed

lemma json_read_unicode:
  "n < 65536 \<Longrightarrow> json_read (unicode_escape n @ s) = map_option (apfst ((@) (u16_bytes n))) (json_read s)"
  using u16_digits [of n] by (simp add: unicode_escape_def dquote_def bslash_def)

lemma json_read_short:
  "e \<noteq> CHR ''u'' \<Longrightarrow> json_read (bslash # e # t) = map_option (apfst ((@) [short_escape e])) (json_read t)"
  by (cases "json_read t") (auto simp: dquote_def bslash_def)

text \<open>Each rune of valid UTF-8 comes back as its own bytes.\<close>

lemma decode_rune_ascii: "decode_rune s = (r, w) \<Longrightarrow> r < 128 \<Longrightarrow> s \<noteq> [] \<Longrightarrow> take w s = [char_of r] \<and> w = 1"
  by (cases s) (auto simp: decode_rune_def Let_def rune_error_def in_range_def second_byte_ok_def byte_def
      split: list.splits if_splits)

lemma base64_digits:
  "(a::nat) * 4096 + b * 64 + c = v \<Longrightarrow> b < 64 \<Longrightarrow> c < 64 \<Longrightarrow> a = v div 4096 \<and> b = v div 64 mod 64 \<and> c = v mod 64"
proof -
  assume v: "a * 4096 + b * 64 + c = v" and b: "b < 64" and c: "c < 64"
  from v have v': "v = (a * 64 + b) * 64 + c" by simp
  have "v div 64 = a * 64 + b" using c by (simp add: v')
  moreover from this b have "v div 64 div 64 = a" and "v div 64 mod 64 = b" by simp_all
  moreover have "v div 64 div 64 = v div 4096" by (simp add: div_mult2_eq [symmetric])
  moreover have "v mod 64 = c" unfolding v' using c by (simp only: mod_mult_self3 mod_less)
  ultimately show ?thesis by simp
qed

lemma decode_rune_three:
  assumes "decode_rune s = (r, w)" and "s \<noteq> []" and "r = 0x2028 \<or> r = 0x2029"
  shows "take w s = u16_bytes r"
proof -
  obtain c0 rest where s: "s = c0 # rest" using assms(2) by (cases s) auto
  obtain c1 c2 t where rest: "rest = c1 # c2 # t" and w: "w = 3"
    and r: "(byte c0 - 0xE0) * 4096 + (byte c1 - 0x80) * 64 + (byte c2 - 0x80) = r"
    and b: "0xE0 \<le> byte c0" "0x80 \<le> byte c1" "0x80 \<le> byte c2" "byte c1 < 0xC0" "byte c2 < 0xC0"
    using assms(1,3)
    by (auto simp: s decode_rune_def Let_def rune_error_def in_range_def second_byte_ok_def split: list.splits if_splits)
  have "byte c0 - 0xE0 = r div 4096 \<and> byte c1 - 0x80 = r div 64 mod 64 \<and> byte c2 - 0x80 = r mod 64"
    by (rule base64_digits [OF r]) (use b in auto)
  with b have "byte c0 = 0xE0 + r div 4096" "byte c1 = 0x80 + r div 64 mod 64" "byte c2 = 0x80 + r mod 64" by auto
  then have "c0 = char_of (0xE0 + r div 4096)" "c1 = char_of (0x80 + r div 64 mod 64)" "c2 = char_of (0x80 + r mod 64)"
    by (metis byte_def char_of_char)+
  with assms(3) show ?thesis by (auto simp: s rest w u16_bytes_def)
qed

lemma decode_rune_high: "decode_rune s = (r, w) \<Longrightarrow> 128 \<le> r \<Longrightarrow> c \<in> set (take w s) \<Longrightarrow> 128 \<le> byte c"
proof -
  assume r: "decode_rune s = (r, w)" "128 \<le> r" and c: "c \<in> set (take w s)"
  then have "s \<noteq> []" by (cases s) auto
  from decode_rune_ascii_bytes [OF this r(1)] r(2) have "filter (\<lambda>b. b < 128) (map byte (take w s)) = []" by simp
  with c show ?thesis by (auto simp: filter_empty_conv not_less)
qed

lemma valid_runes_shift:
  "list_all (\<lambda>(i, r, w). P r w) (range_runes i s) \<longleftrightarrow> list_all (\<lambda>(i, r, w). P r w) (range_runes j s)"
proof (induction i s arbitrary: j rule: range_runes.induct)
  case (1 i s)
  obtain r w where rw: "decode_rune s = (r, w)" by force
  show ?case
  proof (cases "s = []")
    case False
    with "1.IH" [OF False rw [symmetric], of "j + w"] rw
    show ?thesis by (subst (1 2) range_runes.simps) simp
  qed simp
qed

lemma valid_utf8_step:
  assumes "valid_utf8 s" and "s \<noteq> []" and "decode_rune s = (r, w)"
  shows "\<not> (r = rune_error \<and> w = 1) \<and> valid_utf8 (drop w s)"
  using assms valid_runes_shift [of "\<lambda>r w. \<not> (r = rune_error \<and> w = 1)" w "drop w s" 0]
  by (simp add: valid_utf8_def range_runes.simps [of 0 s])

lemma json_read_rune:
  assumes "decode_rune s = (r, w)" and "s \<noteq> []" and "\<not> (r = rune_error \<and> w = 1)"
  shows "json_read (json_rune r w (take w s) @ t) = map_option (apfst ((@) (take w s))) (json_read t)"
proof (cases "r < 128")
  case True
  with decode_rune_ascii [OF assms(1) True assms(2)] have bs: "take w s = [char_of r]" "w = 1" by auto
  have ne: "r \<noteq> 0x22 \<Longrightarrow> char_of r \<noteq> dquote" "r \<noteq> 0x5C \<Longrightarrow> char_of r \<noteq> bslash"
    using True by (auto simp: dquote_def bslash_def char_of_eq_iff take_bit_eq_mod)
  show ?thesis
  proof (cases "r < 0x20 \<or> r = 0x3C \<or> r = 0x3E \<or> r = 0x26 \<or> r = 0x22 \<or> r = 0x5C")
    case special: True
    consider (quoted) "r = 0x22 \<or> r = 0x5C" | (short) "r \<in> {8, 9, 10, 12, 13}"
      | (long) "r < 0x20 \<or> r = 0x3C \<or> r = 0x3E \<or> r = 0x26" "r \<notin> {0x22, 0x5C, 8, 9, 10, 12, 13}"
      using special by auto
    then show ?thesis
    proof cases
      case quoted
      have "char_of (0x22::nat) = CHR 0x22" and "char_of (0x5C::nat) = CHR 0x5C" by code_simp+
      with quoted have "json_rune r w (take w s) = [bslash, char_of r]" and "char_of r \<noteq> CHR ''u''" and "short_escape (char_of r) = char_of r"
        by (auto simp: json_rune_def bs(1) rune_error_def short_escape_def)
      then show ?thesis by (simp add: bs(1) json_read_short del: json_read.simps)
    next
      case short
      then obtain e where "json_rune r w (take w s) = [bslash, e]" and "e \<noteq> CHR ''u''" and "short_escape e = char_of r"
        by (auto simp: json_rune_def rune_error_def short_escape_def)
      then show ?thesis by (simp add: bs(1) json_read_short del: json_read.simps)
    next
      case long
      then have "json_rune r w (take w s) = unicode_escape r" by (auto simp: json_rune_def rune_error_def)
      with True show ?thesis by (simp add: json_read_unicode bs(1) u16_bytes_def)
    qed
  next
    case False
    with ne have "list_all (\<lambda>c. c \<noteq> dquote \<and> c \<noteq> bslash) (take w s)" by (simp add: bs(1))
    with False True show ?thesis
      by (subst json_rune_def) (simp add: rune_error_def json_read_plain)
  qed
next
  case False
  then have "byte c \<ge> 128" if "c \<in> set (take w s)" for c using decode_rune_high [OF assms(1) _ that] by simp
  then have plain: "list_all (\<lambda>c. c \<noteq> dquote \<and> c \<noteq> bslash) (take w s)"
    by (fastforce simp: list_all_iff dquote_def bslash_def byte_def)
  show ?thesis
  proof (cases "r = 0x2028 \<or> r = 0x2029")
    case True
    with decode_rune_three [OF assms(1,2) True] show ?thesis
      by (auto simp: json_rune_def rune_error_def json_read_unicode)
  next
    case False
    with \<open>\<not> r < 128\<close> assms(3) have "json_rune r w (take w s) = take w s" by (auto simp: json_rune_def)
    with json_read_plain [OF plain] show ?thesis by simp
  qed
qed

lemma json_read_chars: "valid_utf8 s \<Longrightarrow> json_read (json_chars s @ dquote # t) = Some (s, t)"
proof (induction s rule: json_chars.induct)
  case (1 s)
  show ?case
  proof (cases "s = []")
    case False
    obtain r w where rw: "decode_rune s = (r, w)" by force
    from valid_utf8_step [OF "1.prems" False rw] have ok: "\<not> (r = rune_error \<and> w = 1)" and rest: "valid_utf8 (drop w s)" by auto
    from "1.IH" [OF False rw [symmetric] rest] json_read_rune [OF rw False ok] rw False show ?thesis
      by (subst json_chars.simps) simp
  qed simp
qed

lemma json_string_prefix_inj:
  assumes "valid_utf8 s" and "valid_utf8 s'" and "json_string s @ t = json_string s' @ t'"
  shows "s = s' \<and> t = t'"
proof -
  from assms(3) have "json_chars s @ dquote # t = json_chars s' @ dquote # t'" by (simp add: json_string_def)
  then have "Some (s, t) = Some (s', t')"
    by (metis json_read_chars [OF assms(1)] json_read_chars [OF assms(2)])
  then show ?thesis by simp
qed

text \<open>Lists of equally many strings with the same encoding are the same.\<close>

lemma join_json_inj:
  "length xs = length ys \<Longrightarrow> list_all valid_utf8 xs \<Longrightarrow> list_all valid_utf8 ys \<Longrightarrow>
   join '','' (map json_string xs) @ t = join '','' (map json_string ys) @ t' \<Longrightarrow> xs = ys"
proof (induction xs ys rule: list_induct2)
  case (Cons x xs y ys)
  show ?case
  proof (cases "xs = []")
    case True
    with Cons json_string_prefix_inj [of x y t t'] show ?thesis by simp
  next
    case False
    with Cons have ne: "map json_string xs \<noteq> []" "map json_string ys \<noteq> []" by auto
    with Cons.prems json_string_prefix_inj [of x y "'','' @ join '','' (map json_string xs) @ t" "'','' @ join '','' (map json_string ys) @ t'"]
    have "x = y" and "join '','' (map json_string xs) @ t = join '','' (map json_string ys) @ t'"
      by (simp_all add: join_Cons)
    with Cons show ?thesis by simp
  qed
qed simp

lemma json_strings_inj:
  assumes "json_strings xs = json_strings ys" and "length xs = length ys" and "list_all valid_utf8 xs" and "list_all valid_utf8 ys"
  shows "xs = ys"
  by (rule join_json_inj [OF assms(2-4), of "'']''" "'']''"]) (use assms(1) in \<open>simp add: json_strings_def\<close>)

end
