(* ===== verification/Operation.thy ===== *)
theory Operation
  imports Password Json "HOL-Library.Word" "HOL-Library.Char_ord" "HOL-Library.List_Lexorder"
begin

unbundle bit_operations_syntax

text \<open>
  Whole-Appliance operations (\<^verbatim>\<open>internal/appliance/contract.go\<close>, \<^verbatim>\<open>operation.go\<close>): actions, operation
  types and states, plan requests and their idempotency hash, operation identifiers, and the
  operation as the API returns it.  Types and states are Go strings; any string can arrive in a
  request.
\<close>

section \<open>Contract\<close>

definition SchemaVersion :: string where "SchemaVersion = ''appliance-ops/v1alpha1''"

definition ActionBackup :: string where "ActionBackup = ''backup''"
definition ActionRestore :: string where "ActionRestore = ''restore''"
definition ActionUpdate :: string where "ActionUpdate = ''update''"
definition ActionRollback :: string where "ActionRollback = ''rollback''"
definition ActionReset :: string where "ActionReset = ''reset''"
definition ActionDiagnostics :: string where "ActionDiagnostics = ''diagnostics''"

lemmas action_defs = ActionBackup_def ActionRestore_def ActionUpdate_def ActionRollback_def ActionReset_def ActionDiagnostics_def

definition Actions :: "string list" where
  "Actions = [ActionBackup, ActionRestore, ActionUpdate, ActionRollback, ActionReset, ActionDiagnostics]"

definition Destructive :: "string \<Rightarrow> bool" where
  "Destructive a \<longleftrightarrow> a \<in> set [ActionRestore, ActionUpdate, ActionRollback, ActionReset]"

definition OriginOAM :: string where "OriginOAM = ''oam''"
definition OriginHost :: string where "OriginHost = ''host''"
definition CodePlanExpired :: string where "CodePlanExpired = ''PLAN_EXPIRED''"
definition CodeCancelledByUser :: string where "CodeCancelledByUser = ''CANCELLED_BY_USER''"
definition CodeHostJobLost :: string where "CodeHostJobLost = ''HOST_JOB_LOST''"
definition CodeSubmitRejected :: string where "CodeSubmitRejected = ''SUBMIT_REJECTED''"
definition CodeChallengeMismatch :: string where "CodeChallengeMismatch = ''CHALLENGE_MISMATCH''"
definition CodeChallengeConsumed :: string where "CodeChallengeConsumed = ''CHALLENGE_CONSUMED''"
definition CodeChallengeExpired :: string where "CodeChallengeExpired = ''CHALLENGE_EXPIRED''"
definition CodeOperationNotCancellable :: string where "CodeOperationNotCancellable = ''OPERATION_NOT_CANCELLABLE''"

lemmas code_defs = OriginOAM_def OriginHost_def CodePlanExpired_def CodeCancelledByUser_def CodeHostJobLost_def
  CodeSubmitRejected_def CodeChallengeMismatch_def CodeChallengeConsumed_def CodeChallengeExpired_def CodeOperationNotCancellable_def

section \<open>Types and states\<close>

definition OperationBackup :: string where "OperationBackup = ''backup''"
definition OperationRestore :: string where "OperationRestore = ''restore''"
definition OperationUpdate :: string where "OperationUpdate = ''update''"
definition OperationRollback :: string where "OperationRollback = ''rollback''"
definition OperationReset :: string where "OperationReset = ''reset''"

lemmas optype_defs = OperationBackup_def OperationRestore_def OperationUpdate_def OperationRollback_def OperationReset_def

definition OperationType_Valid :: "string \<Rightarrow> bool" where
  "OperationType_Valid t \<longleftrightarrow> t \<in> set [OperationBackup, OperationRestore, OperationUpdate, OperationRollback, OperationReset]"

definition OperationType_Action :: "string \<Rightarrow> string" where
  "OperationType_Action t = t"

definition StatePlanned :: string where "StatePlanned = ''PLANNED''"
definition StateAwaitingAuthorization :: string where "StateAwaitingAuthorization = ''AWAITING_AUTHORIZATION''"
definition StateQueued :: string where "StateQueued = ''QUEUED''"
definition StateRunning :: string where "StateRunning = ''RUNNING''"
definition StateVerifying :: string where "StateVerifying = ''VERIFYING''"
definition StateSucceeded :: string where "StateSucceeded = ''SUCCEEDED''"
definition StateFailed :: string where "StateFailed = ''FAILED''"
definition StateCompensating :: string where "StateCompensating = ''COMPENSATING''"
definition StateRolledBack :: string where "StateRolledBack = ''ROLLED_BACK''"
definition StateRecoveryRequired :: string where "StateRecoveryRequired = ''RECOVERY_REQUIRED''"
definition StateCancelled :: string where "StateCancelled = ''CANCELLED''"

lemmas state_defs = StatePlanned_def StateAwaitingAuthorization_def StateQueued_def StateRunning_def StateVerifying_def
  StateSucceeded_def StateFailed_def StateCompensating_def StateRolledBack_def StateRecoveryRequired_def StateCancelled_def

definition OperationState_Valid :: "string \<Rightarrow> bool" where
  "OperationState_Valid s \<longleftrightarrow> s \<in> set [StatePlanned, StateAwaitingAuthorization, StateQueued, StateRunning, StateVerifying,
     StateSucceeded, StateFailed, StateCompensating, StateRolledBack, StateRecoveryRequired, StateCancelled]"

definition hostOwned :: "string \<Rightarrow> bool" where
  "hostOwned s \<longleftrightarrow> s \<in> set [StateQueued, StateRunning, StateVerifying, StateSucceeded, StateFailed,
     StateCompensating, StateRolledBack, StateRecoveryRequired, StateCancelled]"

definition Terminal :: "string \<Rightarrow> bool" where
  "Terminal s \<longleftrightarrow> s \<in> set [StateSucceeded, StateFailed, StateRolledBack, StateCancelled]"

definition Active :: "string \<Rightarrow> bool" where
  "Active s \<longleftrightarrow> s \<in> set [StateAwaitingAuthorization, StateQueued, StateRunning, StateVerifying, StateCompensating, StateRecoveryRequired]"

lemmas state_class_defs = OperationState_Valid_def hostOwned_def Terminal_def Active_def

text \<open>The states stay folded in proofs; all that matters is that they differ.\<close>

lemma states_distinct:
  "distinct [StatePlanned, StateAwaitingAuthorization, StateQueued, StateRunning, StateVerifying,
     StateSucceeded, StateFailed, StateCompensating, StateRolledBack, StateRecoveryRequired, StateCancelled]"
  by (simp add: state_defs)

lemma states_distinct_rev:
  "distinct [StateCancelled, StateRecoveryRequired, StateRolledBack, StateCompensating, StateFailed, StateSucceeded,
     StateVerifying, StateRunning, StateQueued, StateAwaitingAuthorization, StatePlanned]"
  by (simp add: state_defs)

lemmas state_neq = states_distinct [simplified] states_distinct_rev [simplified]

declare state_neq [simp]

lemma hostOwned_not_pending [simp]: "\<not> hostOwned StatePlanned" "\<not> hostOwned StateAwaitingAuthorization"
  by (simp_all add: hostOwned_def)

lemma state_classes [simp]:
  "\<not> Active StatePlanned" "Active StateAwaitingAuthorization" "Active StateQueued" "Active StateRecoveryRequired"
  "\<not> Active StateFailed" "\<not> Active StateCancelled" "Terminal StateFailed" "Terminal StateCancelled"
  "\<not> Terminal StatePlanned" "\<not> Terminal StateAwaitingAuthorization" "\<not> Terminal StateQueued" "\<not> Terminal StateRecoveryRequired"
  by (simp_all add: Active_def Terminal_def)

definition PlanTTL :: int where "PlanTTL = 15 * 60 * 1000000000"
definition ChallengeTTL :: int where "ChallengeTTL = 5 * 60 * 1000000000"
definition maxRefLength :: nat where "maxRefLength = 256"
definition maxNoteLength :: nat where "maxNoteLength = 500"
definition minIdempotencyKeyLen :: nat where "minIdempotencyKeyLen = 16"
definition maxIdempotencyKeyLen :: nat where "maxIdempotencyKeyLen = 128"

definition ReconciliationInSync :: string where "ReconciliationInSync = ''IN_SYNC''"
definition ReconciliationHostUnreachable :: string where "ReconciliationHostUnreachable = ''HOST_UNREACHABLE''"
definition ReconciliationHostUnknown :: string where "ReconciliationHostUnknown = ''HOST_UNKNOWN''"

section \<open>Plan requests\<close>

record PlanRequest =
  pr_SchemaVersion :: string
  pr_Type :: string
  pr_ArchiveRef :: string
  pr_TargetReleaseRef :: string
  pr_Note :: string

datatype request_error = BadType | RefTooLong | NoteTooLong | ArchiveRefMisused | TargetReleaseRefMisused

definition PlanRequest_Validate :: "PlanRequest \<Rightarrow> request_error option" where
  "PlanRequest_Validate r =
     (if \<not> OperationType_Valid (pr_Type r) then Some BadType
      else if length (pr_ArchiveRef r) > maxRefLength \<or> length (pr_TargetReleaseRef r) > maxRefLength then Some RefTooLong
      else if length (pr_Note r) > maxNoteLength then Some NoteTooLong
      else if (pr_Type r = OperationRestore) \<noteq> (pr_ArchiveRef r \<noteq> '''') then Some ArchiveRefMisused
      else if (pr_Type r = OperationUpdate) \<noteq> (pr_TargetReleaseRef r \<noteq> '''') then Some TargetReleaseRefMisused
      else None)"

definition PlanRequest_Hash :: "crypto \<Rightarrow> PlanRequest \<Rightarrow> string" where
  "PlanRequest_Hash C r =
     (let canonical = json_strings [pr_Type r, pr_ArchiveRef r, pr_TargetReleaseRef r, pr_Note r] in
      hex_encode (sha256_sum C canonical))"

definition ValidIdempotencyKey :: "string \<Rightarrow> bool" where
  "ValidIdempotencyKey key \<longleftrightarrow>
     (if length key < minIdempotencyKeyLen \<or> length key > maxIdempotencyKeyLen then False
      else \<not> list_ex (\<lambda>r. r \<le> 32 \<or> r > 126) (runes key))"

record Plan =
  IrreversibleAfterPhase :: string
  CurrentReleaseDigest :: string
  TargetReleaseDigest :: string
  ArchiveDigest :: string
  Compatibility :: string
  AffectedResources :: "string list"

text \<open>
  Two requests with the same hash ask for the same thing, unless SHA-256 collides on their
  canonical forms.  The text fields come from a decoded JSON body and are valid UTF-8.
\<close>

definition request_utf8 :: "PlanRequest \<Rightarrow> bool" where
  "request_utf8 r \<longleftrightarrow> list_all valid_utf8 [pr_Type r, pr_ArchiveRef r, pr_TargetReleaseRef r, pr_Note r]"

definition same_ask :: "PlanRequest \<Rightarrow> PlanRequest \<Rightarrow> bool" where
  "same_ask r r' \<longleftrightarrow> pr_Type r = pr_Type r' \<and> pr_ArchiveRef r = pr_ArchiveRef r' \<and>
     pr_TargetReleaseRef r = pr_TargetReleaseRef r' \<and> pr_Note r = pr_Note r'"

lemma hash_same_ask: "same_ask r r' \<Longrightarrow> PlanRequest_Hash C r = PlanRequest_Hash C r'"
  by (simp add: same_ask_def PlanRequest_Hash_def)

definition no_collision :: "crypto \<Rightarrow> PlanRequest \<Rightarrow> PlanRequest \<Rightarrow> bool" where
  "no_collision C r r' \<longleftrightarrow>
     (let a = json_strings [pr_Type r, pr_ArchiveRef r, pr_TargetReleaseRef r, pr_Note r];
          b = json_strings [pr_Type r', pr_ArchiveRef r', pr_TargetReleaseRef r', pr_Note r'] in
      sha256_sum C a = sha256_sum C b \<longrightarrow> a = b)"

lemma hash_differs:
  assumes "request_utf8 r" and "request_utf8 r'" and "no_collision C r r'" and "PlanRequest_Hash C r = PlanRequest_Hash C r'"
  shows "same_ask r r'"
proof -
  from assms(3,4) have "json_strings [pr_Type r, pr_ArchiveRef r, pr_TargetReleaseRef r, pr_Note r] =
      json_strings [pr_Type r', pr_ArchiveRef r', pr_TargetReleaseRef r', pr_Note r']"
    by (simp add: PlanRequest_Hash_def no_collision_def Let_def)
  from json_strings_inj [OF this] assms(1,2) show ?thesis by (simp add: same_ask_def request_utf8_def)
qed

section \<open>Operations\<close>

record Operation =
  o_ID :: string
  o_Type :: string
  o_State :: string
  o_Phase :: string
  o_InstallationID :: string
  o_Model :: string
  o_Actor :: string
  o_RequestID :: string
  o_Note :: string
  o_HostFixture :: bool
  o_PlanHash :: string
  o_PlanExpiresAt :: int
  o_Plan :: "Plan option"
  o_Redacted :: bool
  o_RequiresReauthentication :: bool
  o_Cancellable :: bool
  o_HostGeneration :: int
  o_Reconciliation :: string
  o_Stale :: bool
  o_ErrorCode :: string
  o_ErrorOrigin :: string
  o_CreatedAt :: int
  o_UpdatedAt :: int
  o_SubmittedAt :: "int option"
  o_FinishedAt :: "int option"
  o_ActorUserID :: int
  o_RequestHash :: string
  o_request :: PlanRequest

definition redacted :: "Operation \<Rightarrow> Operation" where
  "redacted op = op\<lparr>o_PlanHash := '''', o_Plan := None, o_Note := '''', o_Redacted := True\<rparr>"

section \<open>Identifiers\<close>

text \<open>
  UUIDv7.  \<open>rnd\<close> is what the random source delivers for the last ten bytes; \<open>None\<close> when it fails.
\<close>

definition ms_bytes :: "64 word \<Rightarrow> string" where
  "ms_bytes ms = map (\<lambda>n. char_of (unat (drop_bit n ms AND 0xFF))) [40, 32, 24, 16, 8, 0]"

definition uuid_bytes :: "int \<Rightarrow> string \<Rightarrow> string" where
  "uuid_bytes now rnd =
     (let ms = (word_of_int (now div 1000000) :: 64 word); b = ms_bytes ms @ rnd;
          b = b[6 := char_of ((byte (b ! 6) AND 0x0f) OR 0x70)]
      in b[8 := char_of ((byte (b ! 8) AND 0x3f) OR 0x80)])"

definition slice :: "nat \<Rightarrow> nat \<Rightarrow> 'a list \<Rightarrow> 'a list" where
  "slice i j xs = take (j - i) (drop i xs)"

definition newOperationID :: "int \<Rightarrow> string option \<Rightarrow> string option" where
  "newOperationID now rnd = (case rnd of
      None \<Rightarrow> None
    | Some bytes \<Rightarrow>
       (let h = hex_encode (uuid_bytes now bytes) in
        Some (slice 0 8 h @ ''-'' @ slice 8 12 h @ ''-'' @ slice 12 16 h @ ''-'' @ slice 16 20 h @ ''-'' @ slice 20 32 h)))"

definition ValidOperationID :: "string \<Rightarrow> bool" where
  "ValidOperationID ident \<longleftrightarrow>
     (if length ident \<noteq> 36 then False
      else list_all (\<lambda>(i, c, w). if i \<in> set [8, 13, 18, 23] then c = 45 else in_range 48 57 c \<or> in_range 97 102 c)
             (range_runes 0 ident))"

subsection \<open>Identifiers are well formed\<close>

lemma range_runes_append_ascii:
  "is_ascii xs \<Longrightarrow> range_runes i (xs @ ys) = range_runes i xs @ range_runes (i + length xs) ys"
  by (induction xs arbitrary: i) (auto simp: is_ascii_def)

definition id_char_ok :: "nat \<times> nat \<times> nat \<Rightarrow> bool" where
  "id_char_ok x = (case x of (i, c, w) \<Rightarrow> if i \<in> set [8, 13, 18, 23] then c = 45 else in_range 48 57 c \<or> in_range 97 102 c)"

lemma hex_segment:
  "list_all is_hex xs \<Longrightarrow> (\<And>k. k \<in> set [8, 13, 18, 23] \<Longrightarrow> k < i \<or> i + length xs \<le> k) \<Longrightarrow>
   is_ascii xs \<and> list_all id_char_ok (range_runes i xs)"
proof (induction xs arbitrary: i)
  case (Cons c xs)
  then have c: "byte c < 128" and x: "in_range 48 57 (byte c) \<or> in_range 97 102 (byte c)"
    by (auto simp: is_hex_def in_range_def)
  have "is_ascii xs \<and> list_all id_char_ok (range_runes (Suc i) xs)"
    by (rule Cons.IH) (use Cons.prems in fastforce)+
  moreover have "i \<notin> set [8, 13, 18, 23]" using Cons.prems(2) by fastforce
  then have "id_char_ok (i, byte c, 1)" using x by (simp add: id_char_ok_def)
  ultimately show ?case using c by (simp add: is_ascii_def)
qed (simp add: is_ascii_def)

lemma length_uuid_bytes [simp]: "length (uuid_bytes now rnd) = 6 + length rnd"
  by (simp add: uuid_bytes_def ms_bytes_def Let_def)

lemma slice_hex: "list_all is_hex h \<Longrightarrow> list_all is_hex (slice i j h)"
  by (auto simp: slice_def list_all_iff dest: in_set_takeD in_set_dropD)

lemma dash_segment: "i \<in> set [8, 13, 18, 23] \<Longrightarrow> is_ascii ''-'' \<and> list_all id_char_ok (range_runes i ''-'')"
  by (simp add: is_ascii_def id_char_ok_def byte_def)

lemma newOperationID_valid:
  assumes "newOperationID now (Some rnd) = Some ident" and "length rnd = 10"
  shows "ValidOperationID ident"
proof -
  define h where "h = hex_encode (uuid_bytes now rnd)"
  have len: "length h = 32" and hex: "list_all is_hex h" using assms(2) hex_encode_hex by (simp_all add: h_def)
  have ident: "ident = slice 0 8 h @ ''-'' @ slice 8 12 h @ ''-'' @ slice 12 16 h @ ''-'' @ slice 16 20 h @ ''-'' @ slice 20 32 h"
    using assms(1) by (simp add: newOperationID_def h_def Let_def)
  have sl: "length (slice i j h) = j - i" if "j \<le> 32" for i j using that len by (simp add: slice_def)
  have seg: "is_ascii (slice i j h) \<and> list_all id_char_ok (range_runes p (slice i j h))"
    if "j \<le> 32 \<and> list_all (\<lambda>k. k < p \<or> p + (j - i) \<le> k) [8, 13, 18, 23]" for i j p
    by (rule hex_segment [OF slice_hex [OF hex]]) (use that sl in auto)
  have "list_all id_char_ok (range_runes 0 ident)"
    unfolding ident
    using seg [where i = 0 and j = 8 and p = 0] seg [where i = 8 and j = 12 and p = 9] seg [where i = 12 and j = 16 and p = 14]
      seg [where i = 16 and j = 20 and p = 19] seg [where i = 20 and j = 32 and p = 24] dash_segment [of 8] dash_segment [of 13] dash_segment [of 18] dash_segment [of 23]
    by (simp add: range_runes_append_ascii sl del: append.simps)
  moreover have "length ident = 36" by (simp add: ident sl)
  moreover have "id_char_ok = (\<lambda>(i, c, w). if i \<in> set [8, 13, 18, 23] then c = 45 else in_range 48 57 c \<or> in_range 97 102 c)"
    by (auto simp: id_char_ok_def)
  ultimately show ?thesis by (simp add: ValidOperationID_def)
qed

subsection \<open>Identifiers sort by creation time\<close>

lemma lex_append:
  fixes a1 :: "'a :: order list"
  assumes "length a1 = length a2"
  shows "a1 @ b1 < a2 @ b2 \<longleftrightarrow> a1 < a2 \<or> a1 = a2 \<and> b1 < b2"
  using assms by (induction a1 a2 rule: list_induct2) auto

fun be_bytes :: "nat \<Rightarrow> nat \<Rightarrow> nat list" where
  "be_bytes 0 n = []"
| "be_bytes (Suc k) n = be_bytes k (n div 256) @ [n mod 256]"

lemma length_be_bytes [simp]: "length (be_bytes k n) = k"
  by (induction k arbitrary: n) auto

lemma be_bytes_lt: "x \<in> set (be_bytes k n) \<Longrightarrow> x < 256"
  by (induction k arbitrary: n) auto

lemma be_bytes_mono: "m < n \<Longrightarrow> n < 256 ^ k \<Longrightarrow> be_bytes k m < be_bytes k n"
proof (induction k arbitrary: m n)
  case (Suc k)
  show ?case
  proof (cases "m div 256 < n div 256")
    case True
    moreover from Suc.prems(2) have "n div 256 < 256 ^ k" by (simp add: less_mult_imp_div_less mult.commute)
    ultimately show ?thesis using Suc.IH by (simp add: lex_append)
  next
    case False
    with Suc.prems(1) have "m div 256 = n div 256" by (meson div_le_mono le_neq_implies_less less_imp_le)
    moreover from this Suc.prems(1) have "m mod 256 < n mod 256"
      by (metis div_mult_mod_eq nat_add_left_cancel_less)
    ultimately show ?thesis by (simp add: lex_append)
  qed
qed simp

lemma hex_digit_mono: "m < n \<Longrightarrow> n < 16 \<Longrightarrow> hex_digit m < hex_digit n"
  using byte_hex_digit [of m] byte_hex_digit [of n] by (auto simp: less_char_def byte_def split: if_splits)

lemma hex_byte_mono:
  fixes m n :: nat
  assumes "m < n" and "n < 256"
  shows "hex_byte (char_of m) < hex_byte (char_of n)"
proof (cases "m div 16 < n div 16")
  case True
  with assms show ?thesis by (simp add: hex_byte_def byte_char_of hex_digit_mono)
next
  case False
  with assms(1) have "m div 16 = n div 16" by (meson div_le_mono le_neq_implies_less less_imp_le)
  moreover from this assms(1) have "m mod 16 < n mod 16" by (metis div_mult_mod_eq nat_add_left_cancel_less)
  ultimately show ?thesis using assms by (simp add: hex_byte_def byte_char_of hex_digit_mono)
qed

lemma hex_encode_mono:
  fixes xs ys :: "nat list"
  shows "length xs = length ys \<Longrightarrow> (\<And>y. y \<in> set ys \<Longrightarrow> y < 256) \<Longrightarrow> xs < ys \<Longrightarrow>
   hex_encode (map char_of xs) < hex_encode (map char_of ys)"
proof (induction xs ys rule: list_induct2)
  case (Cons x xs y ys)
  have l: "length (hex_byte (char_of x)) = length (hex_byte (char_of y))" by (simp add: hex_byte_def)
  from Cons.prems(2) consider "x < y" | "x = y" "xs < ys" by auto
  then show ?case
    using Cons.IH Cons.prems(1) hex_byte_mono [of x y] by cases (auto simp: lex_append [OF l] lex_append [OF refl])
qed simp

lemma unat_byte: "unat (drop_bit n ms AND 0xFF) = unat (ms :: 64 word) div 2 ^ n mod 256"
proof -
  have "unat (drop_bit n ms AND 0xFF) = unat (take_bit 8 (drop_bit n ms))"
    by (simp add: take_bit_eq_mask mask_eq_exp_minus_1)
  also have "\<dots> = unat ms div 2 ^ n mod 256"
    using unsigned_less [of ms, where 'a = nat]
    by (simp add: unsigned_take_bit_eq unsigned_drop_bit_eq, simp add: drop_bit_eq_div take_bit_eq_mod)
  finally show ?thesis .
qed

lemma be_bytes_6: "be_bytes 6 n = map (\<lambda>k. n div 2 ^ k mod 256) [40, 32, 24, 16, 8, 0]"
proof -
  have six: "6 = Suc (Suc (Suc (Suc (Suc (Suc 0)))))" by simp
  have d: "n div 256 div 256 = n div 65536" "n div 65536 div 256 = n div 16777216"
    "n div 16777216 div 256 = n div 4294967296" "n div 4294967296 div 256 = n div 1099511627776"
    by (simp_all add: div_mult2_eq [symmetric])
  have p: "(2 :: nat) ^ 40 = 1099511627776" "(2 :: nat) ^ 32 = 4294967296" "(2 :: nat) ^ 24 = 16777216"
    "(2 :: nat) ^ 16 = 65536" "(2 :: nat) ^ 8 = 256" "n div 2 ^ 0 = n" by simp_all
  show ?thesis unfolding six be_bytes.simps list.map p d append.simps ..
qed

lemma ms_bytes_be: "ms_bytes ms = map char_of (be_bytes 6 (unat ms))"
  unfolding ms_bytes_def unat_byte be_bytes_6 by simp

text \<open>
  C19. An operation identifier minted by \<^verbatim>\<open>newOperationID\<close> passes \<^verbatim>\<open>ValidOperationID\<close>, and identifiers
  minted in different milliseconds sort by time, as the newest-first listing by id and its
  cursor rely on; whatever the random bytes are.  This holds for every time before the 48 bits run out
  (the year 10889).
\<close>

theorem operation_ids_sort_by_time:
  assumes "newOperationID now (Some rnd) = Some ident" and "newOperationID now' (Some rnd') = Some ident'"
    and "length rnd = 10" and "length rnd' = 10"
    and "0 \<le> now" and "now div 1000000 < now' div 1000000" and "now' div 1000000 < 2 ^ 48"
  shows "ValidOperationID ident \<and> ValidOperationID ident' \<and> ident < ident'"
proof -
  define pre where "pre t = hex_encode (ms_bytes (word_of_int (t div 1000000)))" for t
  have len: "length (pre t) = 12" for t by (simp add: pre_def ms_bytes_def del: hex_encode_Cons)
  have shape: "\<exists>rest. i = take 8 (pre t) @ ''-'' @ drop 8 (pre t) @ rest"
    if "newOperationID t (Some r) = Some i" and "length r = 10" for t r i
  proof -
    define tail where "tail = drop 6 (uuid_bytes t r)"
    have "uuid_bytes t r = ms_bytes (word_of_int (t div 1000000)) @ tail"
      unfolding tail_def by (simp add: uuid_bytes_def Let_def ms_bytes_def list_eq_iff_nth_eq nth_append nth_list_update)
    then have "hex_encode (uuid_bytes t r) = pre t @ hex_encode tail" by (simp add: pre_def)
    with that len show ?thesis by (auto simp: newOperationID_def Let_def slice_def)
  qed
  have "pre now < pre now'"
    unfolding pre_def ms_bytes_be
  proof (rule hex_encode_mono)
    have times: "0 \<le> now div 1000000" "now div 1000000 < now' div 1000000" "0 < now' div 1000000" "now' div 1000000 < 281474976710656"
      using assms(5-7) pos_imp_zdiv_nonneg_iff [of 1000000 now] by simp_all
    have "unat (word_of_int (now div 1000000) :: 64 word) = nat (now div 1000000)"
      and "unat (word_of_int (now' div 1000000) :: 64 word) = nat (now' div 1000000)"
      using times by (simp_all add: unsigned_of_int take_bit_eq_mod)
    then show "be_bytes 6 (unat (word_of_int (now div 1000000) :: 64 word)) < be_bytes 6 (unat (word_of_int (now' div 1000000) :: 64 word))"
      using times by (auto intro!: be_bytes_mono simp: nat_less_iff)
  qed (auto dest: be_bytes_lt)
  then have "take 8 (pre now) @ drop 8 (pre now) < take 8 (pre now') @ drop 8 (pre now')" by simp
  then have "take 8 (pre now) < take 8 (pre now') \<or>
      take 8 (pre now) = take 8 (pre now') \<and> drop 8 (pre now) < drop 8 (pre now')"
    by (subst (asm) lex_append) (simp_all add: len)
  then have "ident < ident'"
    using shape [OF assms(1,3)] shape [OF assms(2,4)] len by (auto simp: lex_append)
  with newOperationID_valid [OF assms(1,3)] newOperationID_valid [OF assms(2,4)] show ?thesis by simp
qed

theorem operation_ids_sort_by_time_witness:
  "\<exists>ident ident'. newOperationID 1700000000000000000 (Some ''zzzzzzzzzz'') = Some ident \<and>
     newOperationID 1700000000001000000 (Some ''0000000000'') = Some ident' \<and>
     ValidOperationID ident \<and> ValidOperationID ident' \<and> ident < ident'"
proof -
  obtain ident where i: "newOperationID 1700000000000000000 (Some ''zzzzzzzzzz'') = Some ident"
    by (simp add: newOperationID_def Let_def)
  obtain ident' where i': "newOperationID 1700000000001000000 (Some ''0000000000'') = Some ident'"
    by (simp add: newOperationID_def Let_def)
  from i i' operation_ids_sort_by_time [OF i i'] show ?thesis by simp
qed

end
