(* ===== verification/Host.thy ===== *)
theory Host
  imports Operation
begin

text \<open>
  The host adapter as OAM sees it (\<^verbatim>\<open>internal/appliance/host.go\<close>): the messages, the client interface,
  the client of a deployment without an adapter, and the socket client with its reading of the
  adapter's answers.  The adapter itself is another program; its state is a type variable and what
  OAM relies on are the laws of the locale \<open>host_adapter\<close>.
\<close>

section \<open>Messages\<close>

record HostActionState =
  has_Action :: string
  has_Available :: bool
  has_Reason :: string

record HostCapabilities =
  hcap_ContractVersions :: "string list"
  hcap_Fixture :: bool
  hcap_Actions :: "HostActionState list"
  hcap_ObservedAt :: int

record HostComponent =
  hcomp_Name :: string
  hcomp_Version :: string
  hcomp_Digest :: string
  hcomp_Liveness :: string
  hcomp_Readiness :: string

record HostIdentity =
  hid_InstallationID :: string
  hid_Model :: string
  hid_ReleaseVersion :: string
  hid_ReleaseDigest :: string
  hid_Fixture :: bool
  hid_Components :: "HostComponent list"
  hid_ObservedAt :: int

record HostPlanRequest =
  hp_SchemaVersion :: string
  hp_OperationID :: string
  hp_Type :: string
  hp_ArchiveRef :: string
  hp_TargetReleaseRef :: string

record HostPlan =
  hpl_PlanHash :: string
  hpl_InstallationID :: string
  hpl_Model :: string
  hpl_Fixture :: bool
  hpl_Plan :: Plan

record HostJobRequest =
  jr_SchemaVersion :: string
  jr_OperationID :: string
  jr_Type :: string
  jr_InstallationID :: string
  jr_PlanHash :: string
  jr_ArchiveRef :: string
  jr_TargetReleaseRef :: string

record HostJob =
  hj_OperationID :: string
  hj_State :: string
  hj_Phase :: string
  hj_Generation :: int
  hj_Cancellable :: bool
  hj_ErrorCode :: string
  hj_Fixture :: bool

datatype host_err = ErrHostNotConfigured | ErrHostUnreachable | HostRejection string | ErrHostJobNotFound | ErrHostRequest

section \<open>The client interface\<close>

record 'w HostClient =
  hc_Configured :: bool
  hc_Capabilities :: "('w, host_err + HostCapabilities) state"
  hc_Identity :: "('w, host_err + HostIdentity) state"
  hc_Plan :: "HostPlanRequest \<Rightarrow> ('w, host_err + HostPlan) state"
  hc_Submit :: "HostJobRequest \<Rightarrow> ('w, host_err + HostJob) state"
  hc_Job :: "string \<Rightarrow> ('w, host_err + HostJob) state"
  hc_Cancel :: "string \<Rightarrow> ('w, host_err + HostJob) state"

definition unconfiguredHost :: "'w HostClient" where
  "unconfiguredHost = \<lparr>hc_Configured = False,
     hc_Capabilities = ret (err ErrHostNotConfigured), hc_Identity = ret (err ErrHostNotConfigured),
     hc_Plan = (\<lambda>_. ret (err ErrHostNotConfigured)), hc_Submit = (\<lambda>_. ret (err ErrHostNotConfigured)),
     hc_Job = (\<lambda>_. ret (err ErrHostNotConfigured)), hc_Cancel = (\<lambda>_. ret (err ErrHostNotConfigured))\<rparr>"

section \<open>The socket client\<close>

datatype host_payload = NoPayload | PlanPayload HostPlanRequest | JobPayload HostJobRequest | EmptyObject

text \<open>
  An HTTP answer: the status, and what decoding the body into each of the message types yields
  (\<open>None\<close> when \<^verbatim>\<open>json.Unmarshal\<close> fails).
\<close>

record http_answer =
  an_status :: int
  an_rejection :: "string option"
  an_capabilities :: "HostCapabilities option"
  an_identity :: "HostIdentity option"
  an_plan :: "HostPlan option"
  an_job :: "HostJob option"

text \<open>
  One signed exchange: the request could not be built or signed, it or its answer got lost, or the
  adapter answered.
\<close>

datatype exchange = NotSigned | NoAnswer | Answered http_answer

type_synonym 'w wire = "string \<Rightarrow> string \<Rightarrow> host_payload \<Rightarrow> ('w, exchange) state"

text \<open>\<^verbatim>\<open>socketHost.do\<close> after the exchange.\<close>

definition read_answer :: "string \<Rightarrow> (http_answer \<Rightarrow> 'a option) \<Rightarrow> exchange \<Rightarrow> host_err + 'a" where
  "read_answer path decode x = (case x of
      NotSigned \<Rightarrow> err ErrHostRequest
    | NoAnswer \<Rightarrow> err ErrHostUnreachable
    | Answered a \<Rightarrow>
        (case (if an_status a = 422 then an_rejection a else None) of
           Some (c # code) \<Rightarrow> err (HostRejection (c # code))
         | _ \<Rightarrow>
            if an_status a = 404 \<and> has_prefix path ''/v1/jobs/'' then err ErrHostJobNotFound
            else if an_status a \<noteq> 200 then err ErrHostUnreachable
            else (case decode a of None \<Rightarrow> err ErrHostUnreachable | Some out \<Rightarrow> ok out)))"

definition socket_do :: "'w wire \<Rightarrow> string \<Rightarrow> string \<Rightarrow> host_payload \<Rightarrow> (http_answer \<Rightarrow> 'a option) \<Rightarrow> ('w, host_err + 'a) state" where
  "socket_do wire http_method path payload decode = do {
     x \<leftarrow> wire http_method path payload;
     ret (read_answer path decode x) }"

definition checkJob :: "HostJob \<Rightarrow> string \<Rightarrow> host_err + HostJob" where
  "checkJob job operationID =
     (if hj_OperationID job \<noteq> operationID \<or> \<not> hostOwned (hj_State job) \<or> hj_Generation job < 1
      then err ErrHostUnreachable else ok job)"

definition socketHost :: "'w wire \<Rightarrow> 'w HostClient" where
  "socketHost wire = \<lparr>hc_Configured = True,
     hc_Capabilities = socket_do wire ''GET'' ''/v1/capabilities'' NoPayload an_capabilities,
     hc_Identity = socket_do wire ''GET'' ''/v1/identity'' NoPayload an_identity,
     hc_Plan = (\<lambda>req. check id (socket_do wire ''POST'' ''/v1/plans'' (PlanPayload req) an_plan) (\<lambda>out.
        if hpl_PlanHash out = '''' \<or> hpl_InstallationID out = '''' then ret (err ErrHostUnreachable) else ret (ok out))),
     hc_Submit = (\<lambda>req. check id (socket_do wire ''POST'' ''/v1/jobs'' (JobPayload req) an_job) (\<lambda>out.
        ret (checkJob out (jr_OperationID req)))),
     hc_Job = (\<lambda>operationID. check id (socket_do wire ''GET'' (''/v1/jobs/'' @ operationID) NoPayload an_job) (\<lambda>out.
        ret (checkJob out operationID))),
     hc_Cancel = (\<lambda>operationID. check id (socket_do wire ''POST'' (''/v1/jobs/'' @ operationID @ ''/cancel'') EmptyObject an_job) (\<lambda>out.
        ret (checkJob out operationID)))\<rparr>"

section \<open>What OAM relies on\<close>

text \<open>A journal entry OAM can act on.\<close>

definition usable :: "HostJob \<Rightarrow> string \<Rightarrow> bool" where
  "usable job operationID \<longleftrightarrow> hj_OperationID job = operationID \<and> hostOwned (hj_State job) \<and> 1 \<le> hj_Generation job"

lemma checkJob_usable: "checkJob job i = ok j \<Longrightarrow> j = job \<and> usable job i"
  by (auto simp: checkJob_def usable_def split: if_splits)

text \<open>
  \<open>started\<close> lists the job requests the adapter has begun to execute, in order, and \<open>known\<close> says
  whether its journal has an entry for an operation.  The laws are the comments of the Go
  interface: planning has no side effects, submitting is idempotent on the operation id, a
  rejected submit started nothing, reading and cancelling start nothing, and ``no such job''
  means that the journal has no entry.  \<open>moves\<close> is the adapter's own progress; \<open>loses i\<close> is the
  loss of one journal entry.
\<close>

locale host_adapter =
  fixes hc :: "'w HostClient"
    and known :: "'w \<Rightarrow> string \<Rightarrow> bool"
    and started :: "'w \<Rightarrow> HostJobRequest list"
    and moves :: "'w \<Rightarrow> 'w \<Rightarrow> bool"
    and loses :: "string \<Rightarrow> 'w \<Rightarrow> 'w \<Rightarrow> bool"
  assumes plan_pure: "run_state (hc_Plan hc req) w = (x, w') \<Longrightarrow> known w' = known w \<and> started w' = started w"
    and capabilities_pure: "run_state (hc_Capabilities hc) w = (y, w') \<Longrightarrow> known w' = known w \<and> started w' = started w"
    and identity_pure: "run_state (hc_Identity hc) w = (z, w') \<Longrightarrow> known w' = known w \<and> started w' = started w"
    and job_pure: "run_state (hc_Job hc i) w = (r, w') \<Longrightarrow> known w' = known w \<and> started w' = started w"
    and job_answer: "run_state (hc_Job hc i) w = (ok job, w') \<Longrightarrow> usable job i \<and> known w i"
    and job_missing: "ValidOperationID i \<Longrightarrow> run_state (hc_Job hc i) w = (err ErrHostJobNotFound, w') \<Longrightarrow> \<not> known w i"
    and cancel_pure: "run_state (hc_Cancel hc i) w = (r, w') \<Longrightarrow> known w' = known w \<and> started w' = started w"
    and cancel_answer: "run_state (hc_Cancel hc i) w = (ok job, w') \<Longrightarrow> usable job i \<and> known w i"
    and cancel_missing: "ValidOperationID i \<Longrightarrow> run_state (hc_Cancel hc i) w = (err ErrHostJobNotFound, w') \<Longrightarrow> \<not> known w i"
    and submit_effect: "run_state (hc_Submit hc jr) w = (r, w') \<Longrightarrow>
          known w' = known w \<and> started w' = started w \<or>
          \<not> known w (jr_OperationID jr) \<and> known w' = (known w)(jr_OperationID jr := True) \<and> started w' = started w @ [jr]"
    and submit_answer: "run_state (hc_Submit hc jr) w = (ok job, w') \<Longrightarrow> usable job (jr_OperationID jr) \<and> known w' (jr_OperationID jr)"
    and submit_rejected: "run_state (hc_Submit hc jr) w = (err (HostRejection code), w') \<Longrightarrow> \<not> known w' (jr_OperationID jr)"
    and moves_pure: "moves w w' \<Longrightarrow> known w' = known w \<and> started w' = started w"
    and loses_effect: "loses i w w' \<Longrightarrow> known w' = (known w)(i := False) \<and> started w' = started w"

end
