(* ===== verification/Lifecycle.thy ===== *)
theory Lifecycle
  imports Schema Host
begin

text \<open>
  The appliance service (\<^verbatim>\<open>internal/appliance/operation_store.go\<close>, \<^verbatim>\<open>operation_service.go\<close>,
  \<^verbatim>\<open>lifecycle.go\<close>, \<^verbatim>\<open>audit.go\<close>): planning, authorizing, submitting, following and cancelling
  whole-Appliance operations.  The three tables extend the OAM database; the host adapter is the world
  outside it, reached through a \<open>HostClient\<close>, so no rollback undoes what the host did.
\<close>

section \<open>Tables\<close>

record operation_row =
  r_id :: string
  r_type :: string
  r_state :: string
  r_phase :: string
  r_installation :: string
  r_model :: string
  r_actor_user :: int
  r_actor :: string
  r_request_id :: string
  r_key :: string
  r_request_hash :: string
  r_request :: PlanRequest
  r_plan_hash :: string
  r_plan_expires :: int
  r_plan :: "bool \<times> Plan"
  r_generation :: int
  r_reconciliation :: string
  r_error_code :: string
  r_error_origin :: string
  r_created :: int
  r_updated :: int
  r_submitted :: "int option"
  r_finished :: "int option"
  r_cancellable :: bool

record challenge_row =
  ch_id :: int
  ch_hash :: string
  ch_operation :: string
  ch_user :: int
  ch_session :: string
  ch_plan_hash :: string
  ch_installation :: string
  ch_action :: string
  ch_expires :: int
  ch_consumed :: "int option"
  ch_created :: int

record auditDetail =
  ad_Type :: string
  ad_PlanHash :: string
  ad_Phase :: string
  ad_HostGeneration :: int
  ad_ErrorCode :: string
  ad_ErrorOrigin :: string
  ad_Reason :: string

record audit_row =
  au_id :: int
  au_operation :: string
  au_event :: string
  au_user :: "int option"
  au_username :: string
  au_request_id :: string
  au_source_ip :: string
  au_old_state :: string
  au_new_state :: string
  au_detail :: auditDetail
  au_created :: int

record 'w appliance_db = "'w oam_db" +
  operations :: "operation_row list"
  challenges :: "challenge_row list"
  audit_rows :: "audit_row list"

record Caller =
  c_UserID :: int
  c_Username :: string
  c_Permitted :: "string \<Rightarrow> bool"
  c_SessionID :: string
  c_RequestID :: string
  c_SourceIP :: string

datatype appl_err =
    ErrSchemaVersion | ErrIdempotencyKey | ErrInvalidRequest request_error | ErrPermissionDenied | ErrIdempotencyKeyReused
  | ErrOperationNotFound | ErrInvalidFilter string | ErrOperationState string | ErrPlanExpired | ErrPlanStale
  | ErrAuthorizationNotRequired | ErrSessionUnbound | ErrChallengeRequired | ErrChallengeMismatch | ErrChallengeConsumed
  | ErrChallengeExpired | ErrNotCancellable | ConflictError string | ErrVanished | ErrRandom | AHost host_err | ADb db_err

type_synonym ('w, 'x, 'a) appl_m = "(('w, 'x) appliance_db_scheme, appl_err + 'a) state"

text \<open>A call to the host adapter.\<close>

definition ask :: "('w, 'a) state \<Rightarrow> (('w, 'x) db_base_scheme, 'a) state" where
  "ask m = State (\<lambda>s. case run_state m (outside s) of (r, w) \<Rightarrow> (r, s\<lparr>outside := w\<rparr>))"

lemma run_ask [run_simps]: "run_state (ask m) s = (case run_state m (outside s) of (r, w) \<Rightarrow> (r, s\<lparr>outside := w\<rparr>))"
  by (simp add: ask_def)

text \<open>
  The partial unique index: at most one operation per installation is in an active state.  An
  update that would break it fails as a whole.  The trigger sets \<^verbatim>\<open>updated_at\<close> on every updated row.
\<close>

definition oneActiveIndex :: string where "oneActiveIndex = ''uk_appliance_operations_one_active''"

definition one_active :: "operation_row list \<Rightarrow> bool" where
  "one_active rows \<longleftrightarrow> distinct (map r_installation (filter (\<lambda>r. Active (r_state r)) rows))"

definition isActiveConflict :: "db_err \<Rightarrow> bool" where
  "isActiveConflict e \<longleftrightarrow> e = UniqueViolation oneActiveIndex"

definition update_operations :: "(operation_row \<Rightarrow> bool) \<Rightarrow> (operation_row \<Rightarrow> operation_row)
    \<Rightarrow> ('w, 'x) appliance_db_scheme \<Rightarrow> (db_err + nat) \<times> ('w, 'x) appliance_db_scheme" where
  "update_operations p f s =
     (let rows = upd_where p (\<lambda>r. (f r)\<lparr>r_updated := db_now s\<rparr>) (operations s) in
      if one_active rows then (ok (count_where p (operations s)), s\<lparr>operations := rows\<rparr>)
      else (err (UniqueViolation oneActiveIndex), s))"

section \<open>Reading operations\<close>

definition scanOperation :: "operation_row \<Rightarrow> Operation" where
  "scanOperation r =
     \<lparr>o_ID = r_id r, o_Type = r_type r, o_State = r_state r, o_Phase = r_phase r, o_InstallationID = r_installation r,
      o_Model = r_model r, o_Actor = r_actor r, o_RequestID = r_request_id r, o_Note = pr_Note (r_request r),
      o_HostFixture = fst (r_plan r), o_PlanHash = r_plan_hash r, o_PlanExpiresAt = r_plan_expires r,
      o_Plan = Some (snd (r_plan r)), o_Redacted = False,
      o_RequiresReauthentication = Destructive (OperationType_Action (r_type r)),
      o_Cancellable = (r_state r = StatePlanned \<or> r_state r = StateAwaitingAuthorization \<or> r_cancellable r),
      o_HostGeneration = r_generation r, o_Reconciliation = r_reconciliation r,
      o_Stale = (r_reconciliation r = ReconciliationHostUnreachable), o_ErrorCode = r_error_code r, o_ErrorOrigin = r_error_origin r,
      o_CreatedAt = r_created r, o_UpdatedAt = r_updated r, o_SubmittedAt = r_submitted r, o_FinishedAt = r_finished r,
      o_ActorUserID = r_actor_user r, o_RequestHash = r_request_hash r, o_request = r_request r\<rparr>"

definition select_operation :: "(operation_row \<Rightarrow> bool) \<Rightarrow> (('w, 'x) appliance_db_scheme, db_err + Operation option) state" where
  "select_operation p = db_query (\<lambda>s. ok (map_option scanOperation (find_row p (operations s))))"

definition operationByKey :: "int \<Rightarrow> string \<Rightarrow> (('w, 'x) appliance_db_scheme, db_err + Operation option) state" where
  "operationByKey userID key = select_operation (\<lambda>r. r_actor_user r = userID \<and> r_key r = key)"

definition operationByID :: "string \<Rightarrow> (('w, 'x) appliance_db_scheme, db_err + Operation option) state" where
  "operationByID i = select_operation (\<lambda>r. r_id r = i)"

definition plan_overdue :: "int \<Rightarrow> operation_row \<Rightarrow> bool" where
  "plan_overdue now r \<longleftrightarrow> (r_state r = StatePlanned \<or> r_state r = StateAwaitingAuthorization) \<and> r_plan_expires r < now"

definition expirePlans :: "(('w, 'x) appliance_db_scheme, db_err + nat) state" where
  "expirePlans = db_stmt (\<lambda>s. update_operations (plan_overdue (db_now s))
     (\<lambda>r. r\<lparr>r_state := StateCancelled, r_error_code := CodePlanExpired, r_error_origin := OriginOAM, r_finished := Some (db_now s)\<rparr>) s)"

section \<open>The audit trail\<close>

definition AuditPlan :: string where "AuditPlan = ''plan''"
definition AuditAuthorize :: string where "AuditAuthorize = ''authorize''"
definition AuditAuthorizeDenied :: string where "AuditAuthorizeDenied = ''authorize_denied''"
definition AuditSubmit :: string where "AuditSubmit = ''submit''"
definition AuditSubmitDenied :: string where "AuditSubmitDenied = ''submit_denied''"
definition AuditStateChange :: string where "AuditStateChange = ''state_change''"
definition AuditCancel :: string where "AuditCancel = ''cancel''"
definition AuditReconcile :: string where "AuditReconcile = ''reconcile''"

definition no_detail :: auditDetail where
  "no_detail = \<lparr>ad_Type = '''', ad_PlanHash = '''', ad_Phase = '''', ad_HostGeneration = 0, ad_ErrorCode = '''', ad_ErrorOrigin = '''', ad_Reason = ''''\<rparr>"

record auditEntry =
  ae_OperationID :: string
  ae_Event :: string
  ae_Actor :: "Caller option"
  ae_OldState :: string
  ae_NewState :: string
  ae_Detail :: auditDetail

definition insert_audit :: "auditEntry \<Rightarrow> ('w, 'x) appliance_db_scheme \<Rightarrow> (db_err + unit) \<times> ('w, 'x) appliance_db_scheme" where
  "insert_audit e s =
     (let who = (case ae_Actor e of None \<Rightarrow> (None, '''', '''', '''')
                 | Some c \<Rightarrow> (Some (c_UserID c), c_Username c, c_RequestID c, c_SourceIP c)) in
      case who of (userID, username, requestID, sourceIP) \<Rightarrow>
        (ok (), (take_seq ''appliance_audit'' s)\<lparr>audit_rows := audit_rows s @
          [\<lparr>au_id = seqs s ''appliance_audit'', au_operation = ae_OperationID e, au_event = ae_Event e, au_user = userID,
            au_username = username, au_request_id = requestID, au_source_ip = sourceIP, au_old_state = ae_OldState e,
            au_new_state = ae_NewState e, au_detail = ae_Detail e, au_created = db_now s\<rparr>]\<rparr>))"

definition writeAudit :: "auditEntry \<Rightarrow> (('w, 'x) appliance_db_scheme, db_err + unit) state" where
  "writeAudit e = db_stmt (insert_audit e)"

text \<open>
  \<^verbatim>\<open>audit\<close> logs a failure and goes on.  It returns whether the statement succeeded: inside a
  transaction PostgreSQL refuses everything after a failed statement, the commit included.
\<close>

definition audit :: "auditEntry \<Rightarrow> (('w, 'x) appliance_db_scheme, bool) state" where
  "audit e = do { r \<leftarrow> writeAudit e; ret (case r of Inl _ \<Rightarrow> False | Inr _ \<Rightarrow> True) }"

section \<open>Planning\<close>

definition new_row :: "crypto \<Rightarrow> string \<Rightarrow> Caller \<Rightarrow> string \<Rightarrow> string \<Rightarrow> PlanRequest \<Rightarrow> HostPlan \<Rightarrow> int \<Rightarrow> operation_row" where
  "new_row C i caller key requestID req plan now =
     \<lparr>r_id = i, r_type = pr_Type req, r_state = StatePlanned, r_phase = '''', r_installation = hpl_InstallationID plan,
      r_model = hpl_Model plan, r_actor_user = c_UserID caller, r_actor = c_Username caller, r_request_id = requestID,
      r_key = key, r_request_hash = PlanRequest_Hash C req, r_request = req, r_plan_hash = hpl_PlanHash plan,
      r_plan_expires = now + PlanTTL, r_plan = (hpl_Fixture plan, hpl_Plan plan), r_generation = 0,
      r_reconciliation = ReconciliationInSync, r_error_code = '''', r_error_origin = '''', r_created = now, r_updated = now,
      r_submitted = None, r_finished = None, r_cancellable = False\<rparr>"

text \<open>\<^verbatim>\<open>insertPlanned\<close>: false when the caller already holds an operation under the key.\<close>

definition insertPlanned :: "crypto \<Rightarrow> string \<Rightarrow> Caller \<Rightarrow> string \<Rightarrow> string \<Rightarrow> PlanRequest \<Rightarrow> HostPlan
    \<Rightarrow> (('w, 'x) appliance_db_scheme, db_err + bool) state" where
  "insertPlanned C i caller key requestID req plan = db_stmt (\<lambda>s.
     if list_ex (\<lambda>r. r_actor_user r = c_UserID caller \<and> r_key r = key) (operations s) then (ok False, s)
     else if i \<in> set (map r_id (operations s)) then (err (UniqueViolation ''appliance_operations_pkey''), s)
     else (ok True, s\<lparr>operations := operations s @ [new_row C i caller key requestID req plan (db_now s)]\<rparr>))"

definition sameRequest :: "crypto \<Rightarrow> Operation \<Rightarrow> PlanRequest \<Rightarrow> appl_err + Operation \<times> bool" where
  "sameRequest C existing req =
     (if o_RequestHash existing \<noteq> PlanRequest_Hash C req then err ErrIdempotencyKeyReused else ok (existing, False))"

definition host_plan_request :: "string \<Rightarrow> PlanRequest \<Rightarrow> HostPlanRequest" where
  "host_plan_request i req = \<lparr>hp_SchemaVersion = SchemaVersion, hp_OperationID = i, hp_Type = pr_Type req,
     hp_ArchiveRef = pr_ArchiveRef req, hp_TargetReleaseRef = pr_TargetReleaseRef req\<rparr>"

definition plan_audit :: "Caller \<Rightarrow> Operation \<Rightarrow> auditEntry" where
  "plan_audit caller op = \<lparr>ae_OperationID = o_ID op, ae_Event = AuditPlan, ae_Actor = Some caller, ae_OldState = '''',
     ae_NewState = StatePlanned, ae_Detail = no_detail\<lparr>ad_Type := o_Type op, ad_PlanHash := o_PlanHash op\<rparr>\<rparr>"

text \<open>After the insert: read the winner of a race, or the new row.\<close>

definition plan_result :: "crypto \<Rightarrow> string \<Rightarrow> Caller \<Rightarrow> string \<Rightarrow> PlanRequest \<Rightarrow> bool \<Rightarrow> ('w, 'x, Operation \<times> bool) appl_m" where
  "plan_result C i caller key req inserted =
     (if \<not> inserted then
        check ADb (operationByKey (c_UserID caller) key) (\<lambda>winner. case winner of
            None \<Rightarrow> ret (err ErrVanished)
          | Some op \<Rightarrow> ret (sameRequest C op req))
      else
        check ADb (operationByID i) (\<lambda>mine. case mine of
            None \<Rightarrow> ret (err ErrVanished)
          | Some op \<Rightarrow> do { _ \<leftarrow> audit (plan_audit caller op); ret (ok (op, True)) }))"

text \<open>\<open>rnd\<close>: the random bytes of a new identifier.\<close>

definition PlanOperation :: "crypto \<Rightarrow> 'w HostClient \<Rightarrow> string option \<Rightarrow> Caller \<Rightarrow> string \<Rightarrow> string \<Rightarrow> PlanRequest
    \<Rightarrow> ('w, 'x, Operation \<times> bool) appl_m" where
  "PlanOperation C host rnd caller key requestID req =
     (if \<not> ValidIdempotencyKey key then ret (err ErrIdempotencyKey)
      else if pr_SchemaVersion req \<noteq> SchemaVersion then ret (err ErrSchemaVersion)
      else (case PlanRequest_Validate req of
          Some e \<Rightarrow> ret (err (ErrInvalidRequest e))
        | None \<Rightarrow>
            if \<not> c_Permitted caller (OperationType_Action (pr_Type req)) then ret (err ErrPermissionDenied)
            else check ADb expirePlans (\<lambda>_.
              check ADb (operationByKey (c_UserID caller) key) (\<lambda>existing. case existing of
                  Some op \<Rightarrow> ret (sameRequest C op req)
                | None \<Rightarrow> do {
                    now \<leftarrow> time_now;
                    case newOperationID now rnd of
                      None \<Rightarrow> ret (err ErrRandom)
                    | Some i \<Rightarrow>
                        check AHost (ask (hc_Plan host (host_plan_request i req))) (\<lambda>plan.
                        check ADb (insertPlanned C i caller key requestID req plan) (\<lambda>inserted.
                          plan_result C i caller key req inserted)) }))))"

section \<open>Reading for callers\<close>

definition visibleTo :: "Operation \<Rightarrow> Caller \<Rightarrow> Operation" where
  "visibleTo op caller = (if c_Permitted caller (OperationType_Action (o_Type op)) then op else redacted op)"

definition GetOperation :: "Caller \<Rightarrow> string \<Rightarrow> ('w, 'x, Operation) appl_m" where
  "GetOperation caller i =
     (if \<not> ValidOperationID i then ret (err ErrOperationNotFound)
      else check ADb expirePlans (\<lambda>_. check ADb (operationByID i) (\<lambda>op. case op of
          None \<Rightarrow> ret (err ErrOperationNotFound)
        | Some op \<Rightarrow> ret (ok (visibleTo op caller)))))"

record ListFilter =
  lf_State :: string
  lf_Type :: string
  lf_Cursor :: string
  lf_Limit :: int

definition DefaultListLimit :: int where "DefaultListLimit = 20"
definition MaxListLimit :: int where "MaxListLimit = 100"

text \<open>The query of \<^verbatim>\<open>listOperations\<close>: one row more than the page, newest first.\<close>

definition listed :: "ListFilter \<Rightarrow> operation_row list \<Rightarrow> operation_row list" where
  "listed f rows = rev (sort_key r_id (filter (\<lambda>r. (lf_State f = '''' \<or> r_state r = lf_State f) \<and>
     (lf_Type f = '''' \<or> r_type r = lf_Type f) \<and> (lf_Cursor f = '''' \<or> r_id r < lf_Cursor f)) rows))"

definition listOperations :: "ListFilter \<Rightarrow> (('w, 'x) appliance_db_scheme, db_err + Operation list) state" where
  "listOperations f = db_query (\<lambda>s. ok (map scanOperation (take (nat (lf_Limit f + 1)) (listed f (operations s)))))"

record OperationList =
  ol_Items :: "Operation list"
  ol_NextCursor :: string

definition list_page :: "Caller \<Rightarrow> int \<Rightarrow> Operation list \<Rightarrow> OperationList" where
  "list_page caller limit rows =
     (if int (length rows) > limit
      then (let rows = take (nat limit) rows in \<lparr>ol_Items = map (\<lambda>op. visibleTo op caller) rows, ol_NextCursor = o_ID (last rows)\<rparr>)
      else \<lparr>ol_Items = map (\<lambda>op. visibleTo op caller) rows, ol_NextCursor = ''''\<rparr>)"

definition ListOperations :: "Caller \<Rightarrow> ListFilter \<Rightarrow> ('w, 'x, OperationList) appl_m" where
  "ListOperations caller f =
     (if lf_State f \<noteq> '''' \<and> \<not> OperationState_Valid (lf_State f) then ret (err (ErrInvalidFilter ''state''))
      else if lf_Type f \<noteq> '''' \<and> \<not> OperationType_Valid (lf_Type f) then ret (err (ErrInvalidFilter ''type''))
      else if lf_Cursor f \<noteq> '''' \<and> \<not> ValidOperationID (lf_Cursor f) then ret (err (ErrInvalidFilter ''cursor''))
      else (let f = (if lf_Limit f = 0 then f\<lparr>lf_Limit := DefaultListLimit\<rparr> else f) in
        if lf_Limit f < 1 \<or> lf_Limit f > MaxListLimit then ret (err (ErrInvalidFilter ''limit''))
        else check ADb expirePlans (\<lambda>_. check ADb (listOperations f) (\<lambda>rows. ret (ok (list_page caller (lf_Limit f) rows))))))"

end
