(* ===== verification/Submission.thy ===== *)
theory Submission
  imports Lifecycle
begin

text \<open>
  Authorizing, submitting, following and cancelling operations (\<^verbatim>\<open>internal/appliance/lifecycle.go\<close>).
  Every transaction of the Go code is one definition here (\<open>authorize_tx\<close>, \<open>submit_tx\<close>, \<open>deliver\<close>,
  \<open>cancelUndelivered\<close>), because a transaction is what other requests see at once; the
  operations are built from them, with the possibly outdated copy of the row passed along as in the
  code.
\<close>

section \<open>Loading\<close>

definition blockingOperation :: "string \<Rightarrow> string \<Rightarrow> (('w, 'x) appliance_db_scheme, db_err + string) state" where
  "blockingOperation installationID exceptID = db_query (\<lambda>s.
     case find_row (\<lambda>r. r_installation r = installationID \<and> r_id r \<noteq> exceptID \<and> Active (r_state r)) (operations s) of
       None \<Rightarrow> ok '''' | Some r \<Rightarrow> ok (r_id r))"

definition conflict :: "Operation \<Rightarrow> ('w, 'x, 'a) appl_m" where
  "conflict op = check ADb (blockingOperation (o_InstallationID op) (o_ID op)) (\<lambda>blocker. ret (err (ConflictError blocker)))"

definition load :: "Caller \<Rightarrow> string \<Rightarrow> ('w, 'x, Operation) appl_m" where
  "load caller i =
     (if \<not> ValidOperationID i then ret (err ErrOperationNotFound)
      else check ADb expirePlans (\<lambda>_. check ADb (operationByID i) (\<lambda>op. case op of
          None \<Rightarrow> ret (err ErrOperationNotFound)
        | Some op \<Rightarrow>
            if \<not> c_Permitted caller (OperationType_Action (o_Type op)) then ret (err ErrPermissionDenied)
            else ret (ok op))))"

definition expiredOr :: "Operation \<Rightarrow> appl_err" where
  "expiredOr op = (if o_State op = StateCancelled \<and> o_ErrorCode op = CodePlanExpired then ErrPlanExpired
     else ErrOperationState (o_State op))"

definition reload :: "string \<Rightarrow> ('w, 'x, Operation) appl_m" where
  "reload i = check ADb (operationByID i) (\<lambda>op. case op of
      None \<Rightarrow> ret (err ErrOperationNotFound) | Some op \<Rightarrow> ret (ok op))"

section \<open>Authorizing\<close>

record Challenge =
  cl_Challenge :: string
  cl_ExpiresAt :: int
  cl_OperationID :: string
  cl_PlanHash :: string

definition hashChallenge :: "crypto \<Rightarrow> string \<Rightarrow> string" where
  "hashChallenge C v = hex_encode (sha256_sum C v)"

definition authorizable :: "Caller \<Rightarrow> string \<Rightarrow> ('w, 'x, Operation) appl_m" where
  "authorizable caller i = check id (load caller i) (\<lambda>op.
     if \<not> Destructive (OperationType_Action (o_Type op)) then ret (err ErrAuthorizationNotRequired)
     else if c_SessionID caller = '''' then ret (err ErrSessionUnbound)
     else if o_State op \<noteq> StatePlanned \<and> o_State op \<noteq> StateAwaitingAuthorization then ret (err (expiredOr op))
     else ret (ok op))"

definition CanAuthorize :: "Caller \<Rightarrow> string \<Rightarrow> ('w, 'x, unit) appl_m" where
  "CanAuthorize caller i = check id (authorizable caller i) (\<lambda>_. ret (ok ()))"

definition await_update :: "string \<Rightarrow> ('w, 'x) appliance_db_scheme \<Rightarrow> (db_err + nat) \<times> ('w, 'x) appliance_db_scheme" where
  "await_update i s = update_operations
     (\<lambda>r. r_id r = i \<and> (r_state r = StatePlanned \<or> r_state r = StateAwaitingAuthorization) \<and> r_plan_expires r > db_now s)
     (\<lambda>r. r\<lparr>r_state := StateAwaitingAuthorization\<rparr>) s"

definition drop_challenges :: "string \<Rightarrow> ('w, 'x) appliance_db_scheme \<Rightarrow> (db_err + unit) \<times> ('w, 'x) appliance_db_scheme" where
  "drop_challenges i s = (ok (), s\<lparr>challenges := del_where (\<lambda>c. ch_operation c = i \<and> ch_consumed c = None) (challenges s)\<rparr>)"

text \<open>\<^verbatim>\<open>INSERT ... SELECT ... RETURNING expires_at\<close>, with the unique challenge hash.\<close>

definition insert_challenge :: "crypto \<Rightarrow> Caller \<Rightarrow> string \<Rightarrow> string
    \<Rightarrow> ('w, 'x) appliance_db_scheme \<Rightarrow> (db_err + int) \<times> ('w, 'x) appliance_db_scheme" where
  "insert_challenge C caller v i s = (case find_row (\<lambda>r. r_id r = i) (operations s) of
      None \<Rightarrow> (err NoRows, s)
    | Some r \<Rightarrow>
       (let s' = take_seq ''appliance_challenges'' s; expires = min (db_now s + ChallengeTTL) (r_plan_expires r) in
        if hashChallenge C v \<in> set (map ch_hash (challenges s)) then (err (UniqueViolation ''uk_appliance_challenges_hash''), s')
        else (ok expires, s'\<lparr>challenges := challenges s @
          [\<lparr>ch_id = seqs s ''appliance_challenges'', ch_hash = hashChallenge C v, ch_operation = i, ch_user = c_UserID caller,
            ch_session = c_SessionID caller, ch_plan_hash = r_plan_hash r, ch_installation = r_installation r,
            ch_action = r_type r, ch_expires = expires, ch_consumed = None, ch_created = db_now s\<rparr>]\<rparr>)))"

definition state_audit :: "string \<Rightarrow> Caller \<Rightarrow> Operation \<Rightarrow> string \<Rightarrow> auditEntry" where
  "state_audit event caller op new = \<lparr>ae_OperationID = o_ID op, ae_Event = event, ae_Actor = Some caller,
     ae_OldState = o_State op, ae_NewState = new, ae_Detail = no_detail\<lparr>ad_Type := o_Type op, ad_PlanHash := o_PlanHash op\<rparr>\<rparr>"

definition authorize_tx :: "crypto \<Rightarrow> Caller \<Rightarrow> Operation \<Rightarrow> string \<Rightarrow> ('w, 'x, int) appl_m" where
  "authorize_tx C caller op v = with_tx ADb ADb (
     check ADb (db_stmt (await_update (o_ID op))) (\<lambda>n.
     if n \<noteq> 1 then ret (err ErrPlanExpired)
     else check ADb (db_stmt (drop_challenges (o_ID op))) (\<lambda>_.
       check ADb (db_stmt (insert_challenge C caller v (o_ID op))) (\<lambda>expiresAt.
       check ADb (writeAudit (state_audit AuditAuthorize caller op StateAwaitingAuthorization)) (\<lambda>_.
         ret (ok expiresAt))))))"

text \<open>A refused transition is reported with the operation that occupies the installation.\<close>

definition or_conflict :: "Operation \<Rightarrow> appl_err \<Rightarrow> ('w, 'x, 'a) appl_m" where
  "or_conflict op e = (case e of ADb d \<Rightarrow> (if isActiveConflict d then conflict op else ret (err e)) | _ \<Rightarrow> ret (err e))"

definition Authorize :: "crypto \<Rightarrow> string option \<Rightarrow> Caller \<Rightarrow> string \<Rightarrow> ('w, 'x, Challenge) appl_m" where
  "Authorize C rnd caller i = check id (authorizable caller i) (\<lambda>op. case rnd of
      None \<Rightarrow> ret (err ErrRandom)
    | Some raw \<Rightarrow>
       (let v = hex_encode raw in do {
          r \<leftarrow> authorize_tx C caller op v;
          case r of
            Inl e \<Rightarrow> or_conflict op e
          | Inr expiresAt \<Rightarrow> ret (ok \<lparr>cl_Challenge = v, cl_ExpiresAt = expiresAt, cl_OperationID = o_ID op, cl_PlanHash = o_PlanHash op\<rparr>) }))"

definition AuthorizationDenied :: "Caller \<Rightarrow> string \<Rightarrow> string \<Rightarrow> (('w, 'x) appliance_db_scheme, unit) state" where
  "AuthorizationDenied caller i reason =
     (if \<not> ValidOperationID i then ret ()
      else do {
        _ \<leftarrow> audit \<lparr>ae_OperationID = i, ae_Event = AuditAuthorizeDenied, ae_Actor = Some caller, ae_OldState = '''',
               ae_NewState = '''', ae_Detail = no_detail\<lparr>ad_Reason := reason\<rparr>\<rparr>;
        ret () })"

section \<open>Submitting\<close>

text \<open>The challenge that authorizes exactly this request.\<close>

definition challenge_matches :: "crypto \<Rightarrow> Operation \<Rightarrow> Caller \<Rightarrow> string \<Rightarrow> challenge_row \<Rightarrow> bool" where
  "challenge_matches C op caller v c \<longleftrightarrow> ch_hash c = hashChallenge C v \<and> ch_operation c = o_ID op \<and> ch_user c = c_UserID caller \<and>
     ch_session c = c_SessionID caller \<and> ch_plan_hash c = o_PlanHash op \<and> ch_installation c = o_InstallationID op"

definition consume_update :: "crypto \<Rightarrow> Operation \<Rightarrow> Caller \<Rightarrow> string
    \<Rightarrow> ('w, 'x) appliance_db_scheme \<Rightarrow> (db_err + nat) \<times> ('w, 'x) appliance_db_scheme" where
  "consume_update C op caller v s =
     (let p = (\<lambda>c. challenge_matches C op caller v c \<and> ch_consumed c = None \<and> ch_expires c > db_now s) in
      (ok (count_where p (challenges s)), s\<lparr>challenges := upd_where p (\<lambda>c. c\<lparr>ch_consumed := Some (db_now s)\<rparr>) (challenges s)\<rparr>))"

definition consumeChallenge :: "crypto \<Rightarrow> Operation \<Rightarrow> Caller \<Rightarrow> string \<Rightarrow> ('w, 'x, unit) appl_m" where
  "consumeChallenge C op caller v = check ADb (db_stmt (consume_update C op caller v)) (\<lambda>n.
     if n = 1 then ret (ok ())
     else check ADb (db_query (\<lambda>s. ok (map_option (\<lambda>c. (ch_consumed c, ch_expires c \<le> db_now s))
            (find_row (challenge_matches C op caller v) (challenges s))))) (\<lambda>row.
       ret (err (case row of
           None \<Rightarrow> ErrChallengeMismatch
         | Some (consumed, expired) \<Rightarrow>
             if consumed \<noteq> None then ErrChallengeConsumed
             else if expired then ErrChallengeExpired else ErrChallengeConsumed))))"

definition queue_update :: "string \<Rightarrow> string \<Rightarrow> ('w, 'x) appliance_db_scheme \<Rightarrow> (db_err + nat) \<times> ('w, 'x) appliance_db_scheme" where
  "queue_update i expected s = update_operations
     (\<lambda>r. r_id r = i \<and> r_state r = expected \<and> r_plan_expires r > db_now s)
     (\<lambda>r. r\<lparr>r_state := StateQueued, r_submitted := Some (db_now s)\<rparr>) s"

definition expected_state :: "Operation \<Rightarrow> string" where
  "expected_state op = (if Destructive (OperationType_Action (o_Type op)) then StateAwaitingAuthorization else StatePlanned)"

definition submit_tx :: "crypto \<Rightarrow> Caller \<Rightarrow> Operation \<Rightarrow> string \<Rightarrow> ('w, 'x, unit) appl_m" where
  "submit_tx C caller op challenge = with_tx ADb ADb (
     check id (if Destructive (OperationType_Action (o_Type op)) then consumeChallenge C op caller challenge else ret (ok ())) (\<lambda>_.
     check ADb (db_stmt (queue_update (o_ID op) (expected_state op))) (\<lambda>n.
     if n \<noteq> 1 then ret (err (ErrOperationState ''''))
     else check ADb (writeAudit (state_audit AuditSubmit caller op StateQueued)) (\<lambda>_. ret (ok ())))))"

definition challengeCode :: "appl_err \<Rightarrow> string" where
  "challengeCode e = (case e of ErrChallengeConsumed \<Rightarrow> CodeChallengeConsumed | ErrChallengeExpired \<Rightarrow> CodeChallengeExpired
     | _ \<Rightarrow> CodeChallengeMismatch)"

definition submit_failed :: "Caller \<Rightarrow> Operation \<Rightarrow> appl_err \<Rightarrow> ('w, 'x, 'a) appl_m" where
  "submit_failed caller op e =
     (if e = ErrChallengeMismatch \<or> e = ErrChallengeConsumed \<or> e = ErrChallengeExpired then do {
        _ \<leftarrow> audit \<lparr>ae_OperationID = o_ID op, ae_Event = AuditSubmitDenied, ae_Actor = Some caller, ae_OldState = o_State op,
               ae_NewState = '''', ae_Detail = no_detail\<lparr>ad_Type := o_Type op, ad_Reason := challengeCode e\<rparr>\<rparr>;
        ret (err e) }
      else or_conflict op e)"

text \<open>What \<^verbatim>\<open>Submit\<close> checks on the copy it read.\<close>

definition submit_refusal :: "Caller \<Rightarrow> Operation \<Rightarrow> string \<Rightarrow> appl_err option" where
  "submit_refusal caller op challenge =
     (let destructive = Destructive (OperationType_Action (o_Type op)) in
      if destructive \<and> o_State op = StatePlanned then Some ErrChallengeRequired
      else if o_State op \<noteq> expected_state op then Some (expiredOr op)
      else if destructive \<and> challenge = '''' then Some ErrChallengeRequired
      else if destructive \<and> c_SessionID caller = '''' then Some ErrSessionUnbound
      else None)"

section \<open>Following the host journal\<close>

definition jobRequest :: "Operation \<Rightarrow> HostJobRequest" where
  "jobRequest op = \<lparr>jr_SchemaVersion = SchemaVersion, jr_OperationID = o_ID op, jr_Type = o_Type op,
     jr_InstallationID = o_InstallationID op, jr_PlanHash = o_PlanHash op,
     jr_ArchiveRef = pr_ArchiveRef (o_request op), jr_TargetReleaseRef = pr_TargetReleaseRef (o_request op)\<rparr>"

definition hostErrorCodeOK :: "string \<Rightarrow> bool" where
  "hostErrorCodeOK code \<longleftrightarrow>
     (if length code < 2 \<or> length code > 64 then False
      else list_all (\<lambda>(i, c, w). in_range 65 90 c \<or> (i > 0 \<and> (in_range 48 57 c \<or> c = 95))) (range_runes 0 code))"

definition job_update :: "string \<Rightarrow> HostJob \<Rightarrow> string \<Rightarrow> string \<Rightarrow> ('w, 'x) appliance_db_scheme \<Rightarrow> (db_err + nat) \<times> ('w, 'x) appliance_db_scheme" where
  "job_update i job errorCode errorOrigin s = update_operations
     (\<lambda>r. r_id r = i \<and> r_generation r < hj_Generation job)
     (\<lambda>r. r\<lparr>r_state := hj_State job, r_phase := hj_Phase job, r_generation := hj_Generation job,
        r_cancellable := hj_Cancellable job \<and> \<not> Terminal (hj_State job), r_reconciliation := ReconciliationInSync,
        r_error_code := errorCode, r_error_origin := errorOrigin,
        r_finished := (if Terminal (hj_State job)
          then (case r_finished r of None \<Rightarrow> Some (db_now s) | Some t \<Rightarrow> Some t) else None)\<rparr>) s"

definition set_reconciliation :: "string \<Rightarrow> (operation_row \<Rightarrow> bool) \<Rightarrow> (('w, 'x) appliance_db_scheme, db_err + nat) state" where
  "set_reconciliation v p = db_stmt (update_operations p (\<lambda>r. r\<lparr>r_reconciliation := v\<rparr>))"

definition job_audit :: "Operation \<Rightarrow> HostJob \<Rightarrow> string \<Rightarrow> string \<Rightarrow> auditEntry" where
  "job_audit op job errorCode errorOrigin = \<lparr>ae_OperationID = o_ID op, ae_Event = AuditStateChange, ae_Actor = None,
     ae_OldState = o_State op, ae_NewState = hj_State job,
     ae_Detail = no_detail\<lparr>ad_Type := o_Type op, ad_Phase := hj_Phase job, ad_HostGeneration := hj_Generation job,
       ad_ErrorCode := errorCode, ad_ErrorOrigin := errorOrigin\<rparr>\<rparr>"

text \<open>\<^verbatim>\<open>applyJob\<close>; the result is whether every statement succeeded (see \<open>audit\<close>).\<close>

definition applyJob :: "Operation \<Rightarrow> HostJob \<Rightarrow> (('w, 'x) appliance_db_scheme, bool) state" where
  "applyJob op job =
     (let errorOrigin = (if hj_ErrorCode job \<noteq> '''' then OriginHost else '''');
          errorCode = (if hj_ErrorCode job \<noteq> '''' \<and> \<not> hostErrorCodeOK (hj_ErrorCode job) then CodeSubmitRejected else hj_ErrorCode job) in do {
        r \<leftarrow> db_stmt (job_update (o_ID op) job errorCode errorOrigin);
        case r of
          Inl e \<Rightarrow> ret False
        | Inr n \<Rightarrow>
            if n \<noteq> 1 then
              (if o_Reconciliation op = ReconciliationHostUnreachable then do {
                 r \<leftarrow> set_reconciliation ReconciliationInSync (\<lambda>r. r_id r = o_ID op \<and> r_reconciliation r = ReconciliationHostUnreachable);
                 ret (case r of Inl _ \<Rightarrow> False | Inr _ \<Rightarrow> True) }
               else ret True)
            else if hj_State job \<noteq> o_State op \<or> hj_Phase job \<noteq> o_Phase op then audit (job_audit op job errorCode errorOrigin)
            else ret True })"

definition finish_update :: "Operation \<Rightarrow> string \<Rightarrow> string \<Rightarrow> string \<Rightarrow> ('w, 'x) appliance_db_scheme \<Rightarrow> (db_err + nat) \<times> ('w, 'x) appliance_db_scheme" where
  "finish_update op state code origin s = update_operations
     (\<lambda>r. r_id r = o_ID op \<and> r_state r = o_State op)
     (\<lambda>r. r\<lparr>r_state := state, r_error_code := code, r_error_origin := origin,
        r_reconciliation := (if code = CodeHostJobLost then ReconciliationHostUnknown else ReconciliationInSync),
        r_cancellable := False, r_finished := (if Terminal state then Some (db_now s) else None)\<rparr>) s"

definition finishWithoutHost :: "Operation \<Rightarrow> string \<Rightarrow> string \<Rightarrow> string \<Rightarrow> string \<Rightarrow> (('w, 'x) appliance_db_scheme, bool) state" where
  "finishWithoutHost op state code origin event = do {
     r \<leftarrow> db_stmt (finish_update op state code origin);
     case r of
       Inl e \<Rightarrow> ret False
     | Inr n \<Rightarrow>
         if n = 1 then audit \<lparr>ae_OperationID = o_ID op, ae_Event = event, ae_Actor = None, ae_OldState = o_State op, ae_NewState = state,
           ae_Detail = no_detail\<lparr>ad_Type := o_Type op, ad_ErrorCode := code, ad_ErrorOrigin := origin, ad_Reason := code\<rparr>\<rparr>
         else ret True }"

definition markUnreachable :: "Operation \<Rightarrow> (('w, 'x) appliance_db_scheme, bool) state" where
  "markUnreachable op =
     (if o_Reconciliation op = ReconciliationHostUnreachable then ret True
      else do {
        r \<leftarrow> set_reconciliation ReconciliationHostUnreachable (\<lambda>r. r_id r = o_ID op);
        ret (case r of Inl _ \<Rightarrow> False | Inr _ \<Rightarrow> True) })"

definition submitToHost :: "'w HostClient \<Rightarrow> Operation \<Rightarrow> (('w, 'x) appliance_db_scheme, bool) state" where
  "submitToHost host op = do {
     r \<leftarrow> ask (hc_Submit host (jobRequest op));
     case r of
       Inr job \<Rightarrow> applyJob op job
     | Inl (HostRejection code) \<Rightarrow>
         finishWithoutHost op StateFailed (if hostErrorCodeOK code then code else CodeSubmitRejected) OriginHost AuditStateChange
     | Inl _ \<Rightarrow> markUnreachable op }"

text \<open>
  \<^verbatim>\<open>undelivered\<close> reads under a row lock: a transaction that holds it runs as one step for everybody
  who writes that row.
\<close>

definition undelivered :: "string \<Rightarrow> (('w, 'x) appliance_db_scheme, db_err + Operation option) state" where
  "undelivered i = do {
     r \<leftarrow> operationByID i;
     ret (case r of
         Inr (Some op) \<Rightarrow> ok (if o_State op \<noteq> StateQueued \<or> o_HostGeneration op \<noteq> 0 then None else Some op)
       | other \<Rightarrow> other) }"

text \<open>A transaction one of whose statements failed is rolled back when it tries to commit.\<close>

definition commit_if :: "bool \<Rightarrow> ('w, 'x, unit) appl_m" where
  "commit_if fine = (if fine then ret (ok ()) else ret (err (ADb DbFail)))"

definition deliver :: "'w HostClient \<Rightarrow> string \<Rightarrow> (('w, 'x) appliance_db_scheme, unit) state" where
  "deliver host i = do {
     _ \<leftarrow> with_tx ADb ADb (check ADb (undelivered i) (\<lambda>op. case op of
         None \<Rightarrow> ret (err (ErrOperationState ''''))
       | Some op \<Rightarrow> do { fine \<leftarrow> submitToHost host op; commit_if fine }));
     ret () }"

definition Submit :: "crypto \<Rightarrow> 'w HostClient \<Rightarrow> Caller \<Rightarrow> string \<Rightarrow> string \<Rightarrow> string \<Rightarrow> ('w, 'x, Operation) appl_m" where
  "Submit C host caller i planHash challenge = check id (load caller i) (\<lambda>op.
     if planHash \<noteq> o_PlanHash op then ret (err ErrPlanStale)
     else if o_SubmittedAt op \<noteq> None then ret (ok op)
     else (case submit_refusal caller op challenge of
         Some e \<Rightarrow> ret (err e)
       | None \<Rightarrow> do {
           r \<leftarrow> submit_tx C caller op challenge;
           case r of
             Inl e \<Rightarrow> submit_failed caller op e
           | Inr _ \<Rightarrow> do { _ \<leftarrow> deliver host (o_ID op); reload (o_ID op) } }))"

definition reconcile :: "'w HostClient \<Rightarrow> Operation \<Rightarrow> (('w, 'x) appliance_db_scheme, unit) state" where
  "reconcile host op =
     (if o_SubmittedAt op = None \<or> Terminal (o_State op) then ret ()
      else do {
        r \<leftarrow> ask (hc_Job host (o_ID op));
        case r of
          Inr job \<Rightarrow> do { _ \<leftarrow> applyJob op job; ret () }
        | Inl e \<Rightarrow>
            if e = ErrHostJobNotFound \<and> o_HostGeneration op = 0 then deliver host (o_ID op)
            else if e = ErrHostJobNotFound then
              (if o_State op \<noteq> StateRecoveryRequired \<or> o_ErrorCode op \<noteq> CodeHostJobLost
               then do { _ \<leftarrow> finishWithoutHost op StateRecoveryRequired CodeHostJobLost OriginOAM AuditReconcile; ret () }
               else ret ())
            else do { _ \<leftarrow> markUnreachable op; ret () } })"

definition Reconcile :: "'w HostClient \<Rightarrow> Caller \<Rightarrow> string \<Rightarrow> ('w, 'x, Operation) appl_m" where
  "Reconcile host caller i = check id (load caller i) (\<lambda>op. do { _ \<leftarrow> reconcile host op; reload (o_ID op) })"

text \<open>The submitted, unfinished operations the reconciler looks at in one round.\<close>

definition in_flight :: "operation_row list \<Rightarrow> operation_row list" where
  "in_flight rows = take 50 (sort_key r_id (filter (\<lambda>r. r_submitted r \<noteq> None \<and>
     r_state r \<in> set [StateQueued, StateRunning, StateVerifying, StateCompensating, StateRecoveryRequired]) rows))"

fun reconcile_all :: "'w HostClient \<Rightarrow> Operation list \<Rightarrow> (('w, 'x) appliance_db_scheme, unit) state" where
  "reconcile_all host [] = ret ()"
| "reconcile_all host (op # ops) = do { _ \<leftarrow> reconcile host op; reconcile_all host ops }"

definition ReconcileActive :: "'w HostClient \<Rightarrow> ('w, 'x, unit) appl_m" where
  "ReconcileActive host =
     (if \<not> hc_Configured host then ret (ok ())
      else check ADb (db_query (\<lambda>s. ok (map scanOperation (in_flight (operations s))))) (\<lambda>active. do {
        _ \<leftarrow> reconcile_all host active;
        ret (ok ()) }))"

section \<open>Cancelling\<close>

definition cancel_update :: "string \<Rightarrow> ('w, 'x) appliance_db_scheme \<Rightarrow> (db_err + nat) \<times> ('w, 'x) appliance_db_scheme" where
  "cancel_update i s = update_operations
     (\<lambda>r. r_id r = i \<and> (r_state r = StatePlanned \<or> r_state r = StateAwaitingAuthorization))
     (\<lambda>r. r\<lparr>r_state := StateCancelled, r_error_code := CodeCancelledByUser, r_error_origin := OriginOAM, r_finished := Some (db_now s)\<rparr>) s"

definition cancelUndelivered :: "'w HostClient \<Rightarrow> string \<Rightarrow> ('w, 'x, unit) appl_m" where
  "cancelUndelivered host i = with_tx ADb ADb (check ADb (undelivered i) (\<lambda>op. case op of
      None \<Rightarrow> ret (err (ErrOperationState ''''))
    | Some op \<Rightarrow> do {
        r \<leftarrow> ask (hc_Cancel host i);
        case r of
          Inr job \<Rightarrow> do { fine \<leftarrow> applyJob op job; commit_if fine }
        | Inl e \<Rightarrow>
            (case e of
               ErrHostJobNotFound \<Rightarrow> do {
                 fine \<leftarrow> finishWithoutHost op StateCancelled CodeCancelledByUser OriginOAM AuditStateChange;
                 commit_if fine }
             | HostRejection code \<Rightarrow> ret (err ErrNotCancellable)
             | _ \<Rightarrow> ret (err (AHost e))) }))"

definition cancel_submitted :: "'w HostClient \<Rightarrow> Caller \<Rightarrow> Operation \<Rightarrow> ('w, 'x, Operation) appl_m" where
  "cancel_submitted host caller op = do {
     _ \<leftarrow> audit \<lparr>ae_OperationID = o_ID op, ae_Event = AuditCancel, ae_Actor = Some caller, ae_OldState = o_State op, ae_NewState = '''',
            ae_Detail = no_detail\<lparr>ad_Type := o_Type op, ad_Phase := o_Phase op\<rparr>\<rparr>;
     r \<leftarrow> ask (hc_Cancel host (o_ID op));
     case r of
       Inr job \<Rightarrow> do { _ \<leftarrow> applyJob op job; reload (o_ID op) }
     | Inl e \<Rightarrow>
         (case e of
            HostRejection code \<Rightarrow> ret (err ErrNotCancellable)
          | _ \<Rightarrow>
              if e = ErrHostJobNotFound \<and> o_HostGeneration op = 0
              then check id (cancelUndelivered host (o_ID op)) (\<lambda>_. reload (o_ID op))
              else ret (err (AHost e))) }"

definition Cancel :: "'w HostClient \<Rightarrow> Caller \<Rightarrow> string \<Rightarrow> ('w, 'x, Operation) appl_m" where
  "Cancel host caller i = check id (load caller i) (\<lambda>op.
     if o_State op = StateCancelled then ret (ok op)
     else if Terminal (o_State op) then ret (err (ErrOperationState (o_State op)))
     else if o_SubmittedAt op = None then
       check ADb (db_stmt (cancel_update (o_ID op))) (\<lambda>n.
       if n \<noteq> 1 then ret (err (ErrOperationState ''''))
       else do {
         _ \<leftarrow> audit \<lparr>ae_OperationID = o_ID op, ae_Event = AuditCancel, ae_Actor = Some caller, ae_OldState = o_State op,
                ae_NewState = StateCancelled, ae_Detail = no_detail\<lparr>ad_Type := o_Type op, ad_Reason := CodeCancelledByUser\<rparr>\<rparr>;
         reload (o_ID op) })
     else cancel_submitted host caller op)"

end
