(* ===== verification/Appliance_System.thy ===== *)
theory Appliance_System
  imports Submission
begin

text \<open>
  Requests and the reconciler run side by side.  This theory describes every interleaving at the
  granularity of the database: a transaction or a single statement is one step, a call to the host
  is one step, and in between others may act.  A request works on a copy of a row and on a journal entry
  it read some time ago; \<open>K\<close> and \<open>J\<close> collect the copies and the entries anybody may still hold.
  The theory proves the invariant all steps keep.
\<close>

section \<open>The invariant\<close>

definition job_ids :: "HostJobRequest list \<Rightarrow> string set" where
  "job_ids qs = jr_OperationID ` set qs"

text \<open>
  What never changes in a row, and what only grows.  A finished operation stays as it ended unless the host
  reports a newer generation, and one that ended before the host reported anything stays so for good.
\<close>

definition same_core :: "operation_row \<Rightarrow> operation_row \<Rightarrow> bool" where
  "same_core r r' \<longleftrightarrow> r_id r' = r_id r \<and> r_type r' = r_type r \<and> r_installation r' = r_installation r \<and>
     r_actor_user r' = r_actor_user r \<and> r_key r' = r_key r \<and> r_request_hash r' = r_request_hash r \<and>
     r_request r' = r_request r \<and> r_plan_hash r' = r_plan_hash r \<and> r_plan_expires r' = r_plan_expires r"

definition row_le :: "operation_row \<Rightarrow> operation_row \<Rightarrow> bool" where
  "row_le r r' \<longleftrightarrow> same_core r r' \<and> r_generation r \<le> r_generation r' \<and> (r_submitted r \<noteq> None \<longrightarrow> r_submitted r' \<noteq> None) \<and>
     (Terminal (r_state r) \<longrightarrow> (r_generation r' = r_generation r \<longrightarrow> r_state r' = r_state r) \<and> (r_generation r = 0 \<longrightarrow> r_generation r' = 0))"

text \<open>
  The states of a row against the host's history \<open>qs\<close>: a row the host never reported on is
  unsubmitted, waiting for delivery, or was never started.
\<close>

definition row_state_ok :: "HostJobRequest list \<Rightarrow> operation_row \<Rightarrow> bool" where
  "row_state_ok qs r \<longleftrightarrow> ValidOperationID (r_id r) \<and> 0 \<le> r_generation r \<and>
     (r_submitted r = None \<longrightarrow> r_generation r = 0 \<and> (r_state r = StatePlanned \<or> r_state r = StateAwaitingAuthorization \<or> r_state r = StateCancelled)) \<and>
     (r_state r = StatePlanned \<or> r_state r = StateAwaitingAuthorization \<longrightarrow> r_submitted r = None) \<and>
     (r_generation r = 0 \<and> r_state r \<noteq> StateQueued \<longrightarrow> r_id r \<notin> job_ids qs)"

text \<open>Somebody submitted the operation; for a destructive one that person's challenge was consumed.\<close>

definition authorized :: "challenge_row list \<Rightarrow> audit_row list \<Rightarrow> operation_row \<Rightarrow> bool" where
  "authorized cs aus r \<longleftrightarrow> (\<exists>a \<in> set aus. au_operation a = r_id r \<and> au_event a = AuditSubmit \<and> au_new_state a = StateQueued \<and>
     (Destructive (r_type r) \<longrightarrow> (\<exists>c \<in> set cs. ch_consumed c \<noteq> None \<and> ch_operation c = r_id r \<and> ch_plan_hash c = r_plan_hash r \<and>
        ch_installation c = r_installation r \<and> au_user a = Some (ch_user c))))"

text \<open>The host runs what was submitted, once, and forgets only what OAM has recorded.\<close>

definition host_follows :: "(string \<Rightarrow> bool) \<Rightarrow> HostJobRequest list \<Rightarrow> operation_row list \<Rightarrow> bool" where
  "host_follows kn qs rows \<longleftrightarrow> (\<forall>i. kn i \<longrightarrow> i \<in> job_ids qs) \<and> unique_by jr_OperationID qs \<and>
     (\<forall>q \<in> set qs. \<exists>r \<in> set rows. r_submitted r \<noteq> None \<and> q = jobRequest (scanOperation r)) \<and>
     (\<forall>r \<in> set rows. r_id r \<in> job_ids qs \<and> \<not> kn (r_id r) \<longrightarrow> 0 < r_generation r)"

definition stale_copy :: "operation_row list \<Rightarrow> Operation \<Rightarrow> bool" where
  "stale_copy rows op \<longleftrightarrow> (\<exists>r0. \<exists>r \<in> set rows. op = scanOperation r0 \<and> row_le r0 r \<and> 0 \<le> r_generation r0)"

definition seen_entry :: "HostJobRequest list \<Rightarrow> HostJob \<Rightarrow> bool" where
  "seen_entry qs job \<longleftrightarrow> usable job (hj_OperationID job) \<and> hj_OperationID job \<in> job_ids qs"

text \<open>
  While a submission is being recorded, the row \<open>A\<close> may lack its audit row and the challenges of the operation
  \<open>B\<close> may be consumed ahead of the submission.
\<close>

definition appl_ok :: "string set \<Rightarrow> string set \<Rightarrow> (string \<Rightarrow> bool) \<Rightarrow> HostJobRequest list \<Rightarrow> Operation set \<Rightarrow> HostJob set
    \<Rightarrow> operation_row list \<Rightarrow> challenge_row list \<Rightarrow> audit_row list \<Rightarrow> bool" where
  "appl_ok A B kn qs K J rows cs aus \<longleftrightarrow>
     unique_by r_id rows \<and> unique_by (\<lambda>r. (r_actor_user r, r_key r)) rows \<and> one_active rows \<and> unique_by ch_hash cs \<and>
     (\<forall>r \<in> set rows. row_state_ok qs r) \<and>
     (\<forall>r \<in> set rows. r_submitted r \<noteq> None \<and> r_id r \<notin> A \<longrightarrow> authorized cs aus r) \<and>
     (\<forall>c \<in> set cs. ch_consumed c \<noteq> None \<and> ch_operation c \<notin> B \<longrightarrow> (\<exists>r \<in> set rows. r_id r = ch_operation c \<and> r_submitted r \<noteq> None)) \<and>
     host_follows kn qs rows \<and> (\<forall>op \<in> K. stale_copy rows op) \<and> (\<forall>job \<in> J. seen_entry qs job)"

definition appl_inv_x :: "string set \<Rightarrow> string set \<Rightarrow> ('w \<Rightarrow> string \<Rightarrow> bool) \<Rightarrow> ('w \<Rightarrow> HostJobRequest list) \<Rightarrow> Operation set \<Rightarrow> HostJob set
    \<Rightarrow> ('w, 'x) appliance_db_scheme \<Rightarrow> bool" where
  "appl_inv_x A B kn st K J s \<longleftrightarrow>
     appl_ok A B (kn (outside s)) (st (outside s)) K J (operations s) (challenges s) (audit_rows s)"

abbreviation appl_inv :: "('w \<Rightarrow> string \<Rightarrow> bool) \<Rightarrow> ('w \<Rightarrow> HostJobRequest list) \<Rightarrow> Operation set \<Rightarrow> HostJob set
    \<Rightarrow> ('w, 'x) appliance_db_scheme \<Rightarrow> bool" where
  "appl_inv \<equiv> appl_inv_x {} {}"

section \<open>Steps\<close>

type_synonym ('w, 'x) config = "('w, 'x) appliance_db_scheme \<times> Operation set \<times> HostJob set"

inductive appl_step :: "crypto \<Rightarrow> 'w HostClient \<Rightarrow> ('w \<Rightarrow> 'w \<Rightarrow> bool) \<Rightarrow> (string \<Rightarrow> 'w \<Rightarrow> 'w \<Rightarrow> bool)
    \<Rightarrow> ('w, 'x) config \<Rightarrow> ('w, 'x) config \<Rightarrow> bool"
  for C :: crypto and hc :: "'w HostClient" and mv :: "'w \<Rightarrow> 'w \<Rightarrow> bool" and lo :: "string \<Rightarrow> 'w \<Rightarrow> 'w \<Rightarrow> bool" where
  elapse: "same_system s s' \<Longrightarrow> appl_step C hc mv lo (s, K, J) (s', K, J)"
| read_row: "r \<in> set (operations s) \<Longrightarrow> appl_step C hc mv lo (s, K, J) (s, insert (scanOperation r) K, J)"
| expire: "run_state expirePlans s = (x1, s') \<Longrightarrow> appl_step C hc mv lo (s, K, J) (s', K, J)"
| record_event: "run_state (writeAudit e) s = (x2, s') \<Longrightarrow> appl_step C hc mv lo (s, K, J) (s', K, J)"
| plan_ask: "run_state (ask (hc_Plan hc preq)) s = (x3, s') \<Longrightarrow> appl_step C hc mv lo (s, K, J) (s', K, J)"
| plan_insert: "newOperationID now (Some rnd) = Some i \<Longrightarrow> length rnd = 10 \<Longrightarrow>
    run_state (insertPlanned C i caller key rid req plan) s = (x4, s') \<Longrightarrow> appl_step C hc mv lo (s, K, J) (s', K, J)"
| authorize: "op \<in> K \<Longrightarrow> run_state (authorize_tx C caller op v) s = (x5, s') \<Longrightarrow> appl_step C hc mv lo (s, K, J) (s', K, J)"
| submit: "op \<in> K \<Longrightarrow> submit_refusal caller op v = None \<Longrightarrow> run_state (submit_tx C caller op v) s = (x6, s') \<Longrightarrow>
    appl_step C hc mv lo (s, K, J) (s', K, J)"
| deliver: "run_state (Submission.deliver hc i) s = (x7, s') \<Longrightarrow> appl_step C hc mv lo (s, K, J) (s', K, J)"
| journal: "run_state (ask (hc_Job hc i)) s = (x8, s') \<Longrightarrow>
    appl_step C hc mv lo (s, K, J) (s', K, case x8 of Inl _ \<Rightarrow> J | Inr job \<Rightarrow> insert job J)"
| cancel_ask: "run_state (ask (hc_Cancel hc i)) s = (x8, s') \<Longrightarrow>
    appl_step C hc mv lo (s, K, J) (s', K, case x8 of Inl _ \<Rightarrow> J | Inr job \<Rightarrow> insert job J)"
| follow: "job \<in> J \<Longrightarrow> hj_OperationID job = i \<Longrightarrow> run_state (db_stmt (job_update i job ec eo)) s = (x9, s') \<Longrightarrow>
    appl_step C hc mv lo (s, K, J) (s', K, J)"
| lost: "op \<in> K \<Longrightarrow> o_HostGeneration op \<noteq> 0 \<Longrightarrow> \<not> Terminal (o_State op) \<Longrightarrow>
    run_state (db_stmt (finish_update op StateRecoveryRequired CodeHostJobLost OriginOAM)) s = (x10, s') \<Longrightarrow>
    appl_step C hc mv lo (s, K, J) (s', K, J)"
| mark: "run_state (set_reconciliation v p) s = (x11, s') \<Longrightarrow> appl_step C hc mv lo (s, K, J) (s', K, J)"
| cancel: "run_state (db_stmt (cancel_update i)) s = (x12, s') \<Longrightarrow> appl_step C hc mv lo (s, K, J) (s', K, J)"
| cancel_undelivered: "run_state (cancelUndelivered hc i) s = (x13, s') \<Longrightarrow> ValidOperationID i \<Longrightarrow> appl_step C hc mv lo (s, K, J) (s', K, J)"
| host_progress: "mv (outside s) w' \<Longrightarrow> appl_step C hc mv lo (s, K, J) (s\<lparr>outside := w'\<rparr>, K, J)"
| host_loss: "lo i (outside s) w' \<Longrightarrow> (\<And>r. r \<in> set (operations s) \<Longrightarrow> r_id r = i \<Longrightarrow> 0 < r_generation r) \<Longrightarrow>
    appl_step C hc mv lo (s, K, J) (s\<lparr>outside := w'\<rparr>, K, J)"

section \<open>Rows\<close>

lemma row_le_refl [simp]: "row_le r r"
  by (simp add: row_le_def same_core_def)

lemma row_le_trans: "row_le r r' \<Longrightarrow> row_le r' r'' \<Longrightarrow> row_le r r''"
  by (auto simp: row_le_def same_core_def)

lemma row_le_core: "row_le r r' \<Longrightarrow> r_id r' = r_id r \<and> r_actor_user r' = r_actor_user r \<and> r_key r' = r_key r"
  by (simp add: row_le_def same_core_def)

lemma jobRequest_core: "row_le r r' \<Longrightarrow> jobRequest (scanOperation r') = jobRequest (scanOperation r)"
  by (simp add: row_le_def same_core_def jobRequest_def scanOperation_def)

lemma authorized_le: "row_le r r' \<Longrightarrow> authorized cs aus r' \<longleftrightarrow> authorized cs aus r"
  by (auto simp: authorized_def row_le_def same_core_def)

lemma authorized_mono:
  "authorized cs aus r \<Longrightarrow> set aus \<subseteq> set aus' \<Longrightarrow> (\<And>c. c \<in> set cs \<Longrightarrow> ch_consumed c \<noteq> None \<Longrightarrow> c \<in> set cs') \<Longrightarrow> authorized cs' aus' r"
  unfolding authorized_def by blast

lemma touch_row [simp]:
  "row_le r (r'\<lparr>r_updated := t\<rparr>) \<longleftrightarrow> row_le r r'" "row_state_ok qs (r'\<lparr>r_updated := t\<rparr>) \<longleftrightarrow> row_state_ok qs r'"
  by (simp_all add: row_le_def same_core_def row_state_ok_def)

lemma same_tables_appl:
  "same_tables s s' \<Longrightarrow> operations s' = operations s \<and> challenges s' = challenges s \<and> audit_rows s' = audit_rows s"
  by (cases s; cases s') (auto simp: same_tables_def)

lemma appl_inv_system: "system_invariant (appl_inv_x A B kn st K J)"
proof (rule system_invariant.intro)
  fix s s' :: "('a, 'b) appliance_db_scheme"
  assume "same_system s s'" and "appl_inv_x A B kn st K J s"
  moreover from this(1) have "operations s' = operations s" "challenges s' = challenges s" "audit_rows s' = audit_rows s" "outside s' = outside s"
    using same_tables_appl by (auto simp: same_system_def)
  ultimately show "appl_inv_x A B kn st K J s'" by (simp add: appl_inv_x_def)
qed

lemma update_operations_outside [simp]:
  "outside (snd (update_operations p f s)) = outside s"
  "challenges (snd (update_operations p f s)) = challenges s"
  "audit_rows (snd (update_operations p f s)) = audit_rows s"
  by (simp_all add: update_operations_def Let_def)

lemma updated_operations:
  "operations (snd (update_operations p f s)) = operations s \<or>
   operations (snd (update_operations p f s)) = upd_where p (\<lambda>r. (f r)\<lparr>r_updated := db_now s\<rparr>) (operations s) \<and>
   one_active (operations (snd (update_operations p f s)))"
  by (simp add: update_operations_def Let_def)

text \<open>An update of rows keeps the invariant when every updated row grows and is in order.\<close>

lemma host_follows_upd:
  assumes "host_follows kn qs rows" and "\<And>r. r \<in> set rows \<Longrightarrow> p r \<Longrightarrow> row_le r (g r)"
  shows "host_follows kn qs (upd_where p g rows)"
proof -
  let ?h = "\<lambda>r. if p r then g r else r"
  have le: "row_le r (?h r)" if "r \<in> set rows" for r using assms(2) that by simp
  have set: "set (upd_where p g rows) = ?h ` set rows" by (auto simp: upd_where_def)
  have "\<exists>r' \<in> ?h ` set rows. r_submitted r' \<noteq> None \<and> q = jobRequest (scanOperation r')" if "q \<in> set qs" for q
  proof -
    obtain r where r: "r \<in> set rows" "r_submitted r \<noteq> None" "q = jobRequest (scanOperation r)"
      using assms(1) \<open>q \<in> set qs\<close> by (auto simp: host_follows_def)
    with le [OF r(1)] jobRequest_core [OF le [OF r(1)]] have "r_submitted (?h r) \<noteq> None \<and> q = jobRequest (scanOperation (?h r))"
      by (auto simp: row_le_def)
    with r(1) show ?thesis by blast
  qed
  moreover have "0 < r_generation r'" if r': "r' \<in> ?h ` set rows" and unk: "r_id r' \<in> job_ids qs \<and> \<not> kn (r_id r')" for r'
  proof -
    obtain r where r: "r \<in> set rows" "r' = ?h r" using r' by blast
    with le [OF r(1)] unk have "r_id r \<in> job_ids qs \<and> \<not> kn (r_id r)" "r_generation r \<le> r_generation r'"
      by (auto simp: row_le_def same_core_def)
    with assms(1) r(1) show ?thesis by (fastforce simp: host_follows_def)
  qed
  ultimately show ?thesis using assms(1) unfolding host_follows_def set by blast
qed

lemma appl_ok_upd:
  assumes inv: "appl_ok A B kn qs K J rows cs aus"
    and le: "\<And>r. r \<in> set rows \<Longrightarrow> p r \<Longrightarrow> row_le r (g r)"
    and ok: "\<And>r. r \<in> set rows \<Longrightarrow> p r \<Longrightarrow> row_state_ok qs (g r)"
    and auth: "\<And>r. r \<in> set rows \<Longrightarrow> p r \<Longrightarrow> r_submitted (g r) \<noteq> None \<Longrightarrow> r_submitted r \<noteq> None \<or> r_id r \<in> A"
    and one: "one_active (upd_where p g rows)"
  shows "appl_ok A B kn qs K J (upd_where p g rows) cs aus"
proof -
  let ?h = "\<lambda>r. if p r then g r else r"
  have le': "row_le r (?h r)" if "r \<in> set rows" for r using le that by simp
  have set: "set (upd_where p g rows) = ?h ` set rows" by (auto simp: upd_where_def)
  have uniq: "unique_by k (upd_where p g rows)" if "unique_by k rows" "\<And>r r'. row_le r r' \<Longrightarrow> k r' = k r" for k :: "operation_row \<Rightarrow> 'k"
  proof -
    have "map k (upd_where p g rows) = map k rows" using le that(2) by (intro map_upd_where) blast
    with that(1) show ?thesis by (simp add: unique_by_def)
  qed
  have st: "row_state_ok qs (?h r)" if "r \<in> set rows" for r
    using inv ok [of r] that by (auto simp: appl_ok_def)
  have au: "authorized cs aus (?h r)" if r: "r \<in> set rows" and sub: "r_submitted (?h r) \<noteq> None" and A: "r_id (?h r) \<notin> A" for r
  proof -
    have "r_id (?h r) = r_id r" using row_le_core [OF le' [OF r]] by simp
    with auth [OF r] sub A have "r_submitted r \<noteq> None" "r_id r \<notin> A" by (auto split: if_splits)
    with inv r have "authorized cs aus r" by (auto simp: appl_ok_def)
    with authorized_le [OF le' [OF r]] show ?thesis by blast
  qed
  have con: "\<exists>r' \<in> ?h ` set rows. r_id r' = i \<and> r_submitted r' \<noteq> None" if "\<exists>r \<in> set rows. r_id r = i \<and> r_submitted r \<noteq> None" for i
  proof -
    from that obtain r where r: "r \<in> set rows" "r_id r = i" "r_submitted r \<noteq> None" by blast
    with le' [OF r(1)] have "r_id (?h r) = i \<and> r_submitted (?h r) \<noteq> None" unfolding row_le_def same_core_def by metis
    with r(1) show ?thesis by blast
  qed
  have stale: "stale_copy (upd_where p g rows) op" if "stale_copy rows op" for op
  proof -
    from that obtain r0 r where "r \<in> set rows" "op = scanOperation r0" "row_le r0 r" "0 \<le> r_generation r0"
      by (auto simp: stale_copy_def)
    moreover from this have "row_le r0 (?h r)" using le' row_le_trans by blast
    ultimately show ?thesis unfolding stale_copy_def set by blast
  qed
  show ?thesis
    unfolding appl_ok_def
  proof (intro conjI)
    show "unique_by r_id (upd_where p g rows)" "unique_by (\<lambda>r. (r_actor_user r, r_key r)) (upd_where p g rows)"
      using inv uniq row_le_core by (auto simp: appl_ok_def)
    show "host_follows kn qs (upd_where p g rows)" using inv host_follows_upd [OF _ le] by (auto simp: appl_ok_def)
    show "\<forall>r \<in> set (upd_where p g rows). r_submitted r \<noteq> None \<and> r_id r \<notin> A \<longrightarrow> authorized cs aus r"
      unfolding set using au by blast
    show "\<forall>c \<in> set cs. ch_consumed c \<noteq> None \<and> ch_operation c \<notin> B \<longrightarrow>
        (\<exists>r \<in> set (upd_where p g rows). r_id r = ch_operation c \<and> r_submitted r \<noteq> None)"
      unfolding set using inv con by (simp add: appl_ok_def)
    show "\<forall>r \<in> set (upd_where p g rows). row_state_ok qs r" unfolding set using st by blast
    show "\<forall>op \<in> K. stale_copy (upd_where p g rows) op" using inv stale by (auto simp: appl_ok_def)
  qed (use inv one in \<open>auto simp: appl_ok_def\<close>)
qed

lemma appl_inv_update:
  assumes inv: "appl_inv_x A B kn st K J s"
    and step: "\<And>r. r \<in> set (operations s) \<Longrightarrow> p r \<Longrightarrow> row_le r (f r) \<and> row_state_ok (st (outside s)) (f r)"
    and auth: "\<And>r. r \<in> set (operations s) \<Longrightarrow> p r \<Longrightarrow> r_submitted (f r) \<noteq> None \<Longrightarrow> r_submitted r \<noteq> None \<or> r_id r \<in> A"
  shows "appl_inv_x A B kn st K J (snd (update_operations p f s))"
proof (cases "operations (snd (update_operations p f s)) = operations s")
  case True
  with inv show ?thesis by (simp add: appl_inv_x_def)
next
  case False
  let ?g = "\<lambda>r. (f r)\<lparr>r_updated := db_now s\<rparr>"
  from False updated_operations have ops: "operations (snd (update_operations p f s)) = upd_where p ?g (operations s)"
    and one: "one_active (upd_where p ?g (operations s))" by metis+
  have "row_le r (?g r)" "row_state_ok (st (outside s)) (?g r)" if "r \<in> set (operations s)" "p r" for r
    using step [OF that] by simp_all
  with inv one auth show ?thesis
    unfolding appl_inv_x_def ops update_operations_outside by (intro appl_ok_upd) auto
qed

section \<open>Statements keep the invariant\<close>

lemma pending_row:
  "row_state_ok qs r \<Longrightarrow> r_state r = StatePlanned \<or> r_state r = StateAwaitingAuthorization \<Longrightarrow>
   r_submitted r = None \<and> r_generation r = 0 \<and> r_id r \<notin> job_ids qs"
  by (auto simp: row_state_ok_def)

lemma inv_row: "appl_inv_x A B kn st K J s \<Longrightarrow> r \<in> set (operations s) \<Longrightarrow> row_state_ok (st (outside s)) r"
  by (auto simp: appl_inv_x_def appl_ok_def)

text \<open>Leaving \<open>PLANNED\<close> or \<open>AWAITING_AUTHORIZATION\<close> without being submitted.\<close>

lemma pending_update:
  assumes "appl_inv_x A B kn st K J s"
    and "\<And>r. p r \<Longrightarrow> r_state r = StatePlanned \<or> r_state r = StateAwaitingAuthorization"
    and "\<And>r. r_state (f r) = StateCancelled \<or> r_state (f r) = StateAwaitingAuthorization"
    and "\<And>r. same_core r (f r) \<and> r_generation (f r) = r_generation r \<and> r_submitted (f r) = r_submitted r"
  shows "appl_inv_x A B kn st K J (snd (update_operations p f s))"
proof (rule appl_inv_update [OF assms(1)])
  fix r
  assume r: "r \<in> set (operations s)" "p r"
  from pending_row [OF inv_row [OF assms(1) r(1)] assms(2) [OF r(2)]] inv_row [OF assms(1) r(1)] assms(3,4) [of r]
    assms(2) [OF r(2)]
  show "row_le r (f r) \<and> row_state_ok (st (outside s)) (f r)"
    by (auto simp: row_le_def same_core_def row_state_ok_def)
qed (use assms(4) in auto)

lemma expire_inv: "preserves (appl_inv_x A B kn st K J) expirePlans"
  unfolding expirePlans_def
  by (rule system_invariant.keeps_stmt [OF appl_inv_system], erule pending_update) (auto simp: plan_overdue_def same_core_def)

lemma await_inv: "appl_inv_x A B kn st K J s \<Longrightarrow> appl_inv_x A B kn st K J (snd (await_update i s))"
  unfolding await_update_def by (erule pending_update) (auto simp: same_core_def)

lemma cancel_inv: "appl_inv_x A B kn st K J s \<Longrightarrow> appl_inv_x A B kn st K J (snd (cancel_update i s))"
  unfolding cancel_update_def by (erule pending_update) (auto simp: same_core_def)

lemma cancel_stmt_inv: "preserves (appl_inv_x A B kn st K J) (db_stmt (cancel_update i))"
  by (rule system_invariant.keeps_stmt [OF appl_inv_system], rule cancel_inv)

lemma mark_inv: "preserves (appl_inv_x A B kn st K J) (set_reconciliation v p)"
  unfolding set_reconciliation_def
proof (rule system_invariant.keeps_stmt [OF appl_inv_system], rule appl_inv_update)
  fix s r
  assume "appl_inv_x A B kn st K J s" and "r \<in> set (operations s)"
  from inv_row [OF this] show "row_le r (r\<lparr>r_reconciliation := v\<rparr>) \<and> row_state_ok (st (outside s)) (r\<lparr>r_reconciliation := v\<rparr>)"
    by (simp add: row_le_def same_core_def row_state_ok_def)
qed auto

text \<open>Audit rows only add up.\<close>

lemma insert_audit_tables [simp]:
  "operations (snd (insert_audit e s)) = operations s" "challenges (snd (insert_audit e s)) = challenges s"
  "outside (snd (insert_audit e s)) = outside s" "set (audit_rows s) \<subseteq> set (audit_rows (snd (insert_audit e s)))"
  by (auto simp: insert_audit_def Let_def take_seq_def split: prod.splits)

lemma audit_inv_stmt: "appl_inv_x A B kn st K J s \<Longrightarrow> appl_inv_x A B kn st K J (snd (insert_audit e s))"
  using authorized_mono [OF _ insert_audit_tables(4), of "challenges s" s _ "challenges s" e]
  by (auto simp: appl_inv_x_def appl_ok_def)

lemma writeAudit_inv: "preserves (appl_inv_x A B kn st K J) (writeAudit e)"
  unfolding writeAudit_def by (rule system_invariant.keeps_stmt [OF appl_inv_system]) (rule audit_inv_stmt)

lemma audit_inv: "preserves (appl_inv_x A B kn st K J) (audit e)"
  unfolding audit_def by (intro preserves_bind writeAudit_inv preserves_return)

text \<open>A new plan.\<close>

lemma host_row:
  "host_follows kn qs rows \<Longrightarrow> i \<in> job_ids qs \<Longrightarrow> \<exists>r \<in> set rows. r_id r = i \<and> r_submitted r \<noteq> None"
  by (fastforce simp: host_follows_def job_ids_def jobRequest_def scanOperation_def)

lemma one_active_append: "one_active rows \<Longrightarrow> \<not> Active (r_state r) \<Longrightarrow> one_active (rows @ [r])"
  by (simp add: one_active_def)

lemma appl_ok_new_row:
  assumes inv: "appl_ok A B kn qs K J rows cs aus"
    and new: "r_id r \<notin> r_id ` set rows" "(r_actor_user r, r_key r) \<notin> (\<lambda>r. (r_actor_user r, r_key r)) ` set rows"
    and row: "ValidOperationID (r_id r)" "r_generation r = 0" "r_submitted r = None" "r_state r = StatePlanned"
  shows "appl_ok A B kn qs K J (rows @ [r]) cs aus"
proof -
  have hf: "host_follows kn qs rows" using inv by (simp add: appl_ok_def)
  have fresh: "r_id r \<notin> job_ids qs" using host_row [OF hf] new(1) by (metis imageI)
  from hf have "host_follows kn qs (rows @ [r])"
    unfolding host_follows_def using fresh by simp
  moreover have "stale_copy (rows @ [r]) op" if "stale_copy rows op" for op
    using that by (auto simp: stale_copy_def)
  moreover have "row_state_ok qs r" using row fresh by (simp add: row_state_ok_def)
  moreover have "unique_by r_id (rows @ [r])" "unique_by (\<lambda>r. (r_actor_user r, r_key r)) (rows @ [r])" "one_active (rows @ [r])"
    using inv new row(4) by (auto simp: appl_ok_def unique_by_append1 one_active_append)
  ultimately show ?thesis using inv row(3) unfolding appl_ok_def by auto
qed

lemma insert_inv:
  assumes "newOperationID now (Some rnd) = Some i" and "length rnd = 10"
  shows "preserves (appl_inv_x A B kn st K J) (insertPlanned C i caller key rid req plan)"
  unfolding insertPlanned_def
proof (rule system_invariant.keeps_stmt [OF appl_inv_system], goal_cases)
  case (1 s)
  then have "appl_ok A B (kn (outside s)) (st (outside s)) K J (operations s @ [new_row C i caller key rid req plan (db_now s)]) (challenges s) (audit_rows s)"
    if "\<not> list_ex (\<lambda>r. r_actor_user r = c_UserID caller \<and> r_key r = key) (operations s)" "i \<notin> set (map r_id (operations s))"
    using that newOperationID_valid [OF assms]
    by (intro appl_ok_new_row) (auto simp: appl_inv_x_def new_row_def list_ex_iff)
  with 1 show ?case by (auto simp: appl_inv_x_def)
qed

text \<open>Challenges.\<close>

lemma appl_ok_challenges:
  assumes inv: "appl_ok A B kn qs K J rows cs aus" and "unique_by ch_hash cs'"
    and "\<And>c. c \<in> set cs \<Longrightarrow> ch_consumed c \<noteq> None \<Longrightarrow> c \<in> set cs'"
    and "\<And>c. c \<in> set cs' \<Longrightarrow> ch_consumed c \<noteq> None \<Longrightarrow> c \<in> set cs \<or> ch_operation c \<in> B'" and "B \<subseteq> B'"
  shows "appl_ok A B' kn qs K J rows cs' aus"
  using assms authorized_mono [of cs aus _ aus cs'] unfolding appl_ok_def by blast

lemma unique_challenges: "appl_ok A B kn qs K J rows cs aus \<Longrightarrow> unique_by ch_hash cs"
  by (simp add: appl_ok_def)

lemma drop_inv: "appl_inv_x A B kn st K J s \<Longrightarrow> appl_inv_x A B kn st K J (snd (drop_challenges i s))"
  unfolding drop_challenges_def appl_inv_x_def snd_conv
  by (frule unique_challenges, simp, erule appl_ok_challenges) (auto simp: unique_by_del_where set_del_where)

lemma insert_challenge_inv:
  assumes "appl_inv_x A B kn st K J s"
  shows "appl_inv_x A B kn st K J (snd (insert_challenge C caller v i s))"
proof (cases "find_row (\<lambda>r. r_id r = i) (operations s)")
  case None
  with assms show ?thesis by (simp add: insert_challenge_def)
next
  case (Some r)
  let ?c = "\<lparr>ch_id = seqs s ''appliance_challenges'', ch_hash = hashChallenge C v, ch_operation = i, ch_user = c_UserID caller,
            ch_session = c_SessionID caller, ch_plan_hash = r_plan_hash r, ch_installation = r_installation r,
            ch_action = r_type r, ch_expires = min (db_now s + ChallengeTTL) (r_plan_expires r), ch_consumed = None, ch_created = db_now s\<rparr>"
  have u: "unique_by ch_hash (challenges s)" using assms unique_challenges by (auto simp: appl_inv_x_def)
  have "appl_ok A B (kn (outside s)) (st (outside s)) K J (operations s) (challenges s @ [?c]) (audit_rows s)"
    if "hashChallenge C v \<notin> set (map ch_hash (challenges s))"
    using assms that u unfolding appl_inv_x_def
    by (elim appl_ok_challenges) (auto simp: unique_by_append1)
  with Some assms show ?thesis by (auto simp: insert_challenge_def Let_def take_seq_def appl_inv_x_def)
qed

section \<open>Recording a submission\<close>

lemma appl_inv_mono: "appl_inv_x A B kn st K J s \<Longrightarrow> A \<subseteq> A' \<Longrightarrow> B \<subseteq> B' \<Longrightarrow> appl_inv_x A' B' kn st K J s"
  unfolding appl_inv_x_def appl_ok_def by blast

lemma appl_ok_submitted:
  "appl_ok A {i} kn qs K J rows cs aus \<Longrightarrow> \<exists>r \<in> set rows. r_id r = i \<and> r_submitted r \<noteq> None \<Longrightarrow> appl_ok A {} kn qs K J rows cs aus"
  by (auto simp: appl_ok_def)

lemma appl_ok_recorded:
  "appl_ok {i} B kn qs K J rows cs aus \<Longrightarrow> (\<And>r. r \<in> set rows \<Longrightarrow> r_id r = i \<Longrightarrow> authorized cs aus r) \<Longrightarrow> appl_ok {} B kn qs K J rows cs aus"
  by (auto simp: appl_ok_def)

definition submit_ready :: "Operation \<Rightarrow> Caller \<Rightarrow> ('w, 'x) appliance_db_scheme \<Rightarrow> bool" where
  "submit_ready op caller s \<longleftrightarrow> (Destructive (OperationType_Action (o_Type op)) \<longrightarrow>
     (\<exists>c \<in> set (challenges s). ch_consumed c \<noteq> None \<and> ch_operation c = o_ID op \<and> ch_plan_hash c = o_PlanHash op \<and>
        ch_installation c = o_InstallationID op \<and> ch_user c = c_UserID caller))"

lemma submit_ready_system: "same_system s s' \<Longrightarrow> submit_ready op caller s \<Longrightarrow> submit_ready op caller s'"
  unfolding submit_ready_def same_system_def using same_tables_appl [of s s'] by simp

lemma inv_ready_system: "system_invariant (\<lambda>s. appl_inv_x A B kn st K J s \<and> submit_ready op caller s)"
  by (rule system_invariant.intro) (auto intro: submit_ready_system system_invariant.same_system [OF appl_inv_system])

lemma consume_step:
  assumes inv: "appl_inv kn st K J s"
  shows "appl_inv_x {} {o_ID op} kn st K J (snd (consume_update C op caller v s))"
    and "fst (consume_update C op caller v s) = ok 1 \<Longrightarrow> submit_ready op caller (snd (consume_update C op caller v s))"
proof -
  let ?p = "\<lambda>c. challenge_matches C op caller v c \<and> ch_consumed c = None \<and> ch_expires c > db_now s"
  let ?f = "\<lambda>c. c\<lparr>ch_consumed := Some (db_now s)\<rparr>"
  have cs: "challenges (snd (consume_update C op caller v s)) = upd_where ?p ?f (challenges s)"
    and rest: "operations (snd (consume_update C op caller v s)) = operations s" "audit_rows (snd (consume_update C op caller v s)) = audit_rows s"
      "outside (snd (consume_update C op caller v s)) = outside s"
    by (simp_all add: consume_update_def Let_def)
  have u: "unique_by ch_hash (challenges s)" using inv unique_challenges by (auto simp: appl_inv_x_def)
  have "appl_ok {} {o_ID op} (kn (outside s)) (st (outside s)) K J (operations s) (upd_where ?p ?f (challenges s)) (audit_rows s)"
    using inv unfolding appl_inv_x_def
    by (elim appl_ok_challenges) (auto simp: set_upd_where challenge_matches_def intro: unique_by_upd_where [OF u])
  then show "appl_inv_x {} {o_ID op} kn st K J (snd (consume_update C op caller v s))"
    unfolding appl_inv_x_def cs rest .
  assume "fst (consume_update C op caller v s) = ok 1"
  then have "count_where ?p (challenges s) \<noteq> 0" by (simp add: consume_update_def Let_def)
  then obtain c where "c \<in> set (challenges s)" "?p c" by (auto simp: count_where_0)
  then have "?f c \<in> set (upd_where ?p ?f (challenges s))" by (auto simp: set_upd_where)
  then show "submit_ready op caller (snd (consume_update C op caller v s))"
    unfolding submit_ready_def cs using \<open>?p c\<close> by (auto simp: challenge_matches_def intro!: bexI [of _ "?f c"])
qed

lemma consume_hoare:
  "hoare (appl_inv kn st K J) (consumeChallenge C op caller v)
     (on_ok (\<lambda>s. appl_inv_x {} {o_ID op} kn st K J s \<and> submit_ready op caller s))"
  unfolding consumeChallenge_def
proof (rule hoare_check_on_ok [where R = "\<lambda>n s. n = 1 \<longrightarrow> appl_inv_x {} {o_ID op} kn st K J s \<and> submit_ready op caller s"])
  show "hoare (appl_inv kn st K J) (db_stmt (consume_update C op caller v))
      (\<lambda>r s. case r of Inl e \<Rightarrow> True | Inr n \<Rightarrow> n = 1 \<longrightarrow> appl_inv_x {} {o_ID op} kn st K J s \<and> submit_ready op caller s)"
    by (rule system_invariant.stmt_result [OF appl_inv_system]) (use consume_step in \<open>auto split: sum.splits\<close>)
qed (auto simp: on_ok_def hoare_def run_check split: prod.splits sum.splits)

lemma queue_step:
  assumes inv: "appl_inv_x {} {i} kn st K J s" and e: "expected = StatePlanned \<or> expected = StateAwaitingAuthorization"
    and n: "fst (queue_update i expected s) = ok 1"
  shows "appl_inv_x {i} {} kn st K J (snd (queue_update i expected s))"
proof -
  let ?p = "\<lambda>r. r_id r = i \<and> r_state r = expected \<and> r_plan_expires r > db_now s"
  let ?f = "\<lambda>r. r\<lparr>r_state := StateQueued, r_submitted := Some (db_now s)\<rparr>"
  have "appl_inv_x {i} {i} kn st K J (snd (queue_update i expected s))"
    unfolding queue_update_def
  proof (rule appl_inv_update)
    show inv': "appl_inv_x {i} {i} kn st K J s" by (rule appl_inv_mono [OF inv]) auto
    fix r
    assume r: "r \<in> set (operations s)" "?p r"
    from pending_row [OF inv_row [OF inv' r(1)]] inv_row [OF inv' r(1)] r e
    show "row_le r (?f r) \<and> row_state_ok (st (outside s)) (?f r)"
      by (auto simp: row_le_def same_core_def row_state_ok_def)
  qed auto
  moreover have "\<exists>r \<in> set (operations (snd (queue_update i expected s))). r_id r = i \<and> r_submitted r \<noteq> None"
  proof -
    from n have "count_where ?p (operations s) \<noteq> 0"
      and ops: "operations (snd (queue_update i expected s)) = upd_where ?p (\<lambda>r. (?f r)\<lparr>r_updated := db_now s\<rparr>) (operations s)"
      by (auto simp: queue_update_def update_operations_def Let_def split: if_splits)
    then obtain r where "r \<in> set (operations s)" "?p r" by (auto simp: count_where_0)
    then show ?thesis unfolding ops by (intro bexI [of _ "(?f r)\<lparr>r_updated := db_now s\<rparr>"]) (auto simp: set_upd_where)
  qed
  ultimately show ?thesis unfolding appl_inv_x_def by (rule appl_ok_submitted)
qed

lemma queue_ready: "submit_ready op caller s \<Longrightarrow> submit_ready op caller (snd (queue_update i expected s))"
  by (simp add: submit_ready_def queue_update_def)

lemma record_step:
  assumes inv: "appl_inv_x {o_ID op} {} kn st K J s" and op: "op \<in> K" and ready: "submit_ready op caller s"
  shows "appl_inv kn st K J (snd (insert_audit (state_audit AuditSubmit caller op StateQueued) s))"
proof -
  let ?s = "snd (insert_audit (state_audit AuditSubmit caller op StateQueued) s)"
  define a where "a = last (audit_rows ?s)"
  then have a: "a \<in> set (audit_rows ?s)" "au_operation a = o_ID op" "au_event a = AuditSubmit" "au_new_state a = StateQueued" "au_user a = Some (c_UserID caller)"
    by (simp_all add: insert_audit_def state_audit_def Let_def)
  from inv op obtain r0 r where r: "r \<in> set (operations s)" "op = scanOperation r0" "row_le r0 r"
    by (auto simp: appl_inv_x_def appl_ok_def stale_copy_def)
  have core: "r_id r = o_ID op" "r_type r = o_Type op" "r_plan_hash r = o_PlanHash op" "r_installation r = o_InstallationID op"
    using r(2,3) by (simp_all add: scanOperation_def row_le_def same_core_def)
  have "authorized (challenges ?s) (audit_rows ?s) r"
    unfolding authorized_def core
    by (rule bexI [OF _ a(1)]) (use a ready in \<open>auto simp: submit_ready_def OperationType_Action_def\<close>)
  moreover have "r' = r" if "r' \<in> set (operations s)" "r_id r' = o_ID op" for r'
  proof -
    from core(1) inv that r(1) show ?thesis by (auto simp: appl_inv_x_def appl_ok_def intro: unique_by_eq)
  qed
  moreover from audit_inv_stmt [OF inv] have "appl_inv_x {o_ID op} {} kn st K J ?s" .
  ultimately show ?thesis
    unfolding appl_inv_x_def by (intro appl_ok_recorded) (auto simp only: insert_audit_tables)
qed

text \<open>The two silent transactions.\<close>

lemma silent_writes [silent_rules]:
  "silent (db_stmt (await_update i))" "silent (db_stmt (drop_challenges i))" "silent (db_stmt (insert_challenge C caller v i))"
  "silent (writeAudit e)" "silent (db_stmt (consume_update C op caller v))" "silent (db_stmt (queue_update i expected))"
  "silent (db_stmt (job_update i job ec eo))" "silent (db_stmt (finish_update op state code origin))" "silent (set_reconciliation v p)"
  unfolding writeAudit_def set_reconciliation_def
  by (rule silent_stmt; simp add: await_update_def drop_challenges_def insert_challenge_def consume_update_def queue_update_def
      job_update_def finish_update_def Let_def take_seq_def split: option.splits)+

lemma silent_consume [silent_rules]: "silent (consumeChallenge C op caller v)"
  unfolding consumeChallenge_def by (intro silent_rules)

lemma expected_pending: "expected_state op = StatePlanned \<or> expected_state op = StateAwaitingAuthorization"
  by (simp add: expected_state_def)

lemma authorize_inv: "preserves (appl_inv kn st K J) (authorize_tx C caller op v)"
  unfolding authorize_tx_def
proof (rule system_invariant.keeps_silent_tx [OF appl_inv_system], intro silent_rules)
  note stmt = system_invariant.keeps_stmt [OF appl_inv_system]
  show "hoare (appl_inv kn st K J) (check ADb (db_stmt (await_update (o_ID op))) (\<lambda>n.
     if n \<noteq> 1 then ret (err ErrPlanExpired)
     else check ADb (db_stmt (drop_challenges (o_ID op))) (\<lambda>_.
       check ADb (db_stmt (insert_challenge C caller v (o_ID op))) (\<lambda>expiresAt.
       check ADb (writeAudit (state_audit AuditAuthorize caller op StateAwaitingAuthorization)) (\<lambda>_.
         ret (ok expiresAt)))))) (on_ok (appl_inv kn st K J))"
    by (intro hoare_on_ok hoare_rules stmt await_inv drop_inv insert_challenge_inv writeAudit_inv)
qed

lemma submit_inv:
  assumes "op \<in> K"
  shows "preserves (appl_inv kn st K J) (submit_tx C caller op v)"
  unfolding submit_tx_def
proof (rule system_invariant.keeps_silent_tx [OF appl_inv_system], intro silent_rules)
  let ?Q1 = "\<lambda>s. appl_inv_x {} {o_ID op} kn st K J s \<and> submit_ready op caller s"
  let ?Q2 = "\<lambda>s. appl_inv_x {o_ID op} {} kn st K J s \<and> submit_ready op caller s"
  have first: "hoare (appl_inv kn st K J)
      (if Destructive (OperationType_Action (o_Type op)) then consumeChallenge C op caller v else ret (ok ())) (on_ok ?Q1)"
  proof (cases "Destructive (OperationType_Action (o_Type op))")
    case True
    then show ?thesis by (simp only: if_True consume_hoare)
  next
    case False
    then show ?thesis by (auto intro!: hoare_return simp: submit_ready_def elim!: appl_inv_mono)
  qed
  have queue: "hoare ?Q1 (db_stmt (queue_update (o_ID op) (expected_state op))) (\<lambda>r s. case r of Inl e \<Rightarrow> True | Inr n \<Rightarrow> n = 1 \<longrightarrow> ?Q2 s)"
    by (rule system_invariant.stmt_result [OF inv_ready_system])
      (use queue_step [OF _ expected_pending] queue_ready in \<open>auto split: sum.splits\<close>)
  have recorded: "hoare ?Q2 (check ADb (writeAudit (state_audit AuditSubmit caller op StateQueued)) (\<lambda>_. ret (ok ()))) (on_ok (appl_inv kn st K J))"
    by (rule hoare_check_on_ok [where R = "\<lambda>_. appl_inv kn st K J"], unfold writeAudit_def,
        rule system_invariant.stmt_result [OF inv_ready_system])
      (use record_step [OF _ assms] in \<open>auto intro!: hoare_return split: sum.splits\<close>)
  show "hoare (appl_inv kn st K J) (check id (if Destructive (OperationType_Action (o_Type op)) then consumeChallenge C op caller v else ret (ok ())) (\<lambda>_.
     check ADb (db_stmt (queue_update (o_ID op) (expected_state op))) (\<lambda>n.
     if n \<noteq> 1 then ret (err (ErrOperationState ''''))
     else check ADb (writeAudit (state_audit AuditSubmit caller op StateQueued)) (\<lambda>_. ret (ok ()))))) (on_ok (appl_inv kn st K J))"
    by (rule hoare_check_ok [OF first], rule hoare_check_on_ok [OF queue]) (auto intro: hoare_err_ok recorded)
qed

section \<open>Following the journal\<close>

lemma submitted_row:
  assumes inv: "appl_inv_x A B kn st K J s" and r: "r \<in> set (operations s)" "r_id r \<in> job_ids (st (outside s))"
  shows "r_submitted r \<noteq> None"
proof -
  from inv have "host_follows (kn (outside s)) (st (outside s)) (operations s)" and u: "unique_by r_id (operations s)"
    by (auto simp: appl_inv_x_def appl_ok_def)
  from host_row [OF this(1) r(2)] obtain r' where r': "r' \<in> set (operations s)" "r_id r' = r_id r" "r_submitted r' \<noteq> None" by blast
  with unique_by_eq [OF u r(1) r'(1)] show ?thesis by simp
qed

text \<open>A newer journal entry.\<close>

lemma job_update_inv:
  assumes inv: "appl_inv_x A B kn st K J s" and seen: "seen_entry (st (outside s)) job" and i: "hj_OperationID job = i"
  shows "appl_inv_x A B kn st K J (snd (job_update i job ec eo s))"
  unfolding job_update_def
proof (rule appl_inv_update [OF inv])
  fix r
  assume r: "r \<in> set (operations s)" "r_id r = i \<and> r_generation r < hj_Generation job"
  have known: "i \<in> job_ids (st (outside s))" and job: "hostOwned (hj_State job)" "1 \<le> hj_Generation job"
    using seen i by (auto simp: seen_entry_def usable_def)
  have sub: "r_submitted r \<noteq> None" using submitted_row [OF inv] known r by blast
  moreover have "r_generation r = 0 \<longrightarrow> r_state r = StateQueued" using inv_row [OF inv r(1)] known r(2) by (auto simp: row_state_ok_def)
  moreover from job(1) have "hj_State job \<noteq> StatePlanned" "hj_State job \<noteq> StateAwaitingAuthorization" by auto
  ultimately show "row_le r (r\<lparr>r_state := hj_State job, r_phase := hj_Phase job, r_generation := hj_Generation job,
        r_cancellable := hj_Cancellable job \<and> \<not> Terminal (hj_State job), r_reconciliation := ReconciliationInSync,
        r_error_code := ec, r_error_origin := eo,
        r_finished := (if Terminal (hj_State job)
          then (case r_finished r of None \<Rightarrow> Some (db_now s) | Some t \<Rightarrow> Some t) else None)\<rparr>) \<and>
     row_state_ok (st (outside s)) (r\<lparr>r_state := hj_State job, r_phase := hj_Phase job, r_generation := hj_Generation job,
        r_cancellable := hj_Cancellable job \<and> \<not> Terminal (hj_State job), r_reconciliation := ReconciliationInSync,
        r_error_code := ec, r_error_origin := eo,
        r_finished := (if Terminal (hj_State job)
          then (case r_finished r of None \<Rightarrow> Some (db_now s) | Some t \<Rightarrow> Some t) else None)\<rparr>)"
    using r job inv_row [OF inv r(1)] by (cases "r_generation r = 0") (simp_all add: row_le_def same_core_def row_state_ok_def)
qed auto

text \<open>Ending an operation without the host: one it never started, or one it has reported on.\<close>

lemma finish_inv:
  assumes inv: "appl_inv_x A B kn st K J s"
    and ends: "state = StateFailed \<or> state = StateCancelled \<or> state = StateRecoveryRequired"
    and ours: "\<And>r. r \<in> set (operations s) \<Longrightarrow> r_id r = o_ID op \<Longrightarrow> r_state r = o_State op \<Longrightarrow>
      \<not> Terminal (r_state r) \<and> r_submitted r \<noteq> None \<and> (0 < r_generation r \<or> r_id r \<notin> job_ids (st (outside s)))"
  shows "appl_inv_x A B kn st K J (snd (finish_update op state code origin s))"
  unfolding finish_update_def
proof (rule appl_inv_update [OF inv])
  fix r
  assume r: "r \<in> set (operations s)" "r_id r = o_ID op \<and> r_state r = o_State op"
  from ours [OF r(1)] r(2) inv_row [OF inv r(1)] ends
  show "row_le r (r\<lparr>r_state := state, r_error_code := code, r_error_origin := origin,
        r_reconciliation := (if code = CodeHostJobLost then ReconciliationHostUnknown else ReconciliationInSync),
        r_cancellable := False, r_finished := (if Terminal state then Some (db_now s) else None)\<rparr>) \<and>
     row_state_ok (st (outside s)) (r\<lparr>r_state := state, r_error_code := code, r_error_origin := origin,
        r_reconciliation := (if code = CodeHostJobLost then ReconciliationHostUnknown else ReconciliationInSync),
        r_cancellable := False, r_finished := (if Terminal state then Some (db_now s) else None)\<rparr>)"
    by (auto simp: row_le_def same_core_def row_state_ok_def)
qed auto

lemma job_stmt_inv:
  assumes "job \<in> J" and "hj_OperationID job = i"
  shows "preserves (appl_inv_x A B kn st K J) (db_stmt (job_update i job ec eo))"
proof (rule system_invariant.keeps_stmt [OF appl_inv_system], goal_cases)
  case (1 s)
  then have "seen_entry (st (outside s)) job" using assms(1) by (simp add: appl_inv_x_def appl_ok_def)
  with 1 show ?case using assms(2) by (rule job_update_inv)
qed

lemma applyJob_inv:
  assumes "job \<in> J" and "hj_OperationID job = o_ID op"
  shows "preserves (appl_inv_x A B kn st K J) (applyJob op job)"
  unfolding applyJob_def by (intro hoare_rules job_stmt_inv [OF assms] mark_inv audit_inv)

lemma silent_audit [silent_rules]: "silent (audit e)"
  unfolding audit_def by (intro silent_rules)


lemma silent_apply [silent_rules]: "silent (applyJob op job)"
  unfolding applyJob_def Let_def by (intro silent_rules)

lemma silent_finish [silent_rules]: "silent (finishWithoutHost op state code origin event)"
  unfolding finishWithoutHost_def by (intro silent_rules)

lemma silent_mark [silent_rules]: "silent (markUnreachable op)"
  unfolding markUnreachable_def by (intro silent_rules)

lemma silent_commit [silent_rules]: "silent (commit_if b)"
  unfolding commit_if_def by (intro silent_rules)

lemma commit_inv: "preserves I (commit_if b)"
  unfolding commit_if_def by (intro hoare_rules)

lemma markUnreachable_inv: "preserves (appl_inv_x A B kn st K J) (markUnreachable op)"
  unfolding markUnreachable_def by (intro hoare_rules mark_inv)

definition endable :: "('w \<Rightarrow> HostJobRequest list) \<Rightarrow> Operation \<Rightarrow> ('w, 'x) appliance_db_scheme \<Rightarrow> bool" where
  "endable st op s \<longleftrightarrow> (\<forall>r \<in> set (operations s). r_id r = o_ID op \<and> r_state r = o_State op \<longrightarrow>
     \<not> Terminal (r_state r) \<and> r_submitted r \<noteq> None \<and> (0 < r_generation r \<or> r_id r \<notin> job_ids (st (outside s))))"

lemma endable_system: "system_invariant (\<lambda>s. appl_inv_x A B kn st K J s \<and> endable st op s)"
proof (rule system_invariant.intro)
  fix s s' :: "('a, 'b) appliance_db_scheme"
  assume ss: "same_system s s'" and inv: "appl_inv_x A B kn st K J s \<and> endable st op s"
  then have "appl_inv_x A B kn st K J s'" using system_invariant.same_system [OF appl_inv_system] by blast
  moreover have "endable st op s'"
    using inv ss same_tables_appl [of s s'] unfolding endable_def same_system_def by simp
  ultimately show "appl_inv_x A B kn st K J s' \<and> endable st op s'" ..
qed

lemma finish_stmt_inv:
  assumes "state = StateFailed \<or> state = StateCancelled \<or> state = StateRecoveryRequired"
  shows "hoare (\<lambda>s. appl_inv_x A B kn st K J s \<and> endable st op s) (db_stmt (finish_update op state code origin)) (\<lambda>_. appl_inv_x A B kn st K J)"
proof (rule system_invariant.stmt_post [OF endable_system], goal_cases)
  case (1 s)
  then have "appl_inv_x A B kn st K J (snd (finish_update op state code origin s))"
    by (intro finish_inv [OF _ assms]) (auto simp: endable_def)
  with 1 show ?case by simp
qed

lemma finish_hoare:
  assumes "state = StateFailed \<or> state = StateCancelled \<or> state = StateRecoveryRequired"
  shows "hoare (\<lambda>s. appl_inv_x A B kn st K J s \<and> endable st op s) (finishWithoutHost op state code origin event) (\<lambda>_. appl_inv_x A B kn st K J)"
  unfolding finishWithoutHost_def
  by (rule hoare_bind [OF finish_stmt_inv [OF assms]]) (intro hoare_rules audit_inv)

lemma stale_endable:
  assumes inv: "appl_inv_x A B kn st K J s" and op: "op \<in> K" "o_HostGeneration op \<noteq> 0" "\<not> Terminal (o_State op)"
  shows "endable st op s"
proof -
  from inv op obtain r0 r where r: "r \<in> set (operations s)" "op = scanOperation r0" "row_le r0 r" "0 \<le> r_generation r0"
    by (auto simp: appl_inv_x_def appl_ok_def stale_copy_def)
  from op(2) r have gen: "0 < r_generation r" and id: "r_id r = o_ID op" by (auto simp: scanOperation_def row_le_def same_core_def)
  have "r_submitted r \<noteq> None" using inv_row [OF inv r(1)] gen by (auto simp: row_state_ok_def)
  moreover have "unique_by r_id (operations s)" using inv by (simp add: appl_inv_x_def appl_ok_def)
  ultimately show ?thesis
    unfolding endable_def using gen id r(1) op(3) by (metis unique_by_eq)
qed

section \<open>Talking to the host\<close>

lemma undelivered_result:
  assumes "run_state (undelivered i) s = (x, s')"
  obtains "same_system s s'" and "x = err DbFail \<or> x = ok None"
  | r where "same_system s s'" and "r \<in> set (operations s)" and "r_id r = i" and "r_state r = StateQueued" and "r_generation r = 0"
      and "x = ok (Some (scanOperation r))"
proof -
  obtain oc s1 where n: "run_state next_outcome s = (oc, s1)" by force
  then have ss: "same_system s s1" by (rule same_system_next_outcome)
  then have ops: "operations s1 = operations s" using same_tables_appl by (auto simp: same_system_def)
  from assms n have s': "s' = s1" by (auto simp: undelivered_def operationByID_def select_operation_def run_db_query split: prod.splits outcome.splits)
  show thesis
  proof (cases "oc = Done")
    case False
    with assms n have "x = err DbFail" by (cases oc) (auto simp: undelivered_def operationByID_def select_operation_def run_db_query)
    with that(1) ss s' show thesis by simp
  next
    case True
    with assms n ops have x: "x = (case map_option scanOperation (find_row (\<lambda>r. r_id r = i) (operations s)) of
        Some op \<Rightarrow> ok (if o_State op \<noteq> StateQueued \<or> o_HostGeneration op \<noteq> 0 then None else Some op) | None \<Rightarrow> ok None)"
      by (auto simp: undelivered_def operationByID_def select_operation_def run_db_query split: option.splits)
    show thesis
    proof (cases "find_row (\<lambda>r. r_id r = i) (operations s)")
      case None
      with x that(1) ss s' show thesis by simp
    next
      case (Some r)
      from find_row_Some [OF Some] x Some that ss s' show thesis by (auto simp: scanOperation_def split: if_splits)
    qed
  qed
qed

definition config_inv :: "('w \<Rightarrow> string \<Rightarrow> bool) \<Rightarrow> ('w \<Rightarrow> HostJobRequest list) \<Rightarrow> ('w, 'x) config \<Rightarrow> bool" where
  "config_inv kn st c \<longleftrightarrow> (case c of (s, K, J) \<Rightarrow> appl_inv kn st K J s)"

lemma config_inv_pair [simp]: "config_inv kn st (s, K, J) \<longleftrightarrow> appl_inv kn st K J s"
  by (simp add: config_inv_def)

context host_adapter
begin

text \<open>Handing an undelivered operation to the host keeps the invariant, whether or not the answer is recorded.\<close>

lemma submit_world:
  assumes inv: "appl_inv_x A B known started K J s" and r: "r \<in> set (operations s)" "r_state r = StateQueued" "r_generation r = 0"
    and run: "run_state (hc_Submit hc (jobRequest (scanOperation r))) (outside s) = (x, w')"
  shows "appl_inv_x A B known started K J (s\<lparr>outside := w'\<rparr>)"
proof -
  let ?q = "jobRequest (scanOperation r)"
  have id: "jr_OperationID ?q = r_id r" by (simp add: jobRequest_def scanOperation_def)
  from submit_effect [OF run] consider (same) "known w' = known (outside s)" "started w' = started (outside s)"
    | (new) "\<not> known (outside s) (r_id r)" "known w' = (known (outside s))(r_id r := True)" "started w' = started (outside s) @ [?q]"
    by (auto simp: id)
  then show ?thesis
  proof cases
    case same
    with inv show ?thesis by (simp add: appl_inv_x_def)
  next
    case new
    have ok: "appl_ok A B (known (outside s)) (started (outside s)) K J (operations s) (challenges s) (audit_rows s)"
      using inv by (simp add: appl_inv_x_def)
    then have hf: "host_follows (known (outside s)) (started (outside s)) (operations s)" and u: "unique_by r_id (operations s)"
      by (simp_all add: appl_ok_def)
    have fresh: "r_id r \<notin> job_ids (started (outside s))" using hf r new(1) unfolding host_follows_def by fastforce
    have sub: "r_submitted r \<noteq> None" using inv_row [OF inv r(1)] r(2) by (auto simp: row_state_ok_def)
    have ids: "job_ids (started w') = insert (r_id r) (job_ids (started (outside s)))" by (auto simp: new(3) job_ids_def id)
    have "row_state_ok (started w') r'" if "r' \<in> set (operations s)" for r'
    proof (cases "r' = r")
      case True
      with inv_row [OF inv r(1)] r(2) show ?thesis by (simp add: row_state_ok_def)
    next
      case False
      then have "r_id r' \<noteq> r_id r" using unique_by_eq [OF u r(1) that] by auto
      with inv_row [OF inv that] show ?thesis by (simp add: row_state_ok_def ids)
    qed
    moreover have "host_follows (known w') (started w') (operations s)"
      unfolding host_follows_def
    proof (intro conjI)
      show "\<forall>i. known w' i \<longrightarrow> i \<in> job_ids (started w')" using hf by (auto simp: host_follows_def ids new(2))
      show "unique_by jr_OperationID (started w')"
        using hf fresh by (simp add: host_follows_def new(3) unique_by_append1 id job_ids_def)
      show "\<forall>q \<in> set (started w'). \<exists>r \<in> set (operations s). r_submitted r \<noteq> None \<and> q = jobRequest (scanOperation r)"
        using hf r(1) sub unfolding host_follows_def new(3) set_append by (metis UnE empty_iff insertE list.set)
      show "\<forall>r' \<in> set (operations s). r_id r' \<in> job_ids (started w') \<and> \<not> known w' (r_id r') \<longrightarrow> 0 < r_generation r'"
        using hf unfolding host_follows_def ids new(2) by auto
    qed
    moreover have "seen_entry (started w') job" if "seen_entry (started (outside s)) job" for job
      using that by (auto simp: seen_entry_def ids)
    ultimately show ?thesis using ok by (simp add: appl_inv_x_def appl_ok_def)
  qed
qed

lemma quiet_world:
  "appl_inv_x A B known started K J s \<Longrightarrow> known w' = known (outside s) \<Longrightarrow> started w' = started (outside s) \<Longrightarrow>
   appl_inv_x A B known started K J (s\<lparr>outside := w'\<rparr>)"
  by (simp add: appl_inv_x_def)

lemma undelivered_tx:
  assumes body: "\<And>s r x s'. appl_inv_x A B known started K J s \<Longrightarrow> r \<in> set (operations s) \<Longrightarrow> r_id r = i \<Longrightarrow> r_state r = StateQueued \<Longrightarrow>
      r_generation r = 0 \<Longrightarrow> run_state (k (scanOperation r)) s = (x, s') \<Longrightarrow>
      appl_inv_x A B known started K J (s\<lparr>outside := outside s'\<rparr>) \<and> (\<forall>a. x = ok a \<longrightarrow> appl_inv_x A B known started K J s')"
  shows "preserves (appl_inv_x A B known started K J)
     (with_tx ADb ADb (check ADb (undelivered i) (\<lambda>op. case op of None \<Rightarrow> ret (err e) | Some op \<Rightarrow> k op)))"
proof (rule system_invariant.keeps_with_tx [OF appl_inv_system])
  fix s0 x s1
  assume inv: "appl_inv_x A B known started K J s0"
    and run: "run_state (check ADb (undelivered i) (\<lambda>op. case op of None \<Rightarrow> ret (err e) | Some op \<Rightarrow> k op)) s0 = (x, s1)"
  obtain u sq where u: "run_state (undelivered i) s0 = (u, sq)" by force
  from u show "appl_inv_x A B known started K J (s0\<lparr>outside := outside s1\<rparr>) \<and> (\<forall>a. x = ok a \<longrightarrow> appl_inv_x A B known started K J s1)"
  proof (cases rule: undelivered_result)
    case 1
    with run u have "s1 = sq" "\<And>a. x \<noteq> ok a" by (auto simp: run_check)
    with 1(1) inv show ?thesis by (simp add: same_system_def)
  next
    case (2 r)
    with run u have k: "run_state (k (scanOperation r)) sq = (x, s1)" by (simp add: run_check)
    have sq: "appl_inv_x A B known started K J sq" and ops: "operations sq = operations s0"
      using system_invariant.same_system [OF appl_inv_system 2(1) inv] same_tables_appl 2(1) by (auto simp: same_system_def)
    from body [OF sq _ 2(3-5) k] 2(2) ops
    have "appl_inv_x A B known started K J (sq\<lparr>outside := outside s1\<rparr>)" and "\<forall>a. x = ok a \<longrightarrow> appl_inv_x A B known started K J s1" by auto
    moreover have "operations sq = operations s0" "challenges sq = challenges s0" "audit_rows sq = audit_rows s0"
      using same_tables_appl 2(1) by (auto simp: same_system_def)
    ultimately show ?thesis by (simp add: appl_inv_x_def)
  qed
qed

text \<open>Ask the host, then write: the world after the call must do with and without the writes.\<close>

lemma ask_then:
  assumes world: "\<And>y w'. run_state m (outside s) = (y, w') \<Longrightarrow> I (s\<lparr>outside := w'\<rparr>)"
    and quiet: "\<And>y. silent (f y)"
    and cont: "\<And>y w'. run_state m (outside s) = (y, w') \<Longrightarrow> \<exists>P. P (s\<lparr>outside := w'\<rparr>) \<and> hoare P (f y) (on_ok I)"
    and run: "run_state (State_Monad.bind (ask m) f) s = (x, s')"
  shows "I (s\<lparr>outside := outside s'\<rparr>) \<and> (\<forall>a. x = ok a \<longrightarrow> I s')"
proof -
  obtain y w' where y: "run_state m (outside s) = (y, w')" by force
  with run have f: "run_state (f y) (s\<lparr>outside := w'\<rparr>) = (x, s')" by (simp add: run_ask)
  have "outside (snd (run_state (f y) (s\<lparr>outside := w'\<rparr>))) = outside (s\<lparr>outside := w'\<rparr>)"
    using quiet [of y] unfolding silent_def by blast
  with f have "outside s' = w'" by simp
  moreover obtain P where P: "P (s\<lparr>outside := w'\<rparr>)" and h: "hoare P (f y) (on_ok I)" using cont [OF y] by blast
  have "on_ok I x s'" by (rule hoareD [OF h P f])
  ultimately show ?thesis using world [OF y] by auto
qed

text \<open>An undelivered operation the host does not know was never started, so it may be ended.\<close>

lemma unknown_endable:
  assumes inv: "appl_inv_x A B known started K J s" and r: "r \<in> set (operations s)" "r_state r = StateQueued" "r_generation r = 0"
    and unknown: "\<not> known (outside s) (r_id r)"
  shows "endable started (scanOperation r) s"
proof -
  have u: "unique_by r_id (operations s)" and hf: "host_follows (known (outside s)) (started (outside s)) (operations s)"
    using inv by (simp_all add: appl_inv_x_def appl_ok_def)
  have "r_id r \<notin> job_ids (started (outside s))" using hf r unknown unfolding host_follows_def by fastforce
  moreover have "r_submitted r \<noteq> None" using inv_row [OF inv r(1)] r(2) by (auto simp: row_state_ok_def)
  moreover have "r' = r" if "r' \<in> set (operations s)" "r_id r' = r_id r" for r'
    using that unique_by_eq [OF u] r(1) by blast
  moreover have "o_ID (scanOperation r) = r_id r" "\<not> Terminal (r_state r)" by (simp_all add: scanOperation_def r(2))
  ultimately show ?thesis unfolding endable_def by metis
qed

lemma answered_job:
  assumes "appl_inv_x A B known started K J s" and "usable job (o_ID op)" and "known (outside s) (o_ID op)"
  shows "\<exists>P. P s \<and> hoare P (do { fine \<leftarrow> applyJob op job; commit_if fine }) (on_ok (appl_inv_x A B known started K J))"
proof (intro exI conjI)
  have hf: "host_follows (known (outside s)) (started (outside s)) (operations s)"
    using assms(1) by (simp add: appl_inv_x_def appl_ok_def)
  then have "seen_entry (started (outside s)) job" using assms(2,3) by (auto simp: seen_entry_def usable_def host_follows_def)
  with assms(1) show "appl_inv_x A B known started K (insert job J) s" by (simp add: appl_inv_x_def appl_ok_def)
  have "hoare (appl_inv_x A B known started K (insert job J)) (do { fine \<leftarrow> applyJob op job; commit_if fine }) (\<lambda>_. appl_inv_x A B known started K (insert job J))"
    using assms(2) by (intro preserves_bind applyJob_inv commit_inv) (auto simp: usable_def)
  then show "hoare (appl_inv_x A B known started K (insert job J)) (do { fine \<leftarrow> applyJob op job; commit_if fine }) (on_ok (appl_inv_x A B known started K J))"
    by (rule hoare_weaken [OF hoare_on_ok]) (auto simp: on_ok_def appl_inv_x_def appl_ok_def split: sum.splits)
qed

lemma ended_job:
  assumes "appl_inv_x A B known started K J s" and "endable started op s"
    and "state = StateFailed \<or> state = StateCancelled \<or> state = StateRecoveryRequired"
  shows "\<exists>P. P s \<and> hoare P (do { fine \<leftarrow> finishWithoutHost op state code origin event; commit_if fine }) (on_ok (appl_inv_x A B known started K J))"
proof (intro exI conjI)
  show "appl_inv_x A B known started K J s \<and> endable started op s" using assms(1,2) ..
  show "hoare (\<lambda>s. appl_inv_x A B known started K J s \<and> endable started op s)
      (do { fine \<leftarrow> finishWithoutHost op state code origin event; commit_if fine }) (on_ok (appl_inv_x A B known started K J))"
    by (rule hoare_on_ok, rule hoare_bind [OF finish_hoare [OF assms(3)]]) (rule commit_inv)
qed

lemma deliver_inv: "preserves (appl_inv_x A B known started K J) (Submission.deliver hc i)"
proof -
  let ?I = "appl_inv_x A B known started K J"
  have "?I (s\<lparr>outside := outside s'\<rparr>) \<and> (\<forall>a. x = ok a \<longrightarrow> ?I s')"
    if inv: "?I s" and r: "r \<in> set (operations s)" "r_id r = i" "r_state r = StateQueued" "r_generation r = 0"
      and run: "run_state (do { fine \<leftarrow> submitToHost hc (scanOperation r); commit_if fine }) s = (x, s')" for s r x s'
  proof -
    let ?op = "scanOperation r"
    have id: "jr_OperationID (jobRequest ?op) = r_id r" "o_ID ?op = r_id r" by (simp_all add: jobRequest_def scanOperation_def)
    let ?f = "\<lambda>y. do { fine \<leftarrow> (case y of Inr job \<Rightarrow> applyJob ?op job
        | Inl (HostRejection code) \<Rightarrow> finishWithoutHost ?op StateFailed (if hostErrorCodeOK code then code else CodeSubmitRejected) OriginHost AuditStateChange
        | Inl _ \<Rightarrow> markUnreachable ?op); commit_if fine }"
    have body: "run_state (State_Monad.bind (ask (hc_Submit hc (jobRequest ?op))) ?f) s = (x, s')"
      using run by (simp add: submitToHost_def bind_assoc)
    show ?thesis
    proof (rule ask_then [OF _ _ _ body])
      fix y w'
      assume y: "run_state (hc_Submit hc (jobRequest ?op)) (outside s) = (y, w')"
      show w: "?I (s\<lparr>outside := w'\<rparr>)" by (rule submit_world [OF inv r(1,3,4) y])
      show "\<exists>P. P (s\<lparr>outside := w'\<rparr>) \<and> hoare P (?f y) (on_ok ?I)"
      proof (cases y)
        case (Inr job)
        with submit_answer [OF y [unfolded Inr]] answered_job [OF w] show ?thesis by (simp add: id)
      next
        case (Inl e)
        show ?thesis
        proof (cases e)
          case (HostRejection code)
          have "\<not> known w' (r_id r)" using submit_rejected [OF y [unfolded Inl HostRejection]] by (simp add: id)
          then have "endable started ?op (s\<lparr>outside := w'\<rparr>)"
            using unknown_endable [OF w, of r] r by simp
          from ended_job [OF w this] show ?thesis by (simp add: Inl HostRejection)
        qed (use w Inl in \<open>auto intro!: exI [of _ ?I] hoare_on_ok preserves_bind markUnreachable_inv commit_inv\<close>)
      qed
    next
      fix y
      show "silent (?f y)" by (cases y; (rename_tac e, case_tac e)?) (auto intro!: silent_rules)
    qed
  qed
  then show ?thesis
    unfolding deliver_def by (intro preserves_bind preserves_return undelivered_tx) blast
qed

lemma cancelUndelivered_inv:
  assumes "ValidOperationID i"
  shows "preserves (appl_inv_x A B known started K J) (cancelUndelivered hc i)"
  unfolding cancelUndelivered_def
proof (rule undelivered_tx)
  let ?I = "appl_inv_x A B known started K J"
  fix s r x s'
  assume inv: "?I s" and r: "r \<in> set (operations s)" "r_id r = i" "r_state r = StateQueued" "r_generation r = 0"
  let ?op = "scanOperation r"
  let ?f = "\<lambda>y. case y of Inr job \<Rightarrow> do { fine \<leftarrow> applyJob ?op job; commit_if fine }
      | Inl e \<Rightarrow> (case e of
           ErrHostJobNotFound \<Rightarrow> do { fine \<leftarrow> finishWithoutHost ?op StateCancelled CodeCancelledByUser OriginOAM AuditStateChange; commit_if fine }
         | HostRejection code \<Rightarrow> ret (err ErrNotCancellable)
         | _ \<Rightarrow> ret (err (AHost e)))"
  assume run: "run_state (State_Monad.bind (ask (hc_Cancel hc i)) ?f) s = (x, s')"
  have id: "o_ID ?op = r_id r" by (simp add: scanOperation_def)
  show "?I (s\<lparr>outside := outside s'\<rparr>) \<and> (\<forall>a. x = ok a \<longrightarrow> ?I s')"
  proof (rule ask_then [OF _ _ _ run])
    fix y w'
    assume y: "run_state (hc_Cancel hc i) (outside s) = (y, w')"
    show w: "?I (s\<lparr>outside := w'\<rparr>)" using quiet_world [OF inv] cancel_pure [OF y] by blast
    show "\<exists>P. P (s\<lparr>outside := w'\<rparr>) \<and> hoare P (?f y) (on_ok ?I)"
    proof (cases y)
      case (Inr job)
      with cancel_answer [OF y [unfolded Inr]] cancel_pure [OF y] answered_job [OF w] r(2) show ?thesis by (simp add: id)
    next
      case (Inl e)
      show ?thesis
      proof (cases "e = ErrHostJobNotFound")
        case True
        have "\<not> known w' (r_id r)" using cancel_missing [OF assms y [unfolded Inl True]] cancel_pure [OF y] r(2) by simp
        then have "endable started ?op (s\<lparr>outside := w'\<rparr>)" using unknown_endable [OF w, of r] r by simp
        from ended_job [OF w this] show ?thesis by (simp add: Inl True)
      next
        case False
        then show ?thesis using w Inl by (cases e) (auto intro!: exI [of _ ?I] hoare_err_ok)
      qed
    qed
  next
    fix y
    show "silent (?f y)" by (cases y; (rename_tac e, case_tac e)?) (auto intro!: silent_rules)
  qed
qed

text \<open>Every step keeps the invariant.\<close>

lemma inv_by_run: "preserves (appl_inv known started K J) m \<Longrightarrow> run_state m s = (x, s') \<Longrightarrow>
   config_inv known started (s, K, J) \<Longrightarrow> config_inv known started (s', K, J)"
  using hoareD by fastforce

lemma asked_job:
  assumes "appl_inv known started K J s" and "known w' = known (outside s)" and "started w' = started (outside s)"
    and "\<And>job. x = ok job \<Longrightarrow> usable job i \<and> known (outside s) i"
  shows "config_inv known started (s\<lparr>outside := w'\<rparr>, K, case x of Inl _ \<Rightarrow> J | Inr job \<Rightarrow> insert job J)"
proof (cases x)
  case (Inl e)
  with quiet_world [OF assms(1-3)] show ?thesis by simp
next
  case (Inr job)
  have "host_follows (known (outside s)) (started (outside s)) (operations s)" using assms(1) by (simp add: appl_inv_x_def appl_ok_def)
  with assms(4) [OF Inr] have "seen_entry (started (outside s)) job" by (auto simp: seen_entry_def usable_def host_follows_def)
  with quiet_world [OF assms(1-3)] assms(3) Inr show ?thesis by (simp add: appl_inv_x_def appl_ok_def)
qed

lemma loss_world:
  assumes inv: "appl_inv known started K J s" and w': "known w' = (known (outside s))(i := False)" "started w' = started (outside s)"
    and told: "\<And>r. r \<in> set (operations s) \<Longrightarrow> r_id r = i \<Longrightarrow> 0 < r_generation r"
  shows "appl_inv known started K J (s\<lparr>outside := w'\<rparr>)"
proof -
  have "host_follows (known (outside s)) (started (outside s)) (operations s)" using inv by (simp add: appl_inv_x_def appl_ok_def)
  then have "host_follows (known w') (started w') (operations s)"
    using told unfolding host_follows_def w' by (auto split: if_splits)
  with inv show ?thesis by (simp add: appl_inv_x_def appl_ok_def w'(2))
qed

lemma step_inv: "appl_step C hc moves loses c c' \<Longrightarrow> config_inv known started c \<Longrightarrow> config_inv known started c'"
proof (induction rule: appl_step.induct)
  case (elapse s s' K J)
  then show ?case using system_invariant.same_system [OF appl_inv_system] by fastforce
next
  case (read_row r s K J)
  then have "stale_copy (operations s) (scanOperation r)" using inv_row [of "{}" "{}" known started K J s r]
    by (auto simp: stale_copy_def row_state_ok_def intro!: exI [of _ r] bexI [of _ r])
  with read_row show ?case by (simp add: appl_inv_x_def appl_ok_def)
next
  case (expire s x1 s' K J)
  then show ?case by (rule inv_by_run [OF expire_inv])
next
  case (record_event e s x2 s' K J)
  then show ?case by (rule inv_by_run [OF writeAudit_inv])
next
  case (plan_ask preq s x3 s' K J)
  then obtain w' where w: "run_state (hc_Plan hc preq) (outside s) = (x3, w')" "s' = s\<lparr>outside := w'\<rparr>" by (auto simp: run_ask split: prod.splits)
  then show ?case using plan_pure [OF w(1)] quiet_world [of "{}" "{}" K J s w'] plan_ask by simp
next
  case (plan_insert now rnd i caller key rid req plan s x4 s' K J)
  from plan_insert(3,4) show ?case by (rule inv_by_run [OF insert_inv [OF plan_insert(1,2)]])
next
  case (authorize op K caller v s x5 s' J)
  from authorize(2,3) show ?case by (rule inv_by_run [OF authorize_inv])
next
  case (submit op K caller v s x6 s' J)
  from submit(3,4) show ?case by (rule inv_by_run [OF submit_inv [OF submit(1)]])
next
  case (deliver i s x7 s' K J)
  then show ?case by (rule inv_by_run [OF deliver_inv])
next
  case (journal i s x8 s' K J)
  then obtain w' where w: "run_state (hc_Job hc i) (outside s) = (x8, w')" "s' = s\<lparr>outside := w'\<rparr>" by (auto simp: run_ask split: prod.splits)
  show ?case unfolding w(2) by (rule asked_job) (use journal w job_pure [OF w(1)] job_answer in auto)
next
  case (cancel_ask i s x8 s' K J)
  then obtain w' where w: "run_state (hc_Cancel hc i) (outside s) = (x8, w')" "s' = s\<lparr>outside := w'\<rparr>" by (auto simp: run_ask split: prod.splits)
  show ?case unfolding w(2) by (rule asked_job) (use cancel_ask w cancel_pure [OF w(1)] cancel_answer in auto)
next
  case (follow job J i ec eo s x9 s' K)
  from follow(3,4) show ?case by (rule inv_by_run [OF job_stmt_inv [OF follow(1,2)]])
next
  case (lost op K s x10 s' J)
  from lost(5) stale_endable [of "{}" "{}" known started K J s op] lost(1-3)
  have "appl_inv known started K J s \<and> endable started op s" by simp
  from hoareD [OF finish_stmt_inv this lost(4)] show ?case by simp
next
  case (mark v p s x11 s' K J)
  then show ?case by (rule inv_by_run [OF mark_inv])
next
  case (cancel i s x12 s' K J)
  then show ?case by (rule inv_by_run [OF cancel_stmt_inv])
next
  case (cancel_undelivered i s x13 s' K J)
  from cancel_undelivered(1,3) show ?case by (rule inv_by_run [OF cancelUndelivered_inv [OF cancel_undelivered(2)]])
next
  case (host_progress s w' K J)
  then show ?case using moves_pure [OF host_progress(1)] quiet_world [of "{}" "{}" K J s w'] by simp
next
  case (host_loss i s w' K J)
  then show ?case using loss_world [of K J s w' i] loses_effect [OF host_loss(1)] by simp
qed

lemma steps_inv: "(appl_step C hc moves loses)\<^sup>*\<^sup>* c c' \<Longrightarrow> config_inv known started c \<Longrightarrow> config_inv known started c'"
  by (induction rule: rtranclp_induct) (auto intro: step_inv)

end

end
