(* ===== verification/Host_Auth.thy ===== *)
theory Host_Auth
  imports Host Db
begin

text \<open>
  Authentication of the requests between OAM and the host adapter
  (\<^verbatim>\<open>internal/appliance/hostauth.go\<close>): signing, the nonce cache and verification.  SHA-256 and
  HMAC are parameters.
\<close>

section \<open>Signing\<close>

definition MaxClockSkew :: int where "MaxClockSkew = 60 * second"
definition MinKeyBytes :: nat where "MinKeyBytes = 32"
definition signatureVersion :: string where "signatureVersion = ''v1''"

record auth_crypto =
  ac_sha256 :: "string \<Rightarrow> string"
  ac_hmac :: "string \<Rightarrow> string \<Rightarrow> string"

definition signingInput :: "auth_crypto \<Rightarrow> string \<Rightarrow> string \<Rightarrow> string \<Rightarrow> string \<Rightarrow> string \<Rightarrow> string" where
  "signingInput A http_method requestURI timestamp nonce body =
     join [CHR 0x0A] [http_method, requestURI, timestamp, nonce, hex_encode (ac_sha256 A body)]"

definition mac :: "auth_crypto \<Rightarrow> string \<Rightarrow> string \<Rightarrow> string" where
  "mac A key input = hex_encode (ac_hmac A key input)"

record sig_headers =
  HeaderSignature :: string
  HeaderTimestamp :: string
  HeaderNonce :: string

text \<open>\<open>rnd\<close>: the sixteen random bytes; \<open>None\<close> when the random source fails.\<close>

definition SignRequest :: "auth_crypto \<Rightarrow> string option \<Rightarrow> string \<Rightarrow> string \<Rightarrow> string \<Rightarrow> string \<Rightarrow> int \<Rightarrow> sig_headers option" where
  "SignRequest A rnd http_method requestURI key body now = (case rnd of
      None \<Rightarrow> None
    | Some nonce \<Rightarrow>
       (let timestamp = itoa (now div second); nonceHex = hex_encode nonce in
        Some \<lparr>HeaderSignature = signatureVersion @ ''='' @ mac A key (signingInput A http_method requestURI timestamp nonceHex body),
              HeaderTimestamp = timestamp, HeaderNonce = nonceHex\<rparr>))"

section \<open>Verifying\<close>

type_synonym NonceCache = "(string \<times> int) list"

definition NonceCache_use :: "NonceCache \<Rightarrow> string \<Rightarrow> int \<Rightarrow> bool \<times> NonceCache" where
  "NonceCache_use seen nonce now =
     (let kept = filter (\<lambda>(n, at). \<not> now - at > 2 * MaxClockSkew) seen in
      if nonce \<in> fst ` set kept then (False, kept) else (True, (nonce, now) # kept))"

datatype sig_err = ErrSignatureMissing | ErrSignatureInvalid | ErrSignatureExpired | ErrSignatureReplay

text \<open>\<^verbatim>\<open>strings.Cut\<close> at the first \<open>=\<close>.\<close>

fun cut_eq :: "string \<Rightarrow> (string \<times> string) option" where
  "cut_eq [] = None"
| "cut_eq (c # s) = (if c = CHR ''='' then Some ([], s) else map_option (apfst ((#) c)) (cut_eq s))"

definition VerifyRequest :: "auth_crypto \<Rightarrow> sig_headers \<Rightarrow> string \<Rightarrow> string \<Rightarrow> string \<Rightarrow> string \<Rightarrow> int \<Rightarrow> NonceCache
    \<Rightarrow> sig_err option \<times> NonceCache" where
  "VerifyRequest A hdr http_method requestURI key body now nonces =
     (let signature = HeaderSignature hdr; timestamp = HeaderTimestamp hdr; nonce = HeaderNonce hdr in
      if signature = '''' \<or> timestamp = '''' \<or> nonce = '''' then (Some ErrSignatureMissing, nonces)
      else (case cut_eq signature of
          None \<Rightarrow> (Some ErrSignatureInvalid, nonces)
        | Some (version, got) \<Rightarrow>
            if version \<noteq> signatureVersion then (Some ErrSignatureInvalid, nonces)
            else if got \<noteq> mac A key (signingInput A http_method requestURI timestamp nonce body) then (Some ErrSignatureInvalid, nonces)
            else (case atoi timestamp of
                None \<Rightarrow> (Some ErrSignatureInvalid, nonces)
              | Some seconds \<Rightarrow>
                  (let skew = now - seconds * second in
                   if skew > MaxClockSkew \<or> skew < - MaxClockSkew then (Some ErrSignatureExpired, nonces)
                   else (case NonceCache_use nonces nonce now of (fresh, nonces') \<Rightarrow>
                       if \<not> fresh then (Some ErrSignatureReplay, nonces') else (None, nonces'))))))"

section \<open>Properties\<close>

lemma VerifyRequest_accepts:
  "VerifyRequest A hdr m u key body now nonces = (None, nonces') \<longleftrightarrow>
     HeaderNonce hdr \<noteq> '''' \<and> HeaderTimestamp hdr \<noteq> '''' \<and>
     cut_eq (HeaderSignature hdr) = Some (signatureVersion, mac A key (signingInput A m u (HeaderTimestamp hdr) (HeaderNonce hdr) body)) \<and>
     (\<exists>seconds. atoi (HeaderTimestamp hdr) = Some seconds \<and> \<bar>now - seconds * second\<bar> \<le> MaxClockSkew) \<and>
     NonceCache_use nonces (HeaderNonce hdr) now = (True, nonces')"
proof -
  have cut: "s = [] \<Longrightarrow> cut_eq s = None" for s by simp
  show ?thesis
    unfolding VerifyRequest_def Let_def
    by (auto simp: abs_le_iff cut split: option.splits prod.splits if_splits)
qed

text \<open>A nonce that was accepted is in the cache until its timestamp can no longer be accepted.\<close>

definition remembers :: "string \<Rightarrow> int \<Rightarrow> int \<Rightarrow> NonceCache \<Rightarrow> bool" where
  "remembers nonce t now seen \<longleftrightarrow> t + 2 * MaxClockSkew < now \<or> (nonce, t) \<in> set seen"

lemma use_remembers:
  assumes "remembers nonce t now seen" and "now \<le> now'" and "NonceCache_use seen n now' = (fresh, seen')"
  shows "remembers nonce t now' seen' \<and> (n = nonce \<and> now' \<le> t + 2 * MaxClockSkew \<longrightarrow> \<not> fresh)"
  using assms by (auto simp: remembers_def NonceCache_use_def Let_def image_iff split: if_splits)

lemma verify_remembers:
  assumes "remembers nonce t now seen" and "now \<le> now'"
  shows "remembers nonce t now' (snd (VerifyRequest A hdr m u key body now' seen))"
proof -
  have "remembers nonce t now' seen" using assms by (auto simp: remembers_def)
  moreover have "remembers nonce t now' (snd (NonceCache_use seen (HeaderNonce hdr) now'))"
    using use_remembers [OF assms] by (metis prod.collapse)
  ultimately show ?thesis
    by (auto simp: VerifyRequest_def Let_def split: option.splits prod.splits if_splits)
qed

text \<open>A sequence of requests, each arriving with its time, processed by one verifier.\<close>

record signed_request =
  sr_headers :: sig_headers
  sr_method :: string
  sr_uri :: string
  sr_body :: string

fun verify_all :: "auth_crypto \<Rightarrow> string \<Rightarrow> (int \<times> signed_request) list \<Rightarrow> NonceCache \<Rightarrow> sig_err option list \<times> NonceCache" where
  "verify_all A key [] seen = ([], seen)"
| "verify_all A key ((t, q) # rest) seen =
     (case VerifyRequest A (sr_headers q) (sr_method q) (sr_uri q) key (sr_body q) t seen of (r, seen1) \<Rightarrow>
        (case verify_all A key rest seen1 of (rs, seen2) \<Rightarrow> (r # rs, seen2)))"

lemma length_verify_all: "verify_all A key qs seen = (rs, seen') \<Longrightarrow> length rs = length qs"
  by (induction qs arbitrary: seen rs seen') (auto split: prod.splits)

lemma replay_after:
  assumes "remembers (HeaderNonce (sr_headers q)) t now seen" and "sorted (now # map fst qs)"
    and "atoi (HeaderTimestamp (sr_headers q)) = Some secs" and "\<bar>t - secs * second\<bar> \<le> MaxClockSkew"
    and "verify_all A key qs seen = (rs, seen')" and "j < length qs" and "snd (qs ! j) = q"
  shows "rs ! j \<noteq> None"
  using assms
proof (induction qs arbitrary: seen now rs j)
  case (Cons tq qs)
  obtain t1 q1 where tq: "tq = (t1, q1)" by force
  obtain r seen1 where v: "VerifyRequest A (sr_headers q1) (sr_method q1) (sr_uri q1) key (sr_body q1) t1 seen = (r, seen1)" by force
  obtain rs1 where rs: "rs = r # rs1" "verify_all A key qs seen1 = (rs1, seen')"
    using Cons.prems(5) by (auto simp: tq v split: prod.splits)
  have now: "now \<le> t1" using Cons.prems(2) by (simp add: tq)
  show ?case
  proof (cases j)
    case 0
    with Cons.prems(7) have q: "q1 = q" by (simp add: tq)
    show ?thesis
    proof
      assume "rs ! j = None"
      with v q rs 0 have "VerifyRequest A (sr_headers q) (sr_method q) (sr_uri q) key (sr_body q) t1 seen = (None, seen1)" by simp
      then have use: "NonceCache_use seen (HeaderNonce (sr_headers q)) t1 = (True, seen1)" and "\<bar>t1 - secs * second\<bar> \<le> MaxClockSkew"
        using Cons.prems(3) by (auto simp: VerifyRequest_accepts)
      then have "t1 \<le> t + 2 * MaxClockSkew" using Cons.prems(4) by (simp add: abs_le_iff)
      with use_remembers [OF Cons.prems(1) now use] show False by simp
    qed
  next
    case (Suc k)
    have "rs1 ! k \<noteq> None"
      by (rule Cons.IH [where now = t1 and seen = seen1])
        (use Cons.prems rs Suc tq v verify_remembers [OF Cons.prems(1) now, where hdr = "sr_headers q1" and m = "sr_method q1" and u = "sr_uri q1" and body = "sr_body q1" and A = A and key = key] in auto)
    with rs Suc show ?thesis by simp
  qed
qed simp

text \<open>
  C16. A captured request cannot be replayed.  However the requests to one verifier are ordered,
  mixed and repeated, with any nonces and any waiting times, as long as its clock does not run
  backwards: of two identical requests the second is refused when the first was accepted.
\<close>

theorem replayed_request_refused:
  assumes "verify_all A key qs [] = (rs, seen)" and "sorted (map fst qs)"
    and "i < j" and "j < length qs" and "snd (qs ! i) = snd (qs ! j)" and "rs ! i = None"
  shows "rs ! j \<noteq> None"
proof -
  have "rs ! i = None \<Longrightarrow> sorted (map fst qs) \<Longrightarrow> i < j \<Longrightarrow> j < length qs \<Longrightarrow> snd (qs ! i) = snd (qs ! j) \<Longrightarrow>
      verify_all A key qs seen0 = (rs, seen) \<Longrightarrow> rs ! j \<noteq> None" for seen0
  proof (induction qs arbitrary: seen0 rs i j)
    case (Cons tq qs)
    obtain t q where tq: "tq = (t, q)" by force
    obtain r seen1 where v: "VerifyRequest A (sr_headers q) (sr_method q) (sr_uri q) key (sr_body q) t seen0 = (r, seen1)" by force
    obtain rs1 where rs: "rs = r # rs1" "verify_all A key qs seen1 = (rs1, seen)"
      using Cons.prems(6) by (auto simp: tq v split: prod.splits)
    obtain j' where j: "j = Suc j'" using Cons.prems(3) by (cases j) auto
    show ?case
    proof (cases i)
      case 0
      with v rs Cons.prems(1) have acc: "VerifyRequest A (sr_headers q) (sr_method q) (sr_uri q) key (sr_body q) t seen0 = (None, seen1)" by simp
      then have rem: "remembers (HeaderNonce (sr_headers q)) t t seen1"
        by (auto simp: VerifyRequest_accepts remembers_def NonceCache_use_def Let_def split: if_splits)
      from acc obtain secs where "atoi (HeaderTimestamp (sr_headers q)) = Some secs" "\<bar>t - secs * second\<bar> \<le> MaxClockSkew"
        by (auto simp: VerifyRequest_accepts)
      with replay_after [OF rem, of qs secs] Cons.prems rs j 0 tq show ?thesis by auto
    next
      case (Suc i')
      with Cons.IH [of rs1 i' j' seen1] Cons.prems rs j show ?thesis by auto
    qed
  qed simp
  with assms show ?thesis by blast
qed

lemma cut_eq_version: "cut_eq (signatureVersion @ ''='' @ x) = Some (signatureVersion, x)"
  by (simp add: signatureVersion_def)

lemma itoa_nonempty [simp]: "itoa i \<noteq> []"
  by (simp add: itoa_def)

lemma sign_verify:
  assumes "SignRequest A (Some nonce) m u key body now = Some hdr" and "nonce \<noteq> ''''"
    and "0 \<le> now" and "now < 2 ^ 63" and "now \<le> now'" and "now' \<le> now + 59 * second"
    and "hex_encode nonce \<notin> fst ` set seen"
  shows "\<exists>seen'. VerifyRequest A hdr m u key body now' seen = (None, seen') \<and> (hex_encode nonce, now') \<in> set seen'"
proof -
  have hdr: "HeaderNonce hdr = hex_encode nonce" "HeaderTimestamp hdr = itoa (now div second)"
    "HeaderSignature hdr = signatureVersion @ ''='' @ mac A key (signingInput A m u (itoa (now div second)) (hex_encode nonce) body)"
    using assms(1) by (auto simp: SignRequest_def Let_def)
  have "0 \<le> now div second" and "now div second \<le> now"
    using assms(3) by (simp_all add: second_def pos_imp_zdiv_nonneg_iff)
  with assms(4) have ts: "atoi (itoa (now div second)) = Some (now div second)" by (intro atoi_itoa) auto
  have "now div second * second = now - now mod second" by (metis minus_mod_eq_div_mult)
  moreover have "0 \<le> now mod second" "now mod second < second" by (simp_all add: second_def)
  ultimately have skew: "\<bar>now' - now div second * second\<bar> \<le> MaxClockSkew"
    using assms(5,6) by (simp add: MaxClockSkew_def)
  have ne: "hex_encode nonce \<noteq> []" using assms(2) length_hex_encode [of nonce] by fastforce
  have use: "\<exists>seen'. NonceCache_use seen (hex_encode nonce) now' = (True, seen') \<and> (hex_encode nonce, now') \<in> set seen'"
    using assms(7) by (auto simp: NonceCache_use_def Let_def image_iff)
  show ?thesis using use ts skew ne cut_eq_version by (auto simp: VerifyRequest_accepts hdr)
qed


definition demo_auth :: auth_crypto where
  "demo_auth = \<lparr>ac_sha256 = (\<lambda>d. take 32 (d @ replicate 32 (CHR 0x00))), ac_hmac = (\<lambda>k d. take 32 (k @ d))\<rparr>"


theorem replayed_request_refused_witness:
  "\<exists>q rs seen. verify_all demo_auth ''key'' [(1700000010000000000, q), (1700000030000000000, q)] [] = (rs, seen) \<and>
     rs ! 0 = None \<and> rs ! 1 \<noteq> None"
proof -
  obtain hdr where h: "SignRequest demo_auth (Some ''0123456789abcdef'') ''GET'' ''/v1/jobs/7'' ''key'' '''' 1700000000500000000 = Some hdr"
    by (simp add: SignRequest_def Let_def)
  from sign_verify [OF h, of 1700000010000000000 "[]"] obtain s1 where
    acc: "VerifyRequest demo_auth hdr ''GET'' ''/v1/jobs/7'' ''key'' '''' 1700000010000000000 [] = (None, s1)" by (auto simp: second_def)
  define q where "q = \<lparr>sr_headers = hdr, sr_method = ''GET'', sr_uri = ''/v1/jobs/7'', sr_body = ''''\<rparr>"
  obtain rs seen where v: "verify_all demo_auth ''key'' [(1700000010000000000, q), (1700000030000000000, q)] [] = (rs, seen)" by force
  with acc have r0: "rs ! 0 = None" by (auto simp: q_def split: prod.splits)
  from replayed_request_refused [OF v, of 0 1] r0 have "rs ! 1 \<noteq> None" by simp
  with v r0 show ?thesis by blast
qed

end
