(* ===== verification/Host_Fixture.thy ===== *)
theory Host_Fixture
  imports Host_Auth
begin

text \<open>
  The stand-in host adapter (\<^verbatim>\<open>internal/appliance/hostfixture\<close>): an in-memory journal whose jobs walk
  through a fixed script.  The theory ends with the proof that the socket client talking to it over
  a lossy line satisfies the laws of \<open>host_adapter\<close>.
\<close>

section \<open>Jobs\<close>

definition OutcomeSucceed :: string where "OutcomeSucceed = ''succeed''"
definition OutcomeFail :: string where "OutcomeFail = ''fail''"
definition OutcomeRecovery :: string where "OutcomeRecovery = ''recovery''"

record job =
  j_request :: HostJobRequest
  j_script :: "(string \<times> string) list"
  j_irreversibleAt :: nat
  j_position :: nat
  j_generation :: int
  j_cancelled :: bool
  j_steppedAt :: int

definition irreversible_point :: "string \<Rightarrow> string" where
  "irreversible_point t =
     (if t = OperationRestore then ''stop-services''
      else if t = OperationUpdate \<or> t = OperationRollback then ''switch-slot''
      else if t = OperationReset then ''wipe-state'' else '''')"

definition job_script :: "string \<Rightarrow> string \<Rightarrow> (string \<times> string) list \<times> nat" where
  "job_script t jobOutcome =
     (let point = irreversible_point t; steps = [(StateQueued, ''''), (StateRunning, ''prepare'')] in
      if jobOutcome = OutcomeFail then (steps @ [(StateFailed, '''')], length steps)
      else
       (let irreversibleAt = length steps;
            (steps, irreversibleAt) =
              (if point = '''' then (steps @ [(StateRunning, ''archive'')], length steps + 1)
               else (steps @ [(StateRunning, point)], irreversibleAt)) in
        if jobOutcome = OutcomeRecovery
        then (steps @ [(StateCompensating, ''undo''), (StateRecoveryRequired, '''')], irreversibleAt)
        else (steps @ [(StateVerifying, ''verify''), (StateSucceeded, '''')], irreversibleAt)))"

definition job_current :: "job \<Rightarrow> string \<times> string" where
  "job_current j = (if j_cancelled j then (StateCancelled, '''') else j_script j ! j_position j)"

definition job_done :: "job \<Rightarrow> bool" where
  "job_done j \<longleftrightarrow> j_cancelled j \<or> j_position j = length (j_script j) - 1"

definition job_entry :: "job \<Rightarrow> HostJob" where
  "job_entry j = (case job_current j of (state, phase) \<Rightarrow>
     \<lparr>hj_OperationID = jr_OperationID (j_request j), hj_State = state, hj_Phase = phase, hj_Generation = j_generation j,
      hj_Cancellable = (\<not> job_done j \<and> j_position j < j_irreversibleAt j),
      hj_ErrorCode = (if state = StateFailed then ''FIXTURE_FAILURE''
        else if state = StateRecoveryRequired then ''FIXTURE_COMPENSATION_FAILED'' else ''''),
      hj_Fixture = True\<rparr>)"

section \<open>The adapter\<close>

text \<open>\<open>h_started\<close> is a history variable: the requests counted by \<open>h_executions\<close>, in order.\<close>

record Host =
  h_key :: string
  h_nonces :: NonceCache
  h_versions :: "string list"
  h_available :: "string \<Rightarrow> bool"
  h_outcome :: string
  h_stepEvery :: int
  h_jobs :: "string \<Rightarrow> job option"
  h_submissions :: "string \<Rightarrow> int"
  h_executions :: "string \<Rightarrow> int"
  h_started :: "HostJobRequest list"

definition New :: "string \<Rightarrow> string list \<Rightarrow> Host" where
  "New key available =
     \<lparr>h_key = key, h_nonces = [], h_versions = [SchemaVersion], h_available = (\<lambda>a. a \<in> set available),
      h_outcome = OutcomeSucceed, h_stepEvery = 0, h_jobs = (\<lambda>_. None), h_submissions = (\<lambda>_. 0),
      h_executions = (\<lambda>_. 0), h_started = []\<rparr>"

definition SetContractVersions :: "string list \<Rightarrow> Host \<Rightarrow> Host" where
  "SetContractVersions versions h = h\<lparr>h_versions := versions\<rparr>"

definition SetOutcome :: "string \<Rightarrow> Host \<Rightarrow> Host" where
  "SetOutcome jobOutcome h = h\<lparr>h_outcome := jobOutcome\<rparr>"

definition SetStepEvery :: "int \<Rightarrow> Host \<Rightarrow> Host" where
  "SetStepEvery interval h = h\<lparr>h_stepEvery := interval\<rparr>"

definition Advance :: "string \<Rightarrow> int \<Rightarrow> Host \<Rightarrow> bool \<times> Host" where
  "Advance operationID now h = (case h_jobs h operationID of
      None \<Rightarrow> (False, h)
    | Some j \<Rightarrow>
        if job_done j then (False, h)
        else (True, h\<lparr>h_jobs := (h_jobs h)(operationID \<mapsto>
          j\<lparr>j_position := j_position j + 1, j_generation := j_generation j + 1, j_steppedAt := now\<rparr>)\<rparr>))"

definition Forget :: "string \<Rightarrow> Host \<Rightarrow> Host" where
  "Forget operationID h = h\<lparr>h_jobs := (h_jobs h)(operationID := None)\<rparr>"

definition Submissions :: "string \<Rightarrow> Host \<Rightarrow> int" where
  "Submissions operationID h = h_submissions h operationID"

definition Executions :: "string \<Rightarrow> Host \<Rightarrow> int" where
  "Executions operationID h = h_executions h operationID"

text \<open>The steps that have come due at \<open>now\<close>.\<close>

function catchUp_loop :: "int \<Rightarrow> int \<Rightarrow> job \<Rightarrow> job" where
  "catchUp_loop every now j =
     (if 0 < every \<and> \<not> job_done j \<and> now - j_steppedAt j \<ge> every
      then catchUp_loop every now (j\<lparr>j_position := j_position j + 1, j_generation := j_generation j + 1,
             j_steppedAt := j_steppedAt j + every\<rparr>)
      else j)"
  by pat_completeness auto
termination by (relation "measure (\<lambda>(every, now, j). nat (now - j_steppedAt j))") auto

declare catchUp_loop.simps [simp del]

definition catchUp :: "Host \<Rightarrow> int \<Rightarrow> job \<Rightarrow> job" where
  "catchUp h now j = (if h_stepEvery h \<le> 0 then j else catchUp_loop (h_stepEvery h) now j)"

section \<open>Requests\<close>

text \<open>Answers; only the decoding the client asks for is filled in.\<close>

definition plain_answer :: "int \<Rightarrow> http_answer" where
  "plain_answer status = \<lparr>an_status = status, an_rejection = None, an_capabilities = None, an_identity = None, an_plan = None, an_job = None\<rparr>"

definition reject :: "string \<Rightarrow> http_answer" where
  "reject code = (plain_answer 422)\<lparr>an_rejection := Some code\<rparr>"

definition notFound :: http_answer where
  "notFound = (plain_answer 404)\<lparr>an_rejection := Some ''JOB_NOT_FOUND''\<rparr>"

definition job_answer :: "job \<Rightarrow> http_answer" where
  "job_answer j = (plain_answer 200)\<lparr>an_job := Some (job_entry j)\<rparr>"

definition fixtureInstallationID :: string where "fixtureInstallationID = ''FIXTURE-INSTALLATION''"
definition fixtureReleaseDigest :: string where "fixtureReleaseDigest = ''sha256:'' @ replicate 64 (CHR ''0'')"
definition RefMissing :: string where "RefMissing = ''missing''"
definition ReasonHostUnsupported :: string where "ReasonHostUnsupported = ''HOST_UNSUPPORTED''"

definition fakeDigest :: "auth_crypto \<Rightarrow> string list \<Rightarrow> string" where
  "fakeDigest A parts = ''sha256:'' @ hex_encode (ac_sha256 A (join [CHR 0x00] parts))"

definition planHash :: "auth_crypto \<Rightarrow> string \<Rightarrow> string \<Rightarrow> string \<Rightarrow> string" where
  "planHash A t archiveRef targetReleaseRef = fakeDigest A [t, archiveRef, targetReleaseRef, fixtureInstallationID]"

definition host_capabilities :: "Host \<Rightarrow> int \<Rightarrow> http_answer" where
  "host_capabilities h now = (plain_answer 200)\<lparr>an_capabilities := Some
     \<lparr>hcap_ContractVersions = h_versions h, hcap_Fixture = True,
      hcap_Actions = map (\<lambda>a. \<lparr>has_Action = a, has_Available = h_available h a,
        has_Reason = (if h_available h a then '''' else ReasonHostUnsupported)\<rparr>) Actions,
      hcap_ObservedAt = now\<rparr>\<rparr>"

definition host_identity :: "int \<Rightarrow> http_answer" where
  "host_identity now = (plain_answer 200)\<lparr>an_identity := Some
     \<lparr>hid_InstallationID = fixtureInstallationID, hid_Model = ''fixture'', hid_ReleaseVersion = ''0.0.0-fixture'',
      hid_ReleaseDigest = fixtureReleaseDigest, hid_Fixture = True,
      hid_Components = [\<lparr>hcomp_Name = ''host-adapter'', hcomp_Version = ''0.0.0-fixture'', hcomp_Digest = '''',
        hcomp_Liveness = ''alive'', hcomp_Readiness = ''ready''\<rparr>],
      hid_ObservedAt = now\<rparr>\<rparr>"

definition base_plan :: Plan where
  "base_plan = \<lparr>IrreversibleAfterPhase = '''', CurrentReleaseDigest = fixtureReleaseDigest, TargetReleaseDigest = '''',
     ArchiveDigest = '''', Compatibility = ''compatible'', AffectedResources = []\<rparr>"

definition plan_for :: "auth_crypto \<Rightarrow> HostPlanRequest \<Rightarrow> Plan" where
  "plan_for A req =
     (let t = hp_Type req in
      if t = OperationBackup then base_plan\<lparr>AffectedResources := [''oam-database'', ''gateway-config'', ''host-config'']\<rparr>
      else if t = OperationRestore then base_plan\<lparr>ArchiveDigest := fakeDigest A [''archive'', hp_ArchiveRef req],
        IrreversibleAfterPhase := ''stop-services'', AffectedResources := [''oam-database'', ''gateway-config'', ''host-config'', ''sessions'']\<rparr>
      else if t = OperationUpdate then base_plan\<lparr>TargetReleaseDigest := fakeDigest A [''release'', hp_TargetReleaseRef req],
        IrreversibleAfterPhase := ''switch-slot'', AffectedResources := [''release-slot'', ''oam-database'']\<rparr>
      else if t = OperationRollback then base_plan\<lparr>TargetReleaseDigest := fakeDigest A [''release'', ''previous''],
        IrreversibleAfterPhase := ''switch-slot'', AffectedResources := [''release-slot'', ''oam-database'']\<rparr>
      else if t = OperationReset then base_plan\<lparr>IrreversibleAfterPhase := ''wipe-state'',
        AffectedResources := [''oam-database'', ''gateway-config'', ''host-config'', ''sessions'', ''backups'']\<rparr>
      else base_plan)"

definition host_plan :: "auth_crypto \<Rightarrow> Host \<Rightarrow> host_payload \<Rightarrow> http_answer" where
  "host_plan A h payload = (case payload of
      PlanPayload req \<Rightarrow>
        if \<not> OperationType_Valid (hp_Type req) \<or> \<not> h_available h (OperationType_Action (hp_Type req)) then reject ReasonHostUnsupported
        else if hp_ArchiveRef req = RefMissing then reject ''ARCHIVE_NOT_FOUND''
        else if hp_TargetReleaseRef req = RefMissing then reject ''RELEASE_NOT_FOUND''
        else (plain_answer 200)\<lparr>an_plan := Some
          \<lparr>hpl_PlanHash = planHash A (hp_Type req) (hp_ArchiveRef req) (hp_TargetReleaseRef req),
           hpl_InstallationID = fixtureInstallationID, hpl_Model = ''fixture'', hpl_Fixture = True, hpl_Plan = plan_for A req\<rparr>\<rparr>
    | _ \<Rightarrow> plain_answer 400)"

definition submitJob :: "auth_crypto \<Rightarrow> int \<Rightarrow> host_payload \<Rightarrow> Host \<Rightarrow> http_answer \<times> Host" where
  "submitJob A now payload h = (case payload of
      JobPayload req \<Rightarrow>
        if jr_OperationID req = '''' then (plain_answer 400, h)
        else
         (let i = jr_OperationID req; h = h\<lparr>h_submissions := (h_submissions h)(i := h_submissions h i + 1)\<rparr> in
          case h_jobs h i of
            Some existing \<Rightarrow>
              (let j = catchUp h now existing in (job_answer j, h\<lparr>h_jobs := (h_jobs h)(i \<mapsto> j)\<rparr>))
          | None \<Rightarrow>
              if \<not> OperationType_Valid (jr_Type req) \<or> \<not> h_available h (OperationType_Action (jr_Type req)) then (reject ReasonHostUnsupported, h)
              else if jr_InstallationID req \<noteq> fixtureInstallationID then (reject ''INSTALLATION_MISMATCH'', h)
              else if jr_PlanHash req \<noteq> planHash A (jr_Type req) (jr_ArchiveRef req) (jr_TargetReleaseRef req) then (reject ''PLAN_STALE'', h)
              else
               (case job_script (jr_Type req) (h_outcome h) of (steps, irreversibleAt) \<Rightarrow>
                 (let j = \<lparr>j_request = req, j_script = steps, j_irreversibleAt = irreversibleAt, j_position = 0,
                           j_generation = 1, j_cancelled = False, j_steppedAt = now\<rparr> in
                  (job_answer j, h\<lparr>h_jobs := (h_jobs h)(i \<mapsto> j),
                     h_executions := (h_executions h)(i := h_executions h i + 1), h_started := h_started h @ [req]\<rparr>))))
    | _ \<Rightarrow> (plain_answer 400, h))"

definition getJob :: "int \<Rightarrow> string \<Rightarrow> Host \<Rightarrow> http_answer \<times> Host" where
  "getJob now i h = (case h_jobs h i of
      None \<Rightarrow> (notFound, h)
    | Some j \<Rightarrow> (let j = catchUp h now j in (job_answer j, h\<lparr>h_jobs := (h_jobs h)(i \<mapsto> j)\<rparr>)))"

definition cancelJob :: "int \<Rightarrow> string \<Rightarrow> Host \<Rightarrow> http_answer \<times> Host" where
  "cancelJob now i h = (case h_jobs h i of
      None \<Rightarrow> (notFound, h)
    | Some j \<Rightarrow>
       (let j = catchUp h now j; h = h\<lparr>h_jobs := (h_jobs h)(i \<mapsto> j)\<rparr> in
        if j_cancelled j then (job_answer j, h)
        else if job_done j \<or> j_position j \<ge> j_irreversibleAt j then (reject CodeOperationNotCancellable, h)
        else (let j = j\<lparr>j_cancelled := True, j_generation := j_generation j + 1\<rparr> in
              (job_answer j, h\<lparr>h_jobs := (h_jobs h)(i \<mapsto> j)\<rparr>))))"

text \<open>\<^verbatim>\<open>Host.Handler\<close>: the routes.\<close>

definition host_route :: "auth_crypto \<Rightarrow> int \<Rightarrow> string \<Rightarrow> string \<Rightarrow> host_payload \<Rightarrow> Host \<Rightarrow> http_answer \<times> Host" where
  "host_route A now http_method path payload h =
     (let parts = split_on CHR ''/'' path in
      if parts = ['''', ''v1'', ''capabilities''] then (if http_method = ''GET'' then (host_capabilities h now, h) else (plain_answer 405, h))
      else if parts = ['''', ''v1'', ''identity''] then (if http_method = ''GET'' then (host_identity now, h) else (plain_answer 405, h))
      else if parts = ['''', ''v1'', ''plans''] then (if http_method = ''POST'' then (host_plan A h payload, h) else (plain_answer 405, h))
      else if parts = ['''', ''v1'', ''jobs''] then (if http_method = ''POST'' then submitJob A now payload h else (plain_answer 405, h))
      else if take 3 parts = ['''', ''v1'', ''jobs''] \<and> length parts = 4 \<and> parts ! 3 \<noteq> '''' then
        (if http_method = ''GET'' then getJob now (parts ! 3) h else (plain_answer 405, h))
      else if take 3 parts = ['''', ''v1'', ''jobs''] \<and> length parts = 5 \<and> parts ! 3 \<noteq> '''' \<and> parts ! 4 = ''cancel'' then
        (if http_method = ''POST'' then cancelJob now (parts ! 3) h else (plain_answer 405, h))
      else (plain_answer 404, h))"

definition authenticated :: "auth_crypto \<Rightarrow> (host_payload \<Rightarrow> string) \<Rightarrow> sig_headers \<Rightarrow> int \<Rightarrow> string \<Rightarrow> string \<Rightarrow> host_payload \<Rightarrow> Host
    \<Rightarrow> http_answer \<times> Host" where
  "authenticated A enc hdr now http_method path payload h =
     (case VerifyRequest A hdr http_method path (h_key h) (enc payload) now (h_nonces h) of (e, nonces) \<Rightarrow>
       (let h = h\<lparr>h_nonces := nonces\<rparr> in
        case e of Some _ \<Rightarrow> (plain_answer 401, h) | None \<Rightarrow> host_route A now http_method path payload h))"

section \<open>OAM talking to the fixture\<close>

text \<open>
  The line between the two: what happens to the coming exchanges, each with the random bytes the
  client draws for its nonce and the time the request travels.  When nothing is left, the adapter is
  not reachable.
\<close>

datatype fate = Arrives | Dropped | AnswerDropped

record fixture_world =
  fw_host :: Host
  fw_now :: int
  fw_net :: "(fate \<times> nat \<times> string option) list"

definition fixture_wire :: "auth_crypto \<Rightarrow> (host_payload \<Rightarrow> string) \<Rightarrow> fixture_world wire" where
  "fixture_wire A enc http_method path payload = State (\<lambda>w. case fw_net w of
      [] \<Rightarrow> (NoAnswer, w)
    | (fate, delay, rnd) # rest \<Rightarrow>
       (case SignRequest A rnd http_method path (h_key (fw_host w)) (enc payload) (fw_now w) of
          None \<Rightarrow> (NotSigned, w\<lparr>fw_net := rest\<rparr>)
        | Some hdr \<Rightarrow>
           (let now = fw_now w + int delay in
            if fate = Dropped then (NoAnswer, w\<lparr>fw_net := rest, fw_now := now\<rparr>)
            else (case authenticated A enc hdr now http_method path payload (fw_host w) of (a, h) \<Rightarrow>
              (if fate = AnswerDropped then NoAnswer else Answered a, w\<lparr>fw_net := rest, fw_now := now, fw_host := h\<rparr>)))))"

definition fixture_client :: "auth_crypto \<Rightarrow> (host_payload \<Rightarrow> string) \<Rightarrow> fixture_world HostClient" where
  "fixture_client A enc = socketHost (fixture_wire A enc)"

definition fx_known :: "fixture_world \<Rightarrow> string \<Rightarrow> bool" where
  "fx_known w i \<longleftrightarrow> h_jobs (fw_host w) i \<noteq> None"

definition fx_started :: "fixture_world \<Rightarrow> HostJobRequest list" where
  "fx_started w = h_started (fw_host w)"

text \<open>What the fixture does on its own, and the loss of a journal entry.\<close>

inductive fx_moves :: "fixture_world \<Rightarrow> fixture_world \<Rightarrow> bool" where
  advance: "fx_moves w (w\<lparr>fw_host := snd (Advance i (fw_now w) (fw_host w))\<rparr>)"
| outcome: "fx_moves w (w\<lparr>fw_host := SetOutcome x (fw_host w)\<rparr>)"
| pace: "fx_moves w (w\<lparr>fw_host := SetStepEvery d (fw_host w)\<rparr>)"
| versions: "fx_moves w (w\<lparr>fw_host := SetContractVersions vs (fw_host w)\<rparr>)"
| wait: "fx_moves w (w\<lparr>fw_now := fw_now w + int d\<rparr>)"
| line: "fx_moves w (w\<lparr>fw_net := evs\<rparr>)"

definition fx_loses :: "string \<Rightarrow> fixture_world \<Rightarrow> fixture_world \<Rightarrow> bool" where
  "fx_loses i w w' \<longleftrightarrow> w' = w\<lparr>fw_host := Forget i (fw_host w)\<rparr>"

text \<open>What a request changes in the journal and in the history.\<close>

definition journal_same :: "Host \<Rightarrow> Host \<Rightarrow> bool" where
  "journal_same h h' \<longleftrightarrow> h_started h' = h_started h \<and> (\<forall>i. (h_jobs h' i = None) = (h_jobs h i = None))"

lemma journal_same_refl [simp]: "journal_same h h"
  by (simp add: journal_same_def)

lemma getJob_same: "getJob now i h = (a, h') \<Longrightarrow> journal_same h h'"
  by (auto simp: getJob_def journal_same_def Let_def split: option.splits if_splits)

lemma cancelJob_same: "cancelJob now i h = (a, h') \<Longrightarrow> journal_same h h'"
  by (auto simp: cancelJob_def journal_same_def Let_def split: option.splits if_splits)

definition job_path :: "string \<Rightarrow> string" where "job_path i = ''/v1/jobs/'' @ i"

lemma split_job_path: "split_on CHR ''/'' (''/v1/jobs/'' @ s) = ['''', ''v1'', ''jobs''] @ split_on CHR ''/'' s"
  by simp

lemma split_single: "split_on c s = [x] \<Longrightarrow> x = s"
  using join_split_on [of c s] by simp

lemma split_two: "split_on c (s @ c # t) = [x, y] \<Longrightarrow> c \<notin> set t \<Longrightarrow> x = s \<and> y = t"
proof -
  assume "split_on c (s @ c # t) = [x, y]" and "c \<notin> set t"
  then have "split_on c s @ [t] = [x, y]" by (simp add: split_on_append split_on_no_sep_id)
  then have "split_on c s = [x]" and "y = t" by (cases "split_on c s"; auto)+
  then show ?thesis using split_single by blast
qed

lemma route_get: "host_route A now ''GET'' (''/v1/jobs/'' @ i) payload h = (a, h') \<Longrightarrow>
   (a, h') = getJob now i h \<and> i \<noteq> '''' \<or> h' = h \<and> an_job a = None \<and> (an_status a = 404 \<or> an_status a = 405)"
  unfolding host_route_def Let_def split_job_path
  by (cases "split_on CHR ''/'' i"; cases "tl (split_on CHR ''/'' i)")
    (auto simp: plain_answer_def split: if_splits dest: split_single)

lemma route_cancel: "host_route A now ''POST'' (''/v1/jobs/'' @ i @ ''/cancel'') payload h = (a, h') \<Longrightarrow>
   (a, h') = cancelJob now i h \<or> h' = h \<and> an_job a = None \<and> (an_status a = 404 \<or> an_status a = 405)"
proof -
  let ?p = "split_on CHR ''/'' (i @ CHR ''/'' # ''cancel'')"
  have two: "?p = [x, y] \<Longrightarrow> x = i \<and> y = ''cancel''" for x y by (rule split_two) auto
  have one: "?p \<noteq> [x]" for x
  proof
    assume p: "?p = [x]"
    have "split_on CHR ''/'' i @ split_on CHR ''/'' ''cancel'' = [x]" using p by (simp only: split_on_append)
    then have "length (split_on CHR ''/'' i) + length (split_on CHR ''/'' ''cancel'') = 1" by (metis length_append length_Cons list.size(3) One_nat_def)
    then show False by (cases "split_on CHR ''/'' i") auto
  qed
  assume "host_route A now ''POST'' (''/v1/jobs/'' @ i @ ''/cancel'') payload h = (a, h')"
  then have "(case ?p of [x, y] \<Rightarrow> if x \<noteq> '''' \<and> y = ''cancel'' then cancelJob now x h = (a, h') else (plain_answer 404, h) = (a, h')
      | _ \<Rightarrow> (plain_answer 404, h) = (a, h') \<or> (plain_answer 405, h) = (a, h'))"
    unfolding host_route_def Let_def split_job_path
    by (auto split: list.splits if_splits simp: one)
  then show ?thesis using two by (auto simp: plain_answer_def split: list.splits if_splits)
qed

text \<open>The client's view of one exchange: nothing reached the adapter, or the adapter ran a route.\<close>

lemma fixture_exchange:
  assumes "run_state (fixture_wire A enc m path payload) w = (x, w')"
  obtains (unserved) "x = NotSigned \<or> x = NoAnswer \<or> (\<exists>a. x = Answered a \<and> an_status a = 401)" and "journal_same (fw_host w) (fw_host w')"
  | (served) now h0 a where "journal_same (fw_host w) h0" and "h_jobs h0 = h_jobs (fw_host w)"
      and "host_route A now m path payload h0 = (a, fw_host w')" and "x = NoAnswer \<or> x = Answered a"
proof (cases "fw_net w")
  case Nil
  with assms have "x = NoAnswer" and "w' = w" by (simp_all add: fixture_wire_def)
  with unserved show thesis by simp
next
  case (Cons ev rest)
  obtain fate delay rnd where ev: "ev = (fate, delay, rnd)" by (cases ev)
  show thesis
  proof (cases "SignRequest A rnd m path (h_key (fw_host w)) (enc payload) (fw_now w)")
    case None
    with Cons ev assms unserved show thesis by (auto simp: fixture_wire_def)
  next
    case (Some hdr)
    define now where "now = fw_now w + int delay"
    show thesis
    proof (cases "fate = Dropped")
      case True
      with Cons ev Some assms unserved show thesis by (auto simp: fixture_wire_def Let_def)
    next
      case False
      obtain a h where ah: "authenticated A enc hdr now m path payload (fw_host w) = (a, h)" by force
      have x: "x = NoAnswer \<or> x = Answered a" and w': "fw_host w' = h"
        using assms False Cons ev Some ah by (auto simp: fixture_wire_def Let_def now_def split: if_splits)
      obtain e nonces where v: "VerifyRequest A hdr m path (h_key (fw_host w)) (enc payload) now (h_nonces (fw_host w)) = (e, nonces)" by force
      show thesis
      proof (cases e)
        case None
        with ah v have "host_route A now m path payload ((fw_host w)\<lparr>h_nonces := nonces\<rparr>) = (a, fw_host w')"
          by (simp add: authenticated_def Let_def w')
        with x show thesis by (intro served) (auto simp: journal_same_def)
      next
        case (Some e')
        with ah v have "a = plain_answer 401" and "h = (fw_host w)\<lparr>h_nonces := nonces\<rparr>"
          by (simp_all add: authenticated_def Let_def)
        with x w' unserved show thesis by (auto simp: plain_answer_def journal_same_def)
      qed
    qed
  qed
qed

lemma journal_same_trans: "journal_same h h' \<Longrightarrow> journal_same h' h'' \<Longrightarrow> journal_same h h''"
  by (simp add: journal_same_def)

lemma journal_same_world:
  "journal_same (fw_host w) (fw_host w') \<Longrightarrow> fx_known w' = fx_known w \<and> fx_started w' = fx_started w"
  by (auto simp: journal_same_def fx_known_def fx_started_def)

lemma read_answer_ok:
  "read_answer path decode x = ok y \<longleftrightarrow> (\<exists>a. x = Answered a \<and> an_status a = 200 \<and> decode a = Some y)"
  by (auto simp: read_answer_def split: exchange.splits option.splits if_splits list.splits)

lemma read_answer_missing:
  "read_answer path decode x = err ErrHostJobNotFound \<Longrightarrow> \<exists>a. x = Answered a \<and> an_status a = 404"
  by (auto simp: read_answer_def split: exchange.splits option.splits if_splits list.splits)

lemma read_answer_rejected:
  "read_answer path decode x = err (HostRejection code) \<Longrightarrow> \<exists>a. x = Answered a \<and> an_status a = 422"
  by (auto simp: read_answer_def split: exchange.splits option.splits if_splits list.splits)

lemma run_socket_do [run_simps]:
  "run_state (socket_do wire m path payload decode) w =
     (case run_state (wire m path payload) w of (x, w') \<Rightarrow> (read_answer path decode x, w'))"
  by (simp add: socket_do_def split: prod.splits)

text \<open>Submitting.\<close>

lemma submitJob_cases:
  assumes "submitJob A now (JobPayload req) h = (a, h')"
  obtains (same) "journal_same h h'" and "an_status a = 200 \<Longrightarrow> h_jobs h (jr_OperationID req) \<noteq> None"
      and "an_status a = 422 \<Longrightarrow> h_jobs h (jr_OperationID req) = None"
  | (new) j where "h_jobs h (jr_OperationID req) = None" and "h_jobs h' = (h_jobs h)(jr_OperationID req \<mapsto> j)"
      and "h_started h' = h_started h @ [req]" and "an_status a = 200"
proof (cases "jr_OperationID req = ''''")
  case True
  with assms same show thesis by (auto simp: submitJob_def plain_answer_def)
next
  case False
  show thesis
  proof (cases "h_jobs h (jr_OperationID req)")
    case (Some j)
    with False assms have "journal_same h h'" "an_status a = 200"
      by (auto simp: submitJob_def Let_def journal_same_def job_answer_def plain_answer_def split: if_splits)
    with Some same show thesis by auto
  next
    case None
    show thesis
    proof (cases "OperationType_Valid (jr_Type req) \<and> h_available h (OperationType_Action (jr_Type req)) \<and>
        jr_InstallationID req = fixtureInstallationID \<and> jr_PlanHash req = planHash A (jr_Type req) (jr_ArchiveRef req) (jr_TargetReleaseRef req)")
      case True
      with False None assms new show thesis
        by (auto simp: submitJob_def Let_def job_answer_def plain_answer_def split: prod.splits)
    next
      case no: False
      with False None assms have "journal_same h h'" "an_status a = 422"
        by (auto simp: submitJob_def Let_def journal_same_def reject_def plain_answer_def split: if_splits)
      with None same show thesis by auto
    qed
  qed
qed

lemma route_submit: "host_route A now ''POST'' ''/v1/jobs'' payload h = submitJob A now payload h"
  by (simp add: host_route_def Let_def)

lemma other_routes_same:
  "host_route A now ''POST'' ''/v1/plans'' payload h = (a, h') \<Longrightarrow> h' = h"
  "host_route A now ''GET'' ''/v1/capabilities'' payload h = (a, h') \<Longrightarrow> h' = h"
  "host_route A now ''GET'' ''/v1/identity'' payload h = (a, h') \<Longrightarrow> h' = h"
  by (simp_all add: host_route_def Let_def)

lemma ValidOperationID_no_slash: "ValidOperationID i \<Longrightarrow> CHR ''/'' \<notin> set i \<and> i \<noteq> ''''"
proof -
  assume v: "ValidOperationID i"
  then have "list_all (\<lambda>c. c \<noteq> 47) (runes i)"
    by (auto simp: ValidOperationID_def runes_def list_all_iff in_range_def split: if_splits)
  then have "byte CHR ''/'' \<notin> set (runes i)" by (auto simp: list_all_iff byte_def)
  then have "CHR ''/'' \<notin> set i" by (subst ascii_byte_in_runes) (simp_all add: byte_def)
  with v show ?thesis by (auto simp: ValidOperationID_def)
qed

section \<open>The laws of the interface hold\<close>

text \<open>A read or a cancel through the client, with the decoded and checked answer.\<close>

definition ask_job :: "fixture_world wire \<Rightarrow> string \<Rightarrow> string \<Rightarrow> host_payload \<Rightarrow> string \<Rightarrow> (fixture_world, host_err + HostJob) state" where
  "ask_job wire m path payload i = check id (socket_do wire m path payload an_job) (\<lambda>out. ret (checkJob out i))"

lemma run_ask_job:
  "run_state (ask_job wire m path payload i) w =
     (case run_state (wire m path payload) w of (x, w') \<Rightarrow>
        (case read_answer path an_job x of Inl e \<Rightarrow> err e | Inr j \<Rightarrow> checkJob j i, w'))"
  by (auto simp: ask_job_def run_check run_socket_do split: prod.splits sum.splits)

lemma fixture_client_ops:
  "hc_Submit (fixture_client A enc) req = ask_job (fixture_wire A enc) ''POST'' ''/v1/jobs'' (JobPayload req) (jr_OperationID req)"
  "hc_Job (fixture_client A enc) i = ask_job (fixture_wire A enc) ''GET'' (''/v1/jobs/'' @ i) NoPayload i"
  "hc_Cancel (fixture_client A enc) i = ask_job (fixture_wire A enc) ''POST'' (''/v1/jobs/'' @ i @ ''/cancel'') EmptyObject i"
  by (simp_all add: fixture_client_def socketHost_def ask_job_def)

text \<open>
  A route that only looks a job up leaves the journal as it is, answers 200 only for a job it has,
  and 404 for a valid id only when it has none.
\<close>

definition lookup_route :: "auth_crypto \<Rightarrow> string \<Rightarrow> string \<Rightarrow> host_payload \<Rightarrow> string \<Rightarrow> bool" where
  "lookup_route A m path payload i \<longleftrightarrow> (\<forall>now h a h'. host_route A now m path payload h = (a, h') \<longrightarrow>
     journal_same h h' \<and> (an_status a = 200 \<longrightarrow> h_jobs h i \<noteq> None) \<and>
     (ValidOperationID i \<and> an_status a = 404 \<longrightarrow> h_jobs h i = None))"

lemma lookup_get: "lookup_route A ''GET'' (''/v1/jobs/'' @ i) payload i"
  unfolding lookup_route_def
proof (intro allI impI)
  fix now h a h'
  assume r: "host_route A now ''GET'' (''/v1/jobs/'' @ i) payload h = (a, h')"
  have v: "(a, h') = getJob now i h" if "ValidOperationID i"
    using r ValidOperationID_no_slash [OF that] by (simp add: host_route_def Let_def split_on_no_sep_id)
  from route_get [OF r] show "journal_same h h' \<and> (an_status a = 200 \<longrightarrow> h_jobs h i \<noteq> None) \<and>
      (ValidOperationID i \<and> an_status a = 404 \<longrightarrow> h_jobs h i = None)"
    using v getJob_same [of now i h a h']
    by (auto simp: getJob_def notFound_def job_answer_def plain_answer_def Let_def split: option.splits)
qed

lemma lookup_cancel: "lookup_route A ''POST'' (''/v1/jobs/'' @ i @ ''/cancel'') payload i"
  unfolding lookup_route_def
proof (intro allI impI)
  fix now h a h'
  assume r: "host_route A now ''POST'' (''/v1/jobs/'' @ i @ ''/cancel'') payload h = (a, h')"
  have v: "(a, h') = cancelJob now i h" if "ValidOperationID i"
  proof -
    have "split_on CHR ''/'' (i @ CHR ''/'' # ''cancel'') = [i, ''cancel'']"
      using ValidOperationID_no_slash [OF that] by (simp add: split_on_append_sep split_on_no_sep_id)
    with r ValidOperationID_no_slash [OF that] show ?thesis by (simp add: host_route_def Let_def)
  qed
  from route_cancel [OF r] show "journal_same h h' \<and> (an_status a = 200 \<longrightarrow> h_jobs h i \<noteq> None) \<and>
      (ValidOperationID i \<and> an_status a = 404 \<longrightarrow> h_jobs h i = None)"
    using v cancelJob_same [of now i h a h']
    by (auto simp: cancelJob_def notFound_def job_answer_def reject_def plain_answer_def Let_def split: option.splits if_splits)
qed

lemma lookup_laws:
  assumes "lookup_route A m path payload i" and "run_state (ask_job (fixture_wire A enc) m path payload i) w = (r, w')"
  shows "fx_known w' = fx_known w \<and> fx_started w' = fx_started w" and "r = ok job \<Longrightarrow> usable job i \<and> fx_known w i"
    and "r = err ErrHostJobNotFound \<Longrightarrow> ValidOperationID i \<Longrightarrow> \<not> fx_known w i"
proof -
  obtain x where x: "run_state (fixture_wire A enc m path payload) w = (x, w')"
    and r: "r = (case read_answer path an_job x of Inl e \<Rightarrow> err e | Inr j \<Rightarrow> checkJob j i)"
    using assms(2) by (auto simp: run_ask_job split: prod.splits)
  have miss: "\<exists>a. x = Answered a \<and> an_status a = 404" if "r = err ErrHostJobNotFound"
    using that r read_answer_missing by (auto simp: checkJob_def split: sum.splits if_splits)
  have hit: "\<exists>a. x = Answered a \<and> an_status a = 200" "usable job i" if "r = ok job"
    using that r by (auto simp: read_answer_ok dest: checkJob_usable split: sum.splits)
  from x have "(fx_known w' = fx_known w \<and> fx_started w' = fx_started w) \<and> (r = ok job \<longrightarrow> usable job i \<and> fx_known w i) \<and>
      (r = err ErrHostJobNotFound \<longrightarrow> ValidOperationID i \<longrightarrow> \<not> fx_known w i)"
  proof (cases rule: fixture_exchange)
    case unserved
    with journal_same_world [OF unserved(2)] hit miss show ?thesis by auto
  next
    case (served now h0 a)
    from assms(1) served(3) have look: "journal_same h0 (fw_host w')" "an_status a = 200 \<longrightarrow> h_jobs h0 i \<noteq> None"
      "ValidOperationID i \<and> an_status a = 404 \<longrightarrow> h_jobs h0 i = None" unfolding lookup_route_def by blast+
    with journal_same_world [OF journal_same_trans [OF served(1) look(1)]] hit miss served(2,4)
    show ?thesis by (auto simp: fx_known_def)
  qed
  then show "fx_known w' = fx_known w \<and> fx_started w' = fx_started w" and "r = ok job \<Longrightarrow> usable job i \<and> fx_known w i"
    and "r = err ErrHostJobNotFound \<Longrightarrow> ValidOperationID i \<Longrightarrow> \<not> fx_known w i" by auto
qed

lemma submit_laws:
  assumes "run_state (hc_Submit (fixture_client A enc) req) w = (r, w')"
  shows "fx_known w' = fx_known w \<and> fx_started w' = fx_started w \<or>
      \<not> fx_known w (jr_OperationID req) \<and> fx_known w' = (fx_known w)(jr_OperationID req := True) \<and> fx_started w' = fx_started w @ [req]"
    and "r = ok job \<Longrightarrow> usable job (jr_OperationID req) \<and> fx_known w' (jr_OperationID req)"
    and "r = err (HostRejection code) \<Longrightarrow> \<not> fx_known w' (jr_OperationID req)"
proof -
  let ?i = "jr_OperationID req"
  obtain x where x: "run_state (fixture_wire A enc ''POST'' ''/v1/jobs'' (JobPayload req)) w = (x, w')"
    and r: "r = (case read_answer ''/v1/jobs'' an_job x of Inl e \<Rightarrow> err e | Inr j \<Rightarrow> checkJob j ?i)"
    using assms by (auto simp: fixture_client_ops run_ask_job split: prod.splits)
  have rej: "\<exists>a. x = Answered a \<and> an_status a = 422" if "r = err (HostRejection code)"
    using that r read_answer_rejected by (auto simp: checkJob_def split: sum.splits if_splits)
  have hit: "\<exists>a. x = Answered a \<and> an_status a = 200" "usable job ?i" if "r = ok job"
    using that r by (auto simp: read_answer_ok dest: checkJob_usable split: sum.splits)
  from x have "(fx_known w' = fx_known w \<and> fx_started w' = fx_started w \<or>
      \<not> fx_known w ?i \<and> fx_known w' = (fx_known w)(?i := True) \<and> fx_started w' = fx_started w @ [req]) \<and>
      (r = ok job \<longrightarrow> usable job ?i \<and> fx_known w' ?i) \<and> (r = err (HostRejection code) \<longrightarrow> \<not> fx_known w' ?i)"
  proof (cases rule: fixture_exchange)
    case unserved
    with journal_same_world [OF unserved(2)] hit rej show ?thesis by auto
  next
    case (served now h0 a)
    from served(3) have "submitJob A now (JobPayload req) h0 = (a, fw_host w')" by (simp add: route_submit)
    then show ?thesis
    proof (cases rule: submitJob_cases)
      case same
      with journal_same_world [OF journal_same_trans [OF served(1) same(1)]] hit rej served(2,4)
      show ?thesis by (auto simp: fx_known_def)
    next
      case (new j)
      then have "\<not> fx_known w ?i" and "fx_known w' = (fx_known w)(?i := True)" and "fx_started w' = fx_started w @ [req]"
        using served(1,2) by (auto simp: fx_known_def fx_started_def journal_same_def fun_eq_iff)
      with new(4) hit rej served(4) show ?thesis by auto
    qed
  qed
  then show "fx_known w' = fx_known w \<and> fx_started w' = fx_started w \<or>
      \<not> fx_known w ?i \<and> fx_known w' = (fx_known w)(?i := True) \<and> fx_started w' = fx_started w @ [req]"
    and "r = ok job \<Longrightarrow> usable job ?i \<and> fx_known w' ?i" and "r = err (HostRejection code) \<Longrightarrow> \<not> fx_known w' ?i" by auto
qed

lemma quiet_route:
  assumes "\<And>now h a h'. host_route A now m path payload h = (a, h') \<Longrightarrow> h' = h"
    and "run_state (fixture_wire A enc m path payload) w = (x, w')"
  shows "fx_known w' = fx_known w \<and> fx_started w' = fx_started w"
  using assms(2)
proof (cases rule: fixture_exchange)
  case unserved
  then show ?thesis by (simp add: journal_same_world)
next
  case (served now h0 a)
  with assms(1) have "fw_host w' = h0" by blast
  with served(1) show ?thesis by (simp add: journal_same_world)
qed

lemma fx_moves_pure: "fx_moves w w' \<Longrightarrow> fx_known w' = fx_known w \<and> fx_started w' = fx_started w"
  by (induction rule: fx_moves.induct)
    (auto simp: fx_known_def fx_started_def Advance_def SetOutcome_def SetStepEvery_def SetContractVersions_def fun_eq_iff split: option.splits)

lemmas job_laws = lookup_laws [OF lookup_get [where payload = NoPayload], folded fixture_client_ops(2)]
lemmas cancel_laws = lookup_laws [OF lookup_cancel [where payload = EmptyObject], folded fixture_client_ops(3)]

interpretation fixture: host_adapter "fixture_client A enc" fx_known fx_started fx_moves fx_loses
  for A enc
proof (unfold_locales, goal_cases)
  case (1 req w x w')
  then obtain y where "run_state (fixture_wire A enc ''POST'' ''/v1/plans'' (PlanPayload req)) w = (y, w')"
    by (auto simp: fixture_client_def socketHost_def run_check run_socket_do split: prod.splits sum.splits if_splits)
  then show ?case by (rule quiet_route [rotated]) (rule other_routes_same)
next
  case (2 w x w')
  then obtain y where "run_state (fixture_wire A enc ''GET'' ''/v1/capabilities'' NoPayload) w = (y, w')"
    by (auto simp: fixture_client_def socketHost_def run_socket_do split: prod.splits)
  then show ?case by (rule quiet_route [rotated]) (rule other_routes_same)
next
  case (3 w x w')
  then obtain y where "run_state (fixture_wire A enc ''GET'' ''/v1/identity'' NoPayload) w = (y, w')"
    by (auto simp: fixture_client_def socketHost_def run_socket_do split: prod.splits)
  then show ?case by (rule quiet_route [rotated]) (rule other_routes_same)
next
  case 4
  then show ?case by (rule job_laws(1))
next
  case 5
  then show ?case by (rule job_laws(2)) simp
next
  case 6
  then show ?case using job_laws(3) by blast
next
  case 7
  then show ?case by (rule cancel_laws(1))
next
  case 8
  then show ?case by (rule cancel_laws(2)) simp
next
  case 9
  then show ?case using cancel_laws(3) by blast
next
  case 10
  then show ?case by (rule submit_laws(1))
next
  case 11
  then show ?case by (rule submit_laws(2)) simp
next
  case 12
  then show ?case by (rule submit_laws(3)) simp
next
  case 13
  then show ?case by (rule fx_moves_pure)
qed (auto simp: fx_loses_def fx_known_def fx_started_def Forget_def fun_eq_iff)

section \<open>The fixture's journal\<close>

text \<open>
  A job stands on a step of its script; a cancelled one was stopped before its irreversible step;
  every entry is one the client accepts.
\<close>

definition job_ok :: "string \<Rightarrow> job \<Rightarrow> bool" where
  "job_ok i j \<longleftrightarrow> jr_OperationID (j_request j) = i \<and> (\<exists>t x. (j_script j, j_irreversibleAt j) = job_script t x) \<and>
     j_position j < length (j_script j) \<and> 1 \<le> j_generation j \<and> (j_cancelled j \<longrightarrow> j_position j < j_irreversibleAt j)"

definition host_ok :: "Host \<Rightarrow> bool" where
  "host_ok h \<longleftrightarrow> (\<forall>i j. h_jobs h i = Some j \<longrightarrow> job_ok i j) \<and>
     (\<forall>i. h_executions h i = int (count_where (\<lambda>r. jr_OperationID r = i) (h_started h)))"

lemma job_script_states: "(s, n) = job_script t x \<Longrightarrow> p < length s \<Longrightarrow> hostOwned (fst (s ! p))"
  by (auto simp: job_script_def Let_def hostOwned_def nth_Cons' split: if_splits)

lemma job_entry_usable: "job_ok i j \<Longrightarrow> usable (job_entry j) i"
  using job_script_states [of "j_script j" "j_irreversibleAt j" _ _ "j_position j"]
  by (auto simp: job_ok_def usable_def job_entry_def job_current_def split: prod.splits) (auto simp: hostOwned_def)

lemma job_step_ok:
  "job_ok i j \<Longrightarrow> \<not> job_done j \<Longrightarrow> job_ok i (j\<lparr>j_position := Suc (j_position j), j_generation := j_generation j + 1, j_steppedAt := t\<rparr>)"
  by (auto simp: job_ok_def job_done_def)

lemma catchUp_loop_ok: "job_ok i j \<Longrightarrow> job_ok i (catchUp_loop every now j)"
  by (induction every now j rule: catchUp_loop.induct) (subst catchUp_loop.simps, simp add: job_step_ok)

lemma catchUp_ok: "job_ok i j \<Longrightarrow> job_ok i (catchUp h now j)"
  by (simp add: catchUp_def catchUp_loop_ok)

lemma job_script_pos: "job_script t x = (s, n) \<Longrightarrow> 0 < length s \<and> 0 < n"
  by (auto simp: job_script_def Let_def split: if_splits)

lemma host_ok_route:
  assumes "host_ok h" and "host_route A now m path payload h = (a, h')"
  shows "host_ok h'"
proof -
  have upd: "host_ok (h\<lparr>h_jobs := (h_jobs h)(i \<mapsto> j)\<rparr>)" if "job_ok i j" for i j
    using assms(1) that by (auto simp: host_ok_def)
  have get: "host_ok g" if "getJob now i h = (b, g)" for i b g
    using that assms(1) by (auto simp: getJob_def Let_def host_ok_def catchUp_ok split: option.splits if_splits)
  have cancel: "host_ok g" if "cancelJob now i h = (b, g)" for i b g
  proof (cases "h_jobs h i")
    case (Some j)
    then have j: "job_ok i (catchUp h now j)" using assms(1) by (auto simp: host_ok_def catchUp_ok)
    then have "job_ok i ((catchUp h now j)\<lparr>j_cancelled := True, j_generation := j_generation (catchUp h now j) + 1\<rparr>)"
      if "j_position (catchUp h now j) < j_irreversibleAt (catchUp h now j)" using that by (auto simp: job_ok_def)
    with Some that upd [OF j] upd show ?thesis by (auto simp: cancelJob_def Let_def split: if_splits)
  qed (use that assms(1) in \<open>auto simp: cancelJob_def\<close>)
  have submit: "host_ok g" if "submitJob A now payload h = (b, g)" for b g
  proof (cases payload)
    case (JobPayload req)
    let ?h = "h\<lparr>h_submissions := (h_submissions h)(jr_OperationID req := h_submissions h (jr_OperationID req) + 1)\<rparr>"
    obtain s n where sn: "job_script (jr_Type req) (h_outcome h) = (s, n)" by force
    have new: "job_ok (jr_OperationID req) \<lparr>j_request = req, j_script = s, j_irreversibleAt = n, j_position = 0,
        j_generation = 1, j_cancelled = False, j_steppedAt = now\<rparr>"
      using job_script_pos [OF sn] sn [symmetric] by (auto simp: job_ok_def)
    from that show ?thesis
      using assms(1) new catchUp_ok [of _ _ ?h now] unfolding JobPayload
      by (auto simp: submitJob_def Let_def host_ok_def sn split: if_splits option.splits)
  qed (use that assms(1) in \<open>auto simp: submitJob_def\<close>)
  show ?thesis
    using assms(2,1) get cancel submit by (auto simp: host_route_def Let_def split: if_splits)
qed

lemma host_ok_others:
  "host_ok h \<Longrightarrow> host_ok (snd (Advance i now h))" "host_ok h \<Longrightarrow> host_ok (Forget i h)"
  "host_ok h \<Longrightarrow> host_ok (SetOutcome x h)" "host_ok h \<Longrightarrow> host_ok (SetStepEvery d h)"
  "host_ok h \<Longrightarrow> host_ok (SetContractVersions vs h)" "host_ok h \<Longrightarrow> host_ok (h\<lparr>h_nonces := ns\<rparr>)"
  by (auto simp: host_ok_def Advance_def Forget_def SetOutcome_def SetStepEvery_def SetContractVersions_def job_step_ok
      split: option.splits)

text \<open>Everything that can happen to a fixture after it was made.\<close>

inductive host_life :: "auth_crypto \<Rightarrow> (host_payload \<Rightarrow> string) \<Rightarrow> Host \<Rightarrow> bool" for A enc where
  made: "host_life A enc (New key available)"
| request: "host_life A enc h \<Longrightarrow> host_life A enc (snd (authenticated A enc hdr now m path payload h))"
| advance: "host_life A enc h \<Longrightarrow> host_life A enc (snd (Advance i now h))"
| forget: "host_life A enc h \<Longrightarrow> host_life A enc (Forget i h)"
| outcome: "host_life A enc h \<Longrightarrow> host_life A enc (SetOutcome x h)"
| pace: "host_life A enc h \<Longrightarrow> host_life A enc (SetStepEvery d h)"
| versions: "host_life A enc h \<Longrightarrow> host_life A enc (SetContractVersions vs h)"

lemma host_life_ok: "host_life A enc h \<Longrightarrow> host_ok h"
proof (induction rule: host_life.induct)
  case (made key available)
  show ?case by (simp add: host_ok_def New_def)
next
  case (request h hdr now m path payload)
  then show ?case
    using host_ok_route [OF host_ok_others(6)]
    by (auto simp: authenticated_def Let_def host_ok_others split: prod.splits option.splits) (metis prod.collapse)
qed (auto simp: host_ok_others)


text \<open>A backup that was started, advanced once and cancelled.\<close>

definition demo_id :: string where "demo_id = ''018bcfe5-6800-7000-8000-000000000001''"

definition demo_request :: HostJobRequest where
  "demo_request = \<lparr>jr_SchemaVersion = SchemaVersion, jr_OperationID = demo_id, jr_Type = OperationBackup,
     jr_InstallationID = fixtureInstallationID, jr_PlanHash = planHash demo_auth OperationBackup '''' '''',
     jr_ArchiveRef = '''', jr_TargetReleaseRef = ''''\<rparr>"

definition demo_host :: "NonceCache \<Rightarrow> Host" where
  "demo_host nonces = snd (submitJob demo_auth 1700000010000000000 (JobPayload demo_request) ((New ''key'' [ActionBackup])\<lparr>h_nonces := nonces\<rparr>))"

lemma demo_host_job:
  "h_jobs (demo_host nonces) demo_id = Some \<lparr>j_request = demo_request,
     j_script = [(StateQueued, ''''), (StateRunning, ''prepare''), (StateRunning, ''archive''), (StateVerifying, ''verify''), (StateSucceeded, '''')],
     j_irreversibleAt = 3, j_position = 0, j_generation = 1, j_cancelled = False, j_steppedAt = 1700000010000000000\<rparr>"
  by (simp add: demo_host_def submitJob_def demo_request_def Let_def New_def OperationType_Valid_def OperationType_Action_def
      job_script_def irreversible_point_def optype_defs action_defs OutcomeSucceed_def OutcomeFail_def OutcomeRecovery_def demo_id_def)

lemma demo_host_life: "\<exists>nonces. host_life demo_auth (\<lambda>_. ''body'') (demo_host nonces)"
proof -
  obtain hdr where h: "SignRequest demo_auth (Some ''0123456789abcdef'') ''POST'' ''/v1/jobs'' ''key'' ''body'' 1700000000500000000 = Some hdr"
    by (simp add: SignRequest_def Let_def)
  from sign_verify [OF h, of 1700000010000000000 "[]"] obtain ns where
    "VerifyRequest demo_auth hdr ''POST'' ''/v1/jobs'' ''key'' ''body'' 1700000010000000000 [] = (None, ns)" by (auto simp: second_def)
  then have "snd (authenticated demo_auth (\<lambda>_. ''body'') hdr 1700000010000000000 ''POST'' ''/v1/jobs'' (JobPayload demo_request) (New ''key'' [ActionBackup]))
      = demo_host ns"
    by (simp add: authenticated_def New_def Let_def route_submit demo_host_def)
  then show ?thesis using host_life.request [OF host_life.made] by metis
qed


end
