(* ===== verification/Appliance_Safety.thy ===== *)
theory Appliance_Safety
  imports Appliance_System Host_Fixture
begin

text \<open>
  What the invariant of \<open>Appliance_System\<close> means for an installation: nothing runs that was not submitted and,
  where that is required, authorized; nothing runs twice; what was stopped before the host took it never runs;
  one operation at a time occupies an installation.  The theorems hold for every interleaving
  of requests, reconciler rounds, database failures and host behaviour that satisfies the adapter's contract.
\<close>

section \<open>Reachable configurations\<close>

text \<open>An installation before its first operation.\<close>

definition fresh_appliance :: "('w \<Rightarrow> string \<Rightarrow> bool) \<Rightarrow> ('w \<Rightarrow> HostJobRequest list) \<Rightarrow> ('w, 'x) appliance_db_scheme \<Rightarrow> bool" where
  "fresh_appliance kn st s \<longleftrightarrow> operations s = [] \<and> challenges s = [] \<and> audit_rows s = [] \<and> st (outside s) = [] \<and> (\<forall>i. \<not> kn (outside s) i)"

inductive appl_reach :: "crypto \<Rightarrow> 'w HostClient \<Rightarrow> ('w \<Rightarrow> string \<Rightarrow> bool) \<Rightarrow> ('w \<Rightarrow> HostJobRequest list) \<Rightarrow> ('w \<Rightarrow> 'w \<Rightarrow> bool)
    \<Rightarrow> (string \<Rightarrow> 'w \<Rightarrow> 'w \<Rightarrow> bool) \<Rightarrow> ('w, 'x) config \<Rightarrow> bool"
  for C :: crypto and hc :: "'w HostClient" and kn st mv lo where
  start: "fresh_appliance kn st s \<Longrightarrow> appl_reach C hc kn st mv lo (s, {}, {})"
| continue: "appl_reach C hc kn st mv lo c \<Longrightarrow> appl_step C hc mv lo c c' \<Longrightarrow> appl_reach C hc kn st mv lo c'"

lemma fresh_inv: "fresh_appliance kn st s \<Longrightarrow> appl_inv kn st {} {} s"
  by (simp add: fresh_appliance_def appl_inv_x_def appl_ok_def host_follows_def one_active_def job_ids_def)

lemma reach_steps: "(appl_step C hc mv lo)\<^sup>*\<^sup>* c c' \<Longrightarrow> appl_reach C hc kn st mv lo c \<Longrightarrow> appl_reach C hc kn st mv lo c'"
  by (induction rule: rtranclp_induct) (auto intro: appl_reach.continue)

context host_adapter
begin

lemma reach_inv: "appl_reach C hc known started moves loses c \<Longrightarrow> config_inv known started c"
  by (induction rule: appl_reach.induct) (auto intro: fresh_inv step_inv)

lemma reach_rows:
  assumes "appl_reach C hc known started moves loses (s, K, J)"
  shows "unique_by r_id (operations s)" and "one_active (operations s)" and "host_follows (known (outside s)) (started (outside s)) (operations s)"
    and "\<And>r. r \<in> set (operations s) \<Longrightarrow> row_state_ok (started (outside s)) r"
    and "\<And>r. r \<in> set (operations s) \<Longrightarrow> r_submitted r \<noteq> None \<Longrightarrow> authorized (challenges s) (audit_rows s) r"
  using reach_inv [OF assms] by (simp_all add: appl_inv_x_def appl_ok_def)

text \<open>A row read now is a copy somebody may hold later, so the invariant says how the row has developed.\<close>

lemma later_row:
  assumes reach: "appl_reach C hc known started moves loses (s, K, J)" and r: "r \<in> set (operations s)"
    and steps: "(appl_step C hc moves loses)\<^sup>*\<^sup>* (s, insert (scanOperation r) K, J) (s', K', J')" and kept: "scanOperation r \<in> K'"
  shows "\<exists>r0 r'. r' \<in> set (operations s') \<and> scanOperation r0 = scanOperation r \<and> row_le r0 r'"
proof -
  have "appl_reach C hc known started moves loses (s, insert (scanOperation r) K, J)"
    using reach appl_step.read_row [OF r] by (rule appl_reach.continue)
  from reach_inv [OF reach_steps [OF steps this]] kept have "stale_copy (operations s') (scanOperation r)"
    by (auto simp: appl_inv_x_def appl_ok_def)
  then show ?thesis unfolding stale_copy_def by metis
qed

end

text \<open>Copies are only ever added, and holding one more never blocks a step.\<close>

lemma step_keeps_copies: "appl_step C hc mv lo (s, K, J) (s', K', J') \<Longrightarrow> K \<subseteq> K'"
  by (auto elim: appl_step.cases)

lemma step_more_copies:
  assumes "appl_step C hc mv lo (s, K, J) (s', K', J')"
  shows "appl_step C hc mv lo (s, insert op K, J) (s', insert op K', J')"
  using assms
proof (cases rule: appl_step.cases)
  case (read_row r)
  then show ?thesis using appl_step.read_row [of r s C hc mv lo "insert op K" J] by (simp add: insert_commute)
qed (use appl_step.intros in \<open>blast intro: appl_step.intros\<close>)+

lemma steps_more_copies:
  "(appl_step C hc mv lo)\<^sup>*\<^sup>* c c' \<Longrightarrow>
   (appl_step C hc mv lo)\<^sup>*\<^sup>* (case c of (s, K, J) \<Rightarrow> (s, insert op K, J)) (case c' of (s, K, J) \<Rightarrow> (s, insert op K, J))"
proof (induction rule: rtranclp_induct)
  case (step y z)
  obtain s K J s' K' J' where "y = (s, K, J)" "z = (s', K', J')" by (metis prod.exhaust)
  with step step_more_copies [of C hc mv lo s K J s' K' J' op] show ?case by (auto intro: rtranclp.rtrancl_into_rtrancl)
qed simp



lemma wire_arrives:
  assumes net: "fw_net w = (Arrives, d, Some nonce) # rest" and "nonce \<noteq> ''''" and "0 \<le> fw_now w" and "fw_now w < 2 ^ 63"
    and "int d \<le> 59 * second" and "hex_encode nonce \<notin> fst ` set (h_nonces (fw_host w))"
  shows "\<exists>seen'. run_state (fixture_wire A enc m p payload) w =
    (case host_route A (fw_now w + int d) m p payload ((fw_host w)\<lparr>h_nonces := seen'\<rparr>) of
       (a, h) \<Rightarrow> (Answered a, w\<lparr>fw_net := rest, fw_now := fw_now w + int d, fw_host := h\<rparr>))"
proof -
  obtain hdr where hdr: "SignRequest A (Some nonce) m p (h_key (fw_host w)) (enc payload) (fw_now w) = Some hdr"
    by (simp add: SignRequest_def Let_def)
  from sign_verify [OF hdr assms(2-4) _ _ assms(6), of "fw_now w + int d"] assms(5) obtain seen' where
    "VerifyRequest A hdr m p (h_key (fw_host w)) (enc payload) (fw_now w + int d) (h_nonces (fw_host w)) = (None, seen')" by auto
  then show ?thesis
    by (intro exI [of _ seen']) (simp add: fixture_wire_def net hdr authenticated_def Let_def split: prod.splits)
qed

definition demo_caller :: Caller where
  "demo_caller = \<lparr>c_UserID = 1, c_Username = ''admin'', c_Permitted = (\<lambda>_. True), c_SessionID = ''sess'',
     c_RequestID = ''req-1'', c_SourceIP = ''10.0.0.1''\<rparr>"

definition reset_request :: PlanRequest where
  "reset_request = \<lparr>pr_SchemaVersion = SchemaVersion, pr_Type = OperationReset, pr_ArchiveRef = '''', pr_TargetReleaseRef = '''', pr_Note = ''''\<rparr>"

definition reset_id :: string where
  "reset_id = the (newOperationID 1700000000000000000 (Some ''zzzzzzzzzz''))"

lemma reset_id_made: "newOperationID 1700000000000000000 (Some ''zzzzzzzzzz'') = Some reset_id"
  by (simp add: reset_id_def newOperationID_def Let_def)

definition reset_plan :: HostPlan where
  "reset_plan = \<lparr>hpl_PlanHash = planHash demo_auth OperationReset '''' '''', hpl_InstallationID = fixtureInstallationID,
     hpl_Model = ''fixture'', hpl_Fixture = True, hpl_Plan = plan_for demo_auth (host_plan_request reset_id reset_request)\<rparr>"

definition reset_row :: operation_row where
  "reset_row = new_row demo_crypto reset_id demo_caller ''idempotency-key-1'' ''req-1'' reset_request reset_plan 1700000000000000000"

definition reset_world :: fixture_world where
  "reset_world = \<lparr>fw_host = New ''key'' [ActionReset], fw_now = 1700000000000000000, fw_net = [(Arrives, 1000, Some ''0123456789abcdef'')]\<rparr>"

definition reset_db :: "fixture_world appliance_db" where
  "reset_db = \<lparr>clock = 1700000000000000000, tx_start = None, script = [], seqs = (\<lambda>_. 1), outside = reset_world,
     users = [], instances = [], api_tokens = [], login_attempts = [], system_settings = [], system_config = [],
     alerts = [], acknowledgments = [], snapshots = [], schedules = [], operations = [], challenges = [], audit_rows = []\<rparr>"

lemma plan_run:
  "run_state (insertPlanned demo_crypto reset_id demo_caller ''idempotency-key-1'' ''req-1'' reset_request reset_plan) reset_db
    = (ok True, reset_db\<lparr>operations := [reset_row]\<rparr>)"
  by (simp add: insertPlanned_def reset_db_def reset_row_def db_now_def)


definition demo_code :: string where "demo_code = ''secret''"

definition reset_challenge :: challenge_row where
  "reset_challenge = \<lparr>ch_id = 1, ch_hash = hashChallenge demo_crypto demo_code, ch_operation = reset_id, ch_user = 1, ch_session = ''sess'',
     ch_plan_hash = r_plan_hash reset_row, ch_installation = fixtureInstallationID, ch_action = OperationReset,
     ch_expires = 1700000000000000000 + ChallengeTTL, ch_consumed = None, ch_created = 1700000000000000000\<rparr>"

definition reset_audit :: "int \<Rightarrow> string \<Rightarrow> string \<Rightarrow> string \<Rightarrow> audit_row" where
  "reset_audit n event old new = \<lparr>au_id = n, au_operation = reset_id, au_event = event, au_user = Some 1, au_username = ''admin'', au_request_id = ''req-1'',
     au_source_ip = ''10.0.0.1'', au_old_state = old, au_new_state = new,
     au_detail = no_detail\<lparr>ad_Type := OperationReset, ad_PlanHash := r_plan_hash reset_row\<rparr>, au_created = 1700000000000000000\<rparr>"

definition authorized_db :: "fixture_world appliance_db" where
  "authorized_db = reset_db\<lparr>operations := [reset_row\<lparr>r_state := StateAwaitingAuthorization\<rparr>], challenges := [reset_challenge],
     audit_rows := [reset_audit 1 AuditAuthorize StatePlanned StateAwaitingAuthorization], seqs := (\<lambda>_. 1)(''appliance_challenges'' := 2, ''appliance_audit'' := 2)\<rparr>"

lemmas reset_defs = reset_db_def reset_row_def new_row_def reset_plan_def reset_request_def demo_caller_def reset_audit_def reset_challenge_def

lemma auth_run:
  "run_state (authorize_tx demo_crypto demo_caller (scanOperation reset_row) demo_code) (reset_db\<lparr>operations := [reset_row]\<rparr>)
    = (ok (1700000000000000000 + ChallengeTTL), authorized_db)"
  by (simp add: authorize_tx_def with_tx_def run_check await_update_def drop_challenges_def insert_challenge_def writeAudit_def insert_audit_def
    update_operations_def Let_def db_now_def scanOperation_def one_active_def PlanTTL_def count_where_def end_tx_def del_where_def
    state_audit_def take_seq_def ChallengeTTL_def authorized_db_def reset_defs fun_eq_iff)

definition submitted_db :: "fixture_world appliance_db" where
  "submitted_db = reset_db\<lparr>operations := [reset_row\<lparr>r_state := StateQueued, r_submitted := Some 1700000000000000000\<rparr>],
     challenges := [reset_challenge\<lparr>ch_consumed := Some 1700000000000000000\<rparr>],
     audit_rows := [reset_audit 1 AuditAuthorize StatePlanned StateAwaitingAuthorization, reset_audit 2 AuditSubmit StateAwaitingAuthorization StateQueued], 
     seqs := (\<lambda>_. 1)(''appliance_challenges'' := 2, ''appliance_audit'' := 3)\<rparr>"

lemma submit_run:
  "run_state (submit_tx demo_crypto demo_caller (scanOperation (reset_row\<lparr>r_state := StateAwaitingAuthorization\<rparr>)) demo_code) authorized_db
    = (ok (), submitted_db)"
  by (simp add: submit_tx_def with_tx_def run_check consumeChallenge_def consume_update_def challenge_matches_def queue_update_def writeAudit_def insert_audit_def
    update_operations_def Let_def db_now_def scanOperation_def one_active_def PlanTTL_def count_where_def end_tx_def
    state_audit_def take_seq_def ChallengeTTL_def authorized_db_def submitted_db_def reset_defs fun_eq_iff expected_state_def
    Destructive_def OperationType_Action_def optype_defs action_defs)

definition running_row :: operation_row where
  "running_row = reset_row\<lparr>r_state := StateQueued, r_submitted := Some 1700000000000000000, r_generation := 1, r_cancellable := True\<rparr>"

abbreviation demo_client :: "fixture_world HostClient" where
  "demo_client \<equiv> fixture_client demo_auth (\<lambda>_. ''body'')"

definition reset_job :: HostJob where
  "reset_job = \<lparr>hj_OperationID = reset_id, hj_State = StateQueued, hj_Phase = '''', hj_Generation = 1,
          hj_Cancellable = True, hj_ErrorCode = '''', hj_Fixture = True\<rparr>"

lemma exchange_run:
  "\<exists>w'. run_state (hc_Submit demo_client (jobRequest (scanOperation running_row))) reset_world = (ok reset_job, w') \<and>
     fx_started w' = [jobRequest (scanOperation running_row)]"
proof -
  have id: "reset_id \<noteq> []" using ValidOperationID_no_slash newOperationID_valid [OF reset_id_made] by auto
  obtain seen where "run_state (fixture_wire demo_auth (\<lambda>_. ''body'') ''POST'' ''/v1/jobs'' (JobPayload (jobRequest (scanOperation running_row)))) reset_world =
    (case host_route demo_auth (fw_now reset_world + int 1000) ''POST'' ''/v1/jobs'' (JobPayload (jobRequest (scanOperation running_row)))
       ((fw_host reset_world)\<lparr>h_nonces := seen\<rparr>) of
       (a, h) \<Rightarrow> (Answered a, reset_world\<lparr>fw_net := [], fw_now := fw_now reset_world + int 1000, fw_host := h\<rparr>))"
    using wire_arrives [of reset_world 1000 "''0123456789abcdef''" "[]" demo_auth "\<lambda>_. ''body''" "''POST''" "''/v1/jobs''" "JobPayload (jobRequest (scanOperation running_row))"]
    by (auto simp: reset_world_def second_def New_def)
  then show ?thesis
    by (simp add: fixture_client_ops run_ask_job route_submit submitJob_def Let_def id jobRequest_def scanOperation_def running_row_def reset_row_def
      new_row_def reset_request_def reset_plan_def reset_world_def New_def job_script_def irreversible_point_def job_answer_def job_entry_def job_current_def
      read_answer_def checkJob_def reset_job_def fx_started_def job_done_def plain_answer_def hostOwned_def
      OperationType_Valid_def OperationType_Action_def optype_defs action_defs OutcomeSucceed_def OutcomeFail_def OutcomeRecovery_def)
qed


lemma deliver_run:
  "\<exists>s'. run_state (Submission.deliver demo_client reset_id) submitted_db = ((), s') \<and> operations s' = [running_row] \<and>
     fx_started (outside s') = [jobRequest (scanOperation running_row)] \<and> challenges s' = challenges submitted_db \<and> audit_rows s' = audit_rows submitted_db \<and> script s' = []"
proof -
  obtain w' where w: "run_state (hc_Submit demo_client (jobRequest (scanOperation running_row))) reset_world = (ok reset_job, w')"
    "fx_started w' = [jobRequest (scanOperation running_row)]" using exchange_run by blast
  let ?row = "reset_row\<lparr>r_state := StateQueued, r_submitted := Some 1700000000000000000\<rparr>"
  have req: "jobRequest (scanOperation ?row) = jobRequest (scanOperation running_row)"
    by (simp add: jobRequest_def scanOperation_def running_row_def)
  have sel: "run_state (undelivered reset_id) (submitted_db\<lparr>tx_start := Some 1700000000000000000\<rparr>) =
      (ok (Some (scanOperation ?row)), submitted_db\<lparr>tx_start := Some 1700000000000000000\<rparr>)"
    by (simp add: undelivered_def operationByID_def select_operation_def submitted_db_def reset_defs scanOperation_def)
  have app: "run_state (applyJob (scanOperation ?row) reset_job) (submitted_db\<lparr>tx_start := Some 1700000000000000000, outside := w'\<rparr>) =
      (True, submitted_db\<lparr>tx_start := Some 1700000000000000000, outside := w', operations := [running_row]\<rparr>)"
    by (simp add: applyJob_def reset_job_def job_update_def update_operations_def Let_def submitted_db_def reset_defs scanOperation_def one_active_def
        count_where_def running_row_def db_now_def)
  have out: "outside submitted_db = reset_world" "script submitted_db = []" "clock submitted_db = 1700000000000000000" "tx_start submitted_db = None"
    by (simp_all add: submitted_db_def reset_db_def)
  have body: "run_state (check ADb (undelivered reset_id) (\<lambda>op. case op of
         None \<Rightarrow> ret (err (ErrOperationState ''''))
       | Some op \<Rightarrow> do { fine \<leftarrow> submitToHost demo_client op; commit_if fine })) (submitted_db\<lparr>tx_start := Some (clock submitted_db)\<rparr>) =
      (ok (), submitted_db\<lparr>tx_start := Some 1700000000000000000, outside := w', operations := [running_row]\<rparr>)"
    by (simp add: run_check sel submitToHost_def run_ask out req w app commit_if_def)
  show ?thesis
    unfolding deliver_def using run_with_tx_calm [OF out(2) body, of ADb ADb] by (simp add: out w end_tx_def)
qed

abbreviation demo_reach :: "(fixture_world, unit) config \<Rightarrow> bool" where
  "demo_reach \<equiv> appl_reach demo_crypto demo_client fx_known fx_started fx_moves fx_loses"

lemma reach_planned: "demo_reach (reset_db\<lparr>operations := [reset_row]\<rparr>, {}, {})"
proof -
  have "demo_reach (reset_db, {}, {})"
    by (rule appl_reach.start) (simp add: fresh_appliance_def reset_db_def reset_world_def New_def fx_started_def fx_known_def)
  then show ?thesis by (rule appl_reach.continue) (rule appl_step.plan_insert [OF reset_id_made _ plan_run], simp)
qed

lemma reach_running:
  "\<exists>s' K. demo_reach (s', K, {}) \<and> operations s' = [running_row] \<and> fx_started (outside s') = [jobRequest (scanOperation running_row)] \<and>
     challenges s' = challenges submitted_db \<and> audit_rows s' = audit_rows submitted_db"
proof -
  let ?o0 = "scanOperation reset_row" and ?o1 = "scanOperation (reset_row\<lparr>r_state := StateAwaitingAuthorization\<rparr>)"
  have "demo_reach (reset_db\<lparr>operations := [reset_row]\<rparr>, {?o0}, {})"
    by (rule appl_reach.continue [OF reach_planned], rule appl_step.read_row) simp
  then have "demo_reach (authorized_db, {?o0}, {})"
    by (rule appl_reach.continue) (rule appl_step.authorize [OF _ auth_run], simp)
  then have "demo_reach (authorized_db, {?o1, ?o0}, {})"
    by (rule appl_reach.continue) (rule appl_step.read_row, simp add: authorized_db_def)
  then have s: "demo_reach (submitted_db, {?o1, ?o0}, {})"
    by (rule appl_reach.continue) (rule appl_step.submit [OF _ _ submit_run],
      simp_all add: submit_refusal_def scanOperation_def reset_defs expected_state_def Destructive_def OperationType_Action_def optype_defs action_defs demo_code_def Let_def)
  obtain s' where d: "run_state (Submission.deliver demo_client reset_id) submitted_db = ((), s')" and s': "operations s' = [running_row]"
     "fx_started (outside s') = [jobRequest (scanOperation running_row)]" "challenges s' = challenges submitted_db" "audit_rows s' = audit_rows submitted_db"
    using deliver_run by blast
  from appl_reach.continue [OF s appl_step.deliver [OF d]] s' show ?thesis by blast
qed


section \<open>Safety\<close>

lemma scan_eq:
  "scanOperation r0 = scanOperation r \<Longrightarrow> r_id r0 = r_id r \<and> r_state r0 = r_state r \<and> r_generation r0 = r_generation r \<and> r_submitted r0 = r_submitted r \<and>
     r_type r0 = r_type r \<and> r_installation r0 = r_installation r \<and> r_actor_user r0 = r_actor_user r \<and> r_request_hash r0 = r_request_hash r \<and>
     r_request r0 = r_request r \<and> r_plan_hash r0 = r_plan_hash r \<and> r_plan_expires r0 = r_plan_expires r"
  by (simp add: scanOperation_def)

lemma history_row:
  assumes "host_adapter hc kn st mv lo" and "appl_reach C hc kn st mv lo (s, K, J)" and "r \<in> set (operations s)"
    and "(appl_step C hc mv lo)\<^sup>*\<^sup>* (s, K, J) (s', K', J')"
  shows "\<exists>r0 r'. r' \<in> set (operations s') \<and> scanOperation r0 = scanOperation r \<and> row_le r0 r'"
  by (rule host_adapter.later_row [OF assms(1-3), where K' = "insert (scanOperation r) K'" and J' = J'])
    (use steps_more_copies [OF assms(4), of "scanOperation r"] in auto)

text \<open>
  C20. Nothing is executed on the host without authority: under every interleaving of requests, failures and host
  answers, each job the host ever started is exactly the job of a submitted operation; the submission is in
  the audit trail; and for a destructive operation the user who submitted it had consumed a challenge issued for
  this operation, this plan and this installation.
\<close>

theorem execution_is_authorized:
  assumes "host_adapter hc kn st mv lo" and "appl_reach C hc kn st mv lo (s, K, J)" and "q \<in> set (st (outside s))"
  shows "\<exists>r \<in> set (operations s). q = jobRequest (scanOperation r) \<and> r_submitted r \<noteq> None \<and>
     (\<exists>a \<in> set (audit_rows s). au_operation a = r_id r \<and> au_event a = AuditSubmit \<and> au_new_state a = StateQueued \<and>
       (Destructive (r_type r) \<longrightarrow> (\<exists>c \<in> set (challenges s). ch_consumed c \<noteq> None \<and> ch_operation c = r_id r \<and>
          ch_plan_hash c = r_plan_hash r \<and> ch_installation c = r_installation r \<and> au_user a = Some (ch_user c))))"
proof -
  note rows = host_adapter.reach_rows [OF assms(1,2)]
  from rows(3) assms(3) obtain r where r: "r \<in> set (operations s)" "r_submitted r \<noteq> None" "q = jobRequest (scanOperation r)"
    by (auto simp: host_follows_def)
  from rows(5) [OF r(1,2)] r show ?thesis unfolding authorized_def by blast
qed

theorem execution_is_authorized_witness:
  "\<exists>s K q. demo_reach (s, K, {}) \<and> q \<in> set (fx_started (outside s)) \<and> jr_Type q = OperationReset \<and>
     (\<exists>r c. r \<in> set (operations s) \<and> q = jobRequest (scanOperation r) \<and> c \<in> set (challenges s) \<and> ch_consumed c \<noteq> None \<and> ch_operation c = r_id r)"
proof -
  obtain s K where s: "demo_reach (s, K, {})" "operations s = [running_row]" "fx_started (outside s) = [jobRequest (scanOperation running_row)]"
    using reach_running by blast
  let ?q = "jobRequest (scanOperation running_row)"
  have q: "?q \<in> set (fx_started (outside s))" and t: "Destructive (r_type running_row)" "jr_Type ?q = OperationReset"
    using s(3) by (simp_all add: running_row_def reset_defs jobRequest_def scanOperation_def Destructive_def optype_defs action_defs)
  from execution_is_authorized [OF fixture.host_adapter_axioms s(1) q] s(1,2) q t show ?thesis by fastforce
qed

lemma unique_count: "unique_by key rows \<Longrightarrow> count_where (\<lambda>r. key r = k) rows \<le> 1"
  by (induction rows) (auto simp: unique_by_def count_where_def filter_empty_conv, metis imageI)

text \<open>
  C21. No operation is executed twice: whatever is retried, lost or reconciled, and however often the host journal
  loses entries OAM has recorded, the host starts at most one job per operation.
\<close>

theorem nothing_runs_twice:
  assumes "host_adapter hc kn st mv lo" and "appl_reach C hc kn st mv lo (s, K, J)"
  shows "count_where (\<lambda>q. jr_OperationID q = i) (st (outside s)) \<le> 1"
  by (rule unique_count) (use host_adapter.reach_rows(3) [OF assms] in \<open>simp add: host_follows_def\<close>)

theorem nothing_runs_twice_witness:
  "\<exists>s K. demo_reach (s, K, {}) \<and> fx_started (outside s) \<noteq> [] \<and> count_where (\<lambda>q. jr_OperationID q = reset_id) (fx_started (outside s)) \<le> 1"
proof -
  obtain s K where s: "demo_reach (s, K, {})" "fx_started (outside s) = [jobRequest (scanOperation running_row)]"
    using reach_running by blast
  from s nothing_runs_twice [OF fixture.host_adapter_axioms s(1), of reset_id] show ?thesis by auto
qed

text \<open>
  C22. An operation that ended before the host reported on it (a cancelled or expired plan, a rejected or
  recalled submission) is never executed afterwards, whatever requests were still in flight when it ended.
\<close>

theorem stopped_operation_never_runs:
  assumes "host_adapter hc kn st mv lo" and "appl_reach C hc kn st mv lo (s, K, J)" and "r \<in> set (operations s)"
    and "Terminal (r_state r)" and "r_generation r = 0"
    and "(appl_step C hc mv lo)\<^sup>*\<^sup>* (s, K, J) (s', K', J')"
  shows "r_id r \<notin> jr_OperationID ` set (st (outside s'))"
proof -
  from history_row [OF assms(1-3,6)] obtain r0 r' where r': "r' \<in> set (operations s')" "scanOperation r0 = scanOperation r" "row_le r0 r'" by blast
  with assms(4,5) scan_eq [OF r'(2)] have "r_generation r' = 0" "r_state r' = r_state r" "r_id r' = r_id r"
    by (auto simp: row_le_def same_core_def)
  moreover have "row_state_ok (st (outside s')) r'"
    by (rule host_adapter.reach_rows(4) [OF assms(1) reach_steps [OF assms(6,2)] r'(1)])
  moreover have "r_state r \<noteq> StateQueued" using assms(4) by auto
  ultimately show ?thesis by (auto simp: row_state_ok_def job_ids_def)
qed

theorem stopped_operation_never_runs_witness:
  "\<exists>s r s' K' J'. demo_reach (s, {}, {}) \<and> r \<in> set (operations s) \<and> r_state r = StateCancelled \<and>
     (appl_step demo_crypto demo_client fx_moves fx_loses)\<^sup>*\<^sup>* (s, {}, {}) (s', K', J') \<and> s' \<noteq> s \<and> r_id r \<notin> jr_OperationID ` set (fx_started (outside s'))"
proof -
  let ?s = "snd (cancel_update reset_id (reset_db\<lparr>operations := [reset_row]\<rparr>))"
  have c: "run_state (db_stmt (cancel_update reset_id)) (reset_db\<lparr>operations := [reset_row]\<rparr>) = (fst (cancel_update reset_id (reset_db\<lparr>operations := [reset_row]\<rparr>)), ?s)"
    by (simp add: reset_db_def)
  have reach: "demo_reach (?s, {}, {})" by (rule appl_reach.continue [OF reach_planned appl_step.cancel [OF c]])
  obtain r where r: "r \<in> set (operations ?s)" "r_state r = StateCancelled" "r_generation r = 0" "r_id r = reset_id"
    by (simp add: cancel_update_def update_operations_def Let_def reset_defs one_active_def)
  let ?w = "(outside ?s)\<lparr>fw_now := fw_now (outside ?s) + int 7\<rparr>"
  have step: "(appl_step demo_crypto demo_client fx_moves fx_loses)\<^sup>*\<^sup>* (?s, {}, {}) (?s\<lparr>outside := ?w\<rparr>, {}, {})"
    by (rule r_into_rtranclp, rule appl_step.host_progress, rule fx_moves.wait)
  have "?s\<lparr>outside := ?w\<rparr> \<noteq> ?s"
  proof
    assume "?s\<lparr>outside := ?w\<rparr> = ?s"
    then have "fw_now (outside (?s\<lparr>outside := ?w\<rparr>)) = fw_now (outside ?s)" by simp
    then show False by simp
  qed
  moreover have "r_id r \<notin> jr_OperationID ` set (fx_started (outside (?s\<lparr>outside := ?w\<rparr>)))"
    by (rule stopped_operation_never_runs [OF fixture.host_adapter_axioms reach r(1) _ r(3) step]) (simp add: r(2))
  ultimately show ?thesis using reach r(1,2) step by blast
qed

text \<open>
  C23. An operation is never rewritten: its identity, type, installation, requester, request and plan stay as recorded; the
  host generation it reflects never goes back; a submission is never withdrawn; and a finished operation stays as it
  ended unless the host reports a newer generation.
\<close>

theorem operation_history_grows:
  assumes "host_adapter hc kn st mv lo" and "appl_reach C hc kn st mv lo (s, K, J)" and "r \<in> set (operations s)"
    and "(appl_step C hc mv lo)\<^sup>*\<^sup>* (s, K, J) (s', K', J')"
  shows "\<exists>r' \<in> set (operations s'). r_id r' = r_id r \<and> r_type r' = r_type r \<and> r_installation r' = r_installation r \<and>
     r_actor_user r' = r_actor_user r \<and> r_request r' = r_request r \<and> r_plan_hash r' = r_plan_hash r \<and> r_plan_expires r' = r_plan_expires r \<and>
     r_generation r \<le> r_generation r' \<and> (r_submitted r \<noteq> None \<longrightarrow> r_submitted r' \<noteq> None) \<and>
     (Terminal (r_state r) \<and> r_generation r' = r_generation r \<longrightarrow> r_state r' = r_state r)"
proof -
  from history_row [OF assms] obtain r0 r' where "r' \<in> set (operations s')" "scanOperation r0 = scanOperation r" "row_le r0 r'" by blast
  then show ?thesis using scan_eq [of r0 r] by (intro bexI [of _ r']) (simp_all add: row_le_def same_core_def)
qed

theorem operation_history_grows_witness:
  "\<exists>s K s' K' J'. demo_reach (s, K, {}) \<and> running_row \<in> set (operations s) \<and>
     (appl_step demo_crypto demo_client fx_moves fx_loses)\<^sup>*\<^sup>* (s, K, {}) (s', K', J') \<and>
     (\<exists>r'. r' \<in> set (operations s') \<and> r_id r' = reset_id \<and> 1 \<le> r_generation r' \<and> r_submitted r' \<noteq> None)"
proof -
  obtain s K where s: "demo_reach (s, K, {})" "operations s = [running_row]" using reach_running by blast
  obtain x s' where e: "run_state (expirePlans :: ((fixture_world, unit) appliance_db_scheme, db_err + nat) state) s = (x, s')" by force
  have step: "(appl_step demo_crypto demo_client fx_moves fx_loses)\<^sup>*\<^sup>* (s, K, {}) (s', K, {})"
    by (rule r_into_rtranclp, rule appl_step.expire [OF e])
  have r: "running_row \<in> set (operations s)" "r_id running_row = reset_id" "r_generation running_row = 1" "r_submitted running_row \<noteq> None"
    using s(2) by (simp_all add: running_row_def reset_row_def new_row_def)
  from operation_history_grows [OF fixture.host_adapter_axioms s(1) r(1) step] r s(1) step show ?thesis by fastforce
qed



end
