(* ===== verification/Appliance_Calls.thy ===== *)
theory Appliance_Calls
  imports Appliance_Safety
begin

text \<open>
  Every call of the appliance service is a sequence of the steps of \<open>Appliance_System\<close>.  The calls run one statement
  after the other, so this refinement is what makes the theorems on steps theorems on the service.
\<close>

section \<open>A logic of steps\<close>

text \<open>
  \<open>walks\<close>: a run of \<open>m\<close> is a sequence of steps; \<open>P\<close> and \<open>Q\<close> speak about the row copies and the
  journal entries the caller holds before and after.
\<close>

definition walks :: "(('w, 'x) config \<Rightarrow> ('w, 'x) config \<Rightarrow> bool) \<Rightarrow> (Operation set \<Rightarrow> HostJob set \<Rightarrow> bool)
    \<Rightarrow> (('w, 'x) appliance_db_scheme, 'a) state \<Rightarrow> ('a \<Rightarrow> Operation set \<Rightarrow> HostJob set \<Rightarrow> bool) \<Rightarrow> bool" where
  "walks R P m Q \<longleftrightarrow> (\<forall>s K J r s'. P K J \<longrightarrow> run_state m s = (r, s') \<longrightarrow> (\<exists>K' J'. R\<^sup>*\<^sup>* (s, K, J) (s', K', J') \<and> Q r K' J'))"

named_theorems walk_rules \<open>rules of the step logic\<close>

definition held :: "(Operation set \<Rightarrow> HostJob set \<Rightarrow> bool) \<Rightarrow> bool" where
  "held P \<longleftrightarrow> (\<forall>K J K' J'. P K J \<longrightarrow> K \<subseteq> K' \<longrightarrow> J \<subseteq> J' \<longrightarrow> P K' J')"

lemma held_rules [simp, intro]:
  "held (\<lambda>K J. b)" "held (\<lambda>K J. op \<in> K)" "held (\<lambda>K J. job \<in> J)" "held (\<lambda>K J. set ops \<subseteq> K)" "held P \<Longrightarrow> held Q \<Longrightarrow> held (\<lambda>K J. P K J \<and> Q K J)"
  unfolding held_def by blast+

lemma walksI: "(\<And>s K J r s'. P K J \<Longrightarrow> run_state m s = (r, s') \<Longrightarrow> \<exists>K' J'. R\<^sup>*\<^sup>* (s, K, J) (s', K', J') \<and> Q r K' J') \<Longrightarrow> walks R P m Q"
  unfolding walks_def by blast

lemma walksD: "walks R P m Q \<Longrightarrow> P K J \<Longrightarrow> run_state m s = (r, s') \<Longrightarrow> \<exists>K' J'. R\<^sup>*\<^sup>* (s, K, J) (s', K', J') \<and> Q r K' J'"
  unfolding walks_def by blast

lemma walks_weaken: "walks R P' m Q' \<Longrightarrow> (\<And>K J. P K J \<Longrightarrow> P' K J) \<Longrightarrow> (\<And>r K J. Q' r K J \<Longrightarrow> Q r K J) \<Longrightarrow> walks R P m Q"
  unfolding walks_def by blast

lemma walks_return [walk_rules]: "(\<And>K J. P K J \<Longrightarrow> Q a K J) \<Longrightarrow> walks R P (ret a) Q"
  unfolding walks_def by auto

lemma walks_bind: "walks R P m S \<Longrightarrow> (\<And>a. walks R (S a) (f a) Q) \<Longrightarrow> walks R P (State_Monad.bind m f) Q"
  unfolding walks_def by (auto split: prod.splits) (meson rtranclp_trans)

lemma walks_check:
  assumes "walks R P m S" and "\<And>a. walks R (S (ok a)) (k a) Q" and "\<And>e K J. S (err e) K J \<Longrightarrow> Q (err (wrap e)) K J"
  shows "walks R P (check wrap m k) Q"
  unfolding check_def by (rule walks_bind [OF assms(1)]) (auto split: sum.split intro: assms(2,3) walks_return)

text \<open>The usual shape: nothing has to be shown of an error.\<close>

abbreviation anyhow :: "'a \<Rightarrow> Operation set \<Rightarrow> HostJob set \<Rightarrow> bool" where
  "anyhow \<equiv> \<lambda>_ _ _. True"

lemma walks_done [walk_rules]: "walks R P (ret a) anyhow"
  by (rule walks_return) simp

lemma walks_if [walk_rules]: "(b \<Longrightarrow> walks R P m Q) \<Longrightarrow> (\<not> b \<Longrightarrow> walks R P n Q) \<Longrightarrow> walks R P (if b then m else n) Q"
  by simp

lemma walks_case_option [walk_rules]:
  "(x = None \<Longrightarrow> walks R P m Q) \<Longrightarrow> (\<And>a. x = Some a \<Longrightarrow> walks R P (f a) Q) \<Longrightarrow> walks R P (case x of None \<Rightarrow> m | Some a \<Rightarrow> f a) Q"
  by (cases x) auto

lemma walks_case_sum [walk_rules]:
  "(\<And>e. x = Inl e \<Longrightarrow> walks R P (f e) Q) \<Longrightarrow> (\<And>a. x = Inr a \<Longrightarrow> walks R P (g a) Q) \<Longrightarrow> walks R P (case x of Inl e \<Rightarrow> f e | Inr a \<Rightarrow> g a) Q"
  by (cases x) auto

lemma walks_then: "walks R P m (\<lambda>_. P) \<Longrightarrow> (\<And>a. walks R P (f a) Q) \<Longrightarrow> walks R P (State_Monad.bind m f) Q"
  by (rule walks_bind)

lemma walks_check_then: "walks R P m (\<lambda>_. P) \<Longrightarrow> (\<And>a. walks R P (k a) anyhow) \<Longrightarrow> walks R P (check wrap m k) anyhow"
  by (rule walks_check) auto

lemma walks_one: "(\<And>s K J r s'. P K J \<Longrightarrow> run_state m s = (r, s') \<Longrightarrow> R (s, K, J) (s', K, J)) \<Longrightarrow> walks R P m (\<lambda>_. P)"
  unfolding walks_def by blast

lemma steps_keep_copies: "(appl_step C hc mv lo)\<^sup>*\<^sup>* (s, K, J) (s', K', J') \<Longrightarrow> K \<subseteq> K'"
proof (induction "(s', K', J')" arbitrary: s' K' J' rule: rtranclp_induct)
  case (step y)
  obtain s1 K1 J1 where y: "y = (s1, K1, J1)" by (metis prod.exhaust)
  from step(3) [OF y] step_keeps_copies [OF step(2) [unfolded y]] show ?case by (rule order_trans)
qed simp

section \<open>Statements and host calls\<close>

lemma walks_expire [walk_rules]: "walks (appl_step C hc mv lo) P expirePlans (\<lambda>_. P)"
  by (rule walks_one) (rule appl_step.expire)

lemma walks_audit [walk_rules]: "walks (appl_step C hc mv lo) P (audit e) (\<lambda>_. P)"
  unfolding audit_def by (rule walks_bind [OF walks_one], erule appl_step.record_event, rule walks_return)

lemma walks_query [walk_rules]: "walks (appl_step C hc mv lo) P (db_query g) (\<lambda>_. P)"
proof (rule walks_one, rule appl_step.elapse)
  fix s :: "('a, 'b) appliance_db_scheme" and r s'
  assume "run_state (db_query g) s = (r, s')"
  then show "same_system s s'"
    using same_system_next_outcome by (auto simp: run_db_query split: prod.splits outcome.splits)
qed

lemma walks_time [walk_rules]: "walks R P time_now (\<lambda>_. P)"
  unfolding walks_def by (auto simp: run_time_now)

lemma query_rows:
  assumes "run_state (db_query g) s = (r, s')"
  shows "same_system s s'" and "r = err DbFail \<or> r = g s'"
  using assms same_system_next_outcome by (auto simp: run_db_query split: prod.splits outcome.splits)

text \<open>What a query returned is a copy of a row that was there.\<close>

lemma walks_select:
  assumes "held P"
  shows "walks (appl_step C hc mv lo) P (select_operation p) (\<lambda>x K J. P K J \<and> (\<forall>op. x = ok (Some op) \<longrightarrow> op \<in> K \<and> (\<exists>r. op = scanOperation r \<and> p r)))"
proof (rule walksI)
  fix s :: "('a, 'b) appliance_db_scheme" and K J x s'
  assume P: "P K J" and run: "run_state (select_operation p) s = (x, s')"
  note q = query_rows [OF run [unfolded select_operation_def]]
  have e: "appl_step C hc mv lo (s, K, J) (s', K, J)" by (rule appl_step.elapse [OF q(1)])
  show "\<exists>K' J'. (appl_step C hc mv lo)\<^sup>*\<^sup>* (s, K, J) (s', K', J') \<and> P K' J' \<and> (\<forall>op. x = ok (Some op) \<longrightarrow> op \<in> K' \<and> (\<exists>r. op = scanOperation r \<and> p r))"
  proof (cases "\<exists>op. x = ok (Some op)")
    case True
    with q(2) obtain r where r: "x = ok (Some (scanOperation r))" "find_row p (operations s') = Some r" by (cases "find_row p (operations s')") auto
    note row = find_row_Some [OF r(2)]
    have "(appl_step C hc mv lo)\<^sup>*\<^sup>* (s, K, J) (s', insert (scanOperation r) K, J)"
      using e appl_step.read_row [OF conjunct1 [OF row]] by (meson rtranclp.rtrancl_into_rtrancl r_into_rtranclp)
    moreover have "P (insert (scanOperation r) K) J" using assms P unfolding held_def by blast
    ultimately show ?thesis using r(1) row by blast
  qed (use e P in blast)
qed

lemma scan_ID [simp]: "o_ID (scanOperation r) = r_id r"
  by (simp add: scanOperation_def)

lemma walks_byID:
  "held P \<Longrightarrow> walks (appl_step C hc mv lo) P (operationByID i) (\<lambda>x K J. P K J \<and> (\<forall>op. x = ok (Some op) \<longrightarrow> op \<in> K \<and> o_ID op = i))"
  unfolding operationByID_def by (rule walks_weaken [OF walks_select [of P]]) auto

lemma walks_byKey [walk_rules]: "walks (appl_step C hc mv lo) P (operationByKey u k) (\<lambda>_. P)"
  unfolding operationByKey_def select_operation_def by (rule walks_query)


text \<open>Loading an operation leaves the caller with a copy of it.\<close>

lemma walks_load:
  assumes "held P"
  shows "walks (appl_step C hc mv lo) P (load caller i) (\<lambda>x K J. P K J \<and> (\<forall>op. x = ok op \<longrightarrow> op \<in> K \<and> o_ID op = i \<and> ValidOperationID i))"
  unfolding load_def
  by (intro walks_if walks_return walks_check [OF walks_expire] walks_check [OF walks_byID [OF assms]] walks_case_option) auto

lemma walks_reload [walk_rules]: "walks (appl_step C hc mv lo) P (reload i) anyhow"
  unfolding reload_def
  by (rule walks_check [where S = anyhow], rule walks_weaken [OF walks_byID [of "\<lambda>_ _. True"]]) (auto intro!: walk_rules)

lemma walks_conflict [walk_rules]: "walks (appl_step C hc mv lo) P (or_conflict op e) anyhow"
  unfolding or_conflict_def conflict_def blockingOperation_def
  by (cases e) (auto intro!: walks_done walks_check_then [OF walks_query])

lemma walks_authorize_tx: "walks (appl_step C hc mv lo) (\<lambda>K J. op \<in> K) (authorize_tx C caller op v) (\<lambda>_ K J. op \<in> K)"
  by (rule walks_one) (rule appl_step.authorize)

lemma walks_submit_tx: "submit_refusal caller op v = None \<Longrightarrow> walks (appl_step C hc mv lo) (\<lambda>K J. op \<in> K) (submit_tx C caller op v) (\<lambda>_ K J. op \<in> K)"
  by (rule walks_one) (rule appl_step.submit)

lemma walks_deliver [walk_rules]: "walks (appl_step C hc mv lo) P (deliver hc i) (\<lambda>_. P)"
  by (rule walks_one) (rule appl_step.deliver)

lemma walks_mark [walk_rules]: "walks (appl_step C hc mv lo) P (set_reconciliation v p) (\<lambda>_. P)"
  by (rule walks_one) (rule appl_step.mark)

lemma walks_applyJob:
  assumes "hj_OperationID job = o_ID op"
  shows "walks (appl_step C hc mv lo) (\<lambda>K J. job \<in> J) (applyJob op job) anyhow"
proof -
  have upd: "walks (appl_step C hc mv lo) (\<lambda>K J. job \<in> J) (db_stmt (job_update (o_ID op) job ec eo)) (\<lambda>_ K J. job \<in> J)" for ec eo
    by (rule walks_one) (rule appl_step.follow [OF _ assms])
  have aud: "walks (appl_step C hc mv lo) (\<lambda>K J. job \<in> J) (audit e) anyhow" for e
    by (rule walks_weaken [OF walks_audit]) auto
  show ?thesis
    unfolding applyJob_def Let_def by (intro walks_bind [OF upd] walks_case_sum walks_if walks_done aud walks_then [OF walks_mark])
qed

lemma walks_lost:
  assumes "o_HostGeneration op \<noteq> 0" and "\<not> Terminal (o_State op)"
  shows "walks (appl_step C hc mv lo) (\<lambda>K J. op \<in> K) (finishWithoutHost op StateRecoveryRequired CodeHostJobLost OriginOAM event) anyhow"
proof -
  have upd: "walks (appl_step C hc mv lo) (\<lambda>K J. op \<in> K) (db_stmt (finish_update op StateRecoveryRequired CodeHostJobLost OriginOAM)) (\<lambda>_ K J. op \<in> K)"
    by (rule walks_one) (rule appl_step.lost [OF _ assms])
  have aud: "walks (appl_step C hc mv lo) (\<lambda>K J. op \<in> K) (audit e) anyhow" for e
    by (rule walks_weaken [OF walks_audit]) auto
  show ?thesis
    unfolding finishWithoutHost_def by (intro walks_bind [OF upd] walks_case_sum walks_if walks_done aud)
qed

lemma walks_markUnreachable [walk_rules]: "walks (appl_step C hc mv lo) P (markUnreachable op) anyhow"
  unfolding markUnreachable_def by (intro walks_if walks_done walks_then [OF walks_mark])

context host_adapter
begin

lemma walks_ask:
  assumes "held P" and step: "\<And>(s :: ('w, 'b) appliance_db_scheme) x s' K J. run_state (ask m) s = (x, s') \<Longrightarrow>
      appl_step C hc mv lo (s, K, J) (s', K, case x of Inl _ \<Rightarrow> J | Inr job \<Rightarrow> insert job J)"
    and answer: "\<And>w job w'. run_state m w = (ok job, w') \<Longrightarrow> hj_OperationID job = i"
  shows "walks (appl_step C hc mv lo :: ('w, 'b) config \<Rightarrow> _) P (ask m) (\<lambda>x K J. P K J \<and> (\<forall>job. x = ok job \<longrightarrow> job \<in> J \<and> hj_OperationID job = i))"
proof (rule walksI)
  fix s :: "('w, 'b) appliance_db_scheme" and K J x s'
  assume P: "P K J" and run: "run_state (ask m) s = (x, s')"
  let ?J = "case x of Inl _ \<Rightarrow> J | Inr job \<Rightarrow> insert job J"
  have "P K ?J" using assms(1) P unfolding held_def by (cases x) (auto, blast)
  moreover have "hj_OperationID job = i" if "x = ok job" for job
    using run that answer by (auto simp: run_ask split: prod.splits)
  ultimately show "\<exists>K' J'. (appl_step C hc mv lo)\<^sup>*\<^sup>* (s, K, J) (s', K', J') \<and> P K' J' \<and> (\<forall>job. x = ok job \<longrightarrow> job \<in> J' \<and> hj_OperationID job = i)"
    using step [OF run, of K J] by (intro exI [of _ K] exI [of _ ?J]) auto
qed

lemmas walks_ask_job = walks_ask [OF _ appl_step.journal job_answer [THEN conjunct1, unfolded usable_def, THEN conjunct1]]
lemmas walks_ask_cancel = walks_ask [OF _ appl_step.cancel_ask cancel_answer [THEN conjunct1, unfolded usable_def, THEN conjunct1]]

lemma walks_answered:
  "walks (appl_step C hc mv lo) (\<lambda>K J. Q K J \<and> (\<forall>j. ok job = (ok j :: host_err + HostJob) \<longrightarrow> j \<in> J \<and> hj_OperationID j = o_ID op)) (applyJob op job) anyhow"
proof (cases "hj_OperationID job = o_ID op")
  case True
  then show ?thesis by (intro walks_weaken [OF walks_applyJob]) auto
next
  case False
  then show ?thesis by (simp add: walks_def)
qed

lemma walks_reconcile: "walks (appl_step C hc mv lo :: ('w, 'b) config \<Rightarrow> _) (\<lambda>K J. op \<in> K) (reconcile hc op) (\<lambda>_ K J. True)"
  unfolding reconcile_def
proof (rule walks_if [OF walks_done], rule walks_bind [OF walks_ask_job [of "\<lambda>K J. op \<in> K"]], simp)
  fix x :: "host_err + HostJob"
  assume live: "\<not> (o_SubmittedAt op = None \<or> Terminal (o_State op))"
  let ?R = "appl_step C hc mv lo :: ('w, 'b) config \<Rightarrow> _"
  let ?P = "\<lambda>K J. op \<in> K \<and> (\<forall>job. x = ok job \<longrightarrow> job \<in> J \<and> hj_OperationID job = o_ID op)"
  show "walks ?R ?P
     (case x of
        Inr job \<Rightarrow> do { _ \<leftarrow> applyJob op job; ret () }
      | Inl e \<Rightarrow>
          if e = ErrHostJobNotFound \<and> o_HostGeneration op = 0 then deliver hc (o_ID op)
          else if e = ErrHostJobNotFound then
            (if o_State op \<noteq> StateRecoveryRequired \<or> o_ErrorCode op \<noteq> CodeHostJobLost
             then do { _ \<leftarrow> finishWithoutHost op StateRecoveryRequired CodeHostJobLost OriginOAM AuditReconcile; ret () }
             else ret ())
          else do { _ \<leftarrow> markUnreachable op; ret () }) anyhow"
  proof (cases x)
    case (Inr job)
    show ?thesis unfolding Inr sum.case by (rule walks_bind [OF walks_answered walks_done])
  next
    case (Inl e)
    have lost: "walks ?R ?P (do { _ \<leftarrow> finishWithoutHost op StateRecoveryRequired CodeHostJobLost OriginOAM AuditReconcile; ret () }) anyhow"
      if "o_HostGeneration op \<noteq> 0"
      using live that by (intro walks_bind [OF walks_weaken [OF walks_lost]] walks_done) auto
    have "walks ?R ?P (deliver hc (o_ID op)) anyhow" by (rule walks_weaken [OF walks_deliver]) auto
    moreover have "walks ?R ?P (do { _ \<leftarrow> markUnreachable op; ret () }) anyhow"
      by (rule walks_bind [OF walks_markUnreachable walks_done])
    ultimately show ?thesis
      unfolding Inl sum.case using lost walks_done [of ?R ?P "()"] unfolding Inl by presburger
  qed
qed

lemma walks_cancel_submitted:
  assumes "ValidOperationID (o_ID op)"
  shows "walks (appl_step C hc mv lo) P (cancel_submitted hc caller op) anyhow"
  unfolding cancel_submitted_def
proof (rule walks_weaken [where P' = "\<lambda>_ _. True"], rule walks_then [OF walks_audit], rule walks_bind [OF walks_ask_cancel])
  fix x :: "host_err + HostJob"
  let ?P = "\<lambda>K J. True \<and> (\<forall>job. x = ok job \<longrightarrow> job \<in> J \<and> hj_OperationID job = o_ID op)"
  have recall: "walks (appl_step C hc mv lo) ?P (cancelUndelivered hc (o_ID op)) (\<lambda>_. ?P)"
    by (rule walks_one) (rule appl_step.cancel_undelivered [OF _ assms])
  show "walks (appl_step C hc mv lo) ?P
     (case x of
        Inr job \<Rightarrow> do { _ \<leftarrow> applyJob op job; reload (o_ID op) }
      | Inl e \<Rightarrow>
          (case e of
             HostRejection code \<Rightarrow> ret (err ErrNotCancellable)
           | _ \<Rightarrow> if e = ErrHostJobNotFound \<and> o_HostGeneration op = 0
                then check id (cancelUndelivered hc (o_ID op)) (\<lambda>_. reload (o_ID op))
                else ret (err (AHost e)))) anyhow"
  proof (cases x)
    case (Inr job)
    show ?thesis unfolding Inr sum.case by (rule walks_bind [OF walks_answered walks_reload])
  next
    case (Inl e)
    have "walks (appl_step C hc mv lo) ?P (check id (cancelUndelivered hc (o_ID op)) (\<lambda>_. reload (o_ID op))) anyhow"
      by (rule walks_check_then [OF recall walks_reload])
    with Inl show ?thesis by (cases e) (auto intro: walks_done)
  qed
qed auto

end


section \<open>The calls\<close>

lemma walks_plan_ask [walk_rules]: "walks (appl_step C hc mv lo) P (ask (hc_Plan hc req)) (\<lambda>_. P)"
  by (rule walks_one) (rule appl_step.plan_ask)

lemma walks_insert:
  "newOperationID now (Some rnd) = Some i \<Longrightarrow> length rnd = 10 \<Longrightarrow>
   walks (appl_step C hc mv lo) P (insertPlanned C i caller key rid req plan) (\<lambda>_. P)"
  by (rule walks_one) (rule appl_step.plan_insert)

lemma walks_plan_result [walk_rules]: "walks (appl_step C hc mv lo) P (plan_result C i caller key req b) anyhow"
proof -
  have mine: "walks (appl_step C hc mv lo) P (operationByID i) (\<lambda>_ _ _. True)"
    by (rule walks_weaken [OF walks_byID [of "\<lambda>_ _. True"]]) auto
  show ?thesis
    unfolding plan_result_def
    by (intro walks_if walks_check_then [OF walks_byKey] walks_check [OF mine] walks_case_option walks_done walks_then [OF walks_audit]) simp
qed

text \<open>Random bytes come from a source that fills the whole buffer or fails.\<close>

definition rnd_ok :: "nat \<Rightarrow> string option \<Rightarrow> bool" where
  "rnd_ok n rnd \<longleftrightarrow> (case rnd of None \<Rightarrow> True | Some b \<Rightarrow> length b = n)"

lemma walks_PlanOperation:
  assumes "rnd_ok 10 rnd"
  shows "walks (appl_step C hc mv lo) P (PlanOperation C hc rnd caller key rid req) anyhow"
proof -
  have insert: "walks (appl_step C hc mv lo) P (insertPlanned C i caller key rid req plan) (\<lambda>_. P)" if "newOperationID now rnd = Some i" for now i plan
  proof (cases rnd)
    case None
    with that show ?thesis by (simp add: newOperationID_def)
  next
    case (Some b)
    with that assms show ?thesis by (intro walks_insert) (auto simp: rnd_ok_def)
  qed
  show ?thesis
    unfolding PlanOperation_def
    by (intro walks_if walks_done walks_case_option walks_check_then [OF walks_expire] walks_check_then [OF walks_byKey] walks_then [OF walks_time]
        walks_check_then [OF walks_plan_ask] walks_check_then [OF insert] walks_plan_result)
qed

lemma walks_GetOperation: "walks (appl_step C hc mv lo) P (GetOperation caller i) anyhow"
  unfolding GetOperation_def operationByID_def select_operation_def
  by (intro walks_if walks_done walks_case_option walks_check_then [OF walks_expire] walks_check_then [OF walks_query])

lemma walks_ListOperations: "walks (appl_step C hc mv lo) P (ListOperations caller f) anyhow"
  unfolding ListOperations_def listOperations_def Let_def
  by (intro walks_if walks_done walks_check_then [OF walks_expire] walks_check_then [OF walks_query])

lemma walks_authorizable:
  "walks (appl_step C hc mv lo) P (authorizable caller i) (\<lambda>x K J. \<forall>op. x = ok op \<longrightarrow> op \<in> K)"
proof (rule walks_weaken [where P' = "\<lambda>_ _. True"])
  show "walks (appl_step C hc mv lo) (\<lambda>_ _. True) (authorizable caller i) (\<lambda>x K J. \<forall>op. x = ok op \<longrightarrow> op \<in> K)"
    unfolding authorizable_def by (rule walks_check [OF walks_load [OF held_rules(1)]]) (auto intro!: walks_if walks_return)
qed auto

lemma walks_CanAuthorize: "walks (appl_step C hc mv lo) P (CanAuthorize caller i) anyhow"
  unfolding CanAuthorize_def by (rule walks_check [OF walks_authorizable]) (auto intro: walks_done)

lemma walks_Authorize: "walks (appl_step C hc mv lo) P (Authorize C rnd caller i) anyhow"
  unfolding Authorize_def Let_def
proof (rule walks_check [OF walks_authorizable])
  fix op
  let ?P = "\<lambda>K J. \<forall>op'. ok op = (ok op' :: appl_err + Operation) \<longrightarrow> op' \<in> K"
  have tx: "walks (appl_step C hc mv lo) ?P (authorize_tx C caller op v) anyhow" for v
    by (rule walks_weaken [OF walks_authorize_tx]) auto
  show "walks (appl_step C hc mv lo) ?P (case rnd of None \<Rightarrow> ret (err ErrRandom) | Some raw \<Rightarrow> do {
          r \<leftarrow> authorize_tx C caller op (hex_encode raw);
          case r of Inl e \<Rightarrow> or_conflict op e
          | Inr expiresAt \<Rightarrow> ret (ok \<lparr>cl_Challenge = hex_encode raw, cl_ExpiresAt = expiresAt, cl_OperationID = o_ID op, cl_PlanHash = o_PlanHash op\<rparr>) }) anyhow"
    by (intro walks_case_option walks_done walks_bind [OF tx] walks_case_sum walks_conflict)
qed auto

lemma walks_AuthorizationDenied: "walks (appl_step C hc mv lo) P (AuthorizationDenied caller i reason) anyhow"
  unfolding AuthorizationDenied_def by (intro walks_if walks_done walks_then [OF walks_audit])

lemma walks_submit_failed [walk_rules]: "walks (appl_step C hc mv lo) P (submit_failed caller op e) anyhow"
  unfolding submit_failed_def by (intro walks_if walks_then [OF walks_audit] walks_done walks_conflict)

lemma walks_Submit: "walks (appl_step C hc mv lo) P (Submit C hc caller i ph challenge) anyhow"
  unfolding Submit_def
proof (rule walks_weaken [where P' = "\<lambda>_ _. True"], rule walks_check [OF walks_load [OF held_rules(1)]])
  fix op
  let ?P = "\<lambda>K J. True \<and> (\<forall>op'. ok op = (ok op' :: appl_err + Operation) \<longrightarrow> op' \<in> K \<and> o_ID op' = i \<and> ValidOperationID i)"
  have tx: "walks (appl_step C hc mv lo) ?P (submit_tx C caller op challenge) anyhow" if "submit_refusal caller op challenge = None"
    by (rule walks_weaken [OF walks_submit_tx [OF that]]) auto
  have rest: "walks (appl_step C hc mv lo) (\<lambda>_ _. True) (do { _ \<leftarrow> deliver hc (o_ID op); reload (o_ID op) }) anyhow"
    by (rule walks_then [OF walks_deliver walks_reload])
  show "walks (appl_step C hc mv lo) ?P (if ph \<noteq> o_PlanHash op then ret (err ErrPlanStale)
     else if o_SubmittedAt op \<noteq> None then ret (ok op)
     else (case submit_refusal caller op challenge of
         Some e \<Rightarrow> ret (err e)
       | None \<Rightarrow> do {
           r \<leftarrow> submit_tx C caller op challenge;
           case r of
             Inl e \<Rightarrow> submit_failed caller op e
           | Inr _ \<Rightarrow> do { _ \<leftarrow> deliver hc (o_ID op); reload (o_ID op) } })) anyhow"
    by (intro walks_if walks_done walks_case_option walks_bind [OF tx] walks_case_sum walks_submit_failed rest)
qed auto

lemma walks_read_all:
  "set rs \<subseteq> set (operations s) \<Longrightarrow> (appl_step C hc mv lo)\<^sup>*\<^sup>* (s, K, J) (s, set (map scanOperation rs) \<union> K, J)"
proof (induction rs)
  case (Cons r rs)
  then have "appl_step C hc mv lo (s, set (map scanOperation rs) \<union> K, J) (s, insert (scanOperation r) (set (map scanOperation rs) \<union> K), J)"
    by (intro appl_step.read_row) simp
  with Cons show ?case by (auto intro: rtranclp.rtrancl_into_rtrancl)
qed simp

lemma walks_in_flight:
  "walks (appl_step C hc mv lo) P (db_query (\<lambda>s. ok (map scanOperation (in_flight (operations s))))) (\<lambda>x K J. \<forall>ops. x = ok ops \<longrightarrow> set ops \<subseteq> K)"
proof (rule walksI)
  fix s :: "('a, 'b) appliance_db_scheme" and K J x s'
  assume run: "run_state (db_query (\<lambda>s. ok (map scanOperation (in_flight (operations s))))) s = (x, s')"
  note q = query_rows [OF run]
  have "set (in_flight (operations s')) \<subseteq> set (operations s')" by (auto simp: in_flight_def dest: in_set_takeD)
  from walks_read_all [OF this] have "(appl_step C hc mv lo)\<^sup>*\<^sup>* (s', K, J) (s', set (map scanOperation (in_flight (operations s'))) \<union> K, J)" .
  with appl_step.elapse [OF q(1)] have
    "(appl_step C hc mv lo)\<^sup>*\<^sup>* (s, K, J) (s', set (map scanOperation (in_flight (operations s'))) \<union> K, J)" by (rule converse_rtranclp_into_rtranclp)
  with q(2) show "\<exists>K' J'. (appl_step C hc mv lo)\<^sup>*\<^sup>* (s, K, J) (s', K', J') \<and> (\<forall>ops. x = ok ops \<longrightarrow> set ops \<subseteq> K')" by auto
qed

context host_adapter
begin

lemma walks_Reconcile: "walks (appl_step C hc mv lo) P (Reconcile hc caller i) anyhow"
  unfolding Reconcile_def
proof (rule walks_weaken [where P' = "\<lambda>_ _. True"], rule walks_check [OF walks_load [OF held_rules(1)]])
  fix op
  show "walks (appl_step C hc mv lo) (\<lambda>K J. True \<and> (\<forall>op'. ok op = (ok op' :: appl_err + Operation) \<longrightarrow> op' \<in> K \<and> o_ID op' = i \<and> ValidOperationID i))
      (do { _ \<leftarrow> reconcile hc op; reload (o_ID op) }) anyhow"
    by (rule walks_bind [OF walks_weaken [OF walks_reconcile] walks_reload]) auto
qed auto

lemma walks_reconcile_all: "walks (appl_step C hc mv lo :: ('w, 'a) config \<Rightarrow> _) (\<lambda>K J. set ops \<subseteq> K) (reconcile_all hc ops) anyhow"
proof (induction ops)
  case Nil
  show ?case by (simp add: walks_done)
next
  case (Cons op ops)
  have keep: "walks (appl_step C hc mv lo :: ('w, 'a) config \<Rightarrow> _) (\<lambda>K J. set (op # ops) \<subseteq> K) (reconcile hc op) (\<lambda>_ K J. set ops \<subseteq> K)"
  proof (rule walksI)
    fix s :: "('w, 'a) appliance_db_scheme" and K J r s'
    assume K: "set (op # ops) \<subseteq> K" and run: "run_state (reconcile hc op) s = (r, s')"
    then have "op \<in> K" by simp
    then obtain K' J' where st: "(appl_step C hc mv lo)\<^sup>*\<^sup>* (s, K, J) (s', K', J')" using walksD [OF walks_reconcile _ run, of K C mv lo J] by blast
    with K steps_keep_copies [OF st] show "\<exists>K' J'. (appl_step C hc mv lo)\<^sup>*\<^sup>* (s, K, J) (s', K', J') \<and> set ops \<subseteq> K'" by auto
  qed
  show ?case unfolding reconcile_all.simps by (rule walks_bind [OF keep Cons.IH])
qed

lemma walks_ReconcileActive: "walks (appl_step C hc mv lo) P (ReconcileActive hc) anyhow"
  unfolding ReconcileActive_def
proof (rule walks_if [OF walks_done], rule walks_check [OF walks_in_flight])
  fix ops
  show "walks (appl_step C hc mv lo) (\<lambda>K J. \<forall>ops'. ok ops = (ok ops' :: db_err + Operation list) \<longrightarrow> set ops' \<subseteq> K) (do { _ \<leftarrow> reconcile_all hc ops; ret (ok ()) }) anyhow"
    by (rule walks_bind [OF walks_weaken [OF walks_reconcile_all] walks_done]) auto
qed auto

lemma walks_Cancel: "walks (appl_step C hc mv lo) P (Cancel hc caller i) anyhow"
  unfolding Cancel_def
proof (rule walks_weaken [where P' = "\<lambda>_ _. True"], rule walks_check [OF walks_load [OF held_rules(1)]])
  fix op
  let ?P = "\<lambda>K J. True \<and> (\<forall>op'. ok op = (ok op' :: appl_err + Operation) \<longrightarrow> op' \<in> K \<and> o_ID op' = i \<and> ValidOperationID i)"
  have stmt: "walks (appl_step C hc mv lo) ?P (db_stmt (cancel_update (o_ID op))) (\<lambda>_. ?P)"
    by (rule walks_one) (rule appl_step.cancel)
  have sub: "walks (appl_step C hc mv lo) ?P (cancel_submitted hc caller op) anyhow"
  proof (cases "ValidOperationID (o_ID op)")
    case True
    then show ?thesis by (rule walks_cancel_submitted)
  next
    case False
    then show ?thesis by (auto simp: walks_def)
  qed
  have before: "walks (appl_step C hc mv lo) ?P (do { _ \<leftarrow> audit e; reload (o_ID op) }) anyhow" for e
    by (rule walks_then [OF walks_audit walks_reload])
  show "walks (appl_step C hc mv lo) ?P (if o_State op = StateCancelled then ret (ok op)
     else if Terminal (o_State op) then ret (err (ErrOperationState (o_State op)))
     else if o_SubmittedAt op = None then
       check ADb (db_stmt (cancel_update (o_ID op))) (\<lambda>n.
       if n \<noteq> 1 then ret (err (ErrOperationState ''''))
       else do {
         _ \<leftarrow> audit \<lparr>ae_OperationID = o_ID op, ae_Event = AuditCancel, ae_Actor = Some caller, ae_OldState = o_State op,
                ae_NewState = StateCancelled, ae_Detail = no_detail\<lparr>ad_Type := o_Type op, ad_Reason := CodeCancelledByUser\<rparr>\<rparr>;
         reload (o_ID op) })
     else cancel_submitted hc caller op) anyhow"
    by (intro walks_if walks_done sub walks_check_then [OF stmt] before)
qed auto

end


text \<open>The calls of the HTTP handlers and of the reconciler, and what one of them does to the system.\<close>

datatype appl_call =
    CallPlan "string option" Caller string string PlanRequest
  | CallGet Caller string
  | CallList Caller ListFilter
  | CallCanAuthorize Caller string
  | CallDenied Caller string string
  | CallAuthorize "string option" Caller string
  | CallSubmit Caller string string string
  | CallReconcile Caller string
  | CallReconcileActive
  | CallCancel Caller string

fun call_ok :: "appl_call \<Rightarrow> bool" where
  "call_ok (CallPlan rnd caller key requestID req) = rnd_ok 10 rnd"
| "call_ok _ = True"

fun serve :: "crypto \<Rightarrow> 'w HostClient \<Rightarrow> appl_call \<Rightarrow> ('w, 'x) appliance_db_scheme \<Rightarrow> ('w, 'x) appliance_db_scheme" where
  "serve C hc (CallPlan rnd caller key requestID req) s = snd (run_state (PlanOperation C hc rnd caller key requestID req) s)"
| "serve C hc (CallGet caller i) s = snd (run_state (GetOperation caller i) s)"
| "serve C hc (CallList caller f) s = snd (run_state (ListOperations caller f) s)"
| "serve C hc (CallCanAuthorize caller i) s = snd (run_state (CanAuthorize caller i) s)"
| "serve C hc (CallDenied caller i reason) s = snd (run_state (AuthorizationDenied caller i reason) s)"
| "serve C hc (CallAuthorize rnd caller i) s = snd (run_state (Authorize C rnd caller i) s)"
| "serve C hc (CallSubmit caller i hash challenge) s = snd (run_state (Submit C hc caller i hash challenge) s)"
| "serve C hc (CallReconcile caller i) s = snd (run_state (Reconcile hc caller i) s)"
| "serve C hc CallReconcileActive s = snd (run_state (ReconcileActive hc) s)"
| "serve C hc (CallCancel caller i) s = snd (run_state (Cancel hc caller i) s)"

lemma walks_run: "walks R (\<lambda>_ _. True) m anyhow \<Longrightarrow> \<exists>K' J'. R\<^sup>*\<^sup>* (s, K, J) (snd (run_state m s), K', J')"
  unfolding walks_def by (metis prod.collapse)

lemma call_steps:
  assumes "host_adapter hc kn st mv lo" and "call_ok call"
  shows "\<exists>K' J'. (appl_step C hc mv lo)\<^sup>*\<^sup>* (s, K, J) (serve C hc call s, K', J')"
  using assms(2)
  by (cases call)
    (simp_all add: walks_run walks_PlanOperation walks_GetOperation walks_ListOperations walks_CanAuthorize walks_AuthorizationDenied walks_Authorize walks_Submit
      host_adapter.walks_Reconcile [OF assms(1)] host_adapter.walks_ReconcileActive [OF assms(1)] host_adapter.walks_Cancel [OF assms(1)])

text \<open>
  C25. The service refines the step system: whatever call is served, in whatever state and with whatever failures, is a
  sequence of its steps.  So every state the service reaches from a fresh installation by any sequence of calls
  is one of the states the safety theorems speak about.
\<close>

theorem served_calls_are_steps:
  assumes "host_adapter hc kn st mv lo" and "fresh_appliance kn st s" and "list_all call_ok calls"
  shows "\<exists>K J. appl_reach C hc kn st mv lo (fold (serve C hc) calls s, K, J)"
  using assms(3)
proof (induction calls rule: rev_induct)
  case Nil
  have "appl_reach C hc kn st mv lo (s, {}, {})" by (rule appl_reach.start [OF assms(2)])
  then show ?case by auto
next
  case (snoc call calls)
  then obtain K J where r: "appl_reach C hc kn st mv lo (fold (serve C hc) calls s, K, J)" by auto
  from snoc have "call_ok call" by simp
  from call_steps [OF assms(1) this, of C "fold (serve C hc) calls s" K J] obtain K' J' where
    "(appl_step C hc mv lo)\<^sup>*\<^sup>* (fold (serve C hc) calls s, K, J) (serve C hc call (fold (serve C hc) calls s), K', J')" by blast
  from reach_steps [OF this r] show ?case by auto
qed

theorem served_calls_are_steps_witness:
  "\<exists>K J. demo_reach (fold (serve demo_crypto demo_client)
     [CallPlan (Some ''zzzzzzzzzz'') demo_caller ''idempotency-key-1'' ''req-1'' reset_request, CallAuthorize (Some ''0123456789abcdef'') demo_caller reset_id,
      CallReconcileActive, CallCancel demo_caller reset_id] reset_db, K, J)"
  by (rule served_calls_are_steps [OF fixture.host_adapter_axioms])
    (simp_all add: rnd_ok_def fresh_appliance_def reset_db_def reset_world_def New_def fx_started_def fx_known_def)

end
