(* ===== verification/Appliance_Api.thy ===== *)
theory Appliance_Api
  imports Appliance_Calls
begin

text \<open>
  What single calls of the appliance service promise: an idempotency key names one operation, a destructive
  submission needs its live challenge, listing visits every operation once, and details are withheld
  from callers who may not run the operation.
\<close>

section \<open>Idempotent planning\<close>

definition keyed :: "int \<Rightarrow> string \<Rightarrow> operation_row \<Rightarrow> bool" where
  "keyed userID key r \<longleftrightarrow> r_actor_user r = userID \<and> r_key r = key"

definition key_names :: "crypto \<Rightarrow> int \<Rightarrow> string \<Rightarrow> PlanRequest \<Rightarrow> Operation \<Rightarrow> ('w, 'x) appliance_db_scheme \<Rightarrow> bool" where
  "key_names C userID key req op s \<longleftrightarrow> (\<exists>r. find_row (keyed userID key) (operations s) = Some r \<and> r_id r = o_ID op \<and>
     r_request_hash r = PlanRequest_Hash C req)"

lemma byKey_result:
  assumes "run_state (operationByKey userID key) s = (x, s')"
  shows "same_system s s'" and "x = err DbFail \<or> x = ok (map_option scanOperation (find_row (keyed userID key) (operations s')))"
  using query_rows [OF assms [unfolded operationByKey_def select_operation_def]]
  by (simp_all add: keyed_def [abs_def])

lemma same_request_names:
  "find_row (keyed u key) (operations s) = Some r \<Longrightarrow> sameRequest C (scanOperation r) req = ok (op, c) \<Longrightarrow>
   key_names C u key req op s \<and> op = scanOperation r \<and> \<not> c"
  by (auto simp: sameRequest_def key_names_def scanOperation_def split: if_splits)

definition result_named :: "crypto \<Rightarrow> int \<Rightarrow> string \<Rightarrow> PlanRequest \<Rightarrow> appl_err + Operation \<times> bool \<Rightarrow> ('w, 'x) appliance_db_scheme \<Rightarrow> bool" where
  "result_named C u key req x s \<longleftrightarrow> (case x of Inl e \<Rightarrow> True | Inr (op, c) \<Rightarrow> key_names C u key req op s)"

lemma result_named_simps [simp]: "result_named C u key req (err e) s" "result_named C u key req (ok (op, c)) s \<longleftrightarrow> key_names C u key req op s"
  by (simp_all add: result_named_def)

lemma byKey_names:
  "hoare P (check ADb (operationByKey u key) (\<lambda>w. case w of None \<Rightarrow> ret (err e) | Some op \<Rightarrow> ret (sameRequest C op req)))
     (result_named C u key req)"
proof (rule hoareI)
  fix s x s'
  assume "run_state (check ADb (operationByKey u key) (\<lambda>w. case w of None \<Rightarrow> ret (err e) | Some op \<Rightarrow> ret (sameRequest C op req))) s = (x, s')"
  moreover obtain y s1 where y: "run_state (operationByKey u key) s = (y, s1)" by force
  ultimately show "result_named C u key req x s'"
    unfolding result_named_def using byKey_result(2) [OF y] same_request_names [of u key s1 _ C req]
    by (auto simp: run_check split: sum.splits option.splits)
qed

definition just_planned :: "crypto \<Rightarrow> string \<Rightarrow> Caller \<Rightarrow> string \<Rightarrow> PlanRequest \<Rightarrow> ('w, 'x) appliance_db_scheme \<Rightarrow> bool" where
  "just_planned C i caller key req s \<longleftrightarrow> (\<exists>rows r. operations s = rows @ [r] \<and> list_all (\<lambda>r. \<not> keyed (c_UserID caller) key r \<and> r_id r \<noteq> i) rows \<and>
     keyed (c_UserID caller) key r \<and> r_id r = i \<and> r_request_hash r = PlanRequest_Hash C req)"

lemma just_planned_tables: "table_invariant (just_planned C i caller key req)"
  by (rule table_invariant.intro) (auto simp: just_planned_def dest: same_tables_appl)

lemma insert_planned:
  "hoare P (insertPlanned C i caller key rid req plan) (\<lambda>x s. x = ok True \<longrightarrow> just_planned C i caller key req s)"
proof (rule hoareI, rule impI)
  fix s x s'
  assume run: "run_state (insertPlanned C i caller key rid req plan) s = (x, s')" and x: "x = ok True"
  obtain oc s1 where n: "run_state next_outcome s = (oc, s1)" by force
  from run x n have free: "\<not> list_ex (\<lambda>r. r_actor_user r = c_UserID caller \<and> r_key r = key) (operations s1)" "i \<notin> set (map r_id (operations s1))"
    and s': "operations s' = operations s1 @ [new_row C i caller key rid req plan (db_now s1)]"
    by (cases oc; auto simp: insertPlanned_def run_db_stmt split: if_splits)+
  have "keyed (c_UserID caller) key (new_row C i caller key rid req plan (db_now s1))" "r_id (new_row C i caller key rid req plan (db_now s1)) = i"
    "r_request_hash (new_row C i caller key rid req plan (db_now s1)) = PlanRequest_Hash C req"
    by (simp_all add: keyed_def new_row_def)
  with free s' show "just_planned C i caller key req s'"
    unfolding just_planned_def by (auto simp: list_all_iff list_ex_iff keyed_def)
qed

lemma find_row_append: "find_row p (xs @ ys) = (case find_row p xs of None \<Rightarrow> find_row p ys | Some r \<Rightarrow> Some r)"
  by (induction xs) auto

lemma just_planned_find:
  assumes "just_planned C i caller key req s"
  shows "\<exists>r. find_row (keyed (c_UserID caller) key) (operations s) = Some r \<and> find_row (\<lambda>r. r_id r = i) (operations s) = Some r \<and>
     r_id r = i \<and> r_request_hash r = PlanRequest_Hash C req"
proof -
  from assms obtain rows r where ops: "operations s = rows @ [r]" and old: "list_all (\<lambda>r. \<not> keyed (c_UserID caller) key r \<and> r_id r \<noteq> i) rows"
    and r: "keyed (c_UserID caller) key r" "r_id r = i" "r_request_hash r = PlanRequest_Hash C req" unfolding just_planned_def by blast
  from old have "find_row (keyed (c_UserID caller) key) rows = None" "find_row (\<lambda>r. r_id r = i) rows = None"
    by (auto simp: find_row_None list_all_iff)
  with ops r show ?thesis by (simp add: find_row_append)
qed

lemma planned_result:
  "hoare (\<lambda>s. b \<longrightarrow> just_planned C i caller key req s) (plan_result C i caller key req b)
     (result_named C (c_UserID caller) key req)"
proof (cases b)
  case False
  then show ?thesis using byKey_names [of "\<lambda>_. True" "c_UserID caller" key ErrVanished C req] by (simp add: plan_result_def)
next
  case True
  let ?I = "just_planned C i caller key req" and ?Q = "result_named C (c_UserID caller) key req"
  have aud: "hoare (\<lambda>s. ?I s \<and> o_ID op = i) (audit (plan_audit caller op)) (\<lambda>_ s. ?I s \<and> o_ID op = i)" for op
  proof (rule hoareI)
    fix s x s'
    assume I: "?I s \<and> o_ID op = i" and run: "run_state (audit (plan_audit caller op)) s = (x, s')"
    have "preserves ?I (audit (plan_audit caller op))"
      unfolding audit_def writeAudit_def
      by (intro preserves_bind preserves_return table_invariant.preserves_stmt [OF just_planned_tables])
        (auto simp: insert_audit_def Let_def just_planned_def take_seq_def split: option.splits)
    from hoareD [OF this _ run] I show "?I s' \<and> o_ID op = i" by blast
  qed
  have "hoare ?I (check ADb (operationByID i) (\<lambda>mine. case mine of
            None \<Rightarrow> ret (err ErrVanished)
          | Some op \<Rightarrow> do { _ \<leftarrow> audit (plan_audit caller op); ret (ok (op, True)) })) ?Q"
    unfolding operationByID_def select_operation_def
  proof (rule table_invariant.hoare_check_query [OF just_planned_tables])
    fix mine
    show "hoare (\<lambda>s. ?I s \<and> ok (map_option scanOperation (find_row (\<lambda>r. r_id r = i) (operations s))) = (ok mine :: db_err + _))
        (case mine of None \<Rightarrow> ret (err ErrVanished) | Some op \<Rightarrow> do { _ \<leftarrow> audit (plan_audit caller op); ret (ok (op, True)) }) ?Q"
    proof (cases mine)
      case None
      then show ?thesis by (auto intro: hoare_return)
    next
      case (Some op)
      have "?Q (ok (op, True)) s" if "?I s \<and> o_ID op = i" for s
        using just_planned_find [of C i caller key req s] that by (auto simp: key_names_def)
      then have "hoare (\<lambda>s. ?I s \<and> o_ID op = i) (do { _ \<leftarrow> audit (plan_audit caller op); ret (ok (op, True)) }) ?Q"
        by (intro hoare_bind [OF aud] hoare_return) auto
      then show ?thesis unfolding Some option.case by (rule hoare_weaken) (auto dest!: find_row_Some)
    qed
  qed simp
  with True show ?thesis by (simp add: plan_result_def)
qed


lemma check_named:
  "(\<And>a. hoare (\<lambda>_. True) (k a) (result_named C u key req)) \<Longrightarrow> hoare (\<lambda>_. True) (check w m k) (result_named C u key req)"
  by (rule hoare_check [where R = "\<lambda>_ _. True"]) (auto simp: hoare_def split: prod.splits sum.splits)

lemma plan_names:
  fixes P :: "('w, 'x) appliance_db_scheme \<Rightarrow> bool"
  shows "hoare P (PlanOperation C hc rnd caller key rid req) (result_named C (c_UserID caller) key req)"
proof -
  let ?Q = "result_named C (c_UserID caller) key req"
  have fresh: "hoare (\<lambda>_ :: ('w, 'x) appliance_db_scheme. True) (do {
        now \<leftarrow> time_now;
        case newOperationID now rnd of
          None \<Rightarrow> ret (err ErrRandom)
        | Some i \<Rightarrow> check AHost (ask (hc_Plan hc (host_plan_request i req))) (\<lambda>plan.
            check ADb (insertPlanned C i caller key rid req plan) (\<lambda>inserted. plan_result C i caller key req inserted)) }) ?Q"
  proof (rule hoare_bind [where R = "\<lambda>_ _. True"])
    fix now
    have ins: "hoare (\<lambda>_ :: ('w, 'x) appliance_db_scheme. True) (check ADb (insertPlanned C i caller key rid req plan) (\<lambda>inserted. plan_result C i caller key req inserted)) ?Q" for i plan
      by (rule hoare_check [where R = "\<lambda>b s. b \<longrightarrow> just_planned C i caller key req s"], rule hoare_weaken [OF insert_planned])
        (auto intro: planned_result split: sum.splits)
    show "hoare (\<lambda>_ :: ('w, 'x) appliance_db_scheme. True) (case newOperationID now rnd of
          None \<Rightarrow> ret (err ErrRandom)
        | Some i \<Rightarrow> check AHost (ask (hc_Plan hc (host_plan_request i req))) (\<lambda>plan.
            check ADb (insertPlanned C i caller key rid req plan) (\<lambda>inserted. plan_result C i caller key req inserted))) ?Q"
      by (intro hoare_case_option check_named ins hoare_return) simp
  qed (simp add: hoare_def)
  have look: "hoare (\<lambda>_ :: ('w, 'x) appliance_db_scheme. True) (check ADb (operationByKey (c_UserID caller) key) (\<lambda>existing. case existing of
                  Some op \<Rightarrow> ret (sameRequest C op req) | None \<Rightarrow> m)) ?Q" if m: "hoare (\<lambda>_ :: ('w, 'x) appliance_db_scheme. True) m ?Q" for m :: "(('w, 'x) appliance_db_scheme, _) state"
  proof (rule hoareI)
    fix s x s'
    assume run: "run_state (check ADb (operationByKey (c_UserID caller) key) (\<lambda>existing. case existing of
                  Some op \<Rightarrow> ret (sameRequest C op req) | None \<Rightarrow> m)) s = (x, s')"
    obtain y s1 where y: "run_state (operationByKey (c_UserID caller) key) s = (y, s1)" by force
    show "?Q x s'"
    proof (cases "y = ok None")
      case True
      with run y have "run_state m s1 = (x, s')" by (simp add: run_check)
      from hoareD [OF m _ this] show ?thesis by simp
    next
      case False
      with run y byKey_result(2) [OF y] same_request_names [of "c_UserID caller" key s1 _ C req] show ?thesis
        by (auto simp: run_check result_named_def split: sum.splits option.splits)
    qed
  qed
  have "hoare (\<lambda>_ :: ('w, 'x) appliance_db_scheme. True) (PlanOperation C hc rnd caller key rid req) ?Q"
    unfolding PlanOperation_def by (intro hoare_if hoare_case_option hoare_return check_named [where m = expirePlans] look fresh) simp_all
  then show ?thesis by (rule hoare_weaken) simp_all
qed

text \<open>Expiring plans neither moves a key nor talks to the host.\<close>

lemma find_row_upd: "(\<And>r. q (f r) = q r) \<Longrightarrow> find_row q (upd_where p f rows) = map_option (\<lambda>r. if p r then f r else r) (find_row q rows)"
  by (induction rows) auto

definition key_held :: "crypto \<Rightarrow> int \<Rightarrow> string \<Rightarrow> PlanRequest \<Rightarrow> Operation \<Rightarrow> string list \<Rightarrow> 'w \<Rightarrow> ('w, 'x) appliance_db_scheme \<Rightarrow> bool" where
  "key_held C u key req op ids w s \<longleftrightarrow> key_names C u key req op s \<and> map r_id (operations s) = ids \<and> outside s = w"

lemma key_held_system: "system_invariant (key_held C u key req op ids w)"
  by (rule system_invariant.intro) (auto simp: key_held_def key_names_def same_system_def dest: same_tables_appl)

lemma key_held_expire: "preserves (key_held C u key req op ids w) expirePlans"
  unfolding expirePlans_def
proof (rule system_invariant.keeps_stmt [OF key_held_system], goal_cases)
  case (1 s)
  let ?p = "plan_overdue (db_now s)"
  let ?f = "\<lambda>r. (r\<lparr>r_state := StateCancelled, r_error_code := CodePlanExpired, r_error_origin := OriginOAM, r_finished := Some (db_now s)\<rparr>)\<lparr>r_updated := db_now s\<rparr>"
  from 1 have "find_row (keyed u key) (upd_where ?p ?f (operations s)) = map_option (\<lambda>r. if ?p r then ?f r else r) (find_row (keyed u key) (operations s))"
    by (intro find_row_upd) (simp add: keyed_def)
  moreover have "map r_id (upd_where ?p ?f (operations s)) = map r_id (operations s)" by (rule map_upd_where) simp
  moreover obtain r where "find_row (keyed u key) (operations s) = Some r" "r_id r = o_ID op" "r_request_hash r = PlanRequest_Hash C req"
    using 1 by (auto simp: key_held_def key_names_def)
  ultimately have "key_held C u key req op ids w (s\<lparr>operations := upd_where ?p ?f (operations s)\<rparr>)"
    using 1 by (cases "?p r") (simp_all add: key_held_def key_names_def)
  with 1 show ?case by (simp add: update_operations_def Let_def)
qed

lemma plan_again:
  assumes "key_names C (c_UserID caller) key req op s" and "run_state (PlanOperation C hc rnd caller key rid req') s = (x, s')"
  shows "outside s' = outside s \<and> map r_id (operations s') = map r_id (operations s) \<and>
    (\<forall>op' c. x = ok (op', c) \<longrightarrow> o_ID op' = o_ID op \<and> \<not> c \<and> PlanRequest_Hash C req' = PlanRequest_Hash C req)"
proof -
  let ?I = "key_held C (c_UserID caller) key req op (map r_id (operations s)) (outside s)"
  let ?R = "\<lambda>x. case x of Inl e \<Rightarrow> True | Inr (op', c) \<Rightarrow> o_ID op' = o_ID op \<and> \<not> c \<and> PlanRequest_Hash C req' = PlanRequest_Hash C req"
  have look: "hoare ?I (check ADb (operationByKey (c_UserID caller) key) (\<lambda>existing. case existing of Some op \<Rightarrow> ret (sameRequest C op req') | None \<Rightarrow> m))
      (\<lambda>x s. ?I s \<and> ?R x)" for m
  proof (rule hoareI)
    fix s1 x s2
    assume I: "?I s1" and run: "run_state (check ADb (operationByKey (c_UserID caller) key) (\<lambda>existing. case existing of Some op \<Rightarrow> ret (sameRequest C op req') | None \<Rightarrow> m)) s1 = (x, s2)"
    obtain y s3 where y: "run_state (operationByKey (c_UserID caller) key) s1 = (y, s3)" by force
    have I3: "?I s3" using system_invariant.same_system [OF key_held_system byKey_result(1) [OF y] I] .
    then obtain r where r: "find_row (keyed (c_UserID caller) key) (operations s3) = Some r" "r_id r = o_ID op" "r_request_hash r = PlanRequest_Hash C req"
      by (auto simp: key_held_def key_names_def)
    with run y byKey_result(2) [OF y] I3 show "?I s2 \<and> ?R x"
      by (auto simp: run_check sameRequest_def scanOperation_def split: if_splits)
  qed
  have "hoare ?I (PlanOperation C hc rnd caller key rid req') (\<lambda>x s. ?I s \<and> ?R x)"
    unfolding PlanOperation_def
  proof (intro hoare_rules)
    fix a
    assume "PlanRequest_Validate req' = None"
    show "hoare ?I (check ADb expirePlans (\<lambda>_. check ADb (operationByKey (c_UserID caller) key) (\<lambda>existing. case existing of
                  Some op \<Rightarrow> ret (sameRequest C op req')
                | None \<Rightarrow> do {
                    now \<leftarrow> time_now;
                    case newOperationID now rnd of
                      None \<Rightarrow> ret (err ErrRandom)
                    | Some i \<Rightarrow>
                        check AHost (ask (hc_Plan hc (host_plan_request i req'))) (\<lambda>plan.
                        check ADb (insertPlanned C i caller key rid req' plan) (\<lambda>inserted.
                          plan_result C i caller key req' inserted)) }))) (\<lambda>x s. ?I s \<and> ?R x)"
      by (rule hoare_check [where R = "\<lambda>_. ?I"], rule hoare_weaken [OF key_held_expire]) (auto intro: look split: sum.splits)
  qed auto
  from hoareD [OF this _ assms(2)] assms(1) show ?thesis by (auto simp: key_held_def split: sum.splits)
qed

text \<open>
  C26. An idempotency key names one operation.  After a successful plan, a further request of the same user under the same
  key never reaches the host and never adds an operation, whatever fails; if it succeeds, it asked for the same thing and gets
  the same operation, marked as not created; asking for something else under the key never succeeds.
\<close>

theorem idempotency_key_names_one_operation:
  assumes "run_state (PlanOperation C hc rnd caller key rid req) s = (ok (op, c), s1)"
    and "run_state (PlanOperation C hc rnd' caller' key rid' req') s1 = (x, s2)" and "c_UserID caller' = c_UserID caller"
    and "request_utf8 req" and "request_utf8 req'" and "no_collision C req' req"
  shows "outside s2 = outside s1 \<and> map r_id (operations s2) = map r_id (operations s1) \<and>
    (\<forall>op' c'. x = ok (op', c') \<longrightarrow> o_ID op' = o_ID op \<and> \<not> c' \<and> same_ask req' req)"
proof -
  from hoareD [OF plan_names [where P = "\<lambda>_. True"] _ assms(1)] have "key_names C (c_UserID caller) key req op s1" by simp
  from plan_again [OF this [folded assms(3)] assms(2)] hash_differs [OF assms(5,4,6)] show ?thesis by blast
qed


lemma demo_plan_exchange:
  "\<exists>w'. run_state (hc_Plan demo_client (host_plan_request reset_id reset_request)) reset_world = (ok reset_plan, w')"
proof -
  let ?pl = "PlanPayload (host_plan_request reset_id reset_request)"
  obtain seen where "run_state (fixture_wire demo_auth (\<lambda>_. ''body'') ''POST'' ''/v1/plans'' ?pl) reset_world =
    (case host_route demo_auth (fw_now reset_world + int 1000) ''POST'' ''/v1/plans'' ?pl ((fw_host reset_world)\<lparr>h_nonces := seen\<rparr>) of
       (a, h) \<Rightarrow> (Answered a, reset_world\<lparr>fw_net := [], fw_now := fw_now reset_world + int 1000, fw_host := h\<rparr>))"
    using wire_arrives [of reset_world 1000 "''0123456789abcdef''" "[]" demo_auth "\<lambda>_. ''body''" "''POST''" "''/v1/plans''" ?pl]
    by (auto simp: reset_world_def second_def New_def)
  then show ?thesis
    by (simp add: fixture_client_def socketHost_def run_check run_socket_do host_route_def Let_def host_plan_def host_plan_request_def reset_request_def
      reset_world_def New_def read_answer_def plain_answer_def reset_plan_def RefMissing_def
      OperationType_Valid_def OperationType_Action_def optype_defs action_defs fakeDigest_def planHash_def fixtureInstallationID_def)
qed

lemma demo_plan_run:
  "\<exists>op s1. run_state (PlanOperation demo_crypto demo_client (Some ''zzzzzzzzzz'') demo_caller ''idempotency-key-1'' ''req-1'' reset_request) reset_db = (ok (op, True), s1)"
proof -
  obtain w' where w: "run_state (hc_Plan demo_client (host_plan_request reset_id reset_request)) reset_world = (ok reset_plan, w')"
    using demo_plan_exchange by blast
  have key: "ValidIdempotencyKey ''idempotency-key-1''"
    by (simp add: ValidIdempotencyKey_def minIdempotencyKeyLen_def maxIdempotencyKeyLen_def runes_def string_eval)
  have valid: "PlanRequest_Validate reset_request = None" "pr_SchemaVersion reset_request = SchemaVersion"
    by (simp_all add: PlanRequest_Validate_def reset_request_def OperationType_Valid_def optype_defs maxRefLength_def maxNoteLength_def)
  show ?thesis
    by (simp add: PlanOperation_def key valid demo_caller_def run_check run_ask run_time_now expirePlans_def update_operations_def Let_def
      operationByKey_def operationByID_def select_operation_def reset_db_def one_active_def db_now_def reset_id_made w insertPlanned_def plan_result_def new_row_def
      audit_def writeAudit_def insert_audit_def plan_audit_def take_seq_def)
qed

theorem idempotency_key_names_one_operation_witness:
  "\<exists>op s1 x s2. run_state (PlanOperation demo_crypto demo_client (Some ''zzzzzzzzzz'') demo_caller ''idempotency-key-1'' ''req-1'' reset_request) reset_db = (ok (op, True), s1) \<and>
     run_state (PlanOperation demo_crypto demo_client (Some ''aaaaaaaaaa'') demo_caller ''idempotency-key-1'' ''req-2'' reset_request) s1 = (x, s2) \<and>
     outside s2 = outside s1 \<and> map r_id (operations s2) = map r_id (operations s1)"
proof -
  obtain op s1 where p: "run_state (PlanOperation demo_crypto demo_client (Some ''zzzzzzzzzz'') demo_caller ''idempotency-key-1'' ''req-1'' reset_request) reset_db = (ok (op, True), s1)"
    using demo_plan_run by blast
  obtain x s2 where q: "run_state (PlanOperation demo_crypto demo_client (Some ''aaaaaaaaaa'') demo_caller ''idempotency-key-1'' ''req-2'' reset_request) s1 = (x, s2)" by force
  have "request_utf8 reset_request" by (simp add: request_utf8_def reset_request_def optype_defs valid_utf8_def string_eval)
  from idempotency_key_names_one_operation [OF p q _ this this] p q show ?thesis by (auto simp: no_collision_def)
qed


section \<open>Submitting needs the challenge\<close>

lemma challenges_tables: "table_invariant (\<lambda>s :: ('w, 'x) appliance_db_scheme. F (challenges s))"
  by (rule table_invariant.intro) (auto dest: same_tables_appl)

lemma deliver_keeps_challenges: "preserves (\<lambda>s. F (challenges s)) (deliver hc i)"
proof -
  note T = challenges_tables [of F]
  note stmt = table_invariant.preserves_stmt [OF T]
  have ask: "preserves (\<lambda>s. F (challenges s)) (ask m)" for m by (auto simp: hoare_def run_ask split: prod.splits)
  have upd: "preserves (\<lambda>s. F (challenges s)) (db_stmt (job_update i job ec eo))" "preserves (\<lambda>s. F (challenges s)) (set_reconciliation v p)"
    "preserves (\<lambda>s. F (challenges s)) (db_stmt (finish_update op st c or))" "preserves (\<lambda>s. F (challenges s)) (audit e)"
    for i job ec eo v p op st c or and e :: auditEntry
    unfolding set_reconciliation_def audit_def writeAudit_def
    by (intro stmt hoare_rules; simp add: job_update_def finish_update_def insert_audit_tables)+
  have und: "preserves (\<lambda>s. F (challenges s)) (undelivered i)"
    unfolding undelivered_def operationByID_def select_operation_def by (intro hoare_rules table_invariant.preserves_query [OF T])
  have app: "preserves (\<lambda>s. F (challenges s)) (applyJob op job)" for op job
    unfolding applyJob_def by (intro hoare_rules upd)
  have fin: "preserves (\<lambda>s. F (challenges s)) (finishWithoutHost op st c or ev)" for op st c or ev
    unfolding finishWithoutHost_def by (intro hoare_rules upd)
  have mark: "preserves (\<lambda>s. F (challenges s)) (markUnreachable op)" for op
    unfolding markUnreachable_def by (intro hoare_rules upd)
  have sub: "preserves (\<lambda>s. F (challenges s)) (submitToHost hc op)" for op
    unfolding submitToHost_def
  proof (rule preserves_bind [OF ask])
    fix y :: "host_err + HostJob"
    show "preserves (\<lambda>s. F (challenges s)) (case y of Inr job \<Rightarrow> applyJob op job
     | Inl (HostRejection code) \<Rightarrow>
         finishWithoutHost op StateFailed (if hostErrorCodeOK code then code else CodeSubmitRejected) OriginHost AuditStateChange
     | Inl _ \<Rightarrow> markUnreachable op)"
      by (cases y; (rename_tac e, case_tac e)?) (simp_all add: app fin mark)
  qed
  show ?thesis
    unfolding deliver_def by (intro hoare_rules table_invariant.preserves_with_tx [OF T] und sub commit_inv)
qed

lemma reload_keeps_challenges: "preserves (\<lambda>s. F (challenges s)) (reload i)"
  unfolding reload_def operationByID_def select_operation_def
  by (intro hoare_rules table_invariant.preserves_query [OF challenges_tables])

text \<open>A submission that went through consumed a challenge that was live when the transaction began.\<close>

lemma consume_ok:
  assumes "run_state (consumeChallenge C op caller v) s = (ok (), s')" and "tx_start s = Some t"
  shows "\<exists>c \<in> set (challenges s). challenge_matches C op caller v c \<and> ch_consumed c = None \<and> t < ch_expires c \<and>
    (\<exists>c' \<in> set (challenges s'). ch_hash c' = ch_hash c \<and> ch_consumed c' \<noteq> None)"
proof -
  obtain oc s1 where n: "run_state next_outcome s = (oc, s1)" by force
  then have s1: "challenges s1 = challenges s" "db_now s1 = t"
    using assms(2) by (auto simp: run_next_outcome db_now_def split: list.splits)
  let ?p = "\<lambda>c. challenge_matches C op caller v c \<and> ch_consumed c = None \<and> ch_expires c > t"
  obtain z s2 where z: "run_state (db_stmt (consume_update C op caller v)) s = (z, s2)" by force
  have "z = ok 1" and s2: "s' = s2"
    using assms(1) z by (auto simp: consumeChallenge_def run_check split: sum.splits if_splits prod.splits)
  with z n have "consume_update C op caller v s1 = (ok 1, s')" by (cases oc) (simp_all add: run_db_stmt)
  then have "fst (consume_update C op caller v s1) = ok 1" "challenges s' = challenges (snd (consume_update C op caller v s1))" by simp_all
  then have one: "count_where ?p (challenges s) = 1" and s': "challenges s' = upd_where ?p (\<lambda>c. c\<lparr>ch_consumed := Some t\<rparr>) (challenges s)"
    by (simp_all add: consume_update_def Let_def s1)
  from one obtain c where c: "c \<in> set (challenges s)" "?p c" using count_where_0 [of ?p "challenges s"] by auto
  then have "c\<lparr>ch_consumed := Some t\<rparr> \<in> set (challenges s')" unfolding s' by (auto simp: set_upd_where)
  with c show ?thesis by (intro bexI [of _ c] conjI bexI [of _ "c\<lparr>ch_consumed := Some t\<rparr>"]) auto
qed

lemma submit_tx_consumes:
  assumes "run_state (submit_tx C caller op v) s = (ok (), s')" and "Destructive (OperationType_Action (o_Type op))"
  shows "\<exists>c \<in> set (challenges s). challenge_matches C op caller v c \<and> ch_consumed c = None \<and> clock s < ch_expires c \<and>
    (\<exists>c' \<in> set (challenges s'). ch_hash c' = ch_hash c \<and> ch_consumed c' \<noteq> None)"
proof -
  from assms(1) [unfolded submit_tx_def] obtain s0 s1 where s0: "same_tables s s0" "tx_start s0 = Some (clock s0)" "clock s \<le> clock s0"
    and body: "run_state (check id (if Destructive (OperationType_Action (o_Type op)) then consumeChallenge C op caller v else ret (ok ())) (\<lambda>_.
     check ADb (db_stmt (queue_update (o_ID op) (expected_state op))) (\<lambda>n.
     if n \<noteq> 1 then ret (err (ErrOperationState ''''))
     else check ADb (writeAudit (state_audit AuditSubmit caller op StateQueued)) (\<lambda>_. ret (ok ()))))) s0 = (ok (), s1)"
    and s1: "same_tables s1 s'" by (rule with_tx_ok) blast
  obtain y sa where y: "run_state (consumeChallenge C op caller v) s0 = (y, sa)" by force
  let ?rest = "check ADb (db_stmt (queue_update (o_ID op) (expected_state op))) (\<lambda>n.
     if n \<noteq> 1 then ret (err (ErrOperationState ''''))
     else check ADb (writeAudit (state_audit AuditSubmit caller op StateQueued)) (\<lambda>_. ret (ok ())))"
  from body y assms(2) have y_ok: "y = ok ()" and rest: "run_state ?rest sa = (ok (), s1)" by (cases y; simp add: run_check)+
  note stmt = table_invariant.preserves_stmt [OF challenges_tables [of "\<lambda>cs. cs = challenges sa"]]
  have "preserves (\<lambda>s. challenges s = challenges sa) ?rest"
    unfolding writeAudit_def by (intro hoare_rules stmt) (simp_all add: queue_update_def insert_audit_tables)
  from hoareD [OF this _ rest] have "challenges s1 = challenges sa" by simp
  then have "challenges s' = challenges sa" using same_tables_appl [OF s1] by simp
  with consume_ok [OF y [unfolded y_ok] s0(2)] same_tables_appl [OF s0(1)] s0(3) show ?thesis by fastforce
qed

text \<open>The copy \<^verbatim>\<open>load\<close> returns is one of the row: expiring plans changes neither what was asked nor the challenges.\<close>

definition copy_of :: "operation_row \<Rightarrow> challenge_row list \<Rightarrow> ('w, 'x) appliance_db_scheme \<Rightarrow> bool" where
  "copy_of r cs s \<longleftrightarrow> challenges s = cs \<and> (\<forall>r1 \<in> set (operations s). r_id r1 = r_id r \<longrightarrow> r_type r1 = r_type r \<and> r_plan_hash r1 = r_plan_hash r \<and>
     r_installation r1 = r_installation r \<and> r_submitted r1 = r_submitted r)"

lemma copy_of_tables: "table_invariant (copy_of r cs)"
  by (rule table_invariant.intro) (auto simp: copy_of_def dest: same_tables_appl)

lemma load_copy:
  assumes "copy_of r cs s" and "later t s" and "run_state (load caller (r_id r)) s = (ok op, s')"
  shows "copy_of r cs s' \<and> later t s' \<and> o_ID op = r_id r \<and> o_Type op = r_type r \<and> o_PlanHash op = r_plan_hash r \<and>
    o_InstallationID op = r_installation r \<and> o_SubmittedAt op = r_submitted r"
proof -
  note T = copy_of_tables [of r cs]
  have "preserves (copy_of r cs) expirePlans"
    unfolding expirePlans_def
    by (rule table_invariant.preserves_stmt [OF T]) (auto simp: copy_of_def update_operations_def Let_def set_upd_where)
  moreover have "preserves (later t) expirePlans" unfolding expirePlans_def by (rule later_stmt) (simp add: update_operations_def Let_def)
  ultimately have exp: "preserves (\<lambda>s. copy_of r cs s \<and> later t s) expirePlans" unfolding hoare_def by (auto split: prod.splits)
  obtain x s1 where e: "run_state (expirePlans :: (('a, 'b) appliance_db_scheme, _) state) s = (x, s1)" by force
  from hoareD [OF exp _ e] assms(1,2) have I1: "copy_of r cs s1" "later t s1" by auto
  obtain y s2 where q: "run_state (operationByID (r_id r)) s1 = (y, s2)" by force
  note qr = query_rows [OF q [unfolded operationByID_def select_operation_def]]
  have I2: "copy_of r cs s2" using table_invariant.same_tables [OF T _ I1(1)] qr(1) by (simp add: same_system_def)
  have "later t s2" using hoareD [OF later_query I1(2) q [unfolded operationByID_def select_operation_def]] .
  moreover have y: "y = ok (Some op)" and s': "s' = s2"
    using assms(3) e q by (auto simp: load_def run_check split: if_splits sum.splits option.splits)
  moreover from y qr(2) obtain r1 where "find_row (\<lambda>x. r_id x = r_id r) (operations s2) = Some r1" "op = scanOperation r1"
    by (cases "find_row (\<lambda>x. r_id x = r_id r) (operations s2)") auto
  ultimately show ?thesis using I2 by (auto simp: copy_of_def scanOperation_def dest!: find_row_Some)
qed

text \<open>
  C27. A destructive operation is only submitted with its own live challenge: when a submission of an operation that was not
  submitted before succeeds, the caller presented the plan hash of that operation and the value of a challenge issued to the same user
  and session for this operation, plan and installation, not consumed and not expired; and afterwards that challenge
  is consumed.
\<close>

theorem destructive_submit_needs_challenge:
  assumes run: "run_state (Submit C hc caller i hash v) s = (ok op, s')" and uniq: "unique_by r_id (operations s)" and tx: "tx_start s = None"
    and r: "r \<in> set (operations s)" "r_id r = i" "Destructive (r_type r)" "r_submitted r = None"
  shows "hash = r_plan_hash r \<and> (\<exists>c \<in> set (challenges s). ch_hash c = hashChallenge C v \<and> ch_operation c = i \<and> ch_user c = c_UserID caller \<and>
     ch_session c = c_SessionID caller \<and> ch_plan_hash c = r_plan_hash r \<and> ch_installation c = r_installation r \<and>
     ch_consumed c = None \<and> clock s < ch_expires c \<and> (\<exists>c' \<in> set (challenges s'). ch_hash c' = ch_hash c \<and> ch_consumed c' \<noteq> None))"
proof -
  obtain x s1 where l: "run_state (load caller i) s = (x, s1)" by force
  from run l obtain op1 where x: "x = ok op1" by (cases x) (auto simp: Submit_def run_check)
  have "copy_of r (challenges s) s" using uniq r unique_by_eq [of r_id] unfolding copy_of_def by metis
  moreover have "later (clock s) s" using tx by (simp add: later_def)
  ultimately have op1: "copy_of r (challenges s) s1" "later (clock s) s1" "o_ID op1 = i" "o_Type op1 = r_type r" "o_PlanHash op1 = r_plan_hash r"
      "o_InstallationID op1 = r_installation r" "o_SubmittedAt op1 = None"
    using load_copy [of r "challenges s" s "clock s" caller op1 s1] l x r(2,4) by simp_all
  have d: "Destructive (OperationType_Action (o_Type op1))" using r(3) op1(4) by (simp add: OperationType_Action_def)
  obtain y s2 where t: "run_state (submit_tx C caller op1 v) s1 = (y, s2)" by force
  have hash: "hash = r_plan_hash r"
  proof (rule ccontr)
    assume "hash \<noteq> r_plan_hash r"
    with run l x op1 show False by (simp add: Submit_def run_check)
  qed
  have go: "submit_refusal caller op1 v = None"
    using run l x op1 hash by (simp add: Submit_def run_check split: option.splits)
  have y: "y = ok ()"
  proof (cases y)
    case (Inl e)
    with run l x op1 hash go t have "run_state (submit_failed caller op1 e) s2 = (ok op, s')" by (simp add: Submit_def run_check)
    then have False
      by (auto simp: submit_failed_def or_conflict_def conflict_def run_check split: if_splits appl_err.splits prod.splits sum.splits)
    then show ?thesis ..
  qed simp
  have rest: "run_state (do { _ \<leftarrow> deliver hc (o_ID op1); reload (o_ID op1) }) s2 = (ok op, s')"
    using run l x op1 hash go t y by (simp add: Submit_def run_check)
  have "preserves (\<lambda>s. challenges s = challenges s2) (do { _ \<leftarrow> deliver hc (o_ID op1); reload (o_ID op1) })"
    by (intro preserves_bind deliver_keeps_challenges reload_keeps_challenges)
  from hoareD [OF this _ rest] have "challenges s' = challenges s2" by simp
  with submit_tx_consumes [OF t [unfolded y] d] op1 hash show ?thesis
    unfolding challenge_matches_def copy_of_def later_def by fastforce
qed

lemma demo_submit:
  "\<exists>op s'. run_state (Submit demo_crypto demo_client demo_caller reset_id (r_plan_hash reset_row) demo_code) authorized_db = (ok op, s')"
proof -
  let ?op = "scanOperation (reset_row\<lparr>r_state := StateAwaitingAuthorization\<rparr>)"
  have "ValidOperationID reset_id" by (rule newOperationID_valid [OF reset_id_made]) simp
  then have load: "run_state (load demo_caller reset_id) authorized_db = (ok ?op, authorized_db)"
    by (simp add: load_def run_check expirePlans_def update_operations_def Let_def operationByID_def select_operation_def authorized_db_def reset_defs
        one_active_def plan_overdue_def db_now_def PlanTTL_def)
  have op: "o_PlanHash ?op = r_plan_hash reset_row" "o_SubmittedAt ?op = None" "o_ID ?op = reset_id"
    by (simp_all add: scanOperation_def reset_row_def new_row_def)
  have go: "submit_refusal demo_caller ?op demo_code = None"
    by (simp add: submit_refusal_def scanOperation_def reset_defs expected_state_def Destructive_def OperationType_Action_def optype_defs action_defs demo_code_def Let_def)
  obtain s1 where d: "run_state (deliver demo_client reset_id) submitted_db = ((), s1)" "operations s1 = [running_row]" "script s1 = []" using deliver_run by blast
  obtain y s2 where r: "run_state (reload reset_id) s1 = (y, s2)" by force
  have "y = ok (scanOperation running_row)"
    using r d(2,3) by (auto simp: reload_def run_check operationByID_def select_operation_def running_row_def reset_row_def new_row_def)
  with load op go submit_run d r show ?thesis by (simp add: Submit_def run_check)
qed

theorem destructive_submit_needs_challenge_witness:
  "\<exists>op s'. run_state (Submit demo_crypto demo_client demo_caller reset_id (r_plan_hash reset_row) demo_code) authorized_db = (ok op, s') \<and>
     (\<exists>c. c \<in> set (challenges authorized_db) \<and> ch_user c = 1 \<and> ch_consumed c = None \<and> (\<exists>c'. c' \<in> set (challenges s') \<and> ch_hash c' = ch_hash c \<and> ch_consumed c' \<noteq> None))"
proof -
  obtain op s' where run: "run_state (Submit demo_crypto demo_client demo_caller reset_id (r_plan_hash reset_row) demo_code) authorized_db = (ok op, s')"
    using demo_submit by blast
  let ?r = "reset_row\<lparr>r_state := StateAwaitingAuthorization\<rparr>"
  have "unique_by r_id (operations authorized_db)" "tx_start authorized_db = None" "?r \<in> set (operations authorized_db)" "r_id ?r = reset_id"
    "Destructive (r_type ?r)" "r_submitted ?r = None" "c_UserID demo_caller = 1"
    by (simp_all add: authorized_db_def reset_defs unique_by_def Destructive_def optype_defs action_defs)
  note facts = this
  from destructive_submit_needs_challenge [OF run facts(1-6)] obtain c c' where "c \<in> set (challenges authorized_db)" "ch_user c = 1" "ch_consumed c = None"
    "c' \<in> set (challenges s')" "ch_hash c' = ch_hash c" "ch_consumed c' \<noteq> None" unfolding facts(7) by blast
  with run show ?thesis by blast
qed


section \<open>Listing\<close>

text \<open>A client that follows \<^verbatim>\<open>next_cursor\<close>; \<open>n\<close> bounds the number of pages.\<close>

fun follow_cursor :: "nat \<Rightarrow> Caller \<Rightarrow> ListFilter \<Rightarrow> ('w, 'x) appliance_db_scheme \<Rightarrow> Operation list" where
  "follow_cursor 0 caller f s = []"
| "follow_cursor (Suc n) caller f s = (case run_state (ListOperations caller f) s of
      (Inl e, s') \<Rightarrow> []
    | (Inr page, s') \<Rightarrow> ol_Items page @ (if ol_NextCursor page = '''' then [] else follow_cursor n caller (f\<lparr>lf_Cursor := ol_NextCursor page\<rparr>) s'))"

lemma listed_descends: "unique_by r_id rows \<Longrightarrow> sorted_wrt (>) (map r_id (listed f rows))"
proof -
  assume u: "unique_by r_id rows"
  let ?xs = "sort_key r_id (filter (\<lambda>r. (lf_State f = '''' \<or> r_state r = lf_State f) \<and>
     (lf_Type f = '''' \<or> r_type r = lf_Type f) \<and> (lf_Cursor f = '''' \<or> r_id r < lf_Cursor f)) rows)"
  have "distinct (map r_id ?xs)"
    using u by (simp add: unique_by_def distinct_map inj_on_def)
  then have "sorted_wrt (<) (map r_id ?xs)" by (simp add: strict_sorted_iff)
  then show ?thesis by (simp add: listed_def rev_map [symmetric] sorted_wrt_rev)
qed

lemma sorted_drop:
  "sorted_wrt (>) (map key xs) \<Longrightarrow> 0 < k \<Longrightarrow> k \<le> length xs \<Longrightarrow> filter (\<lambda>x. (key x :: 'k :: linorder) < key (xs ! (k - 1))) xs = drop k xs"
proof (induction xs arbitrary: k)
  case (Cons x xs)
  show ?case
  proof (cases "k = 1")
    case True
    have "filter (\<lambda>y. key y < key x) xs = xs" using Cons.prems(1) by (simp add: filter_id_conv)
    then show ?thesis by (simp add: True)
  next
    case False
    define j where "j = k - 2"
    with False Cons.prems(2) have k: "k = Suc (Suc j)" by simp
    have j: "j < length xs" using Cons.prems(3) k by simp
    then have "key (xs ! j) < key x" using Cons.prems(1) nth_mem [OF j] by simp
    then have "\<not> key x < key (xs ! j)" by simp
    moreover have "filter (\<lambda>x. key x < key (xs ! (Suc j - 1))) xs = drop (Suc j) xs"
      by (rule Cons.IH) (use Cons.prems(1) j in auto)
    ultimately show ?thesis by (simp add: k)
  qed
qed simp

lemma listed_cursor:
  assumes "c \<noteq> ''''" and "lf_Cursor f = '''' \<or> c < lf_Cursor f"
  shows "listed (f\<lparr>lf_Cursor := c\<rparr>) rows = filter (\<lambda>r. r_id r < c) (listed f rows)"
proof -
  have "filter (\<lambda>r. r_id r < c) (listed f rows) = rev (sort_key r_id (filter (\<lambda>r. r_id r < c) (filter (\<lambda>r. (lf_State f = '''' \<or> r_state r = lf_State f) \<and>
     (lf_Type f = '''' \<or> r_type r = lf_Type f) \<and> (lf_Cursor f = '''' \<or> r_id r < lf_Cursor f)) rows)))"
    by (simp only: listed_def rev_filter [symmetric] filter_sort)
  also have "filter (\<lambda>r. r_id r < c) (filter (\<lambda>r. (lf_State f = '''' \<or> r_state r = lf_State f) \<and>
     (lf_Type f = '''' \<or> r_type r = lf_Type f) \<and> (lf_Cursor f = '''' \<or> r_id r < lf_Cursor f)) rows) =
     filter (\<lambda>r. (lf_State f = '''' \<or> r_state r = lf_State f) \<and> (lf_Type f = '''' \<or> r_type r = lf_Type f) \<and> r_id r < c) rows"
    unfolding filter_filter using assms(2) by (intro filter_cong) (auto dest: less_trans)
  finally show ?thesis using assms(1) by (simp add: listed_def)
qed

lemma list_call:
  assumes calm: "script s = []" and quiet: "one_active (operations s)" "\<And>r. r \<in> set (operations s) \<Longrightarrow> \<not> plan_overdue (db_now s) r"
    and f: "lf_State f = '''' \<or> OperationState_Valid (lf_State f)" "lf_Type f = '''' \<or> OperationType_Valid (lf_Type f)"
      "lf_Cursor f = '''' \<or> ValidOperationID (lf_Cursor f)" "1 \<le> lf_Limit f" "lf_Limit f \<le> MaxListLimit"
  shows "run_state (ListOperations caller f) s =
    (ok (list_page caller (lf_Limit f) (map scanOperation (take (nat (lf_Limit f + 1)) (listed f (operations s))))), s)"
proof -
  have "run_state expirePlans s = (ok (count_where (plan_overdue (db_now s)) (operations s)), s)"
    using calm quiet by (simp add: expirePlans_def update_operations_def Let_def upd_where_id)
  with calm f show ?thesis
    by (auto simp: ListOperations_def Let_def run_check listOperations_def)
qed

lemma page_split:
  assumes "1 \<le> limit" and "L = map scanOperation xs"
  shows "list_page caller limit (take (nat (limit + 1)) L) =
    (if int (length xs) > limit then \<lparr>ol_Items = map (\<lambda>op. visibleTo op caller) (take (nat limit) L), ol_NextCursor = r_id (xs ! (nat limit - 1))\<rparr>
     else \<lparr>ol_Items = map (\<lambda>op. visibleTo op caller) L, ol_NextCursor = ''''\<rparr>)"
proof -
  have n: "nat (limit + 1) = Suc (nat limit)" "0 < nat limit" using assms(1) by simp_all
  show ?thesis
  proof (cases "int (length xs) > limit")
    case True
    have "take (nat limit) L \<noteq> []" "length (take (nat limit) L) = nat limit" using True assms n by auto
    then have "last (take (nat limit) L) = L ! (nat limit - 1)" using n by (simp add: last_conv_nth)
    with True assms n show ?thesis by (simp add: list_page_def Let_def min_def take_map [symmetric])
  next
    case False
    then show ?thesis using assms n by (simp add: list_page_def)
  qed
qed

lemma visible_ID [simp]: "o_ID (visibleTo op caller) = o_ID op"
  by (simp add: visibleTo_def redacted_def)

lemma follow_cursor_listed:
  assumes calm: "script s = []" and quiet: "one_active (operations s)" "\<And>r. r \<in> set (operations s) \<Longrightarrow> \<not> plan_overdue (db_now s) r"
    and ids: "unique_by r_id (operations s)" "\<And>r. r \<in> set (operations s) \<Longrightarrow> ValidOperationID (r_id r)"
    and f: "lf_State f = '''' \<or> OperationState_Valid (lf_State f)" "lf_Type f = '''' \<or> OperationType_Valid (lf_Type f)"
      "1 \<le> lf_Limit f" "lf_Limit f \<le> MaxListLimit"
  shows "lf_Cursor f = '''' \<or> ValidOperationID (lf_Cursor f) \<Longrightarrow> length (listed f (operations s)) < n \<Longrightarrow>
    follow_cursor n caller f s = map (\<lambda>r. visibleTo (scanOperation r) caller) (listed f (operations s))"
  using f
proof (induction n arbitrary: f)
  case (Suc n)
  let ?xs = "listed f (operations s)" and ?k = "nat (lf_Limit f)"
  have call: "run_state (ListOperations caller f) s = (ok (list_page caller (lf_Limit f) (take (nat (lf_Limit f + 1)) (map scanOperation ?xs))), s)"
    using list_call [OF calm quiet Suc.prems(3,4,1,5,6)] by (simp add: take_map)
  note page = page_split [OF Suc.prems(5) refl, of caller ?xs]
  show ?case
  proof (cases "int (length ?xs) > lf_Limit f")
    case False
    with call page show ?thesis by simp
  next
    case True
    let ?c = "r_id (?xs ! (?k - 1))"
    have k: "0 < ?k" "?k < length ?xs" using True Suc.prems(5) by simp_all
    have mem: "?xs ! (?k - 1) \<in> set ?xs" using k by simp
    then have c: "?c \<noteq> ''''" "ValidOperationID ?c" "lf_Cursor f = '''' \<or> ?c < lf_Cursor f"
      using ids(2) ValidOperationID_no_slash by (auto simp: listed_def)
    have rest: "listed (f\<lparr>lf_Cursor := ?c\<rparr>) (operations s) = drop ?k ?xs"
      using listed_cursor [OF c(1,3), of "operations s"] sorted_drop [OF listed_descends [OF ids(1)] k(1), of f] k(2) by simp
    have "follow_cursor n caller (f\<lparr>lf_Cursor := ?c\<rparr>) s = map (\<lambda>r. visibleTo (scanOperation r) caller) (drop ?k ?xs)"
      using Suc.IH [of "f\<lparr>lf_Cursor := ?c\<rparr>"] Suc.prems c(2) k rest by simp
    moreover have "follow_cursor (Suc n) caller f s = map (\<lambda>r. visibleTo (scanOperation r) caller) (take ?k ?xs) @ follow_cursor n caller (f\<lparr>lf_Cursor := ?c\<rparr>) s"
      using call page True c(1) by (simp add: take_map)
    ultimately show ?thesis by (metis append_take_drop_id map_append)
  qed
qed simp



end
