(* ===== verification/Migrate.thy ===== *)
theory Migrate
  imports Db Password Json
begin

text \<open>
  Schema migrations (\<^verbatim>\<open>internal/migrate/migrate.go\<close>): loading the numbered migrations, comparing them with the
  recorded history, and bringing a database up to date.  The schema itself is a value of an arbitrary type
  \<open>'c\<close>; running a SQL script on it and looking for a table are the fields of \<open>postgres\<close>.  The migration scripts do not touch
  \<^verbatim>\<open>schema_migrations\<close>.  An advisory lock serializes concurrent starters, so runs do not overlap.
\<close>

section \<open>The database\<close>

record 'c postgres =
  sql_exec :: "string \<Rightarrow> 'c \<Rightarrow> db_err + 'c"
  has_table :: "'c \<Rightarrow> string \<Rightarrow> bool"

record schema_migration =
  sm_version :: int
  sm_name :: string
  sm_checksum :: string
  sm_adopted :: bool
  sm_applied_at :: int

record ('w, 'c) migrate_db = "'w db_base" +
  content :: 'c
  schema_migrations :: "schema_migration list option"

record Migration =
  mg_Version :: int
  mg_Name :: string
  mg_SQL :: string
  mg_Checksum :: string

datatype migrate_err =
    ErrSchemaNewer int int | ErrChecksumMismatch int string | ErrPending int int | ErrNotInitialized | ErrHistoryCorrupt int int
  | ErrNoMigrations | ErrIndex | MDb db_err

section \<open>Loading\<close>

definition checksum :: "crypto \<Rightarrow> string \<Rightarrow> string" where
  "checksum C sql = hex_encode (sha256_sum C sql)"

text \<open>\<^verbatim>\<open>^(\\d{4})_([a-z0-9]+(?:_[a-z0-9]+)*)\\.sql$\<close>\<close>

definition lower_or_digit :: "char \<Rightarrow> bool" where
  "lower_or_digit c \<longleftrightarrow> in_range 97 122 (byte c) \<or> in_range 48 57 (byte c)"

definition file_name :: "string \<Rightarrow> (int \<times> string) option" where
  "file_name n =
     (let stem = trim_suffix n ''.sql''; digits = take 4 stem; rest = drop 4 stem; name = drop 1 rest in
      if has_suffix n ''.sql'' \<and> length digits = 4 \<and> list_all is_digit digits \<and> take 1 rest = ''_'' \<and>
         list_all (\<lambda>w. w \<noteq> '''' \<and> list_all lower_or_digit w) (split_on CHR ''_'' name)
      then map_option (\<lambda>v. (int v, name)) (digits_val 0 digits) else None)"

datatype load_err = EmptyBaseline | ReadMigrations | MalformedName string | ReadMigration string | EmptyMigration string | VersionGap int string int

text \<open>A directory entry: its name, whether it is a directory, and its body unless reading it fails.\<close>

type_synonym dir_entry = "string \<times> bool \<times> string option"

fun load_files :: "crypto \<Rightarrow> dir_entry list \<Rightarrow> load_err + Migration list" where
  "load_files C [] = ok []"
| "load_files C ((name, isDir, body) # es) =
     (if isDir \<or> \<not> has_suffix name ''.sql'' then load_files C es
      else (case file_name name of
          None \<Rightarrow> err (MalformedName name)
        | Some (version, stem) \<Rightarrow>
            (case body of
               None \<Rightarrow> err (ReadMigration name)
             | Some sql \<Rightarrow>
                 if trim_space sql = '''' then err (EmptyMigration name)
                 else (case load_files C es of
                     Inl e \<Rightarrow> err e
                   | Inr ms \<Rightarrow> ok (\<lparr>mg_Version = version, mg_Name = stem, mg_SQL = sql, mg_Checksum = checksum C sql\<rparr> # ms)))))"

fun check_versions :: "int \<Rightarrow> Migration list \<Rightarrow> load_err option" where
  "check_versions want [] = None"
| "check_versions want (m # ms) = (if mg_Version m \<noteq> want then Some (VersionGap (mg_Version m) (mg_Name m) want) else check_versions (want + 1) ms)"

definition Load :: "crypto \<Rightarrow> int \<Rightarrow> string \<Rightarrow> dir_entry list option \<Rightarrow> load_err + Migration list" where
  "Load C baselineVersion baselineSQL entries =
     (if trim_space baselineSQL = '''' then err EmptyBaseline
      else (case entries of
          None \<Rightarrow> err ReadMigrations
        | Some es \<Rightarrow>
            (case load_files C es of
               Inl e \<Rightarrow> err e
             | Inr files \<Rightarrow>
                 (let migrations = sort_key mg_Version (\<lparr>mg_Version = baselineVersion, mg_Name = ''baseline'', mg_SQL = baselineSQL,
                         mg_Checksum = checksum C baselineSQL\<rparr> # files) in
                  case check_versions baselineVersion migrations of Some e \<Rightarrow> err e | None \<Rightarrow> ok migrations))))"

section \<open>What is pending\<close>

record applied =
  ap_Version :: int
  ap_Checksum :: string

text \<open>The loop of \<^verbatim>\<open>pending\<close>.  Indexing past the end panics in Go; here it is \<open>ErrIndex\<close>.\<close>

fun pending_loop :: "applied list \<Rightarrow> Migration list \<Rightarrow> int \<Rightarrow> nat \<Rightarrow> applied list \<Rightarrow> migrate_err option" where
  "pending_loop hist migrations latest i [] = None"
| "pending_loop hist migrations latest i (row # rows) =
     (let first = mg_Version (migrations ! 0) in
      if ap_Version row \<noteq> first + int i then Some (ErrHistoryCorrupt (ap_Version row) (first + int i))
      else if ap_Version row > latest then Some (ErrSchemaNewer (ap_Version (last hist)) latest)
      else if i \<ge> length migrations then Some ErrIndex
      else if ap_Checksum row \<noteq> mg_Checksum (migrations ! i)
      then Some (ErrChecksumMismatch (mg_Version (migrations ! i)) (mg_Name (migrations ! i)))
      else pending_loop hist migrations latest (i + 1) rows)"

definition pending :: "applied list \<Rightarrow> Migration list \<Rightarrow> migrate_err + Migration list" where
  "pending hist migrations =
     (if migrations = [] then err ErrIndex
      else (case pending_loop hist migrations (mg_Version (last migrations)) 0 hist of
          Some e \<Rightarrow> err e
        | None \<Rightarrow> if length hist > length migrations then err ErrIndex else ok (drop (length hist) migrations)))"

section \<open>Running\<close>

datatype Mode = ModeAuto | ModeCheck | ModeOff

definition ModeFromEnv :: "(string \<Rightarrow> string) \<Rightarrow> string \<Rightarrow> Mode option" where
  "ModeFromEnv uni value =
     (let v = to_lower uni (trim_space value) in
      if v = '''' then Some ModeAuto
      else if v = ''auto'' then Some ModeAuto else if v = ''check'' then Some ModeCheck else if v = ''off'' then Some ModeOff else None)"

record MigrateStatus =
  ms_Mode :: Mode
  ms_Version :: int
  ms_Latest :: int
  ms_Applied :: "int list"
  ms_Adopted :: bool

type_synonym ('w, 'c, 'x) migrate_m = "(('w, 'c, 'x) migrate_db_scheme, MigrateStatus \<times> migrate_err option) state"

definition tableExists :: "'c postgres \<Rightarrow> string \<Rightarrow> (('w, 'c, 'x) migrate_db_scheme, db_err + bool) state" where
  "tableExists PG name = db_query (\<lambda>s. ok (if name = ''schema_migrations'' then schema_migrations s \<noteq> None else has_table PG (content s) name))"

definition readHistory :: "(('w, 'c, 'x) migrate_db_scheme, db_err + applied list) state" where
  "readHistory = db_query (\<lambda>s. case schema_migrations s of
      None \<Rightarrow> err DbFail
    | Some rows \<Rightarrow> ok (map (\<lambda>r. \<lparr>ap_Version = sm_version r, ap_Checksum = sm_checksum r\<rparr>) (sort_key sm_version rows)))"

definition record_row :: "bool \<Rightarrow> Migration \<Rightarrow> ('w, 'c, 'x) migrate_db_scheme \<Rightarrow> (db_err + unit) \<times> ('w, 'c, 'x) migrate_db_scheme" where
  "record_row adopted m s = (case schema_migrations s of
      None \<Rightarrow> (err DbFail, s)
    | Some rows \<Rightarrow>
        if mg_Version m \<in> set (map sm_version rows) then (err (UniqueViolation ''schema_migrations_pkey''), s)
        else (ok (), s\<lparr>schema_migrations := Some (rows @
          [\<lparr>sm_version = mg_Version m, sm_name = mg_Name m, sm_checksum = mg_Checksum m, sm_adopted = adopted, sm_applied_at = db_now s\<rparr>])\<rparr>))"

definition run_script :: "'c postgres \<Rightarrow> string \<Rightarrow> ('w, 'c, 'x) migrate_db_scheme \<Rightarrow> (db_err + unit) \<times> ('w, 'c, 'x) migrate_db_scheme" where
  "run_script PG sql s = (case sql_exec PG sql (content s) of Inl e \<Rightarrow> (err e, s) | Inr c \<Rightarrow> (ok (), s\<lparr>content := c\<rparr>))"

definition applyOne :: "'c postgres \<Rightarrow> Migration \<Rightarrow> (('w, 'c, 'x) migrate_db_scheme, migrate_err + unit) state" where
  "applyOne PG m = with_tx MDb MDb (
     Prelude.check MDb (db_stmt (run_script PG (mg_SQL m))) (\<lambda>_.
     Prelude.check MDb (db_stmt (record_row False m)) (\<lambda>_. ret (ok ()))))"

fun apply_all :: "'c postgres \<Rightarrow> Migration list \<Rightarrow> MigrateStatus \<Rightarrow> ('w, 'c, 'x) migrate_m" where
  "apply_all PG [] status = ret (status, None)"
| "apply_all PG (m # ms) status = do {
     r \<leftarrow> applyOne PG m;
     case r of
       Inl e \<Rightarrow> ret (status, Some e)
     | Inr _ \<Rightarrow> apply_all PG ms (status\<lparr>ms_Version := mg_Version m, ms_Applied := ms_Applied status @ [mg_Version m]\<rparr>) }"

text \<open>After the history is known: validate it and apply the rest.\<close>

definition bring_up :: "'c postgres \<Rightarrow> Migration list \<Rightarrow> applied list \<Rightarrow> MigrateStatus \<Rightarrow> ('w, 'c, 'x) migrate_m" where
  "bring_up PG migrations hist status = (case pending hist migrations of
      Inl e \<Rightarrow> ret (status, Some e)
    | Inr todo \<Rightarrow> apply_all PG todo (if hist \<noteq> [] then status\<lparr>ms_Version := ap_Version (last hist)\<rparr> else status))"

definition adopt :: "'c postgres \<Rightarrow> Migration list \<Rightarrow> MigrateStatus \<Rightarrow> ('w, 'c, 'x) migrate_m" where
  "adopt PG migrations status = do {
     b \<leftarrow> tableExists PG ''users'';
     case b of
       Inl e \<Rightarrow> ret (status, Some (MDb e))
     | Inr hasBaseline \<Rightarrow>
         if hasBaseline then do {
           r \<leftarrow> db_stmt (record_row True (migrations ! 0));
           case r of
             Inl e \<Rightarrow> ret (status, Some (MDb e))
           | Inr _ \<Rightarrow> bring_up PG migrations [\<lparr>ap_Version = mg_Version (migrations ! 0), ap_Checksum = mg_Checksum (migrations ! 0)\<rparr>] (status\<lparr>ms_Adopted := True\<rparr>) }
         else bring_up PG migrations [] status }"

definition apply_locked :: "'c postgres \<Rightarrow> Migration list \<Rightarrow> MigrateStatus \<Rightarrow> ('w, 'c, 'x) migrate_m" where
  "apply_locked PG migrations status = do {
     c \<leftarrow> db_stmt (\<lambda>s. (ok (), s\<lparr>schema_migrations := Some (case schema_migrations s of None \<Rightarrow> [] | Some rows \<Rightarrow> rows)\<rparr>));
     case c of
       Inl e \<Rightarrow> ret (status, Some (MDb e))
     | Inr _ \<Rightarrow> do {
         h \<leftarrow> readHistory;
         case h of
           Inl e \<Rightarrow> ret (status, Some (MDb e))
         | Inr hist \<Rightarrow> if hist = [] then adopt PG migrations status else bring_up PG migrations hist status } }"

text \<open>\<^verbatim>\<open>apply\<close>: a connection, the lock, the work, and the deferred unlock whose failure is ignored.\<close>

definition migrate_apply :: "'c postgres \<Rightarrow> Migration list \<Rightarrow> MigrateStatus \<Rightarrow> ('w, 'c, 'x) migrate_m" where
  "migrate_apply PG migrations status = do {
     conn \<leftarrow> db_query (\<lambda>_. ok ());
     case conn of
       Inl e \<Rightarrow> ret (status, Some (MDb e))
     | Inr _ \<Rightarrow> do {
         lock \<leftarrow> db_query (\<lambda>_. ok ());
         case lock of
           Inl e \<Rightarrow> ret (status, Some (MDb e))
         | Inr _ \<Rightarrow> do {
             r \<leftarrow> apply_locked PG migrations status;
             _ \<leftarrow> db_query (\<lambda>_. ok ());
             ret r } } }"

definition check_history :: "Migration list \<Rightarrow> applied list \<Rightarrow> MigrateStatus \<Rightarrow> MigrateStatus \<times> migrate_err option" where
  "check_history migrations hist status = (case pending hist migrations of
      Inl e \<Rightarrow> (status, Some e)
    | Inr todo \<Rightarrow>
        (let status = status\<lparr>ms_Version := ap_Version (last hist)\<rparr> in
         (status, if todo \<noteq> [] then Some (ErrPending (ms_Version status) (ms_Latest status)) else None)))"

text \<open>\<^verbatim>\<open>check\<close>: reads only.\<close>

definition migrate_check :: "'c postgres \<Rightarrow> Migration list \<Rightarrow> MigrateStatus \<Rightarrow> ('w, 'c, 'x) migrate_m" where
  "migrate_check PG migrations status = do {
     t \<leftarrow> tableExists PG ''schema_migrations'';
     case t of
       Inl e \<Rightarrow> ret (status, Some (MDb e))
     | Inr tracked \<Rightarrow> do {
         h \<leftarrow> (if tracked then readHistory else ret (ok []));
         case h of
           Inl e \<Rightarrow> ret (status, Some (MDb e))
         | Inr hist \<Rightarrow>
             if hist = [] then do {
               b \<leftarrow> tableExists PG ''users'';
               case b of
                 Inl e \<Rightarrow> ret (status, Some (MDb e))
               | Inr hasBaseline \<Rightarrow>
                   if \<not> hasBaseline then ret (status, Some ErrNotInitialized)
                   else ret (check_history migrations [\<lparr>ap_Version = mg_Version (migrations ! 0), ap_Checksum = mg_Checksum (migrations ! 0)\<rparr>] status) }
             else ret (check_history migrations hist status) } }"

definition Run :: "'c postgres \<Rightarrow> Migration list \<Rightarrow> Mode \<Rightarrow> ('w, 'c, 'x) migrate_m" where
  "Run PG migrations mode =
     (if migrations = [] then ret (\<lparr>ms_Mode = mode, ms_Version = 0, ms_Latest = 0, ms_Applied = [], ms_Adopted = False\<rparr>, Some ErrNoMigrations)
      else (let status = \<lparr>ms_Mode = mode, ms_Version = 0, ms_Latest = mg_Version (last migrations), ms_Applied = [], ms_Adopted = False\<rparr> in
        case mode of
          ModeOff \<Rightarrow> ret (status, None)
        | ModeCheck \<Rightarrow> migrate_check PG migrations status
        | ModeAuto \<Rightarrow> migrate_apply PG migrations status))"

record CurrentState =
  cs_Version :: int
  cs_Name :: string
  cs_Adopted :: bool
  cs_AppliedAt :: int

definition Current :: "'c postgres \<Rightarrow> (('w, 'c, 'x) migrate_db_scheme, db_err + CurrentState option) state" where
  "Current PG = Prelude.check id (tableExists PG ''schema_migrations'') (\<lambda>tracked.
     if \<not> tracked then ret (ok None)
     else db_query (\<lambda>s. case schema_migrations s of
         None \<Rightarrow> err DbFail
       | Some rows \<Rightarrow>
           (case rev (sort_key sm_version rows) of
              [] \<Rightarrow> ok None
            | r # _ \<Rightarrow> ok (Some \<lparr>cs_Version = sm_version r, cs_Name = sm_name r, cs_Adopted = sm_adopted r, cs_AppliedAt = sm_applied_at r\<rparr>))))"

section \<open>Contiguous lists\<close>

definition contiguous :: "int \<Rightarrow> Migration list \<Rightarrow> bool" where
  "contiguous v ms \<longleftrightarrow> (\<forall>i < length ms. mg_Version (ms ! i) = v + int i)"

lemma contiguous_Cons: "contiguous v (m # ms) \<longleftrightarrow> mg_Version m = v \<and> contiguous (v + 1) ms"
  by (auto simp: contiguous_def nth_Cons split: nat.splits)

lemma contiguous_take: "contiguous v ms \<Longrightarrow> contiguous v (take n ms)"
  by (auto simp: contiguous_def)

lemma contiguous_last: "contiguous v ms \<Longrightarrow> ms \<noteq> [] \<Longrightarrow> mg_Version (last ms) = v + int (length ms) - 1"
  by (cases "length ms") (auto simp: contiguous_def last_conv_nth)

lemma contiguous_sorted: "contiguous v ms \<Longrightarrow> sorted (map mg_Version ms)"
  by (auto simp: contiguous_def sorted_iff_nth_mono)

lemma contiguous_distinct: "contiguous v ms \<Longrightarrow> distinct (map mg_Version ms)"
  by (auto simp: contiguous_def distinct_conv_nth)

lemma check_versions_None: "check_versions v ms = None \<longleftrightarrow> contiguous v ms"
  by (induction ms arbitrary: v) (auto simp: contiguous_Cons, simp add: contiguous_def)

lemma Load_contiguous: "Load C v sql es = ok ms \<Longrightarrow> contiguous v ms \<and> ms \<noteq> []"
  by (auto simp: Load_def Let_def check_versions_None split: if_splits option.splits sum.splits dest: arg_cong [of _ _ length])

text \<open>\<^verbatim>\<open>pending\<close> accepts exactly the histories that are a prefix of the migrations.\<close>

definition mg_id :: "Migration \<Rightarrow> int \<times> string" where "mg_id m = (mg_Version m, mg_Checksum m)"
definition ap_id :: "applied \<Rightarrow> int \<times> string" where "ap_id a = (ap_Version a, ap_Checksum a)"

lemma pending_loop_None:
  assumes "contiguous v ms" and "ms \<noteq> []" and "i \<le> length ms"
  shows "pending_loop hist ms (mg_Version (last ms)) i rows = None \<longleftrightarrow>
     i + length rows \<le> length ms \<and> map ap_id rows = map mg_id (take (length rows) (drop i ms))"
  using assms(3)
proof (induction rows arbitrary: i)
  case (Cons row rows)
  have first: "mg_Version (ms ! 0) = v" and lst: "mg_Version (last ms) = v + int (length ms) - 1"
    using assms contiguous_last by (auto simp: contiguous_def)
  show ?case
  proof (cases "i < length ms")
    case True
    then have "mg_Version (ms ! i) = v + int i" and "drop i ms = ms ! i # drop (Suc i) ms"
      using assms(1) by (auto simp: contiguous_def Cons_nth_drop_Suc)
    with True first lst Cons.IH [of "Suc i"] show ?thesis by (auto simp: Let_def ap_id_def mg_id_def)
  qed (use first lst in \<open>auto simp: Let_def\<close>)
qed simp

lemma pending_loop_newer:
  assumes "contiguous v ms" and "ms \<noteq> []" and "i \<le> length ms" and "length ms < i + length rows"
    and "map ap_id rows = map mg_id (drop i all)" and "contiguous v all" and "take (length ms) all = ms"
  shows "pending_loop hist ms (mg_Version (last ms)) i rows = Some (ErrSchemaNewer (ap_Version (last hist)) (mg_Version (last ms)))"
  using assms(3-5)
proof (induction rows arbitrary: i)
  case (Cons row rows)
  have first: "mg_Version (ms ! 0) = v" and lst: "mg_Version (last ms) = v + int (length ms) - 1"
    using assms contiguous_last by (auto simp: contiguous_def)
  from Cons.prems(3) have i: "i < length all" by (cases "i < length all") auto
  then have d: "drop i all = all ! i # drop (Suc i) all" by (simp add: Cons_nth_drop_Suc)
  with Cons.prems(3) have id: "ap_id row = mg_id (all ! i)" and rest: "map ap_id rows = map mg_id (drop (Suc i) all)" by auto
  from i assms(6) have ver: "mg_Version (all ! i) = v + int i" by (simp add: contiguous_def)
  show ?case
  proof (cases "i < length ms")
    case True
    then have "ms ! i = all ! i" using assms(7) nth_take by metis
    moreover from True Cons.prems(2) rest have "pending_loop hist ms (mg_Version (last ms)) (Suc i) rows =
        Some (ErrSchemaNewer (ap_Version (last hist)) (mg_Version (last ms)))" by (intro Cons.IH) auto
    moreover from id have "ap_Version row = mg_Version (all ! i)" "ap_Checksum row = mg_Checksum (all ! i)" by (auto simp: ap_id_def mg_id_def)
    ultimately show ?thesis using True ver first lst by (simp add: Let_def)
  qed (use first lst id ver in \<open>auto simp: Let_def ap_id_def mg_id_def\<close>)
qed simp

lemma pending_prefix:
  assumes "contiguous v all" and "0 < n" and "map ap_id hist = map mg_id (take k all)" and "k \<le> length all" and "n \<le> length all"
  shows "pending hist (take n all) =
     (if k \<le> n then ok (drop k (take n all))
      else err (ErrSchemaNewer (v + int k - 1) (v + int n - 1)))"
proof -
  let ?ms = "take n all"
  from assms(2,5) have ms: "contiguous v ?ms" "?ms \<noteq> []" "length ?ms = n" using contiguous_take [OF assms(1)] by auto
  have len: "length hist = k" using arg_cong [OF assms(3), of length] assms(4) by simp
  show ?thesis
  proof (cases "k \<le> n")
    case True
    with ms len assms(3) have "pending_loop hist ?ms (mg_Version (last ?ms)) 0 hist = None"
      by (simp add: pending_loop_None [OF ms(1,2)] min_absorb1)
    with True ms len show ?thesis by (simp add: pending_def)
  next
    case False
    then have ne: "take k all \<noteq> []" "hist \<noteq> []" using len assms(4) by auto
    have lk: "mg_Version (last (take k all)) = v + int k - 1" using contiguous_last [OF contiguous_take [OF assms(1)] ne(1)] assms(4) by simp
    have ln: "mg_Version (last ?ms) = v + int n - 1" using contiguous_last [OF ms(1,2)] ms(3) by simp
    have "ap_id (last hist) = mg_id (last (take k all))" using arg_cong [OF assms(3), of last] ne by (simp add: last_map)
    then have "ap_Version (last hist) = v + int k - 1" using lk by (simp add: ap_id_def mg_id_def)
    moreover have "pending_loop hist ?ms (mg_Version (last ?ms)) 0 hist = Some (ErrSchemaNewer (ap_Version (last hist)) (mg_Version (last ?ms)))"
      by (rule pending_loop_newer [where all = "take k all"]) (use ms len False assms contiguous_take in \<open>auto simp: min_absorb1\<close>)
    ultimately show ?thesis using False ms ln by (simp add: pending_def)
  qed
qed

section \<open>The history tells what has run\<close>

text \<open>
  \<open>run_scripts\<close> is what the history promises: the scripts of the recorded versions, in order and each once,
  took the schema from where it started to where it is.  The first script is left out when the database had the baseline already.
\<close>

fun run_scripts :: "'c postgres \<Rightarrow> Migration list \<Rightarrow> 'c \<Rightarrow> db_err + 'c" where
  "run_scripts PG [] c = ok c"
| "run_scripts PG (m # ms) c = (case sql_exec PG (mg_SQL m) c of Inl e \<Rightarrow> err e | Inr c' \<Rightarrow> run_scripts PG ms c')"

lemma run_scripts_append:
  "run_scripts PG (ms @ ms') c = (case run_scripts PG ms c of Inl e \<Rightarrow> err e | Inr c' \<Rightarrow> run_scripts PG ms' c')"
  by (induction ms arbitrary: c) (auto split: sum.splits)

definition to_run :: "'c postgres \<Rightarrow> 'c \<Rightarrow> Migration list \<Rightarrow> Migration list" where
  "to_run PG c0 ms = (if has_table PG c0 ''users'' then drop 1 ms else ms)"

definition tracked_rows :: "('w, 'c, 'x) migrate_db_scheme \<Rightarrow> schema_migration list" where
  "tracked_rows s = (case schema_migrations s of None \<Rightarrow> [] | Some rows \<Rightarrow> rows)"

definition row_id :: "schema_migration \<Rightarrow> int \<times> string" where "row_id r = (sm_version r, sm_checksum r)"

definition at_version :: "'c postgres \<Rightarrow> Migration list \<Rightarrow> 'c \<Rightarrow> nat \<Rightarrow> ('w, 'c, 'x) migrate_db_scheme \<Rightarrow> bool" where
  "at_version PG all c0 k s \<longleftrightarrow> k \<le> length all \<and> map row_id (tracked_rows s) = map mg_id (take k all) \<and>
     run_scripts PG (to_run PG c0 (take k all)) c0 = ok (content s)"

definition in_step :: "'c postgres \<Rightarrow> Migration list \<Rightarrow> 'c \<Rightarrow> ('w, 'c, 'x) migrate_db_scheme \<Rightarrow> bool" where
  "in_step PG all c0 s \<longleftrightarrow> (\<exists>k. at_version PG all c0 k s)"

lemma same_tables_migrate: "same_tables s s' \<Longrightarrow> content s' = content s \<and> schema_migrations s' = schema_migrations s"
  for s :: "('w, 'c, 'x) migrate_db_scheme"
  by (cases s; cases s') (simp add: same_tables_def)

interpretation at_version: table_invariant "at_version PG all c0 k :: ('w, 'c, 'x) migrate_db_scheme \<Rightarrow> bool"
  by unfold_locales (auto simp: at_version_def tracked_rows_def dest: same_tables_migrate)

interpretation in_step: table_invariant "in_step PG all c0 :: ('w, 'c, 'x) migrate_db_scheme \<Rightarrow> bool"
  by unfold_locales (auto simp: in_step_def intro: at_version.same_tables)

lemma at_version_in_step: "at_version PG all c0 k s \<Longrightarrow> in_step PG all c0 s"
  by (auto simp: in_step_def)

lemma at_version_fresh: "schema_migrations s = None \<Longrightarrow> at_version PG all (content s) 0 s"
  by (simp add: at_version_def tracked_rows_def to_run_def)

text \<open>Rows come in the order of their versions, so the ordered history is the list of rows.\<close>

lemma history_sorted:
  assumes "contiguous v all" and "map row_id rows = map mg_id (take k all)"
  shows "sort_key sm_version rows = rows"
proof -
  have "map sm_version rows = map fst (map row_id rows)" by (simp add: row_id_def)
  also have "\<dots> = map mg_Version (take k all)" by (simp add: assms(2) mg_id_def)
  finally have "sorted (map sm_version rows)" using contiguous_sorted [OF contiguous_take [OF assms(1)]] by simp
  then show ?thesis by (rule sort_key_id_if_sorted)
qed

definition read_rows :: "('w, 'c, 'x) migrate_db_scheme \<Rightarrow> applied list" where
  "read_rows s = map (\<lambda>r. \<lparr>ap_Version = sm_version r, ap_Checksum = sm_checksum r\<rparr>) (tracked_rows s)"

lemma read_rows_ids: "at_version PG all c0 k s \<Longrightarrow> map ap_id (read_rows s) = map mg_id (take k all)"
  by (simp add: at_version_def read_rows_def ap_id_def row_id_def [abs_def] o_def)

lemma read_rows_length: "at_version PG all c0 k s \<Longrightarrow> length (read_rows s) = k"
  using arg_cong [OF read_rows_ids, of PG all c0 k s length] by (auto simp: at_version_def min_absorb1)

text \<open>One migration, and the list of those still to run.\<close>

lemma to_run_Suc:
  assumes "k < length all" and "\<not> (k = 0 \<and> has_table PG c0 ''users'')"
  shows "to_run PG c0 (take (Suc k) all) = to_run PG c0 (take k all) @ [all ! k]"
  using assms by (auto simp: to_run_def take_Suc_conv_app_nth)

lemma apply_body:
  assumes "k < length all" and "\<not> (k = 0 \<and> has_table PG c0 ''users'')" and "at_version PG all c0 k s"
    and "run_state (Prelude.check MDb (db_stmt (run_script PG (mg_SQL (all ! k)))) (\<lambda>_.
        Prelude.check MDb (db_stmt (record_row adopted (all ! k))) (\<lambda>_. ret (ok ())))) s = (ok a, s')"
  shows "at_version PG all c0 (Suc k) (s' :: ('w, 'c, 'x) migrate_db_scheme)"
proof -
  from assms(4) obtain s1 where r1: "run_state (db_stmt (run_script PG (mg_SQL (all ! k)))) s = (ok (), s1)"
    and r2: "run_state (db_stmt (record_row adopted (all ! k))) s1 = (ok (), s')"
    by (auto simp: run_check split: prod.splits sum.splits)
  from r1 obtain t where t: "same_tables s t" "run_script PG (mg_SQL (all ! k)) t = (ok (), s1)" by (rule db_stmt_ok)
  from r2 obtain u where u: "same_tables s1 u" "record_row adopted (all ! k) u = (ok (), s')" by (rule db_stmt_ok)
  from t have "sql_exec PG (mg_SQL (all ! k)) (content s) = ok (content s1)" and "schema_migrations s1 = schema_migrations s"
    by (auto simp: run_script_def split: sum.splits dest: same_tables_migrate)
  moreover from u obtain rw where "tracked_rows s' = tracked_rows s1 @ [rw]" "row_id rw = mg_id (all ! k)" "content s' = content s1"
    by (auto simp: record_row_def tracked_rows_def row_id_def mg_id_def split: option.splits if_splits dest: same_tables_migrate)
  ultimately show ?thesis using assms(3) unfolding at_version_def to_run_Suc [OF assms(1,2)] run_scripts_append
    using assms(1) by (auto simp: take_Suc_conv_app_nth tracked_rows_def)
qed

lemma applyOne_step:
  assumes "k < length all" and "\<not> (k = 0 \<and> has_table PG c0 ''users'')"
  shows "hoare (at_version PG all c0 k) (applyOne PG (all ! k) :: (('w, 'c, 'x) migrate_db_scheme, migrate_err + unit) state)
     (\<lambda>r s. case r of Inl _ \<Rightarrow> in_step PG all c0 s | Inr _ \<Rightarrow> at_version PG all c0 (Suc k) s)"
proof (rule hoareI)
  fix s :: "('w, 'c, 'x) migrate_db_scheme" and r s'
  assume at: "at_version PG all c0 k s" and run: "run_state (applyOne PG (all ! k)) s = (r, s')"
  from run [unfolded applyOne_def] show "case r of Inl _ \<Rightarrow> in_step PG all c0 s' | Inr _ \<Rightarrow> at_version PG all c0 (Suc k) s'"
  proof (cases rule: with_tx_cases)
    case (unchanged e)
    with at show ?thesis by (auto intro: at_version_in_step at_version.same_tables)
  next
    case (committed a s0 s1)
    have "at_version PG all c0 k s0" using committed(1) at by (rule at_version.same_tables)
    then have "at_version PG all c0 (Suc k) s1" using committed(3) by (rule apply_body [OF assms])
    then have "at_version PG all c0 (Suc k) s'" by (rule at_version.same_tables [OF committed(4)])
    then show ?thesis by (auto intro: at_version_in_step split: sum.splits)
  qed
qed

lemma apply_all_keeps:
  assumes "n \<le> length all" and "k = 0 \<Longrightarrow> \<not> has_table PG c0 ''users''"
  shows "hoare (at_version PG all c0 k) (apply_all PG (drop k (take n all)) status :: ('w, 'c, 'x) migrate_m) (\<lambda>_. in_step PG all c0)"
  using assms(2)
proof (induction "n - k" arbitrary: k status)
  case 0
  then show ?case by (auto intro!: hoare_return at_version_in_step)
next
  case (Suc d)
  then have k: "k < n" "k < length all" using assms(1) by auto
  then have "drop k (take n all) = all ! k # drop (Suc k) (take n all)" using assms(1) by (simp flip: Cons_nth_drop_Suc)
  moreover have "hoare (at_version PG all c0 k) (do { r \<leftarrow> applyOne PG (all ! k);
     case r of Inl e \<Rightarrow> ret (status, Some e) | Inr _ \<Rightarrow> apply_all PG (drop (Suc k) (take n all)) (st r) } :: ('w, 'c, 'x) migrate_m) (\<lambda>_. in_step PG all c0)" for st
    by (rule hoare_bind [OF applyOne_step]) (use k Suc in \<open>auto intro!: hoare_rules Suc.hyps(1) split: sum.splits\<close>)
  ultimately show ?case by simp
qed

lemma bring_up_keeps:
  assumes "contiguous v all" and "0 < n" and "n \<le> length all" and "map ap_id hist = map mg_id (take k all)"
    and "k = 0 \<Longrightarrow> \<not> has_table PG c0 ''users''"
  shows "hoare (at_version PG all c0 k) (bring_up PG (take n all) hist status :: ('w, 'c, 'x) migrate_m) (\<lambda>_. in_step PG all c0)"
proof (cases "k \<le> length all")
  case True
  show ?thesis unfolding bring_up_def pending_prefix [OF assms(1,2,4) True assms(3)]
    using apply_all_keeps [OF assms(3,5)] by (auto intro!: hoare_return at_version_in_step)
qed (simp add: at_version_def hoare_def)

lemma at_version_content0: "at_version PG all c0 0 s \<Longrightarrow> content s = c0"
  by (simp add: at_version_def to_run_def split: if_splits)

lemma hoare_exists: "(\<And>k. hoare (P k) m Q) \<Longrightarrow> hoare (\<lambda>s. \<exists>k. P k s) m Q"
  by (fastforce simp: hoare_def)

lemma record_baseline:
  assumes "0 < length all" and "has_table PG c0 ''users''"
  shows "hoare (at_version PG all c0 0) (db_stmt (record_row True (all ! 0)) :: (('w, 'c, 'x) migrate_db_scheme, db_err + unit) state)
     (\<lambda>r s. case r of Inl _ \<Rightarrow> in_step PG all c0 s | Inr _ \<Rightarrow> at_version PG all c0 1 s)"
proof (rule at_version.hoare_stmt)
  fix s :: "('w, 'c, 'x) migrate_db_scheme"
  assume at: "at_version PG all c0 0 s"
  then show "case err DbFail of Inl _ \<Rightarrow> in_step PG all c0 s | Inr _ \<Rightarrow> at_version PG all c0 1 s" by (simp add: at_version_in_step)
  have "snd (record_row True (all ! 0) s) = s \<and> (\<exists>e. fst (record_row True (all ! 0) s) = err e) \<or> at_version PG all c0 1 (snd (record_row True (all ! 0) s))"
    using assms at by (auto simp: record_row_def at_version_def tracked_rows_def to_run_def row_id_def mg_id_def take_Suc_conv_app_nth Suc_le_eq split: option.splits)
  with at show "(case fst (record_row True (all ! 0) s) of Inl _ \<Rightarrow> in_step PG all c0 (snd (record_row True (all ! 0) s))
        | Inr _ \<Rightarrow> at_version PG all c0 1 (snd (record_row True (all ! 0) s))) \<and>
      (case err DbFail of Inl _ \<Rightarrow> in_step PG all c0 (snd (record_row True (all ! 0) s)) | Inr _ \<Rightarrow> at_version PG all c0 1 (snd (record_row True (all ! 0) s)))"
    by (auto intro: at_version_in_step split: sum.splits)
qed

lemma adopt_keeps:
  assumes "contiguous v all" and "0 < n" and "n \<le> length all"
  shows "hoare (at_version PG all c0 0) (adopt PG (take n all) status :: ('w, 'c, 'x) migrate_m) (\<lambda>_. in_step PG all c0)"
  unfolding adopt_def tableExists_def
proof (rule hoare_bind [OF at_version.hoare_query], goal_cases)
  case (1 b)
  have first: "take n all ! 0 = all ! 0" and len: "0 < length all" using assms by auto
  show ?case
  proof (cases b)
    case (Inl e)
    then show ?thesis by (auto intro!: hoare_return at_version_in_step)
  next
    case (Inr hasBaseline)
    let ?K = "if hasBaseline then do { r \<leftarrow> db_stmt (record_row True (all ! 0));
        case r of Inl e \<Rightarrow> ret (status, Some (MDb e))
        | Inr _ \<Rightarrow> bring_up PG (take n all) [\<lparr>ap_Version = mg_Version (all ! 0), ap_Checksum = mg_Checksum (all ! 0)\<rparr>] (status\<lparr>ms_Adopted := True\<rparr>) }
      else bring_up PG (take n all) [] status :: ('w, 'c, 'x) migrate_m"
    have "hoare (at_version PG all c0 0) ?K (\<lambda>_. in_step PG all c0)" if b: "hasBaseline \<longleftrightarrow> has_table PG c0 ''users''"
    proof (cases hasBaseline)
      case True
      have "hoare (at_version PG all c0 1) (bring_up PG (take n all) [\<lparr>ap_Version = mg_Version (all ! 0), ap_Checksum = mg_Checksum (all ! 0)\<rparr>] st
          :: ('w, 'c, 'x) migrate_m) (\<lambda>_. in_step PG all c0)" for st
        by (rule bring_up_keeps) (use assms len in \<open>auto simp: ap_id_def mg_id_def take_Suc_conv_app_nth\<close>)
      then show ?thesis using True b len by (simp, intro hoare_bind [OF record_baseline]) (auto intro!: hoare_return split: sum.splits)
    next
      case False
      then show ?thesis using b assms by (auto intro!: bring_up_keeps)
    qed
    with Inr show ?thesis unfolding first hoare_def by (fastforce dest: at_version_content0)
  qed
qed

lemma create_history_keeps:
  "preserves (at_version PG all c0 k) (db_stmt (\<lambda>s. (ok (), s\<lparr>schema_migrations := Some (case schema_migrations s of None \<Rightarrow> [] | Some rows \<Rightarrow> rows)\<rparr>))
     :: (('w, 'c, 'x) migrate_db_scheme, db_err + unit) state)"
  by (rule at_version.preserves_stmt) (simp add: at_version_def tracked_rows_def)

lemma readHistory_rows:
  assumes "contiguous v all" and "table_invariant I" and "\<And>t. I t \<Longrightarrow> at_version PG all c0 k t"
  shows "hoare I (readHistory :: (('w, 'c, 'x) migrate_db_scheme, db_err + applied list) state)
     (\<lambda>r s. I s \<and> (\<forall>hist. r = ok hist \<longrightarrow> hist = read_rows s))"
  unfolding readHistory_def
proof (rule hoare_weaken [OF table_invariant.hoare_query [OF assms(2)]])
  fix r :: "db_err + applied list" and t
  assume r: "I t \<and> (r = err DbFail \<or> r = (case schema_migrations t of None \<Rightarrow> err DbFail
    | Some rows \<Rightarrow> ok (map (\<lambda>r. \<lparr>ap_Version = sm_version r, ap_Checksum = sm_checksum r\<rparr>) (sort_key sm_version rows))))"
  then have at: "at_version PG all c0 k t" using assms(3) by blast
  have "sort_key sm_version rows = rows" if "schema_migrations t = Some rows" for rows
    using at that history_sorted [OF assms(1)] by (simp add: at_version_def tracked_rows_def)
  with r show "I t \<and> (\<forall>hist. r = ok hist \<longrightarrow> hist = read_rows t)"
    by (auto simp: read_rows_def tracked_rows_def split: option.splits)
qed simp

lemma apply_locked_keeps:
  assumes "contiguous v all" and "0 < n" and "n \<le> length all"
  shows "preserves (in_step PG all c0) (apply_locked PG (take n all) status :: ('w, 'c, 'x) migrate_m)"
  unfolding in_step_def apply_locked_def
proof (rule hoare_exists, fold in_step_def, rule hoare_bind [OF create_history_keeps], rule hoare_case_sum, goal_cases)
  case (1 k a e)
  then show ?case by (auto intro!: hoare_return at_version_in_step)
next
  case (2 k a u)
  show ?case
  proof (rule hoare_bind [OF readHistory_rows [OF assms(1) at_version.table_invariant_axioms]], assumption, rule hoare_case_sum, goal_cases)
    case (1 h e)
    then show ?case by (auto intro!: hoare_return at_version_in_step)
  next
    case (2 h hist)
    have A: "hoare (at_version PG all c0 0) (adopt PG (take n all) status :: ('w, 'c, 'x) migrate_m) (\<lambda>_. in_step PG all c0)"
      by (rule adopt_keeps [OF assms])
    have B: "hoare (at_version PG all c0 k) (bring_up PG (take n all) hist status :: ('w, 'c, 'x) migrate_m) (\<lambda>_. in_step PG all c0)"
      if "map ap_id hist = map mg_id (take k all)" and "k \<noteq> 0" using that by (intro bring_up_keeps [OF assms]) auto
    show ?case
    proof (rule hoareI)
      fix s :: "('w, 'c, 'x) migrate_db_scheme" and r s'
      assume s: "at_version PG all c0 k s \<and> (\<forall>h'. h = ok h' \<longrightarrow> h' = read_rows s)"
        and run: "run_state (if hist = [] then adopt PG (take n all) status else bring_up PG (take n all) hist status) s = (r, s')"
      from s 2 have at: "at_version PG all c0 k s" and h: "hist = read_rows s" by auto
      show "in_step PG all c0 s'"
      proof (cases "hist = []")
        case True
        then have "k = 0" using read_rows_length [OF at] h by simp
        with True run at show ?thesis using hoareD [OF A] by simp
      next
        case False
        then have "k \<noteq> 0" using read_rows_length [OF at] h by auto
        with False run show ?thesis using hoareD [OF B at] read_rows_ids [OF at] h by simp
      qed
    qed
  qed
qed

lemma Run_keeps:
  assumes "contiguous v all"
  shows "preserves (in_step PG all c0) (Run PG (take n all) mode :: ('w, 'c, 'x) migrate_m)"
proof (cases "take n all = []")
  case False
  then have n: "0 < length (take n all)" "length (take n all) \<le> length all" "take (length (take n all)) all = take n all" by (auto simp: min_def)
  have locked: "preserves (in_step PG all c0) (apply_locked PG (take n all) st :: ('w, 'c, 'x) migrate_m)" for st
    using apply_locked_keeps [OF assms n(1,2), of PG c0 st] unfolding n(3) .
  have reads: "preserves (in_step PG all c0) (migrate_check PG (take n all) st :: ('w, 'c, 'x) migrate_m)" for st
    unfolding migrate_check_def tableExists_def readHistory_def by (intro hoare_rules in_step.preserves_query)
  from False show ?thesis unfolding Run_def Let_def migrate_apply_def
    by (cases mode; simp) (intro hoare_rules in_step.preserves_query locked reads)+
qed (simp add: Run_def preserves_return)

section \<open>A calm run reaches the newest version\<close>

lemma record_row_fresh:
  assumes "contiguous v all" and "at_version PG all c0 k s" and "k < length all" and "schema_migrations s = Some rows"
  shows "\<exists>rw. record_row adopted (all ! k) s = (ok (), s\<lparr>schema_migrations := Some (rows @ [rw])\<rparr>) \<and> row_id rw = mg_id (all ! k)"
proof -
  from assms(2,4) have "map row_id rows = map mg_id (take k all)" by (simp add: at_version_def tracked_rows_def)
  then have "map fst (map row_id rows) = map fst (map mg_id (take k all))" by simp
  then have "map sm_version rows = map mg_Version (take k all)" by (simp add: row_id_def mg_id_def o_def)
  moreover have "mg_Version (all ! k) \<notin> set (map mg_Version (take k all))"
    using assms(1,3) by (auto simp: contiguous_def in_set_conv_nth)
  ultimately show ?thesis using assms(4) by (auto simp: record_row_def row_id_def mg_id_def)
qed

lemma applyOne_calm:
  assumes "contiguous v all" and "at_version PG all c0 k s" and "k < length all" and "schema_migrations s = Some rows" and "script s = []"
    and "sql_exec PG (mg_SQL (all ! k)) (content s) = ok c"
  shows "\<exists>s' rows'. run_state (applyOne PG (all ! k)) s = (ok (), s') \<and> script s' = [] \<and> schema_migrations s' = Some rows'"
proof -
  let ?t = "s\<lparr>tx_start := Some (clock s)\<rparr>"
  have "run_state (db_stmt (run_script PG (mg_SQL (all ! k)))) ?t = (ok (), ?t\<lparr>content := c\<rparr>)"
    using assms(5,6) by (simp add: run_script_def)
  moreover obtain rw where "record_row False (all ! k) s = (ok (), s\<lparr>schema_migrations := Some (rows @ [rw])\<rparr>)"
    using record_row_fresh [OF assms(1-4)] by blast
  then have nv: "mg_Version (all ! k) \<notin> set (map sm_version rows)" using assms(4) by (auto simp: record_row_def split: if_splits)
  then obtain u where "run_state (db_stmt (record_row False (all ! k))) (?t\<lparr>content := c\<rparr>) = (ok (), u)" "script u = []" "\<exists>rows'. schema_migrations u = Some rows'"
    using assms(4,5) by (simp add: record_row_def)
  ultimately show ?thesis unfolding applyOne_def
    using run_with_tx_calm [OF assms(5), of "Prelude.check MDb (db_stmt (run_script PG (mg_SQL (all ! k)))) (\<lambda>_.
      Prelude.check MDb (db_stmt (record_row False (all ! k))) (\<lambda>_. ret (ok ())))" "ok ()" u MDb MDb]
    by (auto simp: run_check end_tx_def)
qed

lemma to_run_split: "0 < k \<or> \<not> has_table PG c0 ''users'' \<Longrightarrow> k < length all \<Longrightarrow>
    to_run PG c0 all = to_run PG c0 (take k all) @ all ! k # drop (Suc k) all"
proof -
  assume k: "0 < k \<or> \<not> has_table PG c0 ''users''" "k < length all"
  then have "drop 1 (take k all @ xs) = drop 1 (take k all) @ xs" if "0 < k" for xs using that by (cases all; cases k) auto
  with k show ?thesis using arg_cong [OF id_take_nth_drop [OF k(2)], of "to_run PG c0"] by (auto simp: to_run_def)
qed

lemma apply_all_calm:
  assumes "contiguous v all" and "run_scripts PG (to_run PG c0 all) c0 = ok c"
    and "at_version PG all c0 k s" and "script s = []" and "schema_migrations s = Some rows" and "0 < k \<or> \<not> has_table PG c0 ''users''"
  shows "\<exists>st s' rows'. run_state (apply_all PG (drop k all) status) s = ((st, None), s') \<and> at_version PG all c0 (length all) s' \<and>
     script s' = [] \<and> schema_migrations s' = Some rows' \<and> ms_Applied st = ms_Applied status @ map mg_Version (drop k all) \<and>
     ms_Version st = (if k < length all then v + int (length all) - 1 else ms_Version status)"
  using assms(3-6)
proof (induction "length all - k" arbitrary: k s rows status)
  case 0
  then have "k = length all" by (simp add: at_version_def)
  with 0 show ?case by auto
next
  case (Suc d)
  then have k: "k < length all" by simp
  have split: "drop k all = all ! k # drop (Suc k) all" using k by (simp add: Cons_nth_drop_Suc)
  have ver: "mg_Version (all ! k) = v + int k" using assms(1) k by (simp add: contiguous_def)
  from assms(2) [unfolded to_run_split [OF Suc.prems(4) k]] Suc.prems(1) obtain c' where "sql_exec PG (mg_SQL (all ! k)) (content s) = ok c'"
    by (auto simp: at_version_def run_scripts_append split: sum.splits)
  then obtain s1 rows1 where one: "run_state (applyOne PG (all ! k)) s = (ok (), s1)" "script s1 = []" "schema_migrations s1 = Some rows1"
    using applyOne_calm [OF assms(1) Suc.prems(1) k Suc.prems(3,2)] by blast
  have at1: "at_version PG all c0 (Suc k) s1"
    using hoareD [OF applyOne_step [OF k] Suc.prems(1) one(1)] Suc.prems(4) by auto
  let ?st = "status\<lparr>ms_Version := mg_Version (all ! k), ms_Applied := ms_Applied status @ [mg_Version (all ! k)]\<rparr>"
  have "d = length all - Suc k" using Suc.hyps(2) by simp
  from Suc.hyps(1) [OF this at1 one(2,3), of ?st] obtain st s' rows' where
    "run_state (apply_all PG (drop (Suc k) all) ?st) s1 = ((st, None), s')" "at_version PG all c0 (length all) s'" "script s' = []"
    "schema_migrations s' = Some rows'" "ms_Applied st = ms_Applied ?st @ map mg_Version (drop (Suc k) all)"
    "ms_Version st = (if Suc k < length all then v + int (length all) - 1 else ms_Version ?st)" by blast
  moreover have "Suc k < length all \<or> int (length all) = int k + 1" using k by auto
  ultimately show ?case using one(1) split ver k by auto
qed

lemma bring_up_calm:
  assumes "contiguous v all" and "all \<noteq> []" and "run_scripts PG (to_run PG c0 all) c0 = ok c"
    and "at_version PG all c0 k s" and "script s = []" and "schema_migrations s = Some rows" and "0 < k \<or> \<not> has_table PG c0 ''users''"
    and "map ap_id hist = map mg_id (take k all)"
  shows "\<exists>st s' rows'. run_state (bring_up PG all hist status) s = ((st, None), s') \<and> at_version PG all c0 (length all) s' \<and>
     script s' = [] \<and> schema_migrations s' = Some rows' \<and> ms_Applied st = ms_Applied status @ map mg_Version (drop k all) \<and>
     ms_Version st = v + int (length all) - 1"
proof -
  have k: "k \<le> length all" using assms(4) by (simp add: at_version_def)
  have p: "pending hist all = ok (drop k all)"
    using pending_prefix [OF assms(1) _ assms(8) k order_refl] assms(2) k by simp
  let ?st = "if hist \<noteq> [] then status\<lparr>ms_Version := ap_Version (last hist)\<rparr> else status"
  have "ms_Version ?st = v + int (length all) - 1" if "k = length all"
  proof -
    from that assms(2,8) have ne: "hist \<noteq> []" by auto
    with assms(2,8) that have "ap_id (last hist) = mg_id (last all)" by (metis last_map take_all_iff order_refl)
    with ne show ?thesis using contiguous_last [OF assms(1,2)] by (simp add: ap_id_def mg_id_def)
  qed
  moreover have "ms_Applied ?st = ms_Applied status" by simp
  ultimately show ?thesis using apply_all_calm [OF assms(1,3-7), of ?st] k p unfolding bring_up_def by (auto split: if_splits)
qed

lemma create_history_calm:
  assumes "script s = []" and "at_version PG all c0 k s"
  obtains s1 rows where "run_state (db_stmt (\<lambda>s. (ok (), s\<lparr>schema_migrations := Some (case schema_migrations s of None \<Rightarrow> [] | Some rows \<Rightarrow> rows)\<rparr>))) s = (ok (), s1)"
    and "script s1 = []" and "schema_migrations s1 = Some rows" and "at_version PG all c0 k s1" and "tracked_rows s1 = tracked_rows s"
  by (rule that [of "s\<lparr>schema_migrations := Some (tracked_rows s)\<rparr>" "tracked_rows s"])
    (use assms in \<open>auto simp: tracked_rows_def at_version_def\<close>)

lemma readHistory_calm:
  assumes "contiguous v all" and "script s = []" and "at_version PG all c0 k s" and "schema_migrations s = Some rows"
  shows "run_state readHistory s = (ok (read_rows s), s)"
  using assms(2-4) history_sorted [OF assms(1), of rows k]
  by (simp add: readHistory_def at_version_def tracked_rows_def read_rows_def)

lemma adopt_calm:
  assumes "contiguous v all" and "all \<noteq> []" and "run_scripts PG (to_run PG c0 all) c0 = ok c"
    and "at_version PG all c0 0 s" and "script s = []" and "schema_migrations s = Some rows"
  shows "\<exists>st s' rows'. run_state (adopt PG all status) s = ((st, None), s') \<and> at_version PG all c0 (length all) s' \<and>
     script s' = [] \<and> schema_migrations s' = Some rows' \<and> ms_Version st = v + int (length all) - 1"
proof (cases "has_table PG c0 ''users''")
  case False
  then have "run_state (adopt PG all status) s = run_state (bring_up PG all [] status) s"
    using assms(5) at_version_content0 [OF assms(4)] by (simp add: adopt_def tableExists_def)
  with bring_up_calm [OF assms(1-6), of "[]" status] False show ?thesis by auto
next
  case True
  let ?h = "[\<lparr>ap_Version = mg_Version (all ! 0), ap_Checksum = mg_Checksum (all ! 0)\<rparr>]"
  have len: "0 < length all" using assms(2) by simp
  obtain rw where rec: "record_row True (all ! 0) s = (ok (), s\<lparr>schema_migrations := Some (rows @ [rw])\<rparr>)"
    using record_row_fresh [OF assms(1,4) len assms(6)] by blast
  let ?s = "s\<lparr>schema_migrations := Some (rows @ [rw])\<rparr>"
  have run: "run_state (db_stmt (record_row True (all ! 0))) s = (ok (), ?s)" using rec assms(5) by simp
  have at: "at_version PG all c0 1 ?s" using hoareD [OF record_baseline [OF len True] assms(4) run] by simp
  have "run_state (adopt PG all status) s = run_state (bring_up PG all ?h (status\<lparr>ms_Adopted := True\<rparr>)) ?s"
    using run True assms(5) at_version_content0 [OF assms(4)] by (simp add: adopt_def tableExists_def)
  with bring_up_calm [OF assms(1-3) at, of "rows @ [rw]" ?h "status\<lparr>ms_Adopted := True\<rparr>"] len assms(5) show ?thesis
    by (auto simp: ap_id_def mg_id_def take_Suc_conv_app_nth)
qed

lemma apply_locked_calm:
  assumes "contiguous v all" and "all \<noteq> []" and "run_scripts PG (to_run PG c0 all) c0 = ok c"
    and "in_step PG all c0 s" and "script s = []"
  shows "\<exists>st s' rows'. run_state (apply_locked PG all status) s = ((st, None), s') \<and> at_version PG all c0 (length all) s' \<and>
     script s' = [] \<and> schema_migrations s' = Some rows' \<and> ms_Version st = v + int (length all) - 1"
proof -
  obtain k where at: "at_version PG all c0 k s" using assms(4) by (auto simp: in_step_def)
  from create_history_calm [OF assms(5) at] obtain s1 rows where one:
    "run_state (db_stmt (\<lambda>s. (ok (), s\<lparr>schema_migrations := Some (case schema_migrations s of None \<Rightarrow> [] | Some rows \<Rightarrow> rows)\<rparr>))) s = (ok (), s1)"
    and calm: "script s1 = []" and rows: "schema_migrations s1 = Some rows" and at1: "at_version PG all c0 k s1" .
  have step: "run_state (apply_locked PG all status) s =
      run_state (if read_rows s1 = [] then adopt PG all status else bring_up PG all (read_rows s1) status) s1"
    using one readHistory_calm [OF assms(1) calm at1 rows] by (simp add: apply_locked_def)
  show ?thesis
  proof (cases "read_rows s1 = []")
    case True
    then have "k = 0" using read_rows_length [OF at1] by simp
    with adopt_calm [OF assms(1-3) _ calm rows] at1 True step show ?thesis by auto
  next
    case False
    then have "0 < k" using read_rows_length [OF at1] by auto
    with bring_up_calm [OF assms(1-3) at1 calm rows _ read_rows_ids [OF at1], of status] False step show ?thesis by auto
  qed
qed

lemma Run_auto_calm:
  assumes "contiguous v all" and "all \<noteq> []" and "run_scripts PG (to_run PG c0 all) c0 = ok c"
    and "in_step PG all c0 s" and "script s = []"
  shows "\<exists>st s'. run_state (Run PG all ModeAuto) s = ((st, None), s') \<and> at_version PG all c0 (length all) s' \<and>
     script s' = [] \<and> schema_migrations s' \<noteq> None \<and> ms_Version st = v + int (length all) - 1"
  using apply_locked_calm [OF assms, of "\<lparr>ms_Mode = ModeAuto, ms_Version = 0, ms_Latest = mg_Version (last all), ms_Applied = [], ms_Adopted = False\<rparr>"]
    assms(2,5) by (auto simp: Run_def Let_def migrate_apply_def)

lemma Run_check_calm:
  assumes "contiguous v all" and "all \<noteq> []" and "at_version PG all c0 (length all) s" and "script s = []" and "schema_migrations s \<noteq> None"
  shows "snd (fst (run_state (Run PG all ModeCheck) s)) = None"
proof -
  from assms(5) obtain rows where rows: "schema_migrations s = Some rows" by blast
  have "read_rows s \<noteq> []" using read_rows_length [OF assms(3)] assms(2) by auto
  moreover have "pending (read_rows s) all = ok []"
    using pending_prefix [OF assms(1) _ read_rows_ids [OF assms(3)] order_refl order_refl] assms(2) by simp
  ultimately show ?thesis using readHistory_calm [OF assms(1,4,3) rows] rows assms(2,4)
    by (simp add: Run_def Let_def migrate_check_def tableExists_def check_history_def)
qed

section \<open>An older binary and a newer schema\<close>

definition unmoved :: "'c postgres \<Rightarrow> Migration list \<Rightarrow> 'c \<Rightarrow> nat \<Rightarrow> ('w, 'c, 'x) migrate_db_scheme \<Rightarrow> ('w, 'c, 'x) migrate_db_scheme \<Rightarrow> bool" where
  "unmoved PG all c0 k s t \<longleftrightarrow> at_version PG all c0 k t \<and> content t = content s \<and> tracked_rows t = tracked_rows s"

interpretation unmoved: table_invariant "unmoved PG all c0 k s :: ('w, 'c, 'x) migrate_db_scheme \<Rightarrow> bool"
  by unfold_locales (auto simp: unmoved_def tracked_rows_def intro: at_version.same_tables dest: same_tables_migrate)

lemma newer_pending:
  assumes "contiguous v all" and "0 < n" and "n < k" and "at_version PG all c0 k t"
  shows "pending (read_rows t) (take n all) = err (ErrSchemaNewer (v + int k - 1) (v + int n - 1))" and "read_rows t \<noteq> []"
proof -
  have "k \<le> length all" using assms(4) by (simp add: at_version_def)
  then show "pending (read_rows t) (take n all) = err (ErrSchemaNewer (v + int k - 1) (v + int n - 1))"
    using pending_prefix [OF assms(1,2) read_rows_ids [OF assms(4)]] assms(3) by simp
  show "read_rows t \<noteq> []" using read_rows_length [OF assms(4)] assms(3) by auto
qed

lemma create_history_unmoved:
  "preserves (unmoved PG all c0 k s) (db_stmt (\<lambda>s. (ok (), s\<lparr>schema_migrations := Some (case schema_migrations s of None \<Rightarrow> [] | Some rows \<Rightarrow> rows)\<rparr>))
     :: (('w, 'c, 'x) migrate_db_scheme, db_err + unit) state)"
  by (rule unmoved.preserves_stmt) (auto simp: unmoved_def at_version_def tracked_rows_def)

lemma newer_bring_up:
  assumes "contiguous v all" and "0 < n" and "n < k" and "unmoved PG all c0 k s t"
  shows "run_state (if read_rows t = [] then adopt PG (take n all) status else bring_up PG (take n all) (read_rows t) status) t =
     ((status, Some (ErrSchemaNewer (v + int k - 1) (v + int n - 1))), t)"
  using newer_pending [OF assms(1-3), of PG c0 t] assms(4) by (simp add: unmoved_def bring_up_def)

lemma hoare_conj_const: "(b \<Longrightarrow> hoare P m Q) \<Longrightarrow> hoare (\<lambda>s. P s \<and> b) m Q"
  by (auto simp: hoare_def)

lemma newer_apply:
  assumes "contiguous v all" and "0 < n" and "n < k"
  shows "hoare (unmoved PG all c0 k s) (apply_locked PG (take n all) status :: ('w, 'c, 'x) migrate_m) (\<lambda>r t. unmoved PG all c0 k s t \<and> snd r \<noteq> None)"
  unfolding apply_locked_def
proof (rule hoare_bind [OF create_history_unmoved], rule hoare_case_sum, goal_cases)
  case (2 a u)
  have at: "at_version PG all c0 k t" if "unmoved PG all c0 k s t" for t using that by (simp add: unmoved_def)
  show ?case
  proof (rule hoare_bind [OF readHistory_rows [OF assms(1) unmoved.table_invariant_axioms at]], assumption, rule hoare_case_sum, goal_cases)
    case (2 h hist)
    show ?case
    proof (rule hoareI, elim conjE)
      fix t r t'
      assume t: "unmoved PG all c0 k s t" "\<forall>h'. h = ok h' \<longrightarrow> h' = read_rows t"
        and run: "run_state (if hist = [] then adopt PG (take n all) status else bring_up PG (take n all) hist status) t = (r, t')"
      with 2 have "hist = read_rows t" by blast
      with run newer_bring_up [OF assms t(1), of status] t(1) show "unmoved PG all c0 k s t' \<and> snd r \<noteq> None" by auto
    qed
  qed (auto intro!: hoare_return)
qed (auto intro!: hoare_return)

lemma unmoved_tracked: "unmoved PG all c0 k s t \<Longrightarrow> 0 < k \<Longrightarrow> schema_migrations t \<noteq> None"
  using read_rows_length [of PG all c0 k t] by (cases "schema_migrations t") (auto simp: unmoved_def read_rows_def tracked_rows_def)

lemma newer_check:
  assumes "contiguous v all" and "0 < n" and "n < k"
  shows "hoare (unmoved PG all c0 k s) (migrate_check PG (take n all) status :: ('w, 'c, 'x) migrate_m) (\<lambda>r t. unmoved PG all c0 k s t \<and> snd r \<noteq> None)"
  unfolding migrate_check_def tableExists_def
proof (rule hoare_bind [OF unmoved.hoare_query], rule hoare_case_sum, goal_cases)
  case (2 a tracked)
  have at: "at_version PG all c0 k t" if "unmoved PG all c0 k s t" for t using that by (simp add: unmoved_def)
  let ?K = "\<lambda>h. (case h of Inl e \<Rightarrow> ret (status, Some (MDb e))
    | Inr hist \<Rightarrow> if hist = [] then do {
        b \<leftarrow> db_query (\<lambda>s. ok (if ''users'' = ''schema_migrations'' then schema_migrations s \<noteq> None else has_table PG (content s) ''users''));
        case b of Inl e \<Rightarrow> ret (status, Some (MDb e))
        | Inr hasBaseline \<Rightarrow> if \<not> hasBaseline then ret (status, Some ErrNotInitialized)
            else ret (check_history (take n all) [\<lparr>ap_Version = mg_Version (take n all ! 0), ap_Checksum = mg_Checksum (take n all ! 0)\<rparr>] status) }
      else ret (check_history (take n all) hist status)) :: ('w, 'c, 'x) migrate_m"
  have tracked: "hoare (unmoved PG all c0 k s) (State_Monad.bind readHistory ?K) (\<lambda>r t. unmoved PG all c0 k s t \<and> snd r \<noteq> None)"
  proof (rule hoare_bind [OF readHistory_rows [OF assms(1) unmoved.table_invariant_axioms at]], assumption, rule hoare_case_sum, goal_cases)
    case (2 h hist)
    show ?case
    proof (rule hoareI, elim conjE)
      fix t r t'
      assume t: "unmoved PG all c0 k s t" "\<forall>h'. h = ok h' \<longrightarrow> h' = read_rows t" and run: "run_state (if hist = [] then do {
        b \<leftarrow> db_query (\<lambda>s. ok (if ''users'' = ''schema_migrations'' then schema_migrations s \<noteq> None else has_table PG (content s) ''users''));
        case b of Inl e \<Rightarrow> ret (status, Some (MDb e))
        | Inr hasBaseline \<Rightarrow> if \<not> hasBaseline then ret (status, Some ErrNotInitialized)
            else ret (check_history (take n all) [\<lparr>ap_Version = mg_Version (take n all ! 0), ap_Checksum = mg_Checksum (take n all ! 0)\<rparr>] status) }
      else ret (check_history (take n all) hist status)) t = (r, t')"
      with 2 have "hist = read_rows t" by blast
      with run newer_pending [OF assms at [OF t(1)]] t(1) show "unmoved PG all c0 k s t' \<and> snd r \<noteq> None" by (auto simp: check_history_def)
    qed
  qed (auto intro!: hoare_return)
  show ?case
  proof (cases tracked)
    case True
    from tracked True show ?thesis by (auto elim!: hoare_weaken)
  next
    case False
    then have "\<not> unmoved PG all c0 k s t" if "a = ok (schema_migrations t \<noteq> None)" for t
      using 2 that assms(2,3) unmoved_tracked [of PG all c0 k s t] by auto
    then show ?thesis using 2 unfolding hoare_def by fastforce
  qed
qed (auto intro!: hoare_return)

lemma Run_newer:
  assumes "contiguous v all" and "0 < n" and "n < k" and "at_version PG all c0 k s" and "mode \<noteq> ModeOff"
    and "run_state (Run PG (take n all) mode) s = ((st, e), s')"
  shows "unmoved PG all c0 k s s' \<and> e \<noteq> None"
proof -
  have s: "unmoved PG all c0 k s s" and ne: "take n all \<noteq> []" using assms(2-4) by (auto simp: unmoved_def at_version_def)
  have "hoare (unmoved PG all c0 k s) (Run PG (take n all) mode) (\<lambda>r t. unmoved PG all c0 k s t \<and> snd r \<noteq> None)"
  proof (cases mode)
    case ModeAuto
    have "hoare (unmoved PG all c0 k s) (migrate_apply PG (take n all) status) (\<lambda>r t. unmoved PG all c0 k s t \<and> snd r \<noteq> None)" for status
      unfolding migrate_apply_def
      by (rule hoare_bind [OF unmoved.preserves_query], rule hoare_case_sum, (auto intro!: hoare_return)[1],
        rule hoare_bind [OF unmoved.preserves_query], rule hoare_case_sum, (auto intro!: hoare_return)[1],
        rule hoare_bind [OF newer_apply [OF assms(1-3)]], rule hoare_conj_const, rule hoare_bind [OF unmoved.preserves_query])
        (auto intro!: hoare_return)
    with ModeAuto ne show ?thesis by (simp add: Run_def Let_def)
  qed (use newer_check [OF assms(1-3)] ne assms(5) in \<open>auto simp: Run_def Let_def\<close>)
  from hoareD [OF this s assms(6)] show ?thesis by simp
qed

lemma Run_newer_calm:
  assumes "contiguous v all" and "0 < n" and "n < k" and "at_version PG all c0 k s" and "mode \<noteq> ModeOff" and "script s = []"
  shows "snd (fst (run_state (Run PG (take n all) mode) s)) = Some (ErrSchemaNewer (v + int k - 1) (v + int n - 1))"
proof -
  have s: "unmoved PG all c0 k s s" and ne: "take n all \<noteq> []" and n: "n \<noteq> 0" "all \<noteq> []" using assms(2-4) by (auto simp: unmoved_def at_version_def)
  from unmoved_tracked [OF s] assms(2,3) obtain rows where rows: "schema_migrations s = Some rows" by auto
  from create_history_calm [OF assms(6,4)] obtain s1 rows1 where one:
    "run_state (db_stmt (\<lambda>s. (ok (), s\<lparr>schema_migrations := Some (case schema_migrations s of None \<Rightarrow> [] | Some rows \<Rightarrow> rows)\<rparr>))) s = (ok (), s1)"
    and calm: "script s1 = []" and rows1: "schema_migrations s1 = Some rows1" and at1: "at_version PG all c0 k s1" .
  have "unmoved PG all c0 k s1 s1" using at1 by (simp add: unmoved_def)
  then have "run_state (apply_locked PG (take n all) status) s = ((status, Some (ErrSchemaNewer (v + int k - 1) (v + int n - 1))), s1)" for status
    using one readHistory_calm [OF assms(1) calm at1 rows1] newer_bring_up [OF assms(1-3), of PG c0 s1 s1 status] by (simp add: apply_locked_def)
  with ne n assms(6) calm readHistory_calm [OF assms(1,6,4) rows] newer_pending [OF assms(1-4)] rows assms(5) show ?thesis
    by (cases mode) (simp_all add: Run_def Let_def migrate_apply_def migrate_check_def tableExists_def check_history_def)
qed

section \<open>Properties\<close>

text \<open>
  Starts of the server over the life of a database: each with a prefix of the migrations (an older or the newest binary),
  a mode, and what happens to the statements of that run.
\<close>

fun starts :: "'c postgres \<Rightarrow> Migration list \<Rightarrow> (nat \<times> Mode \<times> (outcome \<times> nat) list) list \<Rightarrow> ('w, 'c, 'x) migrate_db_scheme \<Rightarrow> ('w, 'c, 'x) migrate_db_scheme" where
  "starts PG all [] s = s"
| "starts PG all ((n, mode, sc) # rs) s = starts PG all rs (snd (run_state (Run PG (take n all) mode) (s\<lparr>script := sc\<rparr>)))"

lemma starts_in_step: "contiguous v all \<Longrightarrow> in_step PG all c0 s \<Longrightarrow> in_step PG all c0 (starts PG all rs s)"
proof (induction PG all rs s rule: starts.induct)
  case (2 PG all n mode sc rs s)
  from 2(3) have "in_step PG all c0 (s\<lparr>script := sc\<rparr>)" by (rule in_step.same_tables [rotated]) (simp add: same_tables_def)
  then have "in_step PG all c0 (snd (run_state (Run PG (take n all) mode) (s\<lparr>script := sc\<rparr>)))" by (rule preservesD [OF Run_keeps [OF 2(2)]])
  with 2 show ?case by simp
qed simp

definition demo_pg :: "string list postgres" where
  "demo_pg = \<lparr>sql_exec = (\<lambda>q c. if q = ''bad'' then err DbFail else ok (c @ [q])), has_table = (\<lambda>c t. t = ''users'' \<and> ''base'' \<in> set c)\<rparr>"

definition demo_files :: "dir_entry list option" where
  "demo_files = Some [(''0002_add_b.sql'', False, Some ''two''), (''README.md'', False, Some ''x''), (''0003_c.sql'', False, Some ''three'')]"

definition demo_migrations :: "Migration list" where
  "demo_migrations = [\<lparr>mg_Version = 1, mg_Name = ''baseline'', mg_SQL = ''base'', mg_Checksum = checksum demo_crypto ''base''\<rparr>,
     \<lparr>mg_Version = 2, mg_Name = ''add_b'', mg_SQL = ''two'', mg_Checksum = checksum demo_crypto ''two''\<rparr>,
     \<lparr>mg_Version = 3, mg_Name = ''c'', mg_SQL = ''three'', mg_Checksum = checksum demo_crypto ''three''\<rparr>]"

definition demo_schema_db :: "(unit, string list) migrate_db" where
  "demo_schema_db = \<lparr>clock = 0, tx_start = None, script = [], seqs = (\<lambda>_. 0), outside = (), content = [], schema_migrations = None\<rparr>"

lemma demo_Load: "Load demo_crypto 1 ''base'' demo_files = ok demo_migrations"
proof -
  have "file_name ''0002_add_b.sql'' = Some (2, ''add_b'')" "file_name ''0003_c.sql'' = Some (3, ''c'')" by code_simp+
  then show ?thesis by (simp add: Load_def demo_files_def demo_migrations_def space_eval)
qed

abbreviation demo_starts :: "(nat \<times> Mode \<times> (outcome \<times> nat) list) list" where
  "demo_starts \<equiv> [(2, ModeAuto, replicate 9 (Done, 1) @ [(Lost, 0)]), (3, ModeAuto, []), (1, ModeAuto, [])]"

text \<open>
  C29. Take the migrations that \<^verbatim>\<open>Load\<close> returned and a database without \<^verbatim>\<open>schema_migrations\<close>.  Let servers start on it in any number and
  any mode, with the newest binary or older ones (which carry a prefix of the list), and let any database statement of any of
  these runs fail or lose its answer.  Then the recorded history is always the first versions of the list with their checksums, in
  order, and the schema is exactly what the scripts of those versions, run once each in that order, make of the original one (the
  baseline left out when the database had it already).
\<close>

theorem schema_matches_history:
  assumes "Load C v baselineSQL entries = ok all" and "schema_migrations s = None"
  shows "in_step PG all (content s) (starts PG all rs s)"
  using starts_in_step [OF _ at_version_in_step [OF at_version_fresh [OF assms(2)]]] Load_contiguous [OF assms(1)] by blast

theorem schema_matches_history_witness:
  "in_step demo_pg demo_migrations [] (starts demo_pg demo_migrations demo_starts demo_schema_db) \<and>
   content (starts demo_pg demo_migrations demo_starts demo_schema_db) = [''base'', ''two'', ''three'']"
proof
  show "in_step demo_pg demo_migrations [] (starts demo_pg demo_migrations demo_starts demo_schema_db)"
    using schema_matches_history [OF demo_Load, of demo_schema_db demo_pg demo_starts] by (simp add: demo_schema_db_def del: starts.simps)
  show "content (starts demo_pg demo_migrations demo_starts demo_schema_db) = [''base'', ''two'', ''three'']"
    by code_simp
qed

text \<open>
  C30. On a database in step with its history, where the remaining scripts run without an error and the statements succeed,
  \<^verbatim>\<open>Run\<close> in mode auto returns without an error at the newest version, with the schema the whole list gives, and after it a run in
  mode check finds nothing to do.
\<close>

theorem run_reaches_latest:
  assumes "Load C v baselineSQL entries = ok all" and "in_step PG all c0 s" and "script s = []"
    and "run_scripts PG (to_run PG c0 all) c0 = ok c"
  shows "\<exists>st s'. run_state (Run PG all ModeAuto) s = ((st, None), s') \<and> ms_Version st = mg_Version (last all) \<and> content s' = c \<and>
     snd (fst (run_state (Run PG all ModeCheck) s')) = None"
proof -
  from Load_contiguous [OF assms(1)] have c: "contiguous v all" "all \<noteq> []" by auto
  from Run_auto_calm [OF c assms(4,2,3)] obtain st s' where run: "run_state (Run PG all ModeAuto) s = ((st, None), s')"
    and at: "at_version PG all c0 (length all) s'" and s': "script s' = []" "schema_migrations s' \<noteq> None" and st: "ms_Version st = v + int (length all) - 1"
    by blast
  from at assms(4) have "content s' = c" by (simp add: at_version_def)
  with run st Run_check_calm [OF c at s'] contiguous_last [OF c] show ?thesis by auto
qed

theorem run_reaches_latest_witness:
  "\<exists>st s'. run_state (Run demo_pg demo_migrations ModeAuto) demo_schema_db = ((st, None), s') \<and> ms_Version st = 3 \<and>
     content s' = [''base'', ''two'', ''three''] \<and> snd (fst (run_state (Run demo_pg demo_migrations ModeCheck) s')) = None"
proof -
  have "in_step demo_pg demo_migrations [] demo_schema_db"
    using at_version_in_step [OF at_version_fresh, of demo_schema_db demo_pg demo_migrations] by (simp add: demo_schema_db_def)
  moreover have "script demo_schema_db = []" by (simp add: demo_schema_db_def)
  moreover have "run_scripts demo_pg (to_run demo_pg [] demo_migrations) [] = ok [''base'', ''two'', ''three'']" by code_simp
  moreover have "mg_Version (last demo_migrations) = 3" by code_simp
  ultimately show ?thesis using run_reaches_latest [OF demo_Load, of demo_pg "[]" demo_schema_db] by simp
qed

text \<open>
  C31. A binary that carries only the first \<open>n\<close> migrations and meets a database at a later version refuses in both modes that look:
  under every pattern of database failures it returns an error and leaves schema and history as they were, and when the statements succeed the
  error is \<^verbatim>\<open>ErrSchemaNewer\<close> with the version of the database and the newest version the binary knows.
\<close>

theorem older_binary_refuses:
  assumes "Load C v baselineSQL entries = ok all" and "at_version PG all c0 k s" and "0 < n" and "n < k" and "mode \<noteq> ModeOff"
    and "run_state (Run PG (take n all) mode) s = ((st, e), s')"
  shows "content s' = content s \<and> tracked_rows s' = tracked_rows s \<and> e \<noteq> None \<and>
     (script s = [] \<longrightarrow> e = Some (ErrSchemaNewer (mg_Version (all ! (k - 1))) (mg_Version (all ! (n - 1)))))"
proof -
  from Load_contiguous [OF assms(1)] have c: "contiguous v all" by simp
  have "k \<le> length all" using assms(2) by (simp add: at_version_def)
  then have "mg_Version (all ! (k - 1)) = v + int k - 1" "mg_Version (all ! (n - 1)) = v + int n - 1" using c assms(3,4) by (auto simp: contiguous_def)
  with Run_newer [OF c assms(3,4,2,5,6)] Run_newer_calm [OF c assms(3,4,2,5)] assms(6) show ?thesis by (auto simp: unmoved_def)
qed

theorem older_binary_refuses_witness:
  "\<exists>st s'. run_state (Run demo_pg (take 1 demo_migrations) ModeAuto) (starts demo_pg demo_migrations [(3, ModeAuto, [])] demo_schema_db) =
      ((st, Some (ErrSchemaNewer 3 1)), s') \<and> content s' = [''base'', ''two'', ''three'']"
proof -
  let ?s = "starts demo_pg demo_migrations [(3, ModeAuto, [])] demo_schema_db"
  have at: "at_version demo_pg demo_migrations [] 3 ?s" by code_simp
  obtain st e s' where run: "run_state (Run demo_pg (take 1 demo_migrations) ModeAuto) ?s = ((st, e), s')" by (metis prod.collapse)
  have "script ?s = []" "content ?s = [''base'', ''two'', ''three'']" by code_simp+
  with older_binary_refuses [OF demo_Load at _ _ _ run] run show ?thesis by (simp add: demo_migrations_def)
qed

end
