(* ===== verification/Appliance_Status.thy ===== *)
theory Appliance_Status
  imports Appliance_Safety Migrate
begin

text \<open>
  The read-only answers of the appliance service (\<^verbatim>\<open>internal/appliance/service.go\<close>): what can be done on this installation, and
  what it is and how it stands.  The tracked schema of \<^verbatim>\<open>internal/migrate\<close> lives in the same database; \<open>appliance_site\<close> adds it to the
  appliance tables and \<open>in_schema\<close> runs a computation of the migration package there.
\<close>

section \<open>The contract\<close>

definition ReasonHostNotConfigured :: string where "ReasonHostNotConfigured = ''HOST_NOT_CONFIGURED''"
definition ReasonHostUnreachable :: string where "ReasonHostUnreachable = ''HOST_UNREACHABLE''"
definition ReasonSchemaMismatch :: string where "ReasonSchemaMismatch = ''SCHEMA_MISMATCH''"
definition ReasonOperationInProgress :: string where "ReasonOperationInProgress = ''OPERATION_IN_PROGRESS''"
definition ReasonRecoveryRequired :: string where "ReasonRecoveryRequired = ''RECOVERY_REQUIRED''"

lemmas reason_defs = ReasonHostNotConfigured_def ReasonHostUnreachable_def ReasonHostUnsupported_def ReasonSchemaMismatch_def
  ReasonOperationInProgress_def ReasonRecoveryRequired_def

record ActionCapability =
  ac_Action :: string
  ac_Supported :: bool
  ac_Available :: bool
  ac_UnavailableReason :: string
  ac_Permitted :: bool
  ac_RequiresReauthentication :: bool

record Capabilities =
  cap_SchemaVersion :: string
  cap_HostConfigured :: bool
  cap_HostFixture :: bool
  cap_HostContractVersions :: "string list"
  cap_ObservedAt :: "int option"
  cap_Actions :: "ActionCapability list"

definition LivenessAlive :: string where "LivenessAlive = ''alive''"
definition LivenessDead :: string where "LivenessDead = ''dead''"
definition LivenessUnknown :: string where "LivenessUnknown = ''unknown''"
definition ReadinessReady :: string where "ReadinessReady = ''ready''"
definition ReadinessNotReady :: string where "ReadinessNotReady = ''not_ready''"
definition ReadinessUnknown :: string where "ReadinessUnknown = ''unknown''"

lemmas health_defs = LivenessAlive_def LivenessDead_def LivenessUnknown_def ReadinessReady_def ReadinessNotReady_def ReadinessUnknown_def

record Component =
  cmp_Name :: string
  cmp_Version :: string
  cmp_Digest :: string
  cmp_Liveness :: string
  cmp_Readiness :: string
  cmp_ObservedAt :: "int option"
  cmp_Stale :: bool

record Product =
  pd_Model :: string
  pd_InstallationID :: string
  pd_ReleaseVersion :: string
  pd_ReleaseDigest :: string
  pd_Fixture :: bool

record DatabaseStatus =
  dbs_SchemaVersion :: int
  dbs_LatestMigration :: string
  dbs_AppliedAt :: "int option"
  dbs_Adopted :: bool

record Status =
  st_SchemaVersion :: string
  st_Product :: "Product option"
  st_Components :: "Component list"
  st_Database :: DatabaseStatus

section \<open>Capabilities\<close>

definition hostReason :: "host_err \<Rightarrow> string" where
  "hostReason e = (if e = ErrHostNotConfigured then ReasonHostNotConfigured else ReasonHostUnreachable)"

text \<open>
  \<^verbatim>\<open>SELECT state ... ORDER BY (state = 'RECOVERY_REQUIRED') DESC LIMIT 1\<close>: a row that needs an operator comes first.
\<close>

definition occupying :: "operation_row \<Rightarrow> bool" where
  "occupying r \<longleftrightarrow> r_state r \<in> {StateAwaitingAuthorization, StateQueued, StateRunning, StateVerifying, StateCompensating, StateRecoveryRequired}"

definition occupying_state :: "('w, 'x) appliance_db_scheme \<Rightarrow> db_err + string" where
  "occupying_state s =
     (let rows = filter occupying (operations s) in
      case filter (\<lambda>r. r_state r = StateRecoveryRequired) rows @ filter (\<lambda>r. r_state r \<noteq> StateRecoveryRequired) rows of
        [] \<Rightarrow> err NoRows
      | r # _ \<Rightarrow> ok (r_state r))"

definition occupied_reason :: "db_err + string \<Rightarrow> string" where
  "occupied_reason q = (case q of
      Inr state \<Rightarrow> if state = StateRecoveryRequired then ReasonRecoveryRequired else ReasonOperationInProgress
    | Inl e \<Rightarrow> '''')"

definition capability_entry :: "string \<Rightarrow> string \<Rightarrow> HostActionState list \<Rightarrow> (string \<Rightarrow> bool) \<Rightarrow> string \<Rightarrow> ActionCapability" where
  "capability_entry blanket occupied states permitted action =
     (let entry = \<lparr>ac_Action = action, ac_Supported = False, ac_Available = False, ac_UnavailableReason = '''', ac_Permitted = permitted action,
            ac_RequiresReauthentication = Destructive action\<rparr> in
      if blanket \<noteq> '''' then entry\<lparr>ac_UnavailableReason := blanket\<rparr>
      else (case map_of (rev (map (\<lambda>st. (has_Action st, st)) states)) action of
          None \<Rightarrow> entry\<lparr>ac_UnavailableReason := ReasonHostUnsupported\<rparr>
        | Some state \<Rightarrow>
            if has_Available state \<and> occupied \<noteq> '''' \<and> action \<noteq> ActionDiagnostics then entry\<lparr>ac_Supported := True, ac_UnavailableReason := occupied\<rparr>
            else if has_Available state then entry\<lparr>ac_Supported := True, ac_Available := True\<rparr>
            else (let reason = (if has_Reason state = '''' then ReasonHostUnsupported else has_Reason state) in
                  entry\<lparr>ac_UnavailableReason := reason, ac_Supported := (reason \<noteq> ReasonHostUnsupported)\<rparr>)))"

definition blanket_reason :: "host_err + HostCapabilities \<Rightarrow> string" where
  "blanket_reason h = (case h of
      Inl e \<Rightarrow> hostReason e
    | Inr caps \<Rightarrow> if SchemaVersion \<notin> set (hcap_ContractVersions caps) then ReasonSchemaMismatch else '''')"

text \<open>\<open>hasDB\<close> says that the service was given a database.\<close>

definition host_Capabilities :: "'w HostClient \<Rightarrow> bool \<Rightarrow> (string \<Rightarrow> bool) \<Rightarrow> (('w, 'x) appliance_db_scheme, Capabilities) state" where
  "host_Capabilities host hasDB permitted = do {
     h \<leftarrow> ask (hc_Capabilities host);
     occupied \<leftarrow> (if blanket_reason h = '''' \<and> hasDB then do { q \<leftarrow> db_query occupying_state; ret (occupied_reason q) } else ret '''');
     ret \<lparr>cap_SchemaVersion = SchemaVersion, cap_HostConfigured = hc_Configured host,
       cap_HostFixture = (case h of Inl _ \<Rightarrow> False | Inr caps \<Rightarrow> hcap_Fixture caps),
       cap_HostContractVersions = (case h of Inl _ \<Rightarrow> [] | Inr caps \<Rightarrow> hcap_ContractVersions caps),
       cap_ObservedAt = (case h of Inl _ \<Rightarrow> None | Inr caps \<Rightarrow> Some (hcap_ObservedAt caps)),
       cap_Actions = map (capability_entry (blanket_reason h) occupied (case h of Inl _ \<Rightarrow> [] | Inr caps \<Rightarrow> hcap_Actions caps) permitted) Actions\<rparr> }"

section \<open>Status\<close>

record 'w appliance_site = "'w appliance_db" +
  site_migrations :: "schema_migration list option"

definition schema_part :: "('w, 'x) appliance_site_scheme \<Rightarrow> ('w, unit) migrate_db" where
  "schema_part s = \<lparr>clock = clock s, tx_start = tx_start s, script = script s, seqs = seqs s, outside = outside s,
     content = (), schema_migrations = site_migrations s\<rparr>"

definition in_schema :: "(('w, unit) migrate_db, 'a) state \<Rightarrow> (('w, 'x) appliance_site_scheme, 'a) state" where
  "in_schema m = State (\<lambda>s. case run_state m (schema_part s) of (r, t) \<Rightarrow>
     (r, s\<lparr>clock := clock t, tx_start := tx_start t, script := script t, seqs := seqs t, outside := outside t, site_migrations := schema_migrations t\<rparr>))"

text \<open>The tables outside \<^verbatim>\<open>schema_migrations\<close> play no role in \<^verbatim>\<open>Current\<close>.\<close>

definition no_tables :: "unit postgres" where
  "no_tables = \<lparr>sql_exec = (\<lambda>_ _. err DbFail), has_table = (\<lambda>_ _. False)\<rparr>"

definition knownOr :: "string \<Rightarrow> string \<Rightarrow> string list \<Rightarrow> string" where
  "knownOr value fallback allowed = (if value \<in> set allowed then value else fallback)"

definition observed_component :: "int \<Rightarrow> HostComponent \<Rightarrow> Component" where
  "observed_component observed c =
     \<lparr>cmp_Name = hcomp_Name c, cmp_Version = hcomp_Version c, cmp_Digest = hcomp_Digest c,
      cmp_Liveness = knownOr (hcomp_Liveness c) LivenessUnknown [LivenessAlive, LivenessDead],
      cmp_Readiness = knownOr (hcomp_Readiness c) ReadinessUnknown [ReadinessReady, ReadinessNotReady],
      cmp_ObservedAt = Some observed, cmp_Stale = False\<rparr>"

definition unknown_component :: "string \<Rightarrow> Component" where
  "unknown_component name = \<lparr>cmp_Name = name, cmp_Version = '''', cmp_Digest = '''', cmp_Liveness = LivenessUnknown, cmp_Readiness = ReadinessUnknown,
     cmp_ObservedAt = None, cmp_Stale = True\<rparr>"

definition live_component :: "string \<Rightarrow> string \<Rightarrow> int \<Rightarrow> Component" where
  "live_component name version now = \<lparr>cmp_Name = name, cmp_Version = version, cmp_Digest = '''', cmp_Liveness = LivenessAlive,
     cmp_Readiness = ReadinessReady, cmp_ObservedAt = Some now, cmp_Stale = False\<rparr>"

definition no_database :: DatabaseStatus where
  "no_database = \<lparr>dbs_SchemaVersion = 0, dbs_LatestMigration = '''', dbs_AppliedAt = None, dbs_Adopted = False\<rparr>"

definition database_part :: "int \<Rightarrow> (('w, 'x) appliance_site_scheme, Component \<times> DatabaseStatus) state" where
  "database_part now = do {
     p \<leftarrow> db_query (\<lambda>_. ok ());
     case p of
       Inl e \<Rightarrow> ret (unknown_component ''database'', no_database)
     | Inr _ \<Rightarrow> do {
         cur \<leftarrow> in_schema (Current no_tables);
         ret (live_component ''database'' '''' now, (case cur of
             Inr (Some current) \<Rightarrow> \<lparr>dbs_SchemaVersion = cs_Version current, dbs_LatestMigration = cs_Name current,
               dbs_AppliedAt = Some (cs_AppliedAt current), dbs_Adopted = cs_Adopted current\<rparr>
           | _ \<Rightarrow> no_database)) } }"

definition host_Status :: "'w HostClient \<Rightarrow> string \<Rightarrow> (('w, 'x) appliance_site_scheme, Status) state" where
  "host_Status host version = do {
     now \<leftarrow> time_now;
     db \<leftarrow> database_part now;
     let out = \<lparr>st_SchemaVersion = SchemaVersion, st_Product = None, st_Components = [live_component ''oam'' version now, fst db], st_Database = snd db\<rparr>;
     if \<not> hc_Configured host then ret out
     else do {
       identity \<leftarrow> ask (hc_Identity host);
       ret (case identity of
           Inl e \<Rightarrow> out\<lparr>st_Components := st_Components out @ [unknown_component ''host-adapter'']\<rparr>
         | Inr d \<Rightarrow> out\<lparr>st_Product := Some \<lparr>pd_Model = hid_Model d, pd_InstallationID = hid_InstallationID d, pd_ReleaseVersion = hid_ReleaseVersion d,
               pd_ReleaseDigest = hid_ReleaseDigest d, pd_Fixture = hid_Fixture d\<rparr>,
             st_Components := st_Components out @ map (observed_component (hid_ObservedAt d)) (hid_Components d)\<rparr>) } }"

section \<open>Properties\<close>

lemma occupying_Active: "occupying r \<longleftrightarrow> Active (r_state r)"
  by (simp add: occupying_def Active_def)

lemma occupied_reason_set:
  assumes "r \<in> set (operations s)" and "Active (r_state r)"
  shows "occupied_reason (occupying_state s) \<noteq> ''''"
proof -
  let ?rows = "filter occupying (operations s)"
  define L where "L = filter (\<lambda>r. r_state r = StateRecoveryRequired) ?rows @ filter (\<lambda>r. r_state r \<noteq> StateRecoveryRequired) ?rows"
  have "r \<in> set L" using assms by (auto simp: L_def occupying_Active)
  then obtain q L' where "L = q # L'" by (cases L) auto
  then show ?thesis by (simp add: occupying_state_def Let_def L_def [symmetric] occupied_reason_def reason_defs del: filter_filter)
qed

lemma capability_entry_honest:
  "let e = capability_entry blanket occupied states permitted action in
     ac_Action e = action \<and> (ac_Available e \<longleftrightarrow> ac_UnavailableReason e = '''') \<and> (ac_Available e \<longrightarrow> ac_Supported e) \<and>
     ac_Permitted e = permitted action \<and> ac_RequiresReauthentication e = Destructive action \<and>
     (ac_Available e \<longrightarrow> blanket = '''' \<and> (occupied = '''' \<or> action = ActionDiagnostics) \<and> (\<exists>st \<in> set states. has_Action st = action \<and> has_Available st))"
proof -
  have "(\<exists>st \<in> set states. has_Action st = action \<and> has_Available st)"
    if "map_of (rev (map (\<lambda>st. (has_Action st, st)) states)) action = Some st" and "has_Available st" for st
    using map_of_SomeD [OF that(1)] that(2) by auto
  then show ?thesis by (auto simp: capability_entry_def Let_def reason_defs split: option.split)
qed

definition honest_entry :: "(string \<Rightarrow> bool) \<Rightarrow> ActionCapability \<Rightarrow> bool" where
  "honest_entry permitted e \<longleftrightarrow> (ac_Available e \<longleftrightarrow> ac_UnavailableReason e = '''') \<and> (ac_Available e \<longrightarrow> ac_Supported e) \<and>
     ac_Permitted e = permitted (ac_Action e) \<and> ac_RequiresReauthentication e = Destructive (ac_Action e)"


definition demo_host_caps :: "fixture_world HostClient" where
  "demo_host_caps = unconfiguredHost\<lparr>hc_Configured := True, hc_Capabilities := ret (ok \<lparr>hcap_ContractVersions = [SchemaVersion], hcap_Fixture = True,
     hcap_Actions = [\<lparr>has_Action = ActionBackup, has_Available = True, has_Reason = ''''\<rparr>, \<lparr>has_Action = ActionDiagnostics, has_Available = True, has_Reason = ''''\<rparr>],
     hcap_ObservedAt = 0\<rparr>)\<rparr>"


end
