(* ===== verification/Appliance_Handlers.thy ===== *)
theory Appliance_Handlers
  imports Appliance_Status User_Handlers Appliance_Api
begin

text \<open>
  The handlers of \<^verbatim>\<open>/oam/v1/appliance\<close> (\<^verbatim>\<open>internal/handlers/appliance_handler.go\<close>): the correlation id, the error envelope, the
  capability gate, and one handler per route.  A request body is \<open>None\<close> when the bounded strict JSON decoder refuses it.
\<close>

section \<open>Requests and replies\<close>

definition hexdigits_or_word :: "char \<Rightarrow> bool" where
  "hexdigits_or_word c \<longleftrightarrow> in_range 65 90 (byte c) \<or> in_range 97 122 (byte c) \<or> in_range 48 57 (byte c) \<or> c \<in> set ''._-''"

text \<open>\<^verbatim>\<open>^[A-Za-z0-9._-]{1,64}$\<close>\<close>

definition requestIDRE :: "string \<Rightarrow> bool" where
  "requestIDRE i \<longleftrightarrow> 1 \<le> length i \<and> length i \<le> 64 \<and> list_all hexdigits_or_word i"

definition requestID :: "string \<Rightarrow> string \<Rightarrow> string" where
  "requestID header rnd = (if requestIDRE header then header else hex_encode rnd)"

text \<open>\<^verbatim>\<open>^[A-Z][A-Z0-9_]{1,63}$\<close>\<close>

definition hostCodeRE :: "string \<Rightarrow> bool" where
  "hostCodeRE code \<longleftrightarrow> 2 \<le> length code \<and> length code \<le> 64 \<and> in_range 65 90 (byte (hd code)) \<and>
     list_all (\<lambda>c. in_range 65 90 (byte c) \<or> in_range 48 57 (byte c) \<or> c = CHR ''_'') (tl code)"

text \<open>What a handler reads from its request beside the body.\<close>

record appl_request =
  rq_ID :: string
  rq_Operation :: string
  rq_ClientIP :: string

record Recovery =
  rec_Action :: string
  rec_OperationID :: string

text \<open>A message is written in the handler or is the text of an error.\<close>

datatype message = Text string | ErrorText appl_err

record ErrorBody =
  eb_Error :: message
  eb_Code :: string
  eb_Origin :: string
  eb_OperationID :: string
  eb_RequestID :: string
  eb_Recovery :: Recovery

datatype appl_body = AError ErrorBody | AOperation Operation | AOperations OperationList | AChallenge Challenge | ACapabilities Capabilities | AStatus Status

datatype appl_reply = AReply (ar_status: int) (ar_headers: "(string \<times> string) list") (ar_body: appl_body)

definition RecoveryRetry :: string where "RecoveryRetry = ''RETRY''"
definition RecoveryReauthenticate :: string where "RecoveryReauthenticate = ''REAUTHENTICATE''"
definition RecoveryContactSupport :: string where "RecoveryContactSupport = ''CONTACT_SUPPORT''"
definition RecoveryReplan :: string where "RecoveryReplan = ''REPLAN''"
definition RecoveryWait :: string where "RecoveryWait = ''WAIT_FOR_OPERATION''"
definition RecoveryNone :: string where "RecoveryNone = ''NONE''"

definition CodeUnauthorized :: string where "CodeUnauthorized = ''UNAUTHORIZED''"
definition CodePermissionDenied :: string where "CodePermissionDenied = ''PERMISSION_DENIED''"
definition CodeHostNotConfigured :: string where "CodeHostNotConfigured = ''HOST_NOT_CONFIGURED''"
definition CodeHostUnreachable :: string where "CodeHostUnreachable = ''HOST_UNREACHABLE''"
definition CodeSchemaMismatch :: string where "CodeSchemaMismatch = ''SCHEMA_MISMATCH''"
definition CodeInternal :: string where "CodeInternal = ''INTERNAL_ERROR''"
definition CodeInvalidRequest :: string where "CodeInvalidRequest = ''INVALID_REQUEST''"
definition CodeIdempotencyKeyInvalid :: string where "CodeIdempotencyKeyInvalid = ''IDEMPOTENCY_KEY_INVALID''"
definition CodeIdempotencyKeyReused :: string where "CodeIdempotencyKeyReused = ''IDEMPOTENCY_KEY_REUSED''"
definition CodeOperationNotFound :: string where "CodeOperationNotFound = ''OPERATION_NOT_FOUND''"
definition CodePlanRejected :: string where "CodePlanRejected = ''PLAN_REJECTED''"
definition CodeOperationConflict :: string where "CodeOperationConflict = ''OPERATION_CONFLICT''"
definition CodeOperationStateInvalid :: string where "CodeOperationStateInvalid = ''OPERATION_STATE_INVALID''"
definition CodePlanStale :: string where "CodePlanStale = ''PLAN_STALE''"
definition CodeAuthorizationNotRequired :: string where "CodeAuthorizationNotRequired = ''AUTHORIZATION_NOT_REQUIRED''"
definition CodeReauthenticationRequired :: string where "CodeReauthenticationRequired = ''REAUTHENTICATION_REQUIRED''"
definition CodeReauthenticationFailed :: string where "CodeReauthenticationFailed = ''REAUTHENTICATION_FAILED''"
definition CodeTooManyAttempts :: string where "CodeTooManyAttempts = ''TOO_MANY_ATTEMPTS''"
definition CodeChallengeRequired :: string where "CodeChallengeRequired = ''CHALLENGE_REQUIRED''"

definition writeApplianceRecovery :: "appl_request \<Rightarrow> int \<Rightarrow> string \<Rightarrow> string \<Rightarrow> message \<Rightarrow> Recovery \<Rightarrow> appl_reply" where
  "writeApplianceRecovery c status code origin message recovery =
     AReply status [(''X-Request-ID'', rq_ID c), (''X-Loxi-Error-Origin'', origin)]
       (AError \<lparr>eb_Error = message, eb_Code = code, eb_Origin = origin,
          eb_OperationID = (if ValidOperationID (rq_Operation c) then rq_Operation c else ''''), eb_RequestID = rq_ID c, eb_Recovery = recovery\<rparr>)"

definition writeApplianceError :: "appl_request \<Rightarrow> int \<Rightarrow> string \<Rightarrow> string \<Rightarrow> message \<Rightarrow> string \<Rightarrow> appl_reply" where
  "writeApplianceError c status code origin message recovery =
     writeApplianceRecovery c status code origin message \<lparr>rec_Action = recovery, rec_OperationID = ''''\<rparr>"

definition appl_json :: "appl_request \<Rightarrow> int \<Rightarrow> appl_body \<Rightarrow> appl_reply" where
  "appl_json c status b = AReply status [(''X-Request-ID'', rq_ID c)] b"

section \<open>Gate and caller\<close>

definition Require :: "Action \<Rightarrow> appl_request \<Rightarrow> Claims \<Rightarrow> (('w, 'x) oam_db_scheme, appl_reply + user_view) state" where
  "Require action c claims = do {
     user \<leftarrow> resolveCaller claims;
     case user of
       None \<Rightarrow> ret (err (writeApplianceError c 401 CodeUnauthorized OriginOAM (Text ''Unauthorized'') RecoveryReauthenticate))
     | Some u \<Rightarrow>
         if \<not> Can (v_role u) action then
           ret (err (writeApplianceError c 403 CodePermissionDenied OriginOAM (Text ''Forbidden: your role does not permit this operation'') RecoveryNone))
         else ret (ok u) }"

definition actionCapability :: "(string \<times> Action) list" where
  "actionCapability =
     [(ActionBackup, ActApplianceBackup), (ActionRestore, ActApplianceRestore), (ActionUpdate, ActApplianceUpdate),
      (ActionRollback, ActApplianceRollback), (ActionReset, ActApplianceReset), (ActionDiagnostics, ActApplianceDiagnostics)]"

definition role_permits :: "string \<Rightarrow> string \<Rightarrow> bool" where
  "role_permits role action = (case map_of actionCapability action of None \<Rightarrow> False | Some capability \<Rightarrow> Can role capability)"

text \<open>The user was resolved and cached by \<^verbatim>\<open>Require\<close>; the session is the token's \<^verbatim>\<open>jti\<close>.\<close>

definition appl_caller :: "appl_request \<Rightarrow> Claims \<Rightarrow> user_view \<Rightarrow> Caller" where
  "appl_caller c claims user = \<lparr>c_UserID = v_id user, c_Username = v_username user, c_Permitted = role_permits (v_role user),
     c_SessionID = c_jti claims, c_RequestID = rq_ID c, c_SourceIP = rq_ClientIP c\<rparr>"

section \<open>Errors of the service\<close>

definition writeOperationError :: "appl_request \<Rightarrow> appl_err \<Rightarrow> appl_reply" where
  "writeOperationError c e = (let oam = (\<lambda>status code recovery. writeApplianceError c status code OriginOAM (ErrorText e) recovery);
       internal = writeApplianceError c 500 CodeInternal OriginOAM (Text ''Internal error'') RecoveryContactSupport in
     case e of
       ConflictError blocking \<Rightarrow> writeApplianceRecovery c 409 CodeOperationConflict OriginOAM (Text ''Another operation is active on this installation'')
         (if blocking = '''' then \<lparr>rec_Action = RecoveryRetry, rec_OperationID = ''''\<rparr> else \<lparr>rec_Action = RecoveryWait, rec_OperationID = blocking\<rparr>)
     | ErrPlanExpired \<Rightarrow> oam 410 CodePlanExpired RecoveryReplan
     | ErrPlanStale \<Rightarrow> oam 409 CodePlanStale RecoveryReplan
     | ErrOperationState _ \<Rightarrow> oam 409 CodeOperationStateInvalid RecoveryNone
     | ErrNotCancellable \<Rightarrow> oam 409 CodeOperationNotCancellable RecoveryNone
     | ErrAuthorizationNotRequired \<Rightarrow> oam 409 CodeAuthorizationNotRequired RecoveryNone
     | ErrSessionUnbound \<Rightarrow> oam 403 CodeReauthenticationRequired RecoveryReauthenticate
     | ErrChallengeRequired \<Rightarrow> oam 400 CodeChallengeRequired RecoveryNone
     | ErrChallengeMismatch \<Rightarrow> oam 403 CodeChallengeMismatch RecoveryNone
     | ErrChallengeConsumed \<Rightarrow> oam 409 CodeChallengeConsumed RecoveryNone
     | ErrChallengeExpired \<Rightarrow> oam 410 CodeChallengeExpired RecoveryNone
     | ErrIdempotencyKey \<Rightarrow> oam 400 CodeIdempotencyKeyInvalid RecoveryNone
     | ErrSchemaVersion \<Rightarrow> oam 400 CodeSchemaMismatch RecoveryNone
     | ErrInvalidRequest _ \<Rightarrow> oam 400 CodeInvalidRequest RecoveryNone
     | ErrInvalidFilter _ \<Rightarrow> oam 400 CodeInvalidRequest RecoveryNone
     | ErrPermissionDenied \<Rightarrow> writeApplianceError c 403 CodePermissionDenied OriginOAM (Text ''Forbidden: your role does not permit this operation'') RecoveryNone
     | ErrOperationNotFound \<Rightarrow> writeApplianceError c 404 CodeOperationNotFound OriginOAM (Text ''Operation not found'') RecoveryNone
     | ErrIdempotencyKeyReused \<Rightarrow> oam 409 CodeIdempotencyKeyReused RecoveryNone
     | AHost h \<Rightarrow> (case h of
           ErrHostNotConfigured \<Rightarrow> writeApplianceError c 501 CodeHostNotConfigured OriginOAM (Text ''This deployment has no Appliance host adapter'') RecoveryNone
         | HostRejection code \<Rightarrow> writeApplianceError c 422 (if hostCodeRE code then code else CodePlanRejected) OriginHost
             (Text ''The Appliance host adapter rejected the request'') RecoveryReplan
         | ErrHostUnreachable \<Rightarrow> writeApplianceError c 502 CodeHostUnreachable OriginHost (Text ''The Appliance host adapter did not answer'') RecoveryRetry
         | ErrHostJobNotFound \<Rightarrow> internal
         | ErrHostRequest \<Rightarrow> internal)
     | ErrVanished \<Rightarrow> internal
     | ErrRandom \<Rightarrow> internal
     | ADb _ \<Rightarrow> internal)"

definition bad_body :: "appl_request \<Rightarrow> appl_reply" where
  "bad_body c = writeApplianceError c 400 CodeInvalidRequest OriginOAM (Text ''Invalid request body'') RecoveryNone"

text \<open>The usual end of a handler.\<close>

definition answer :: "appl_request \<Rightarrow> int \<Rightarrow> ('a \<Rightarrow> appl_body) \<Rightarrow> ('w, 'x, 'a) appl_m \<Rightarrow> (('w, 'x) appliance_db_scheme, appl_reply) state" where
  "answer c status f m = do { r \<leftarrow> m; ret (case r of Inl e \<Rightarrow> writeOperationError c e | Inr a \<Rightarrow> appl_json c status (f a)) }"

section \<open>Handlers\<close>

definition GetCapabilities :: "'w HostClient \<Rightarrow> bool \<Rightarrow> appl_request \<Rightarrow> user_view \<Rightarrow> (('w, 'x) appliance_db_scheme, appl_reply) state" where
  "GetCapabilities host hasDB c user = do {
     caps \<leftarrow> host_Capabilities host hasDB (role_permits (v_role user));
     ret (appl_json c 200 (ACapabilities caps)) }"

definition GetStatus :: "'w HostClient \<Rightarrow> string \<Rightarrow> appl_request \<Rightarrow> (('w, 'x) appliance_site_scheme, appl_reply) state" where
  "GetStatus host version c = do { st \<leftarrow> host_Status host version; ret (appl_json c 200 (AStatus st)) }"

definition handle_PlanOperation :: "crypto \<Rightarrow> 'w HostClient \<Rightarrow> string option \<Rightarrow> appl_request \<Rightarrow> Claims \<Rightarrow> user_view \<Rightarrow> string \<Rightarrow> PlanRequest option
    \<Rightarrow> (('w, 'x) appliance_db_scheme, appl_reply) state" where
  "handle_PlanOperation C host rnd c claims user key body = (case body of
      None \<Rightarrow> ret (bad_body c)
    | Some req \<Rightarrow> do {
        r \<leftarrow> PlanOperation C host rnd (appl_caller c claims user) key (rq_ID c) req;
        ret (case r of
            Inl e \<Rightarrow> writeOperationError c e
          | Inr (op, created) \<Rightarrow> appl_json c (if created then 201 else 200) (AOperation op)) })"

definition handle_GetOperation :: "appl_request \<Rightarrow> Claims \<Rightarrow> user_view \<Rightarrow> (('w, 'x) appliance_db_scheme, appl_reply) state" where
  "handle_GetOperation c claims user = answer c 200 AOperation (GetOperation (appl_caller c claims user) (rq_Operation c))"

definition handle_ListOperations :: "appl_request \<Rightarrow> Claims \<Rightarrow> user_view \<Rightarrow> string \<Rightarrow> string \<Rightarrow> string \<Rightarrow> string
    \<Rightarrow> (('w, 'x) appliance_db_scheme, appl_reply) state" where
  "handle_ListOperations c claims user state type cursor raw =
     (let filter = (\<lambda>limit. \<lparr>lf_State = state, lf_Type = type, lf_Cursor = cursor, lf_Limit = limit\<rparr>);
          list = (\<lambda>limit. answer c 200 AOperations (ListOperations (appl_caller c claims user) (filter limit))) in
      if raw \<noteq> '''' then
        (case atoi raw of
           None \<Rightarrow> ret (writeOperationError c (ErrInvalidFilter ''limit''))
         | Some limit \<Rightarrow> if limit = 0 then ret (writeOperationError c (ErrInvalidFilter ''limit'')) else list limit)
      else list 0)"

definition tooManyAttempts :: "appl_request \<Rightarrow> int \<Rightarrow> appl_reply" where
  "tooManyAttempts c remaining =
     (case writeApplianceError c 429 CodeTooManyAttempts OriginOAM (Text ''Too many failed attempts. Try again later.'') RecoveryRetry of
        AReply status headers b \<Rightarrow> AReply status ((''Retry-After'', itoa (retry_after remaining)) # headers) b)"

text \<open>The password was not accepted.\<close>

definition reauthentication_failed :: "appl_request \<Rightarrow> Caller \<Rightarrow> user_err \<Rightarrow> int \<Rightarrow> (('w, 'x) appliance_db_scheme, appl_reply) state" where
  "reauthentication_failed c caller e now = do {
     r \<leftarrow> RecordFailedLogin (c_Username caller) (c_SourceIP caller) now;
     case fst r of
       Some blockedUntil \<Rightarrow> do {
         _ \<leftarrow> AuthorizationDenied caller (rq_Operation c) CodeTooManyAttempts;
         t \<leftarrow> time_now;
         ret (tooManyAttempts c (blockedUntil - t)) }
     | None \<Rightarrow>
         if e = ErrSystemError then ret (writeApplianceError c 500 CodeInternal OriginOAM (Text ''Internal error'') RecoveryContactSupport)
         else do {
           _ \<leftarrow> AuthorizationDenied caller (rq_Operation c) CodeReauthenticationFailed;
           ret (writeApplianceError c 401 CodeReauthenticationFailed OriginOAM (Text ''The password is not correct'') RecoveryNone) } }"

text \<open>The password was accepted.\<close>

definition authorize_now :: "crypto \<Rightarrow> string option \<Rightarrow> appl_request \<Rightarrow> Caller \<Rightarrow> (('w, 'x) appliance_db_scheme, appl_reply) state" where
  "authorize_now C rnd c caller = do {
     _ \<leftarrow> ClearLoginAttempts (c_Username caller) (c_SourceIP caller);
     r \<leftarrow> Authorize C rnd caller (rq_Operation c);
     ret (case r of
         Inl e \<Rightarrow> writeOperationError c e
       | Inr challenge \<Rightarrow> AReply 200 [(''X-Request-ID'', rq_ID c), (''Cache-Control'', ''no-store'')] (AChallenge challenge)) }"

definition AuthorizeOperation :: "Env \<Rightarrow> string option \<Rightarrow> string option \<Rightarrow> appl_request \<Rightarrow> Claims \<Rightarrow> user_view \<Rightarrow> string option
    \<Rightarrow> (('w, 'x) appliance_db_scheme, appl_reply) state" where
  "AuthorizeOperation E salt rnd c claims user body = (case body of
      None \<Rightarrow> ret (bad_body c)
    | Some password \<Rightarrow>
        if password = '''' then ret (writeApplianceError c 400 CodeInvalidRequest OriginOAM (Text ''password is required'') RecoveryNone)
        else (let caller = appl_caller c claims user in do {
          a \<leftarrow> CanAuthorize caller (rq_Operation c);
          case a of
            Inl e \<Rightarrow> ret (writeOperationError c e)
          | Inr _ \<Rightarrow> do {
              now \<leftarrow> time_now;
              b \<leftarrow> IsLoginBlocked (c_Username caller) (c_SourceIP caller) now;
              case (case b of Inl e \<Rightarrow> (False, 0) | Inr v \<Rightarrow> v) of
                (blocked, remaining) \<Rightarrow>
                  if blocked then do {
                    _ \<leftarrow> AuthorizationDenied caller (rq_Operation c) CodeTooManyAttempts;
                    ret (tooManyAttempts c remaining) }
                  else do {
                    v \<leftarrow> ValidateUser E salt (c_Username caller) password;
                    case v of
                      Inl e \<Rightarrow> reauthentication_failed c caller e now
                    | Inr _ \<Rightarrow> authorize_now (env_crypto E) rnd c caller } } }))"

definition SubmitOperation :: "crypto \<Rightarrow> 'w HostClient \<Rightarrow> appl_request \<Rightarrow> Claims \<Rightarrow> user_view \<Rightarrow> (string \<times> string) option
    \<Rightarrow> (('w, 'x) appliance_db_scheme, appl_reply) state" where
  "SubmitOperation C host c claims user body = (case body of
      None \<Rightarrow> ret (bad_body c)
    | Some (plan_hash, challenge) \<Rightarrow>
        if plan_hash = '''' then ret (writeApplianceError c 400 CodeInvalidRequest OriginOAM (Text ''plan_hash is required'') RecoveryNone)
        else answer c 202 AOperation (Submit C host (appl_caller c claims user) (rq_Operation c) plan_hash challenge))"

definition CancelOperation :: "'w HostClient \<Rightarrow> appl_request \<Rightarrow> Claims \<Rightarrow> user_view \<Rightarrow> (('w, 'x) appliance_db_scheme, appl_reply) state" where
  "CancelOperation host c claims user = answer c 202 AOperation (Cancel host (appl_caller c claims user) (rq_Operation c))"

definition ReconcileOperation :: "'w HostClient \<Rightarrow> appl_request \<Rightarrow> Claims \<Rightarrow> user_view \<Rightarrow> (('w, 'x) appliance_db_scheme, appl_reply) state" where
  "ReconcileOperation host c claims user = answer c 200 AOperation (Reconcile host (appl_caller c claims user) (rq_Operation c))"

text \<open>A route: the token, the capability, the handler.\<close>

definition appl_route :: "jwt \<Rightarrow> string \<Rightarrow> appl_request \<Rightarrow> (Claims \<Rightarrow> user_view \<Rightarrow> (('w, 'x) appliance_db_scheme, appl_reply) state)
    \<Rightarrow> (('w, 'x) appliance_db_scheme, reply + appl_reply) state" where
  "appl_route J header c handler = check id (TokenAuthMiddleware J header) (\<lambda>claims. do {
     g \<leftarrow> Require ActApplianceRead c claims;
     case g of
       Inl r \<Rightarrow> ret (ok r)
     | Inr user \<Rightarrow> do { r \<leftarrow> handler claims user; ret (ok r) } })"

section \<open>Routes\<close>

text \<open>The routes under \<^verbatim>\<open>/oam/v1/appliance\<close> with what each reads from its request.  The rate limiter in front of authorize is not modelled.\<close>

datatype appl_endpoint =
    EpCapabilities
  | EpStatus
  | EpList string string string string
  | EpPlan "string option" string "PlanRequest option"
  | EpGet
  | EpAuthorize "string option" "string option" "string option"
  | EpSubmit "(string \<times> string) option"
  | EpCancel
  | EpReconcile

fun endpoint :: "Env \<Rightarrow> 'w HostClient \<Rightarrow> string \<Rightarrow> appl_request \<Rightarrow> appl_endpoint \<Rightarrow> Claims \<Rightarrow> user_view
    \<Rightarrow> (('w, 'x) appliance_site_scheme, appl_reply) state" where
  "endpoint E host version c EpCapabilities claims user = GetCapabilities host True c user"
| "endpoint E host version c EpStatus claims user = GetStatus host version c"
| "endpoint E host version c (EpList state type cursor limit) claims user = handle_ListOperations c claims user state type cursor limit"
| "endpoint E host version c (EpPlan rnd key body) claims user = handle_PlanOperation (env_crypto E) host rnd c claims user key body"
| "endpoint E host version c EpGet claims user = handle_GetOperation c claims user"
| "endpoint E host version c (EpAuthorize salt rnd body) claims user = AuthorizeOperation E salt rnd c claims user body"
| "endpoint E host version c (EpSubmit body) claims user = SubmitOperation (env_crypto E) host c claims user body"
| "endpoint E host version c EpCancel claims user = CancelOperation host c claims user"
| "endpoint E host version c EpReconcile claims user = ReconcileOperation host c claims user"

section \<open>The envelope\<close>

text \<open>The text of an error of the contract may be shown; that of a database, host or internal error may not.\<close>

definition shown :: "message \<Rightarrow> bool" where
  "shown m \<longleftrightarrow> (case m of Text _ \<Rightarrow> True
     | ErrorText e \<Rightarrow> (case e of AHost _ \<Rightarrow> False | ADb _ \<Rightarrow> False | ErrVanished \<Rightarrow> False | ErrRandom \<Rightarrow> False | _ \<Rightarrow> True))"

definition well_formed_reply :: "appl_request \<Rightarrow> appl_reply \<Rightarrow> bool" where
  "well_formed_reply c r \<longleftrightarrow> (''X-Request-ID'', rq_ID c) \<in> set (ar_headers r) \<and> (case ar_body r of
      AError eb \<Rightarrow> 400 \<le> ar_status r \<and> ar_status r < 600 \<and> hostCodeRE (eb_Code eb) \<and> shown (eb_Error eb) \<and> eb_RequestID eb = rq_ID c \<and>
        (eb_OperationID eb = '''' \<or> ValidOperationID (eb_OperationID eb)) \<and> (''X-Loxi-Error-Origin'', eb_Origin eb) \<in> set (ar_headers r)
    | _ \<Rightarrow> ar_status r \<in> {200, 201, 202})"

lemmas code_defs = CodeUnauthorized_def CodePermissionDenied_def CodeHostNotConfigured_def CodeHostUnreachable_def CodeSchemaMismatch_def CodeInternal_def
  CodeInvalidRequest_def CodeIdempotencyKeyInvalid_def CodeIdempotencyKeyReused_def CodeOperationNotFound_def CodePlanRejected_def
  CodeOperationConflict_def CodeOperationStateInvalid_def CodePlanStale_def CodeAuthorizationNotRequired_def CodeReauthenticationRequired_def
  CodeReauthenticationFailed_def CodeTooManyAttempts_def CodeChallengeRequired_def CodePlanExpired_def CodeChallengeMismatch_def
  CodeChallengeConsumed_def CodeChallengeExpired_def CodeOperationNotCancellable_def

lemma error_well_formed:
  "400 \<le> status \<Longrightarrow> status < 600 \<Longrightarrow> hostCodeRE code \<Longrightarrow> shown m \<Longrightarrow> well_formed_reply c (writeApplianceRecovery c status code origin m recovery)"
  by (simp add: well_formed_reply_def writeApplianceRecovery_def)

lemma codes_plain:
  "hostCodeRE CodeUnauthorized" "hostCodeRE CodePermissionDenied" "hostCodeRE CodeHostNotConfigured" "hostCodeRE CodeHostUnreachable"
  "hostCodeRE CodeSchemaMismatch" "hostCodeRE CodeInternal" "hostCodeRE CodeInvalidRequest" "hostCodeRE CodeIdempotencyKeyInvalid"
  "hostCodeRE CodeIdempotencyKeyReused" "hostCodeRE CodeOperationNotFound" "hostCodeRE CodePlanRejected" "hostCodeRE CodeOperationConflict"
  "hostCodeRE CodeOperationStateInvalid" "hostCodeRE CodePlanStale" "hostCodeRE CodeAuthorizationNotRequired" "hostCodeRE CodeReauthenticationRequired"
  "hostCodeRE CodeReauthenticationFailed" "hostCodeRE CodeTooManyAttempts" "hostCodeRE CodeChallengeRequired" "hostCodeRE CodePlanExpired"
  "hostCodeRE CodeChallengeMismatch" "hostCodeRE CodeChallengeConsumed" "hostCodeRE CodeChallengeExpired" "hostCodeRE CodeOperationNotCancellable"
  by (simp_all add: code_defs hostCodeRE_def in_range_def byte_def)

lemma operation_error_well_formed: "well_formed_reply c (writeOperationError c e)"
  by (cases e) (auto simp: writeOperationError_def Let_def writeApplianceError_def codes_plain shown_def intro!: error_well_formed split: host_err.splits)

text \<open>Every run of a computation answers in the envelope.\<close>

definition replies :: "appl_request \<Rightarrow> ('s, appl_reply) state \<Rightarrow> bool" where
  "replies c m \<longleftrightarrow> (\<forall>s. well_formed_reply c (fst (run_state m s)))"

lemma replies_ret: "well_formed_reply c r \<Longrightarrow> replies c (ret r)"
  by (simp add: replies_def)

lemma replies_bind: "(\<And>a. replies c (f a)) \<Longrightarrow> replies c (State_Monad.bind m f)"
  by (simp add: replies_def split_beta)

lemma replies_ret_bind: "(\<And>a. well_formed_reply c (g a)) \<Longrightarrow> replies c (State_Monad.bind m (\<lambda>a. ret (g a)))"
  by (intro replies_bind replies_ret)

lemma json_well_formed: "status \<in> {200, 201, 202} \<Longrightarrow> (\<And>eb. b \<noteq> AError eb) \<Longrightarrow> well_formed_reply c (appl_json c status b)"
  by (cases b) (auto simp: well_formed_reply_def appl_json_def)

lemma error_reply: "400 \<le> status \<Longrightarrow> status < 600 \<Longrightarrow> hostCodeRE code \<Longrightarrow> well_formed_reply c (writeApplianceError c status code origin (Text t) recovery)"
  unfolding writeApplianceError_def by (rule error_well_formed) (simp_all add: shown_def)

lemma too_many_well_formed: "well_formed_reply c (tooManyAttempts c d)"
  by (simp add: tooManyAttempts_def writeApplianceError_def writeApplianceRecovery_def well_formed_reply_def shown_def codes_plain)

lemma answer_replies: "status \<in> {200, 201, 202} \<Longrightarrow> (\<And>a eb. f a \<noteq> AError eb) \<Longrightarrow> replies c (answer c status f m)"
  unfolding answer_def by (intro replies_ret_bind) (auto intro!: json_well_formed operation_error_well_formed split: sum.split)

lemma authorize_now_replies: "replies c (authorize_now C rnd c caller)"
  unfolding authorize_now_def
  by (intro replies_bind) (auto intro!: replies_ret operation_error_well_formed simp: well_formed_reply_def [of _ "AReply _ _ _"] split: sum.split)

lemma reauthentication_failed_replies: "replies c (reauthentication_failed c caller e now)"
  unfolding reauthentication_failed_def
  by (intro replies_bind) (auto intro!: replies_bind replies_ret too_many_well_formed error_reply simp: codes_plain split: option.split)

lemma AuthorizeOperation_replies: "replies c (AuthorizeOperation E salt rnd c claims user body)"
  unfolding AuthorizeOperation_def Let_def bad_body_def
  by (cases body)
    (auto intro!: replies_bind replies_ret too_many_well_formed error_reply operation_error_well_formed authorize_now_replies reauthentication_failed_replies
      simp: codes_plain split: sum.split prod.split)

lemma endpoint_replies: "replies c (endpoint E host version c ep claims user)"
proof (cases ep)
  case (EpList state type cursor limit)
  then show ?thesis
    by (auto simp: handle_ListOperations_def Let_def intro!: answer_replies replies_ret operation_error_well_formed split: option.split)
next
  case (EpPlan rnd key body)
  then show ?thesis
    by (cases body) (auto simp: handle_PlanOperation_def bad_body_def codes_plain
      intro!: replies_ret replies_ret_bind error_reply json_well_formed operation_error_well_formed split: sum.split prod.split)
next
  case (EpSubmit body)
  then show ?thesis
    by (cases body) (auto simp: SubmitOperation_def bad_body_def codes_plain intro!: replies_ret answer_replies error_reply split: prod.split)
qed (auto simp: GetCapabilities_def GetStatus_def handle_GetOperation_def CancelOperation_def ReconcileOperation_def
    intro!: replies_ret_bind json_well_formed answer_replies AuthorizeOperation_replies)


section \<open>Reauthentication\<close>

definition users_are :: "User list \<Rightarrow> ('w, 'x) oam_db_scheme \<Rightarrow> bool" where
  "users_are us s \<longleftrightarrow> users s = us"

lemma same_tables_users: "same_tables s s' \<Longrightarrow> users s' = users s"
  by (cases s; cases s') (auto simp: same_tables_def)

interpretation users_are: table_invariant "users_are us :: ('w, 'x) oam_db_scheme \<Rightarrow> bool"
  by unfold_locales (auto simp: users_are_def dest: same_tables_users)

lemma expirePlans_users: "preserves (users_are us) (expirePlans :: (('w, 'x) appliance_db_scheme, db_err + nat) state)"
  unfolding expirePlans_def by (rule users_are.preserves_stmt) (simp add: users_are_def update_operations_def Let_def)

lemma CanAuthorize_users: "preserves (users_are us) (CanAuthorize caller i :: ('w, 'x, unit) appl_m)"
  unfolding CanAuthorize_def authorizable_def load_def operationByID_def select_operation_def
  by (intro hoare_rules expirePlans_users users_are.preserves_query)

lemma IsLoginBlocked_users: "preserves (users_are us) (IsLoginBlocked u ip now)"
  unfolding IsLoginBlocked_def GetLoginAttempt_def RetryOperation_once
  by (intro hoare_rules users_are.preserves_query users_are.preserves_time_now)

lemma ValidateUser_password:
  assumes "users_are us s" and "run_state (ValidateUser E salt name pw) s = (ok i, s')"
  shows "\<exists>u \<in> set us. u_username u = name \<and> u_id u = i \<and> VerifyPassword (env_crypto E) pw (u_password u)"
proof -
  obtain q s1 where q: "run_state (select_user (\<lambda>u. u_username u = name) (\<lambda>u. ok (u_id u, u_password u))) s = (q, s1)" by force
  with assms(2) obtain h where ok: "q = ok (i, h)" and pw: "VerifyPassword (env_crypto E) pw h"
    by (auto simp: ValidateUser_def split: sum.splits prod.splits if_splits)
  from hoareD [OF users_are.hoare_query assms(1) q [unfolded select_user_def]] ok have
    "users_are us s1" "(case find_row (\<lambda>u. u_username u = name) (users s1) of None \<Rightarrow> err NoRows | Some u \<Rightarrow> ok (u_id u, u_password u)) = ok (i, h)" by auto
  then show ?thesis using pw by (auto simp: users_are_def split: option.splits dest!: find_row_Some)
qed

text \<open>What a successful authorization leaves in the database.\<close>

definition challenge_issued :: "crypto \<Rightarrow> Caller \<Rightarrow> string \<Rightarrow> string \<Rightarrow> ('w, 'x) appliance_db_scheme \<Rightarrow> bool" where
  "challenge_issued C caller i v s \<longleftrightarrow> (\<exists>ch \<in> set (challenges s). ch_hash ch = hashChallenge C v \<and> ch_operation ch = i \<and> ch_user ch = c_UserID caller \<and>
     ch_session ch = c_SessionID caller \<and> ch_consumed ch = None)"

interpretation challenge_issued: table_invariant "challenge_issued C caller i v :: ('w, 'x) appliance_db_scheme \<Rightarrow> bool"
  by unfold_locales (metis challenge_issued_def same_tables_appl)

lemma authorize_tx_issues:
  assumes "run_state (authorize_tx C caller op v) s = (ok t, s')"
  shows "challenge_issued C caller (o_ID op) v s'"
proof -
  from assms obtain s0 s1 where body: "run_state (check ADb (db_stmt (await_update (o_ID op))) (\<lambda>n.
     if n \<noteq> 1 then ret (err ErrPlanExpired)
     else check ADb (db_stmt (drop_challenges (o_ID op))) (\<lambda>_.
       check ADb (db_stmt (insert_challenge C caller v (o_ID op))) (\<lambda>expiresAt.
       check ADb (writeAudit (state_audit AuditAuthorize caller op StateAwaitingAuthorization)) (\<lambda>_.
         ret (ok expiresAt)))))) s0 = (ok t, s1)" and st: "same_tables s1 s'"
    unfolding authorize_tx_def by (rule with_tx_ok)
  from body obtain sa sb e where ins: "run_state (db_stmt (insert_challenge C caller v (o_ID op))) sa = (ok e, sb)"
    and aud: "run_state (writeAudit (state_audit AuditAuthorize caller op StateAwaitingAuthorization)) sb = (ok (), s1)"
    by (auto simp: run_check split: prod.splits sum.splits if_splits)
  from ins obtain sc where "insert_challenge C caller v (o_ID op) sc = (ok e, sb)" by (rule db_stmt_ok)
  then have "challenge_issued C caller (o_ID op) v sb"
    by (auto simp: insert_challenge_def challenge_issued_def Let_def take_seq_def split: option.splits if_splits)
  moreover from aud obtain sd where "same_tables sb sd" "insert_audit (state_audit AuditAuthorize caller op StateAwaitingAuthorization) sd = (ok (), s1)"
    unfolding writeAudit_def by (rule db_stmt_ok)
  then have "challenges s1 = challenges sb" by (auto simp: insert_audit_def take_seq_def Let_def split: prod.splits option.splits dest: same_tables_appl)
  ultimately have "challenge_issued C caller (o_ID op) v s1" by (simp add: challenge_issued_def)
  then show ?thesis by (rule challenge_issued.same_tables [OF st])
qed

lemma authorizable_ok:
  assumes "run_state (authorizable caller i) s = (ok op, s')"
  shows "o_ID op = i \<and> Destructive (OperationType_Action (o_Type op)) \<and> c_SessionID caller \<noteq> '''' \<and> c_Permitted caller (OperationType_Action (o_Type op))"
proof -
  from assms obtain s1 where "run_state (operationByID i) s1 = (ok (Some op), s')"
      "Destructive (OperationType_Action (o_Type op))" "c_SessionID caller \<noteq> ''''" "c_Permitted caller (OperationType_Action (o_Type op))"
    by (auto simp: authorizable_def load_def run_check split: prod.splits sum.splits if_splits option.splits)
  moreover from query_rows(2) [OF this(1) [unfolded operationByID_def select_operation_def]] obtain r where
    "find_row (\<lambda>r. r_id r = i) (operations s') = Some r" "op = scanOperation r" by (cases "find_row (\<lambda>r. r_id r = i) (operations s')") auto
  ultimately show ?thesis by (auto simp: scanOperation_def dest: find_row_Some)
qed

lemma Authorize_issues:
  assumes "run_state (Authorize C rnd caller i) s = (ok ch, s')"
  shows "challenge_issued C caller i (cl_Challenge ch) s' \<and> cl_OperationID ch = i \<and> c_SessionID caller \<noteq> '''' \<and>
     (\<exists>ty. Destructive (OperationType_Action ty) \<and> c_Permitted caller (OperationType_Action ty))"
proof -
  obtain x s1 where a: "run_state (authorizable caller i) s = (x, s1)" by force
  with assms obtain op where x: "x = ok op" by (cases x) (auto simp: Authorize_def run_check)
  from assms a x obtain raw t s2 where tx: "run_state (authorize_tx C caller op (hex_encode raw)) s1 = (ok t, s')"
    and ch: "cl_Challenge ch = hex_encode raw" "cl_OperationID ch = o_ID op"
    by (auto simp: Authorize_def run_check Let_def or_conflict_def conflict_def split: prod.splits sum.splits option.splits appl_err.splits if_splits)
  from authorizable_ok [OF a [unfolded x]] authorize_tx_issues [OF tx] ch show ?thesis by auto
qed

text \<open>With a calm database nothing moves while the request is checked.\<close>

definition calm_at :: "int \<Rightarrow> User list \<Rightarrow> LoginAttempt list \<Rightarrow> ('w, 'x) oam_db_scheme \<Rightarrow> bool" where
  "calm_at now us las s \<longleftrightarrow> script s = [] \<and> clock s = now \<and> users s = us \<and> login_attempts s = las"

lemma calm_stmt: "(\<And>s. calm_at now us las s \<Longrightarrow> calm_at now us las (snd (f s))) \<Longrightarrow> preserves (calm_at now us las) (db_stmt f)"
  unfolding hoare_def by (simp add: calm_at_def split_beta)

lemma calm_query: "preserves (calm_at now us las) (db_query g)"
  unfolding db_query_def by (rule calm_stmt) simp

lemma CanAuthorize_calm: "preserves (calm_at now us las) (CanAuthorize caller i :: ('w, 'x, unit) appl_m)"
proof -
  have "preserves (calm_at now us las) (expirePlans :: (('w, 'x) appliance_db_scheme, db_err + nat) state)"
    unfolding expirePlans_def by (rule calm_stmt) (simp add: calm_at_def update_operations_def Let_def)
  then show ?thesis unfolding CanAuthorize_def authorizable_def load_def operationByID_def select_operation_def
    by (intro hoare_rules calm_query)
qed

lemma IsLoginBlocked_calm:
  assumes "calm_at now us las s" and "view_blocked (attempt_view u ip s) t"
  shows "\<exists>r s'. run_state (IsLoginBlocked u ip t) s = (ok (True, r), s')"
  using assms by (auto simp: IsLoginBlocked_def GetLoginAttempt_def run_simps calm_at_def view_blocked_def attempt_view_def attempt_blocked_def
    split: option.splits prod.splits)

lemma error_status [simp]: "ar_status (writeApplianceError c st code origin m rec) = st"
  by (simp add: writeApplianceError_def writeApplianceRecovery_def)

lemma many_status [simp]: "ar_status (tooManyAttempts c d) = 429"
  by (simp add: tooManyAttempts_def writeApplianceError_def writeApplianceRecovery_def)

lemma operation_error_status [simp]: "ar_status (writeOperationError c e) \<noteq> 200"
  by (cases e) (auto simp: writeOperationError_def Let_def writeApplianceError_def writeApplianceRecovery_def split: host_err.splits)

lemma failed_status [simp]: "ar_status (fst (run_state (reauthentication_failed c caller e now) t)) \<noteq> 200"
  by (auto simp: reauthentication_failed_def split: prod.splits option.splits)

lemma AuthorizeOperation_parts:
  assumes "run_state (AuthorizeOperation E salt rnd c claims user (Some pw)) s = (r, s')" and "ar_status r = 200"
  obtains s1 bl s2 i s3 where "run_state (CanAuthorize (appl_caller c claims user) (rq_Operation c)) s = (ok (), s1)"
    and "run_state (IsLoginBlocked (v_username user) (rq_ClientIP c) (clock s1)) s1 = (bl, s2)" and "\<And>d. bl \<noteq> ok (True, d)"
    and "run_state (ValidateUser E salt (v_username user) pw) s2 = (ok i, s3)"
    and "run_state (authorize_now (env_crypto E) rnd c (appl_caller c claims user)) s3 = (r, s')"
proof -
  let ?caller = "appl_caller c claims user"
  obtain a s1 where a: "run_state (CanAuthorize ?caller (rq_Operation c)) s = (a, s1)" by force
  obtain bl s2 where bl: "run_state (IsLoginBlocked (v_username user) (rq_ClientIP c) (clock s1)) s1 = (bl, s2)" by force
  obtain v s3 where v: "run_state (ValidateUser E salt (v_username user) pw) s2 = (v, s3)" by force
  have names: "c_Username ?caller = v_username user" "c_SourceIP ?caller = rq_ClientIP c" by (simp_all add: appl_caller_def)
  have pw: "pw \<noteq> []" using assms by (auto simp: AuthorizeOperation_def)
  with assms a have ok: "a = ok ()" by (cases a) (auto simp: AuthorizeOperation_def Let_def)
  have free: "bl \<noteq> ok (True, d)" for d
    using assms pw a ok bl by (auto simp: AuthorizeOperation_def Let_def names run_time_now split: prod.splits)
  have fst: "\<not> fst (case bl of Inl e \<Rightarrow> (False, 0) | Inr w \<Rightarrow> w)"
  proof (cases bl)
    case (Inr w)
    then show ?thesis using free [of "snd w"] by (cases w) auto
  qed simp
  obtain i where i: "v = ok i"
  proof (cases v)
    case (Inl e)
    with assms pw a ok bl v fst have "r = fst (run_state (reauthentication_failed c ?caller e (clock s1)) s3)"
      by (auto simp: AuthorizeOperation_def Let_def names run_time_now split: prod.splits sum.splits)
    with assms(2) show ?thesis by simp
  qed (use that in blast)
  moreover from assms pw a ok bl v i fst have "run_state (authorize_now (env_crypto E) rnd c ?caller) s3 = (r, s')"
    by (auto simp: AuthorizeOperation_def Let_def names run_time_now split: prod.splits sum.splits)
  ultimately show thesis using that a ok bl free v by blast
qed

text \<open>
  C32. A challenge is given only for the caller's own current password.  When the authorize handler answers 200, under every pattern of
  database failures, the database held, when the request came, a user of the caller's name whose stored hash accepts the password; the caller's role may run
  a destructive action; and the reply carries a challenge whose hash is stored for this operation, this user and this session, not consumed.  When the
  database answers, the login lockout did not block the caller and address.
\<close>

theorem authorize_needs_password:
  assumes "run_state (AuthorizeOperation E salt rnd c claims user (Some pw)) s = (r, s')" and "ar_status r = 200"
  shows "(\<exists>u \<in> set (users s). u_username u = v_username user \<and> VerifyPassword (env_crypto E) pw (u_password u)) \<and>
    (script s = [] \<longrightarrow> \<not> view_blocked (attempt_view (v_username user) (rq_ClientIP c) s) (clock s)) \<and>
    v_role user = RoleAdmin \<and>
    (\<exists>ch. ar_body r = AChallenge ch \<and> cl_OperationID ch = rq_Operation c \<and>
       challenge_issued (env_crypto E) (appl_caller c claims user) (rq_Operation c) (cl_Challenge ch) s')"
proof -
  let ?caller = "appl_caller c claims user"
  from AuthorizeOperation_parts [OF assms] obtain s1 bl s2 i s3 where can: "run_state (CanAuthorize ?caller (rq_Operation c)) s = (ok (), s1)"
    and bl: "run_state (IsLoginBlocked (v_username user) (rq_ClientIP c) (clock s1)) s1 = (bl, s2)" and free: "\<And>d. bl \<noteq> ok (True, d)"
    and v: "run_state (ValidateUser E salt (v_username user) pw) s2 = (ok i, s3)"
    and auth: "run_state (authorize_now (env_crypto E) rnd c ?caller) s3 = (r, s')" by blast
  have "users_are (users s) s" by (simp add: users_are_def)
  from hoareD [OF IsLoginBlocked_users hoareD [OF CanAuthorize_users this can] bl] have "users_are (users s) s2" .
  from ValidateUser_password [OF this v] have pw: "\<exists>u \<in> set (users s). u_username u = v_username user \<and> VerifyPassword (env_crypto E) pw (u_password u)" by blast
  have lock: "\<not> view_blocked (attempt_view (v_username user) (rq_ClientIP c) s) (clock s)" if "script s = []"
  proof
    assume b: "view_blocked (attempt_view (v_username user) (rq_ClientIP c) s) (clock s)"
    from that have "calm_at (clock s) (users s) (login_attempts s) s" by (simp add: calm_at_def)
    from hoareD [OF CanAuthorize_calm this can] have c1: "calm_at (clock s) (users s) (login_attempts s) s1" .
    then have "attempt_view (v_username user) (rq_ClientIP c) s1 = attempt_view (v_username user) (rq_ClientIP c) s" "clock s1 = clock s"
      by (simp_all add: attempt_view_def calm_at_def)
    with IsLoginBlocked_calm [OF c1, of "v_username user" "rq_ClientIP c" "clock s"] b bl free show False by auto
  qed
  obtain x s4 where "run_state (Authorize (env_crypto E) rnd ?caller (rq_Operation c)) s4 = (x, s')" and r: "r = (case x of Inl e \<Rightarrow> writeOperationError c e
       | Inr challenge \<Rightarrow> AReply 200 [(''X-Request-ID'', rq_ID c), (''Cache-Control'', ''no-store'')] (AChallenge challenge))"
    using auth by (auto simp: authorize_now_def split: prod.splits)
  with assms(2) obtain ch where ch: "run_state (Authorize (env_crypto E) rnd ?caller (rq_Operation c)) s4 = (ok ch, s')" "ar_body r = AChallenge ch"
    by (cases x) auto
  from Authorize_issues [OF ch(1)] obtain ty where "Destructive (OperationType_Action ty)" "c_Permitted ?caller (OperationType_Action ty)" by blast
  then have "v_role user = RoleAdmin"
    by (auto simp: appl_caller_def role_permits_def actionCapability_def split: if_splits option.splits dest: Can_only_admin [rotated])
  with pw lock ch(2) Authorize_issues [OF ch(1)] show ?thesis by blast
qed

section \<open>Evaluation\<close>

definition desk_request :: appl_request where
  "desk_request = \<lparr>rq_ID = ''req-9'', rq_Operation = reset_id, rq_ClientIP = ''10.0.0.1''\<rparr>"

definition desk_user :: user_view where
  "desk_user = \<lparr>v_id = 1, v_username = ''root'', v_password = [], v_role = ''admin'', v_email = ''r@x'', v_created = 0\<rparr>"

definition desk_claims :: Claims where
  "desk_claims = \<lparr>c_username = ''root'', c_role = [], c_user_id = 1, c_jti = ''sess'', c_issued = 0, c_expires = 0\<rparr>"

definition desk_db :: "fixture_world appliance_db" where
  "desk_db = reset_db\<lparr>users := [new_user 1 0 ''root'' ''r@x'' demo_hash ''admin''], operations := [reset_row]\<rparr>"

abbreviation desk_caller :: Caller where
  "desk_caller \<equiv> appl_caller desk_request desk_claims desk_user"

lemma desk_caller_facts: "c_Permitted desk_caller (OperationType_Action OperationReset)" "c_SessionID desk_caller = ''sess''"
    "c_Username desk_caller = ''root''" "c_SourceIP desk_caller = ''10.0.0.1''" "rq_Operation desk_request = reset_id" "v_username desk_user = ''root''"
  by (simp_all add: appl_caller_def desk_claims_def desk_user_def desk_request_def role_permits_def actionCapability_def OperationType_Action_def
      optype_defs action_defs can_defs)

lemma desk_authorizable: "run_state (authorizable desk_caller reset_id) desk_db = (ok (scanOperation reset_row), desk_db)"
proof -
  have "ValidOperationID reset_id" by (rule newOperationID_valid [OF reset_id_made]) simp
  then have "run_state (load desk_caller reset_id) desk_db = (ok (scanOperation reset_row), desk_db)"
    using desk_caller_facts(1)
    by (simp add: load_def run_check expirePlans_def update_operations_def Let_def operationByID_def select_operation_def desk_db_def reset_defs
        scanOperation_def plan_overdue_def db_now_def PlanTTL_def one_active_def state_defs Active_def count_where_def)
  then show ?thesis using desk_caller_facts(2)
    by (simp add: authorizable_def run_check scanOperation_def reset_row_def new_row_def reset_request_def Destructive_def OperationType_Action_def
        optype_defs action_defs)
qed

lemma desk_validate: "run_state (ValidateUser demo_env None ''root'' ''pw'') desk_db = (ok 1, desk_db)"
  by (simp add: ValidateUser_def select_user_def desk_db_def reset_db_def new_user_def demo_env_def demo_verify demo_needs_rehash HashPassword_def)

lemma desk_clear: "run_state (ClearLoginAttempts ''root'' ''10.0.0.1'') desk_db = (ok (), desk_db)"
  by (simp add: ClearLoginAttempts_def run_check desk_db_def reset_db_def del_where_def)

lemma desk_free: "run_state (IsLoginBlocked ''root'' ''10.0.0.1'' now) desk_db = (ok (False, 0), desk_db)"
  by (simp add: IsLoginBlocked_def GetLoginAttempt_def run_check attempt_blocked_def desk_db_def reset_db_def)

lemma desk_authorize: "\<exists>t s'. run_state (authorize_tx demo_crypto desk_caller (scanOperation reset_row) v) desk_db = (ok t, s')"
  by (simp add: authorize_tx_def with_tx_def run_check await_update_def drop_challenges_def insert_challenge_def writeAudit_def insert_audit_def
    update_operations_def Let_def db_now_def scanOperation_def one_active_def PlanTTL_def count_where_def end_tx_def del_where_def
    state_audit_def take_seq_def desk_db_def reset_defs)

lemma desk_run:
  "\<exists>r s'. run_state (AuthorizeOperation demo_env None (Some ''zz'') desk_request desk_claims desk_user (Some ''pw'')) desk_db = (r, s') \<and> ar_status r = 200"
proof -
  obtain t s' where "run_state (authorize_tx demo_crypto desk_caller (scanOperation reset_row) (hex_encode ''zz'')) desk_db = (ok t, s')"
    using desk_authorize by blast
  then have "\<exists>ch. run_state (Authorize (env_crypto demo_env) (Some ''zz'') desk_caller reset_id) desk_db = (ok ch, s')"
    using desk_authorizable by (simp add: Authorize_def run_check Let_def demo_env_def)
  then have "\<exists>r. run_state (authorize_now (env_crypto demo_env) (Some ''zz'') desk_request desk_caller) desk_db = (r, s') \<and> ar_status r = 200"
    using desk_clear by (auto simp: authorize_now_def desk_caller_facts)
  then show ?thesis using desk_authorizable desk_free desk_validate
    by (auto simp: AuthorizeOperation_def Let_def CanAuthorize_def run_check run_time_now desk_caller_facts)
qed

theorem authorize_needs_password_witness:
  "\<exists>r s'. run_state (AuthorizeOperation demo_env None (Some ''zz'') desk_request desk_claims desk_user (Some ''pw'')) desk_db = (r, s') \<and>
     (\<exists>ch. ar_body r = AChallenge ch \<and> challenge_issued demo_crypto desk_caller reset_id (cl_Challenge ch) s')"
proof -
  obtain r s' where run: "run_state (AuthorizeOperation demo_env None (Some ''zz'') desk_request desk_claims desk_user (Some ''pw'')) desk_db = (r, s')"
    and st: "ar_status r = 200" using desk_run by blast
  from authorize_needs_password [OF run st] have "\<exists>ch. ar_body r = AChallenge ch \<and> challenge_issued (env_crypto demo_env) desk_caller reset_id (cl_Challenge ch) s'"
    unfolding desk_caller_facts by blast
  with run show ?thesis by (auto simp: demo_env_def)
qed

definition desk_site :: "fixture_world appliance_site" where
  "desk_site = \<lparr>clock = 0, tx_start = None, script = [], seqs = (\<lambda>_. 1), outside = reset_world,
     users = [new_user 1 0 ''root'' ''r@x'' demo_hash ''viewer''], instances = [],
     api_tokens = [\<lparr>t_id = 1, t_value = ''root.1'', t_user = ''1'', t_scopes = [], t_expires = hour, t_created = 0\<rparr>],
     login_attempts = [], system_settings = [], system_config = [],
     alerts = [], acknowledgments = [], snapshots = [], schedules = [], operations = [], challenges = [], audit_rows = [], site_migrations = None\<rparr>"


end
