(* ===== verification/Instances.thy ===== *)
theory Instances
  imports Schema Json
begin

text \<open>
  Validation of instance registrations (\<^verbatim>\<open>internal/models/instance_validation.go\<close>): the grammar of every field that becomes a part of the
  endpoint OAM proxies to.  The regular expressions are executable matchers; \<^verbatim>\<open>net.ParseIP\<close> of the standard library is modelled.
\<close>

section \<open>IP literals\<close>

text \<open>\<^verbatim>\<open>parseIPv4Fields\<close>: four decimal fields of at most 255 without leading zeros.\<close>

definition ipv4_field :: "string \<Rightarrow> nat option" where
  "ipv4_field w =
     (if w = [] \<or> \<not> list_all is_digit w \<or> (length w > 1 \<and> hd w = CHR ''0'') then None
      else (case digits_val 0 w of Some v \<Rightarrow> if v \<le> 255 then Some v else None | None \<Rightarrow> None))"

definition parse_ipv4 :: "string \<Rightarrow> nat list option" where
  "parse_ipv4 s = (case map ipv4_field (split_on CHR ''.'' s) of
      [Some a, Some b, Some c, Some d] \<Rightarrow> Some [a, b, c, d]
    | _ \<Rightarrow> None)"

definition ip_hex :: "char \<Rightarrow> bool" where
  "ip_hex c \<longleftrightarrow> in_range 48 57 (byte c) \<or> in_range 97 102 (byte c) \<or> in_range 65 70 (byte c)"

definition ip_hex_val :: "char \<Rightarrow> nat" where
  "ip_hex_val c = (if in_range 48 57 (byte c) then byte c - 48 else if in_range 97 102 (byte c) then byte c - 87 else byte c - 55)"

definition hex_group :: "string \<Rightarrow> nat" where
  "hex_group w = fold (\<lambda>c acc. 16 * acc + ip_hex_val c) w 0"

text \<open>
  The loop of \<^verbatim>\<open>netip.parseIPv6\<close>: \<open>ip\<close> are the bytes read, \<open>el\<close> is where the ellipsis stands.  It returns the bytes, the ellipsis and the rest of the
  string (empty when the loop ends well).
\<close>

function ipv6_loop :: "nat list \<Rightarrow> nat option \<Rightarrow> string \<Rightarrow> (nat list \<times> nat option \<times> string) option" where
  "ipv6_loop ip el s =
     (if length ip \<ge> 16 then Some (ip, el, s)
      else (let g = takeWhile ip_hex s; rest = drop (length g) s in
        if length g = 0 \<or> length g > 4 then None
        else if rest \<noteq> [] \<and> hd rest = CHR ''.'' then
          (if (el = None \<and> length ip \<noteq> 12) \<or> length ip + 4 > 16 then None
           else (case parse_ipv4 s of None \<Rightarrow> None | Some q \<Rightarrow> Some (ip @ q, el, [])))
        else (let ip = ip @ [hex_group g div 256, hex_group g mod 256] in
          if rest = [] then Some (ip, el, [])
          else if hd rest \<noteq> CHR '':'' \<or> length rest = 1 then None
          else (let s = tl rest in
            if hd s = CHR '':'' then
              (if el \<noteq> None then None
               else if tl s = [] then Some (ip, Some (length ip), [])
               else ipv6_loop ip (Some (length ip)) (tl s))
            else ipv6_loop ip el s))))"
  by pat_completeness auto
termination
  by (relation "measure (\<lambda>(ip, el, s). length s)") (auto simp: Let_def)

declare ipv6_loop.simps [simp del]

definition expand_ipv6 :: "nat list \<times> nat option \<times> string \<Rightarrow> nat list option" where
  "expand_ipv6 r = (case r of (ip, el, s) \<Rightarrow>
     if s \<noteq> [] then None
     else if length ip < 16 then
       (case el of None \<Rightarrow> None | Some e \<Rightarrow> Some (take e ip @ replicate (16 - length ip) 0 @ drop e ip))
     else if el \<noteq> None then None else Some ip)"

definition parse_ipv6 :: "string \<Rightarrow> nat list option" where
  "parse_ipv6 s =
     (if CHR ''%'' \<in> set s then None
      else if take 2 s = ''::'' then
        (if drop 2 s = [] then Some (replicate 16 0)
         else Option.bind (ipv6_loop [] (Some 0) (drop 2 s)) expand_ipv6)
      else Option.bind (ipv6_loop [] None s) expand_ipv6)"

text \<open>\<^verbatim>\<open>net.ParseIP\<close>: the first dot or colon decides the family; a zone is refused.\<close>

datatype ip_addr = IPv4 "nat list" | IPv6 "nat list"

definition ParseIP :: "string \<Rightarrow> ip_addr option" where
  "ParseIP s = (case List.find (\<lambda>c. c = CHR ''.'' \<or> c = CHR '':'' \<or> c = CHR ''%'') s of
      None \<Rightarrow> None
    | Some c \<Rightarrow>
        if c = CHR ''.'' then map_option IPv4 (parse_ipv4 s)
        else if c = CHR '':'' then map_option IPv6 (parse_ipv6 s)
        else None)"

text \<open>\<^verbatim>\<open>To4\<close>: an IPv4 address, or one mapped into IPv6.\<close>

definition To4 :: "ip_addr \<Rightarrow> nat list option" where
  "To4 a = (case a of
      IPv4 q \<Rightarrow> Some q
    | IPv6 b \<Rightarrow> if take 12 b = replicate 10 0 @ [255, 255] then Some (drop 12 b) else None)"

definition ipv4_text :: "nat list \<Rightarrow> string" where
  "ipv4_text q = join ''.'' (map nat_str q)"

section \<open>Grammar\<close>

definition alnum :: "char \<Rightarrow> bool" where
  "alnum c \<longleftrightarrow> in_range 65 90 (byte c) \<or> in_range 97 122 (byte c) \<or> in_range 48 57 (byte c)"

definition lower_alnum :: "char \<Rightarrow> bool" where
  "lower_alnum c \<longleftrightarrow> in_range 97 122 (byte c) \<or> in_range 48 57 (byte c)"

definition word_char :: "char \<Rightarrow> bool" where
  "word_char c \<longleftrightarrow> alnum c \<or> c \<in> set ''._-''"

text \<open>\<^verbatim>\<open>^[A-Za-z0-9][A-Za-z0-9._-]*$\<close>, for names and versions.\<close>

definition plain_token :: "string \<Rightarrow> bool" where
  "plain_token s \<longleftrightarrow> s \<noteq> [] \<and> alnum (hd s) \<and> list_all word_char (tl s)"

text \<open>\<^verbatim>\<open>^[A-Za-z0-9]([A-Za-z0-9-]{0,61}[A-Za-z0-9])?$\<close>\<close>

definition dnsLabelRe :: "string \<Rightarrow> bool" where
  "dnsLabelRe s \<longleftrightarrow> s \<noteq> [] \<and> length s \<le> 63 \<and> alnum (hd s) \<and> alnum (last s) \<and> list_all (\<lambda>c. alnum c \<or> c = CHR ''-'') s"

definition allDigitsRe :: "string \<Rightarrow> bool" where
  "allDigitsRe s \<longleftrightarrow> s \<noteq> [] \<and> list_all is_digit s"

text \<open>One path component of an image: runs of \<^verbatim>\<open>[a-z0-9]+\<close> separated by a dot, one or two underscores, or dashes.\<close>

datatype image_state = IStart | IRun | IDot | IUnder | IUnder2 | IDash | IBad

fun image_step :: "image_state \<Rightarrow> char \<Rightarrow> image_state" where
  "image_step IBad c = IBad"
| "image_step q c =
     (if lower_alnum c then IRun
      else if q = IRun then (if c = CHR ''.'' then IDot else if c = CHR ''_'' then IUnder else if c = CHR ''-'' then IDash else IBad)
      else if q = IUnder \<and> c = CHR ''_'' then IUnder2
      else if q = IDash \<and> c = CHR ''-'' then IDash
      else IBad)"

definition image_component :: "string \<Rightarrow> bool" where
  "image_component s \<longleftrightarrow> fold (\<lambda>c q. image_step q c) s IStart = IRun"

definition registry_label :: "string \<Rightarrow> bool" where
  "registry_label s \<longleftrightarrow> s \<noteq> [] \<and> alnum (hd s) \<and> alnum (last s) \<and> list_all (\<lambda>c. alnum c \<or> c = CHR ''-'') s"

definition registry_host :: "string \<Rightarrow> bool" where
  "registry_host s = (case split_on CHR '':'' s of
      [h] \<Rightarrow> list_all registry_label (split_on CHR ''.'' h)
    | [h, p] \<Rightarrow> list_all registry_label (split_on CHR ''.'' h) \<and> 1 \<le> length p \<and> length p \<le> 5 \<and> list_all is_digit p
    | _ \<Rightarrow> False)"

definition instanceImageRe :: "string \<Rightarrow> bool" where
  "instanceImageRe s = (case split_on CHR ''/'' s of
      [] \<Rightarrow> False
    | first # rest \<Rightarrow> list_all image_component rest \<and> (image_component first \<or> (rest \<noteq> [] \<and> registry_host first)))"

text \<open>\<^verbatim>\<open>^[A-Za-z0-9_][A-Za-z0-9._-]{0,127}$\<close>\<close>

definition instanceTagRe :: "string \<Rightarrow> bool" where
  "instanceTagRe s \<longleftrightarrow> s \<noteq> [] \<and> length s \<le> 128 \<and> (alnum (hd s) \<or> hd s = CHR ''_'') \<and> list_all word_char (tl s)"

section \<open>Fields\<close>

record ValidationError =
  ve_Field :: string
  ve_Message :: string

definition invalid :: "string \<Rightarrow> string \<Rightarrow> ValidationError option" where
  "invalid field message = Some \<lparr>ve_Field = field, ve_Message = message\<rparr>"

definition instanceNameMax :: nat where "instanceNameMax = 63"
definition instanceHostMax :: nat where "instanceHostMax = 253"
definition instanceVersionMax :: nat where "instanceVersionMax = 16"
definition instanceImageMax :: nat where "instanceImageMax = 255"
definition instanceDescriptionMax :: nat where "instanceDescriptionMax = 1024"

definition ValidateInstanceName :: "string \<Rightarrow> ValidationError option" where
  "ValidateInstanceName name =
     (if name = '''' then invalid ''name'' ''name is required''
      else if length name > instanceNameMax then invalid ''name'' ''name must be at most 63 characters''
      else if \<not> plain_token name then invalid ''name'' ''name may contain letters, digits, dot, dash and underscore, and must start with a letter or digit''
      else None)"

definition IsValidInstanceHost :: "string \<Rightarrow> bool" where
  "IsValidInstanceHost host =
     (if has_prefix host ''['' \<and> has_suffix host '']'' then
        (case ParseIP (take (length host - 2) (drop 1 host)) of None \<Rightarrow> False | Some ip \<Rightarrow> To4 ip = None)
      else (case ParseIP host of
          Some ip \<Rightarrow> (case To4 ip of None \<Rightarrow> False | Some q \<Rightarrow> host = ipv4_text q)
        | None \<Rightarrow>
            if host = '''' \<or> length host > instanceHostMax \<or> has_suffix host ''.'' then False
            else (let labels = split_on CHR ''.'' host in
              list_all dnsLabelRe labels \<and> \<not> (length labels > 1 \<and> allDigitsRe (last labels)))))"


definition has_white :: "string \<Rightarrow> bool" where
  "has_white s \<longleftrightarrow> list_ex (\<lambda>c. byte c \<in> {32, 9, 13, 10}) s"

definition ValidateInstanceHost :: "string \<Rightarrow> ValidationError option" where
  "ValidateInstanceHost host =
     (if host = '''' then invalid ''host'' ''host is required''
      else if contains host ''://'' then invalid ''host'' ''host must not include a scheme (http:// or https://)''
      else if CHR ''/'' \<in> set host then invalid ''host'' ''host must not include a path''
      else if has_white host then invalid ''host'' ''host must not contain whitespace''
      else if length host > instanceHostMax then invalid ''host'' ''host must be at most 253 characters''
      else if \<not> has_prefix host ''['' \<and> (case ParseIP host of None \<Rightarrow> False | Some ip \<Rightarrow> To4 ip = None)
      then invalid ''host'' ''wrap an IPv6 address in brackets, e.g. [2001:db8::1]''
      else if \<not> IsValidInstanceHost host then invalid ''host'' ''host must be a hostname, an IPv4 address, or a bracketed IPv6 address''
      else None)"

definition ValidateInstancePort :: "string \<Rightarrow> ValidationError option" where
  "ValidateInstancePort port =
     (if port = '''' then invalid ''port'' ''port is required''
      else if length port > 1 \<and> has_prefix port ''0'' then invalid ''port'' ''port must not have leading zeros''
      else (case atoi port of
          None \<Rightarrow> invalid ''port'' ''port must be a number''
        | Some value \<Rightarrow> if value < 1 \<or> value > 65535 then invalid ''port'' ''port must be between 1 and 65535'' else None))"

definition ValidateInstanceProtocol :: "string \<Rightarrow> ValidationError option" where
  "ValidateInstanceProtocol protocol =
     (if protocol \<noteq> ''http'' \<and> protocol \<noteq> ''https'' then invalid ''protocol'' ''protocol must be http or https'' else None)"

definition ValidateInstanceVersion :: "string \<Rightarrow> ValidationError option" where
  "ValidateInstanceVersion version =
     (if version = '''' then invalid ''version'' ''version is required''
      else if length version > instanceVersionMax then invalid ''version'' ''version must be at most 16 characters''
      else if \<not> plain_token version then invalid ''version'' ''version must be a plain path segment, e.g. v1''
      else None)"

definition ValidateInstanceImage :: "string \<Rightarrow> ValidationError option" where
  "ValidateInstanceImage img =
     (if img = '''' then invalid ''cimage'' ''cimage is required''
      else if length img > instanceImageMax then invalid ''cimage'' ''cimage must be at most 255 characters''
      else if has_white img then invalid ''cimage'' ''cimage must not contain whitespace''
      else if CHR '':'' \<in> set (last (split_on CHR ''/'' img)) then invalid ''cimage'' (''cimage must not include a tag '' @ map char_of [226, 128, 148 :: nat] @ '' use the ctag field'')
      else if \<not> instanceImageRe img then invalid ''cimage'' ''cimage must be a valid image reference, e.g. ghcr.io/loxilb-io/loxilb''
      else None)"

definition ValidateInstanceTag :: "string \<Rightarrow> ValidationError option" where
  "ValidateInstanceTag tag =
     (if tag = '''' then invalid ''ctag'' ''ctag is required''
      else if \<not> instanceTagRe tag then invalid ''ctag'' ''ctag may contain letters, digits, dot, dash and underscore, e.g. latest''
      else None)"

definition ValidateInstanceDescription :: "string \<Rightarrow> ValidationError option" where
  "ValidateInstanceDescription description =
     (if length description > instanceDescriptionMax then invalid ''description'' ''description must be at most 1024 characters'' else None)"

record InstanceFields =
  f_Name :: string
  f_Host :: string
  f_Port :: string
  f_Protocol :: string
  f_Description :: string
  f_Version :: string
  f_Cimage :: string
  f_Ctag :: string

definition Normalize :: "(string \<Rightarrow> string) \<Rightarrow> InstanceFields \<Rightarrow> InstanceFields" where
  "Normalize uni f = \<lparr>f_Name = trim_space (f_Name f), f_Host = trim_space (f_Host f), f_Port = trim_space (f_Port f),
     f_Protocol = to_lower uni (trim_space (f_Protocol f)), f_Description = trim_space (f_Description f),
     f_Version = (if trim_space (f_Version f) = '''' then ''v1'' else trim_space (f_Version f)),
     f_Cimage = trim_space (f_Cimage f), f_Ctag = trim_space (f_Ctag f)\<rparr>"

definition first_error :: "ValidationError option list \<Rightarrow> ValidationError option" where
  "first_error checks = (case List.find (\<lambda>e. e \<noteq> None) checks of None \<Rightarrow> None | Some e \<Rightarrow> e)"

definition Validate :: "InstanceFields \<Rightarrow> ValidationError option" where
  "Validate f = first_error
     [ValidateInstanceName (f_Name f), ValidateInstanceHost (f_Host f), ValidateInstancePort (f_Port f), ValidateInstanceProtocol (f_Protocol f),
      ValidateInstanceVersion (f_Version f), ValidateInstanceImage (f_Cimage f), ValidateInstanceTag (f_Ctag f), ValidateInstanceDescription (f_Description f)]"

definition endpoint_of :: "string \<Rightarrow> string \<Rightarrow> string \<Rightarrow> string \<Rightarrow> string" where
  "endpoint_of protocol host port version = protocol @ ''://'' @ host @ '':'' @ port @ ''/netlox/'' @ version"

definition APIEndpoint :: "InstanceFields \<Rightarrow> string" where
  "APIEndpoint f = endpoint_of (f_Protocol f) (f_Host f) (f_Port f) (f_Version f)"


section \<open>Characters a field may hold\<close>

text \<open>What may appear between the scheme and the path of the endpoint.\<close>

definition host_char :: "char \<Rightarrow> bool" where
  "host_char c \<longleftrightarrow> alnum c \<or> c = CHR ''-'' \<or> c = CHR ''.''"

definition ip_char :: "char \<Rightarrow> bool" where
  "ip_char c \<longleftrightarrow> ip_hex c \<or> c = CHR '':'' \<or> c = CHR ''.''"

lemma class_sub:
  "is_digit c \<Longrightarrow> alnum c" "is_digit c \<Longrightarrow> ip_hex c" "ip_hex c \<Longrightarrow> alnum c" "alnum c \<Longrightarrow> host_char c" "alnum c \<Longrightarrow> word_char c"
  "ip_hex c \<Longrightarrow> ip_char c" "is_digit c \<Longrightarrow> ip_char c"
  by (auto simp: is_digit_def alnum_def ip_hex_def host_char_def word_char_def ip_char_def in_range_def)

lemma class_marks:
  "\<not> alnum CHR ''/''" "\<not> alnum CHR '':''" "\<not> alnum CHR ''+''" "\<not> alnum CHR ''@''" "\<not> alnum CHR ''.''" "\<not> alnum CHR ''-''" "\<not> alnum CHR ''[''"
  "\<not> host_char CHR ''/''" "\<not> host_char CHR '':''" "\<not> host_char CHR ''[''" "\<not> word_char CHR ''/''" "\<not> ip_char CHR ''/''" "\<not> is_digit CHR ''/''"
  "\<not> is_digit CHR '':''" "\<not> ip_hex CHR ''/''"
  by (simp_all add: alnum_def host_char_def word_char_def ip_char_def is_digit_def ip_hex_def in_range_def byte_def)

lemma digits_val_digits: "digits_val acc w = Some v \<Longrightarrow> list_all is_digit w"
  by (induction acc w rule: digits_val.induct) (auto split: if_splits)

lemma parse_ipv4_chars:
  assumes "parse_ipv4 s = Some q"
  shows "\<forall>c \<in> set s. is_digit c \<or> c = CHR ''.''"
proof -
  let ?ps = "split_on CHR ''.'' s"
  have field: "list_all is_digit p" if "ipv4_field p = Some v" for p v
    using that by (auto simp: ipv4_field_def split: if_splits)
  have "None \<notin> set (map ipv4_field ?ps)"
    using assms by (auto simp: parse_ipv4_def split: list.splits option.splits)
  then have "\<forall>p \<in> set ?ps. list_all is_digit p"
    by (metis field image_eqI list.set_map option.exhaust)
  moreover have "set s \<subseteq> {CHR ''.''} \<union> (\<Union>p \<in> set ?ps. set p)"
    using set_join [of "[CHR ''.'']" ?ps] by simp
  ultimately show ?thesis by (fastforce simp: list_all_iff)
qed

lemma ipv6_loop_chars: "ipv6_loop ip el s = Some (ip', el', []) \<Longrightarrow> s = [] \<or> (\<forall>c \<in> set s. ip_char c)"
proof (induction ip el s rule: ipv6_loop.induct)
  case (1 ip el s)
  let ?g = "takeWhile ip_hex s" and ?rest = "dropWhile ip_hex s"
  have dr: "drop (length ?g) s = ?rest" by (simp add: dropWhile_eq_drop)
  have s: "s = ?g @ ?rest" by simp
  have g: "\<forall>c \<in> set ?g. ip_char c" by (auto dest!: set_takeWhileD class_sub(6))
  show ?case
  proof (cases "length ip \<ge> 16")
    case True
    with 1(3) show ?thesis by (simp add: ipv6_loop.simps [of ip el s])
  next
    case short: False
    show ?thesis
    proof (cases "?rest \<noteq> [] \<and> hd ?rest = CHR ''.''")
      case True
      with 1(3) short obtain q where "parse_ipv4 s = Some q"
        by (auto simp: ipv6_loop.simps [of ip el s] Let_def dr split: if_splits option.splits)
      from parse_ipv4_chars [OF this] show ?thesis by (auto simp: ip_char_def class_sub)
    next
      case plain: False
      show ?thesis
      proof (cases "?rest = []")
        case True
        with s g show ?thesis by simp
      next
        case False
        with plain 1(3) short obtain t where t: "?rest = CHR '':'' # t" and "t \<noteq> []"
          by (cases ?rest) (auto simp: ipv6_loop.simps [of ip el s] Let_def dr split: if_splits)
        let ?ip = "ip @ [hex_group ?g div 256, hex_group ?g mod 256]"
        have len: "length ?g \<noteq> 0" "\<not> length ?g > 4"
          using 1(3) short by (auto simp: ipv6_loop.simps [of ip el s] Let_def split: if_splits)
        have colon: "ip_char CHR '':''" by (simp add: ip_char_def)
        have "\<forall>c \<in> set t. ip_char c"
        proof (cases "hd t = CHR '':''")
          case True
          then obtain u where u: "t = CHR '':'' # u" using \<open>t \<noteq> []\<close> by (cases t) auto
          show ?thesis
          proof (cases "u = []")
            case False
            with 1(3) short len t u have "ipv6_loop ?ip (Some (length ?ip)) u = Some (ip', el', [])"
              by (simp add: ipv6_loop.simps [of ip el s] Let_def dr split: if_splits)
            with 1(1) [OF short refl refl] False short len t u 1(3) have "\<forall>c \<in> set u. ip_char c"
              by (simp add: ipv6_loop.simps [of ip el s] Let_def dr split: if_splits)
            with u colon show ?thesis by simp
          qed (simp add: u colon)
        next
          case False
          with 1(3) short len t \<open>t \<noteq> []\<close> have "ipv6_loop ?ip el t = Some (ip', el', [])"
            by (simp add: ipv6_loop.simps [of ip el s] Let_def dr split: if_splits)
          with 1(2) [OF short refl refl] False short len t \<open>t \<noteq> []\<close> show ?thesis
            by (simp add: Let_def dr)
        qed
        with t g s show ?thesis by (metis Un_iff ip_char_def list.set_cases set_ConsD set_append)
      qed
    qed
  qed
qed

lemma expand_empty: "expand_ipv6 (ip, el, s) = Some b \<Longrightarrow> s = []"
  by (simp add: expand_ipv6_def split: if_splits)

lemma parse_ipv6_chars:
  assumes "parse_ipv6 s = Some b"
  shows "\<forall>c \<in> set s. ip_char c"
proof (cases "take 2 s = ''::''")
  case True
  then have s: "s = CHR '':'' # CHR '':'' # drop 2 s" by (metis append_Cons append_self_conv2 append_take_drop_id)
  have "\<forall>c \<in> set (drop 2 s). ip_char c"
    using assms True by (auto simp: parse_ipv6_def bind_eq_Some_conv split: if_splits dest!: expand_empty ipv6_loop_chars)
  with s show ?thesis by (metis ip_char_def set_ConsD)
next
  case False
  with assms show ?thesis
    by (auto simp: parse_ipv6_def bind_eq_Some_conv split: if_splits dest!: expand_empty ipv6_loop_chars)
qed

text \<open>A host is a name or an IPv4 literal, or a bracketed IPv6 literal; nothing in it ends the authority of a URL.\<close>

definition bracketed :: "string \<Rightarrow> bool" where
  "bracketed host \<longleftrightarrow> (let ip = butlast (tl host) in host = ''['' @ ip @ '']'' \<and> list_all ip_char ip)"

lemma bracketed_iff: "bracketed host \<longleftrightarrow> (\<exists>ip. host = ''['' @ ip @ '']'' \<and> list_all ip_char ip)"
  by (auto simp: bracketed_def Let_def)

lemma IsValidInstanceHost_chars:
  assumes "IsValidInstanceHost host"
  shows "bracketed host \<or> (host \<noteq> [] \<and> list_all host_char host)"
proof (cases "has_prefix host ''['' \<and> has_suffix host '']''")
  case True
  then obtain t where t: "host = CHR ''['' # t" by (auto simp: has_prefix_iff)
  from True obtain u where u: "host = u @ '']''" by (auto simp: has_suffix_iff)
  with t obtain ip where host: "host = ''['' @ ip @ '']''" by (cases u) auto
  have "ParseIP ip \<noteq> None \<and> (\<forall>a. ParseIP ip = Some a \<longrightarrow> To4 a = None)"
    using assms by (auto simp: IsValidInstanceHost_def host has_prefix_iff has_suffix_iff split: option.splits)
  then obtain b where "parse_ipv6 ip = Some b"
    by (auto simp: ParseIP_def To4_def split: option.splits if_splits)
  with host show ?thesis by (auto simp: bracketed_iff list_all_iff dest: parse_ipv6_chars)
next
  case plain: False
  show ?thesis
  proof (cases "ParseIP host")
    case (Some a)
    with plain assms obtain q where "host = ipv4_text q" and "To4 a = Some q"
      by (auto simp: IsValidInstanceHost_def split: option.splits)
    moreover have "set (ipv4_text q) \<subseteq> {CHR ''.''} \<union> (\<Union>n \<in> set q. set (nat_str n))"
      using set_join [of "''.''" "map nat_str q"] by (simp add: ipv4_text_def)
    moreover have "host \<noteq> []" using Some by (auto simp: ParseIP_def)
    ultimately show ?thesis
      by (fastforce simp: list_all_iff host_char_def dest: nat_str_digits class_sub)
  next
    case None
    with plain assms have ne: "host \<noteq> []" and labels: "list_all dnsLabelRe (split_on CHR ''.'' host)"
      by (auto simp: IsValidInstanceHost_def Let_def split: if_splits)
    have "set host \<subseteq> {CHR ''.''} \<union> (\<Union>p \<in> set (split_on CHR ''.'' host). set p)"
      using set_join [of "[CHR ''.'']" "split_on CHR ''.'' host"] by simp
    with labels ne show ?thesis by (fastforce simp: list_all_iff dnsLabelRe_def host_char_def)
  qed
qed

lemma ValidateInstanceHost_chars:
  "ValidateInstanceHost host = None \<Longrightarrow> bracketed host \<or> (host \<noteq> [] \<and> list_all host_char host)"
  by (rule IsValidInstanceHost_chars) (simp add: ValidateInstanceHost_def invalid_def split: if_splits)

lemma host_no_slash: "bracketed host \<or> (host \<noteq> [] \<and> list_all host_char host) \<Longrightarrow> CHR ''/'' \<notin> set host"
  using class_marks by (fastforce simp: bracketed_iff list_all_iff)

text \<open>A port is a number; its digits may be preceded by a plus sign.\<close>

lemma ValidateInstancePort_number:
  assumes "ValidateInstancePort port = None"
  obtains v where "atoi port = Some v" and "1 \<le> v" and "v \<le> 65535"
  using assms by (auto simp: ValidateInstancePort_def invalid_def not_less split: if_splits option.splits)

lemma atoi_chars:
  assumes "atoi s = Some v"
  shows "\<forall>c \<in> set s. is_digit c \<or> c = CHR ''+'' \<or> c = CHR ''-''"
proof -
  let ?b = "if has_prefix s ''-'' \<or> has_prefix s ''+'' then tl s else s"
  have "list_all is_digit ?b"
    using assms by (auto simp: atoi_def Let_def split: option.splits if_splits dest: digits_val_digits)
  then show ?thesis
    by (cases s) (auto simp: list_all_iff split: if_splits)
qed

lemma ValidateInstancePort_chars:
  assumes "ValidateInstancePort port = None"
  shows "CHR ''/'' \<notin> set port" and "CHR '':'' \<notin> set port"
proof -
  from assms obtain v where "atoi port = Some v" by (rule ValidateInstancePort_number)
  from atoi_chars [OF this] show "CHR ''/'' \<notin> set port" and "CHR '':'' \<notin> set port" by (auto simp: class_marks)
qed

lemma plain_token_chars: "plain_token s \<Longrightarrow> CHR ''/'' \<notin> set s \<and> s \<noteq> [] \<and> s \<noteq> ''.'' \<and> s \<noteq> ''..''"
  by (cases s) (auto simp: plain_token_def list_all_iff class_marks)

lemma ValidateInstanceVersion_plain: "ValidateInstanceVersion v = None \<Longrightarrow> plain_token v"
  by (simp add: ValidateInstanceVersion_def invalid_def split: if_splits)

lemma Validate_None:
  assumes "Validate f = None"
  shows "ValidateInstanceName (f_Name f) = None" and "ValidateInstanceHost (f_Host f) = None" and "ValidateInstancePort (f_Port f) = None"
    and "ValidateInstanceProtocol (f_Protocol f) = None" and "ValidateInstanceVersion (f_Version f) = None" and "ValidateInstanceImage (f_Cimage f) = None"
    and "ValidateInstanceTag (f_Ctag f) = None" and "ValidateInstanceDescription (f_Description f) = None"
  using assms by (auto simp: Validate_def first_error_def split: option.splits if_splits)

lemma first_sep: "c \<notin> set xs \<Longrightarrow> c \<notin> set ys \<Longrightarrow> xs @ c # us = ys @ c # vs \<Longrightarrow> xs = ys \<and> us = vs"
proof (induction xs arbitrary: ys)
  case Nil
  then show ?case by (cases ys) auto
next
  case (Cons x xs)
  then show ?case by (cases ys) auto
qed

lemma last_colon:
  assumes "CHR '':'' \<notin> set p" and "CHR '':'' \<notin> set q" and "h @ CHR '':'' # p = k @ CHR '':'' # q"
  shows "h = k \<and> p = q"
proof -
  have "rev p @ CHR '':'' # rev h = rev q @ CHR '':'' # rev k" using arg_cong [OF assms(3), of rev] by simp
  from first_sep [OF _ _ this] assms(1,2) show ?thesis by simp
qed

section \<open>The endpoint\<close>

lemma endpoint_split:
  assumes "Validate f = None"
  shows "split_on CHR ''/'' (APIEndpoint f) = [f_Protocol f @ '':'', '''', f_Host f @ '':'' @ f_Port f, ''netlox'', f_Version f]"
proof -
  note v = Validate_None [OF assms]
  have proto: "CHR ''/'' \<notin> set (f_Protocol f @ '':'')"
    using v(4) by (auto simp: ValidateInstanceProtocol_def invalid_def split: if_splits)
  have auth: "CHR ''/'' \<notin> set (f_Host f @ '':'' @ f_Port f)"
    using host_no_slash [OF ValidateInstanceHost_chars [OF v(2)]] ValidateInstancePort_chars(1) [OF v(3)] by simp
  have ver: "CHR ''/'' \<notin> set (f_Version f)"
    using plain_token_chars [OF ValidateInstanceVersion_plain [OF v(5)]] by simp
  have "APIEndpoint f = join ''/'' [f_Protocol f @ '':'', '''', f_Host f @ '':'' @ f_Port f, ''netlox'', f_Version f]"
    by (simp add: APIEndpoint_def endpoint_of_def)
  with proto auth ver show ?thesis by (simp only:) (rule split_on_join, auto)
qed

lemma endpoint_determines:
  assumes "Validate f = None" and "Validate g = None" and "APIEndpoint f = APIEndpoint g"
  shows "f_Protocol f = f_Protocol g \<and> f_Host f = f_Host g \<and> f_Port f = f_Port g \<and> f_Version f = f_Version g"
proof -
  have port: "CHR '':'' \<notin> set (f_Port f)" "CHR '':'' \<notin> set (f_Port g)"
    using assms(1,2) by (simp_all add: ValidateInstancePort_chars(2) Validate_None(3))
  have "[f_Protocol f @ '':'', '''', f_Host f @ '':'' @ f_Port f, ''netlox'', f_Version f] =
        [f_Protocol g @ '':'', '''', f_Host g @ '':'' @ f_Port g, ''netlox'', f_Version g]"
    using endpoint_split [OF assms(1)] endpoint_split [OF assms(2)] unfolding assms(3) by (rule trans [OF sym])
  then have "f_Protocol f = f_Protocol g" and "f_Version f = f_Version g" and "f_Host f @ CHR '':'' # f_Port f = f_Host g @ CHR '':'' # f_Port g"
    by simp_all
  with last_colon [OF port] show ?thesis by simp
qed

text \<open>
  The spelling of a port is not canonical: a plus sign is accepted, so one socket can be registered under two endpoints.
\<close>

lemma signed_port_accepted:
  "ValidateInstancePort ''8091'' = None \<and> ValidateInstancePort ''+8091'' = None \<and> atoi ''8091'' = atoi ''+8091'' \<and>
   endpoint_of ''https'' ''gw'' ''8091'' ''v1'' \<noteq> endpoint_of ''https'' ''gw'' ''+8091'' ''v1''"
  by code_simp


definition demo_fields :: InstanceFields where
  "demo_fields = \<lparr>f_Name = ''gw-1'', f_Host = ''[2001:db8::1]'', f_Port = ''8091'', f_Protocol = ''https'', f_Description = '''', f_Version = ''v1'',
     f_Cimage = ''ghcr.io/loxilb-io/loxilb'', f_Ctag = ''latest''\<rparr>"

lemma demo_fields_valid: "Validate demo_fields = None"
  by code_simp


end
