(* ===== verification/Docker.thy ===== *)
theory Docker
  imports Json Db
begin

text \<open>
  Driving the Docker engine of an instance host (\<^verbatim>\<open>internal/utils/docker_utils.go\<close>, \<^verbatim>\<open>internal/config/docker.go\<close>).  The HTTP client is a
  parameter: it takes a method, a URL and a body to an error text or the body of the answer, and acts on the world outside the database.  A status is
  never looked at: every answer that arrives counts as success.
\<close>

section \<open>Escaping\<close>

text \<open>\<^verbatim>\<open>url.PathEscape\<close> and \<^verbatim>\<open>url.QueryEscape\<close>.\<close>

definition url_unreserved :: "char \<Rightarrow> bool" where
  "url_unreserved c \<longleftrightarrow> in_range 97 122 (byte c) \<or> in_range 65 90 (byte c) \<or> in_range 48 57 (byte c) \<or> c \<in> set ''-_.~''"

definition upper_hex :: "nat \<Rightarrow> char" where
  "upper_hex n = (if n < 10 then char_of (48 + n) else char_of (55 + n))"

definition percent :: "char \<Rightarrow> string" where
  "percent c = [CHR ''%'', upper_hex (byte c div 16), upper_hex (byte c mod 16)]"

definition PathEscape :: "string \<Rightarrow> string" where
  "PathEscape s = concat (map (\<lambda>c. if url_unreserved c \<or> c \<in> set ''$&+:=@'' then [c] else percent c) s)"

definition QueryEscape :: "string \<Rightarrow> string" where
  "QueryEscape s = concat (map (\<lambda>c. if url_unreserved c then [c] else if c = CHR '' '' then ''+'' else percent c) s)"

section \<open>The engine\<close>

record docker_env =
  OAM_DOCKER_TLS :: string
  OAM_DOCKER_PORT :: string

definition DockerScheme :: "docker_env \<Rightarrow> string" where
  "DockerScheme E = (if OAM_DOCKER_TLS E = ''true'' then ''https'' else ''http'')"

definition DockerAPIPort :: "docker_env \<Rightarrow> string" where
  "DockerAPIPort E = (if OAM_DOCKER_PORT E \<noteq> [] then OAM_DOCKER_PORT E else ''2375'')"

definition DockerBaseURL :: "docker_env \<Rightarrow> string \<Rightarrow> string" where
  "DockerBaseURL E host = DockerScheme E @ ''://'' @ host @ '':'' @ DockerAPIPort E"

text \<open>
  \<open>dk_do\<close> is the HTTP exchange, \<open>dk_Id\<close> reads the field \<^verbatim>\<open>Id\<close> of a JSON object (\<open>None\<close> when the text is not one, empty when the field is missing).
\<close>

record 'w docker =
  dk_env :: docker_env
  dk_do :: "string \<Rightarrow> string \<Rightarrow> string \<Rightarrow> 'w \<Rightarrow> (string + string) \<times> 'w"
  dk_Id :: "string \<Rightarrow> string option"

type_synonym ('w, 'x, 'a) docker_m = "(('w, 'x) db_base_scheme, string + 'a) state"

definition docker_request :: "'w docker \<Rightarrow> string \<Rightarrow> string \<Rightarrow> string \<Rightarrow> ('w, 'x, string) docker_m" where
  "docker_request D verb reqURL body = State (\<lambda>s. case dk_do D verb reqURL body (outside s) of (r, w) \<Rightarrow> (r, s\<lparr>outside := w\<rparr>))"

definition dockerPost :: "'w docker \<Rightarrow> string \<Rightarrow> string \<Rightarrow> ('w, 'x, string) docker_m" where
  "dockerPost D reqURL body = docker_request D ''POST'' reqURL body"

definition StopContainer :: "'w docker \<Rightarrow> string \<Rightarrow> string \<Rightarrow> ('w, 'x, unit) docker_m" where
  "StopContainer D dockerHost containerName =
     check (\<lambda>e. ''error stopping container: '' @ e)
       (dockerPost D (dockerHost @ ''/containers/'' @ PathEscape containerName @ ''/stop'') []) (\<lambda>_. ret (ok ()))"

definition RemoveContainer :: "'w docker \<Rightarrow> string \<Rightarrow> string \<Rightarrow> ('w, 'x, unit) docker_m" where
  "RemoveContainer D dockerHost containerName =
     check (\<lambda>e. ''error removing container: '' @ e)
       (docker_request D ''DELETE'' (dockerHost @ ''/containers/'' @ PathEscape containerName) []) (\<lambda>_. ret (ok ()))"

definition PullImage :: "'w docker \<Rightarrow> string \<Rightarrow> string \<Rightarrow> string \<Rightarrow> ('w, 'x, unit) docker_m" where
  "PullImage D dockerHost imgName imgTag =
     check (\<lambda>e. ''error pulling image: '' @ e)
       (dockerPost D (dockerHost @ ''/images/create?fromImage='' @ QueryEscape imgName @ ''&tag='' @ QueryEscape imgTag) []) (\<lambda>_. ret (ok ()))"

definition StartContainer :: "'w docker \<Rightarrow> string \<Rightarrow> string \<Rightarrow> ('w, 'x, unit) docker_m" where
  "StartContainer D dockerHost containerName =
     check (\<lambda>e. ''error starting container: '' @ e)
       (dockerPost D (dockerHost @ ''/containers/'' @ PathEscape containerName @ ''/start'') []) (\<lambda>_. ret (ok ()))"

definition renameContainer :: "'w docker \<Rightarrow> string \<Rightarrow> string \<Rightarrow> string \<Rightarrow> ('w, 'x, unit) docker_m" where
  "renameContainer D dockerHost containerID newName =
     check id (dockerPost D (dockerHost @ ''/containers/'' @ PathEscape containerID @ ''/rename?name='' @ QueryEscape newName) []) (\<lambda>_. ret (ok ()))"

text \<open>\<^verbatim>\<open>json.Marshal\<close> of \<^verbatim>\<open>dockerCreateRequest\<close>: everything but the image is fixed.\<close>

definition json_field :: "string \<Rightarrow> string \<Rightarrow> string" where
  "json_field name v = json_string name @ '':'' @ v"

definition host_config :: string where
  "host_config = ''{'' @ join '',''
     [json_field ''CapAdd'' (json_strings [''SYS_ADMIN'']),
      json_field ''RestartPolicy'' (''{'' @ json_field ''Name'' (json_string ''unless-stopped'') @ ''}''),
      json_field ''Privileged'' ''true'', json_field ''NetworkMode'' (json_string ''host''),
      json_field ''Binds'' (json_strings [''/var/log:/var/log''])] @ ''}''"

definition create_payload :: "string \<Rightarrow> string \<Rightarrow> string" where
  "create_payload imageName imageTag = ''{'' @ join '',''
     [json_field ''Image'' (json_string (imageName @ '':'' @ imageTag)), json_field ''User'' (json_string ''root''), json_field ''HostConfig'' host_config] @ ''}''"

definition RunContainer :: "'w docker \<Rightarrow> string \<Rightarrow> string \<Rightarrow> string \<Rightarrow> string \<Rightarrow> ('w, 'x, unit) docker_m" where
  "RunContainer D dockerHost containerName imageName imageTag =
     check (\<lambda>e. ''error running container: '' @ e) (dockerPost D (dockerHost @ ''/containers/create'') (create_payload imageName imageTag)) (\<lambda>body.
       case dk_Id D body of
         None \<Rightarrow> ret (err ''error parsing container-create response'')
       | Some ident \<Rightarrow>
           if ident = [] then ret (err (''unexpected Docker response: '' @ body))
           else check (\<lambda>e. ''error renaming container: '' @ e) (renameContainer D dockerHost ident containerName) (\<lambda>_.
             StartContainer D dockerHost ident))"

section \<open>Nothing breaks out\<close>

lemma upper_hex_unreserved: "n < 16 \<Longrightarrow> url_unreserved (upper_hex n)"
  by (simp add: url_unreserved_def upper_hex_def byte_char_of in_range_def)

lemma percent_plain: "c \<in> set (percent d) \<Longrightarrow> url_unreserved c \<or> c = CHR ''%''"
proof -
  have "byte d div 16 < 16" using byte_lt [of d] by (intro less_mult_imp_div_less) simp
  then show "c \<in> set (percent d) \<Longrightarrow> url_unreserved c \<or> c = CHR ''%''" by (auto simp: percent_def intro!: upper_hex_unreserved)
qed

text \<open>A container name stays one path segment and cannot start a query.\<close>

lemma PathEscape_plain: "c \<in> set (PathEscape s) \<Longrightarrow> url_unreserved c \<or> c \<in> set ''$&+:=@%''"
  by (auto simp: PathEscape_def split: if_splits dest!: percent_plain)

lemma QueryEscape_plain: "c \<in> set (QueryEscape s) \<Longrightarrow> url_unreserved c \<or> c = CHR ''+'' \<or> c = CHR ''%''"
  by (auto simp: QueryEscape_def split: if_splits dest!: percent_plain)

text \<open>The create request carries its image and nothing of it reaches another field.\<close>

lemma create_payload_image:
  assumes "valid_utf8 (imageName @ '':'' @ imageTag)" and "valid_utf8 (imageName' @ '':'' @ imageTag')"
    and "create_payload imageName imageTag = create_payload imageName' imageTag'"
  shows "imageName @ '':'' @ imageTag = imageName' @ '':'' @ imageTag'"
proof -
  from assms(3) obtain t where "json_string (imageName @ '':'' @ imageTag) @ t = json_string (imageName' @ '':'' @ imageTag') @ t"
    by (auto simp: create_payload_def json_field_def)
  from json_string_prefix_inj [OF assms(1,2) this] show ?thesis by simp
qed

text \<open>The engine is outside the database.\<close>

lemma docker_same_tables: "run_state (docker_request D verb u b) s = (r, s') \<Longrightarrow> same_tables s s'"
  by (auto simp: docker_request_def same_tables_def split: prod.splits)

context table_invariant
begin

lemma preserves_docker_request: "preserves I (docker_request D verb u b)"
  by (rule hoareI) (use same_tables docker_same_tables in blast)

lemma preserves_docker:
  "preserves I (StopContainer D h c)" "preserves I (RemoveContainer D h c)" "preserves I (PullImage D h i t)" "preserves I (StartContainer D h c)"
  "preserves I (RunContainer D h c i t)"
  unfolding StopContainer_def RemoveContainer_def PullImage_def StartContainer_def RunContainer_def renameContainer_def dockerPost_def
  by (intro hoare_rules preserves_docker_request)+

end

end
