(* ===== verification/Registry.thy ===== *)
theory Registry
  imports Instances Docker
begin

text \<open>
  The instance registry: \<^verbatim>\<open>internal/services/loxilb_service.go\<close> and the instance handlers of \<^verbatim>\<open>internal/handlers/handler.go\<close>.
  \<open>rg_lower\<close> is the database's \<^verbatim>\<open>LOWER\<close>, \<open>rg_uni\<close> the non-ASCII part of \<^verbatim>\<open>strings.ToLower\<close>, and \<open>rg_close_idle\<close> what the HTTP transport does to
  its pooled connections (\<open>None\<close> without a proxy service).
\<close>

section \<open>Rows and statements\<close>

record 'w registry_env =
  rg_docker :: "'w docker"
  rg_lower :: "string \<Rightarrow> string"
  rg_uni :: "string \<Rightarrow> string"
  rg_close_idle :: "('w \<Rightarrow> 'w) option"

text \<open>\<^verbatim>\<open>models.LoxiLBInstance\<close> as scanned: a null description or activity flag does not fit its Go field.\<close>

record instance_view =
  m_ID :: int
  m_Name :: string
  m_Host :: string
  m_Port :: string
  m_Protocol :: string
  m_Description :: string
  m_Version :: string
  m_ApiEndpoint :: string
  m_Cimage :: string
  m_Ctag :: string
  m_IsActive :: bool
  m_CreatedAt :: int

definition scan_instance :: "LoxiLBInstance \<Rightarrow> db_err + instance_view" where
  "scan_instance i = (case (i_description i, i_is_active i) of
      (Some d, Some a) \<Rightarrow> ok \<lparr>m_ID = i_id i, m_Name = i_name i, m_Host = i_host i, m_Port = i_port i, m_Protocol = i_protocol i,
         m_Description = d, m_Version = i_version i, m_ApiEndpoint = i_api_endpoint i, m_Cimage = i_cimage i, m_Ctag = i_ctag i,
         m_IsActive = a, m_CreatedAt = i_created i\<rparr>
    | _ \<Rightarrow> err ScanNull)"

fun scan_instances :: "LoxiLBInstance list \<Rightarrow> db_err + instance_view list" where
  "scan_instances [] = ok []"
| "scan_instances (i # is) = (case scan_instance i of
      Inl e \<Rightarrow> err e
    | Inr v \<Rightarrow> (case scan_instances is of Inl e \<Rightarrow> err e | Inr vs \<Rightarrow> ok (v # vs)))"

datatype registry_err = RDb db_err | ErrInstanceNotFound | ErrInstanceNameTaken | ErrInstanceEndpointTaken | RDocker string

type_synonym ('w, 'x, 'a) registry_m = "(('w, 'x) oam_db_scheme, registry_err + 'a) state"

text \<open>The column widths; a longer value fails the statement.\<close>

definition fits :: "nat \<Rightarrow> string \<Rightarrow> bool" where
  "fits n s \<longleftrightarrow> length (runes s) \<le> n"

definition row_fits :: "LoxiLBInstance \<Rightarrow> bool" where
  "row_fits i \<longleftrightarrow> list_all (fits 255) [i_name i, i_host i, i_port i, i_version i, i_api_endpoint i, i_cimage i, i_ctag i] \<and> fits 10 (i_protocol i)"

text \<open>\<^verbatim>\<open>InsertLoxiLBInstanceQuery\<close> and \<^verbatim>\<open>UpdateLoxiLBInstanceQuery\<close>, with the unique endpoint.\<close>

definition insert_instance :: "LoxiLBInstance \<Rightarrow> ('w, 'x) oam_db_scheme \<Rightarrow> (db_err + int) \<times> ('w, 'x) oam_db_scheme" where
  "insert_instance row s =
     (let ident = seqs s ''loxilb_instances''; s' = take_seq ''loxilb_instances'' s in
      if \<not> row_fits row then (err DbFail, s')
      else if i_api_endpoint row \<in> set (map i_api_endpoint (instances s)) then (err (UniqueViolation ''loxilb_instances_api_endpoint_key''), s')
      else (ok ident, s'\<lparr>instances := instances s @ [row\<lparr>i_id := ident, i_created := db_now s\<rparr>]\<rparr>))"

definition update_instance :: "int \<Rightarrow> (LoxiLBInstance \<Rightarrow> LoxiLBInstance) \<Rightarrow> ('w, 'x) oam_db_scheme \<Rightarrow> (db_err + unit) \<times> ('w, 'x) oam_db_scheme" where
  "update_instance ident f s =
     (if \<exists>i \<in> set (instances s). i_id i = ident \<and> \<not> row_fits (f i) then (err DbFail, s)
      else if \<exists>i \<in> set (instances s). i_id i = ident \<and> (\<exists>j \<in> set (instances s). i_id j \<noteq> ident \<and> i_api_endpoint j = i_api_endpoint (f i))
      then (err (UniqueViolation ''loxilb_instances_api_endpoint_key''), s)
      else (ok (), s\<lparr>instances := upd_where (\<lambda>i. i_id i = ident) f (instances s)\<rparr>))"

definition delete_instance :: "int \<Rightarrow> ('w, 'x) oam_db_scheme \<Rightarrow> (db_err + unit) \<times> ('w, 'x) oam_db_scheme" where
  "delete_instance ident s = (ok (), delete_instances_where (\<lambda>i. i_id i = ident) s)"

section \<open>The service\<close>

definition FetchLoxiLBInstances :: "(('w, 'x) oam_db_scheme, db_err + instance_view list) state" where
  "FetchLoxiLBInstances = retry [] (db_query (\<lambda>s. scan_instances (instances s)))"

definition select_instance :: "int \<Rightarrow> ('w, 'x) oam_db_scheme \<Rightarrow> db_err + instance_view" where
  "select_instance ident s = (case find_row (\<lambda>i. i_id i = ident) (instances s) of None \<Rightarrow> err NoRows | Some i \<Rightarrow> scan_instance i)"

definition zero_instance :: instance_view where
  "zero_instance = \<lparr>m_ID = 0, m_Name = [], m_Host = [], m_Port = [], m_Protocol = [], m_Description = [], m_Version = [], m_ApiEndpoint = [],
     m_Cimage = [], m_Ctag = [], m_IsActive = False, m_CreatedAt = 0\<rparr>"

definition FetchLoxiLBInstanceByID :: "int \<Rightarrow> (('w, 'x) oam_db_scheme, db_err + instance_view) state" where
  "FetchLoxiLBInstanceByID ident = retry zero_instance (db_query (select_instance ident))"

definition countInstances :: "(LoxiLBInstance \<Rightarrow> bool) \<Rightarrow> int \<Rightarrow> (('w, 'x) oam_db_scheme, db_err + bool) state" where
  "countInstances p excludeID =
     check id (retry 0 (db_query (\<lambda>s. ok (count_where (\<lambda>i. p i \<and> i_id i \<noteq> excludeID) (instances s))))) (\<lambda>count. ret (ok (count > 0)))"

definition InstanceNameTaken :: "'w registry_env \<Rightarrow> string \<Rightarrow> int \<Rightarrow> (('w, 'x) oam_db_scheme, db_err + bool) state" where
  "InstanceNameTaken E name excludeID = countInstances (\<lambda>i. rg_lower E (i_name i) = rg_lower E name) excludeID"

definition InstanceEndpointTaken :: "'w registry_env \<Rightarrow> string \<Rightarrow> int \<Rightarrow> (('w, 'x) oam_db_scheme, db_err + bool) state" where
  "InstanceEndpointTaken E endpoint excludeID = countInstances (\<lambda>i. rg_lower E (i_api_endpoint i) = rg_lower E endpoint) excludeID"

definition IsDuplicateKeyError :: "db_err \<Rightarrow> bool" where
  "IsDuplicateKeyError e = (case e of UniqueViolation c \<Rightarrow> True | _ \<Rightarrow> False)"

definition new_row :: "string \<Rightarrow> string \<Rightarrow> string \<Rightarrow> string \<Rightarrow> string \<Rightarrow> string \<Rightarrow> string \<Rightarrow> string \<Rightarrow> bool \<Rightarrow> LoxiLBInstance" where
  "new_row name host port protocol description version cimage ctag isActive =
     \<lparr>i_id = 0, i_name = name, i_host = host, i_port = port, i_protocol = protocol, i_description = Some description, i_version = version,
      i_api_endpoint = endpoint_of protocol host port version, i_cimage = cimage, i_ctag = ctag, i_is_active = Some isActive, i_created = 0\<rparr>"

definition AddLoxiLBInstance :: "instance_view \<Rightarrow> (('w, 'x) oam_db_scheme, db_err + int) state" where
  "AddLoxiLBInstance i = retry 0 (db_stmt (insert_instance
     (new_row (m_Name i) (m_Host i) (m_Port i) (m_Protocol i) (m_Description i) (m_Version i) (m_Cimage i) (m_Ctag i) (m_IsActive i))))"

definition AddLoxiLBInstanceWithArgs :: "string \<Rightarrow> string \<Rightarrow> string \<Rightarrow> string \<Rightarrow> string \<Rightarrow> string \<Rightarrow> string \<Rightarrow> string \<Rightarrow> bool
    \<Rightarrow> ('w, 'x, int \<times> string) registry_m" where
  "AddLoxiLBInstanceWithArgs name host port protocol description version cimage ctag isActive = do {
     r \<leftarrow> retry (ok 0) (do {
            q \<leftarrow> db_stmt (insert_instance (new_row name host port protocol description version cimage ctag isActive));
            case q of
              Inr ident \<Rightarrow> ret (ok (ok ident))
            | Inl e \<Rightarrow> if IsDuplicateKeyError e then ret (ok (err ErrInstanceEndpointTaken)) else ret (err e) });
     ret (case r of
         Inl e \<Rightarrow> err (RDb e)
       | Inr (Inl conflict) \<Rightarrow> err conflict
       | Inr (Inr ident) \<Rightarrow> ok (ident, endpoint_of protocol host port version)) }"

definition write_instance :: "instance_view \<Rightarrow> LoxiLBInstance \<Rightarrow> LoxiLBInstance" where
  "write_instance v i = i\<lparr>i_name := m_Name v, i_host := m_Host v, i_port := m_Port v, i_protocol := m_Protocol v, i_description := Some (m_Description v),
     i_version := m_Version v, i_api_endpoint := endpoint_of (m_Protocol v) (m_Host v) (m_Port v) (m_Version v), i_cimage := m_Cimage v, i_ctag := m_Ctag v,
     i_is_active := Some (m_IsActive v)\<rparr>"

definition UpdateLoxiLBInstance :: "instance_view \<Rightarrow> ('w, 'x, unit) registry_m" where
  "UpdateLoxiLBInstance v = do {
     r \<leftarrow> retry (ok ()) (do {
            q \<leftarrow> db_query (select_instance (m_ID v));
            case q of
              Inl e \<Rightarrow> if e = NoRows then ret (ok (err ErrInstanceNotFound)) else ret (err e)
            | Inr existing \<Rightarrow> do {
                u \<leftarrow> db_stmt (update_instance (m_ID v) (write_instance v));
                case u of
                  Inr _ \<Rightarrow> ret (ok (ok ()))
                | Inl e \<Rightarrow> if IsDuplicateKeyError e then ret (ok (err ErrInstanceEndpointTaken)) else ret (err e) } });
     ret (case r of Inl e \<Rightarrow> err (RDb e) | Inr (Inl conflict) \<Rightarrow> err conflict | Inr (Inr _) \<Rightarrow> ok ()) }"

definition DeleteLoxiLBInstance :: "int \<Rightarrow> (('w, 'x) oam_db_scheme, db_err + unit) state" where
  "DeleteLoxiLBInstance ident = retry () (db_stmt (delete_instance ident))"

text \<open>Firmware: the container of an instance on its host.\<close>

definition dockerHost :: "'w registry_env \<Rightarrow> instance_view \<Rightarrow> string" where
  "dockerHost E i = DockerBaseURL (dk_env (rg_docker E)) (m_Host i)"

definition StartFirmware :: "'w registry_env \<Rightarrow> instance_view \<Rightarrow> ('w, 'x, unit) docker_m" where
  "StartFirmware E i =
     check (\<lambda>e. ''failed to pull image: '' @ e) (PullImage (rg_docker E) (dockerHost E i) (m_Cimage i) (m_Ctag i)) (\<lambda>_.
     check (\<lambda>e. ''failed to run container: '' @ e) (StartContainer (rg_docker E) (dockerHost E i) (m_Name i)) (\<lambda>_. ret (ok ())))"

definition StopFirmware :: "'w registry_env \<Rightarrow> instance_view \<Rightarrow> ('w, 'x, unit) docker_m" where
  "StopFirmware E i =
     check (\<lambda>e. ''failed to stop container: '' @ e) (StopContainer (rg_docker E) (dockerHost E i) (m_Name i)) (\<lambda>_. ret (ok ()))"

definition UpdateFirmware :: "'w registry_env \<Rightarrow> instance_view \<Rightarrow> ('w, 'x, unit) docker_m" where
  "UpdateFirmware E i =
     check (\<lambda>e. ''failed to stop container: '' @ e) (StopContainer (rg_docker E) (dockerHost E i) (m_Name i)) (\<lambda>_.
     check (\<lambda>e. ''failed to remove container: '' @ e) (RemoveContainer (rg_docker E) (dockerHost E i) (m_Name i)) (\<lambda>_.
     check (\<lambda>e. ''failed to pull image: '' @ e) (PullImage (rg_docker E) (dockerHost E i) (m_Cimage i) (m_Ctag i)) (\<lambda>_.
     check (\<lambda>e. ''failed to run container: '' @ e) (RunContainer (rg_docker E) (dockerHost E i) (m_Name i) (m_Cimage i) (m_Ctag i)) (\<lambda>_. ret (ok ())))))"

section \<open>The handlers\<close>

datatype inst_body = IError string | IFieldError string string | IDriverError db_err | IMessage string | IInstance instance_view | IInstances "instance_view list"

datatype inst_reply = IReply (ir_status: nat) (ir_body: inst_body)

definition invalidateProxyConnections :: "'w registry_env \<Rightarrow> (('w, 'x) oam_db_scheme, unit) state" where
  "invalidateProxyConnections E = (case rg_close_idle E of
      None \<Rightarrow> ret ()
    | Some close \<Rightarrow> State (\<lambda>s. ((), s\<lparr>outside := close (outside s)\<rparr>)))"

definition GetLoxiLBInstances :: "(('w, 'x) oam_db_scheme, inst_reply) state" where
  "GetLoxiLBInstances = do {
     r \<leftarrow> FetchLoxiLBInstances;
     ret (case r of Inl e \<Rightarrow> IReply 500 (IError ''Failed to fetch LoxiLB instances'') | Inr is \<Rightarrow> IReply 200 (IInstances is)) }"

definition fetch_failed :: "db_err \<Rightarrow> inst_reply" where
  "fetch_failed e = (if e = NoRows then IReply 404 (IError ''LoxiLB instance not found'') else IReply 500 (IError ''Failed to fetch LoxiLB instance''))"

definition GetLoxiLBInstanceByID :: "string \<Rightarrow> (('w, 'x) oam_db_scheme, inst_reply) state" where
  "GetLoxiLBInstanceByID idParam = (case atoi idParam of
      None \<Rightarrow> ret (IReply 400 (IError ''Invalid ID''))
    | Some ident \<Rightarrow> do {
        r \<leftarrow> FetchLoxiLBInstanceByID ident;
        ret (case r of Inl e \<Rightarrow> fetch_failed e | Inr i \<Rightarrow> IReply 200 (IInstance i)) })"

definition rejectInstanceConflict :: "'w registry_env \<Rightarrow> InstanceFields \<Rightarrow> int \<Rightarrow> (('w, 'x) oam_db_scheme, inst_reply option) state" where
  "rejectInstanceConflict E flds excludeID = do {
     n \<leftarrow> InstanceNameTaken E (f_Name flds) excludeID;
     case n of
       Inl e \<Rightarrow> ret (Some (IReply 500 (IError ''Failed to validate LoxiLB instance'')))
     | Inr nameTaken \<Rightarrow>
         if nameTaken then ret (Some (IReply 409 (IFieldError ''an instance with this name already exists'' ''name'')))
         else do {
           t \<leftarrow> InstanceEndpointTaken E (APIEndpoint flds) excludeID;
           case t of
             Inl e \<Rightarrow> ret (Some (IReply 500 (IError ''Failed to validate LoxiLB instance'')))
           | Inr endpointTaken \<Rightarrow>
               if endpointTaken then ret (Some (IReply 409 (IError (''an instance is already registered at this endpoint: '' @ APIEndpoint flds))))
               else ret None } }"

record LoxiLBInstanceRequest = InstanceFields +
  q_IsActive :: "bool option"

text \<open>The binding refuses a request whose required fields are empty (\<open>None\<close>: not the JSON of a request).\<close>

definition bound_create :: "LoxiLBInstanceRequest option \<Rightarrow> LoxiLBInstanceRequest option" where
  "bound_create body = (case body of
      None \<Rightarrow> None
    | Some q \<Rightarrow> if [] \<in> {f_Name q, f_Host q, f_Port q, f_Protocol q, f_Cimage q, f_Ctag q} then None else Some q)"

definition view_of :: "int \<Rightarrow> InstanceFields \<Rightarrow> string \<Rightarrow> bool \<Rightarrow> int \<Rightarrow> instance_view" where
  "view_of ident f endpoint active created =
     \<lparr>m_ID = ident, m_Name = f_Name f, m_Host = f_Host f, m_Port = f_Port f, m_Protocol = f_Protocol f, m_Description = f_Description f,
      m_Version = f_Version f, m_ApiEndpoint = endpoint, m_Cimage = f_Cimage f, m_Ctag = f_Ctag f, m_IsActive = active, m_CreatedAt = created\<rparr>"

definition CreateLoxiLBInstance :: "'w registry_env \<Rightarrow> LoxiLBInstanceRequest option \<Rightarrow> (('w, 'x) oam_db_scheme, inst_reply) state" where
  "CreateLoxiLBInstance E body = (case bound_create body of
      None \<Rightarrow> ret (IReply 400 (IError ''bind''))
    | Some q \<Rightarrow>
        (let flds = Normalize (rg_uni E) (InstanceFields.truncate q) in
         case Validate flds of
           Some verr \<Rightarrow> ret (IReply 400 (IFieldError (ve_Message verr) (ve_Field verr)))
         | None \<Rightarrow> do {
             c \<leftarrow> rejectInstanceConflict E flds 0;
             case c of
               Some r \<Rightarrow> ret r
             | None \<Rightarrow>
                 (let isActive = (case q_IsActive q of None \<Rightarrow> True | Some a \<Rightarrow> a) in do {
                    r \<leftarrow> AddLoxiLBInstanceWithArgs (f_Name flds) (f_Host flds) (f_Port flds) (f_Protocol flds) (f_Description flds)
                           (f_Version flds) (f_Cimage flds) (f_Ctag flds) isActive;
                    case r of
                      Inl e \<Rightarrow>
                        if e = ErrInstanceEndpointTaken then ret (IReply 409 (IError ''an instance is already registered at this endpoint''))
                        else ret (IReply 500 (IError ''Failed to add LoxiLB instance''))
                    | Inr (ident, endpoint) \<Rightarrow> do {
                        now \<leftarrow> time_now;
                        ret (IReply 201 (IInstance (view_of ident flds endpoint isActive now))) } }) }))"

definition fields_of :: "instance_view \<Rightarrow> InstanceFields" where
  "fields_of v = \<lparr>f_Name = m_Name v, f_Host = m_Host v, f_Port = m_Port v, f_Protocol = m_Protocol v, f_Description = m_Description v,
     f_Version = m_Version v, f_Cimage = m_Cimage v, f_Ctag = m_Ctag v\<rparr>"

definition handle_UpdateLoxiLBInstance :: "'w registry_env \<Rightarrow> string \<Rightarrow> instance_view option \<Rightarrow> (('w, 'x) oam_db_scheme, inst_reply) state" where
  "handle_UpdateLoxiLBInstance E idParam body = (case atoi idParam of
      None \<Rightarrow> ret (IReply 400 (IError ''Invalid instance ID''))
    | Some instanceID \<Rightarrow> (case body of
        None \<Rightarrow> ret (IReply 400 (IError ''bind''))
      | Some v \<Rightarrow>
          (let flds = Normalize (rg_uni E) (fields_of v) in
           case Validate flds of
             Some verr \<Rightarrow> ret (IReply 400 (IFieldError (ve_Message verr) (ve_Field verr)))
           | None \<Rightarrow> do {
               c \<leftarrow> rejectInstanceConflict E flds instanceID;
               case c of
                 Some r \<Rightarrow> ret r
               | None \<Rightarrow>
                   (let w = view_of instanceID flds (APIEndpoint flds) (m_IsActive v) (m_CreatedAt v) in do {
                      r \<leftarrow> UpdateLoxiLBInstance w;
                      case r of
                        Inl e \<Rightarrow> ret (case e of
                            ErrInstanceNotFound \<Rightarrow> IReply 404 (IError ''LoxiLB instance not found'')
                          | ErrInstanceEndpointTaken \<Rightarrow> IReply 409 (IError ''an instance is already registered at this endpoint'')
                          | _ \<Rightarrow> IReply 500 (IError ''Failed to update LoxiLB instance''))
                      | Inr _ \<Rightarrow> do {
                          _ \<leftarrow> invalidateProxyConnections E;
                          ret (IReply 200 (IInstance w)) } }) })))"

definition handle_DeleteLoxiLBInstance :: "'w registry_env \<Rightarrow> string \<Rightarrow> (('w, 'x) oam_db_scheme, inst_reply) state" where
  "handle_DeleteLoxiLBInstance E idParam = (case atoi idParam of
      None \<Rightarrow> ret (IReply 400 (IError ''Invalid ID''))
    | Some ident \<Rightarrow> do {
        r \<leftarrow> DeleteLoxiLBInstance ident;
        case r of
          Inl e \<Rightarrow> ret (IReply 500 (IDriverError e))
        | Inr _ \<Rightarrow> do {
            _ \<leftarrow> invalidateProxyConnections E;
            ret (IReply 200 (IMessage ''Instance deleted'')) } })"

text \<open>The firmware handlers share their opening and the deferred invalidation.\<close>

definition with_instance :: "string \<Rightarrow> (instance_view \<Rightarrow> (('w, 'x) oam_db_scheme, inst_reply) state) \<Rightarrow> (('w, 'x) oam_db_scheme, inst_reply) state" where
  "with_instance idParam k = (case atoi idParam of
      None \<Rightarrow> ret (IReply 400 (IError ''Invalid instance ID''))
    | Some instanceID \<Rightarrow> do {
        r \<leftarrow> FetchLoxiLBInstanceByID instanceID;
        case r of Inl e \<Rightarrow> ret (fetch_failed e) | Inr i \<Rightarrow> k i })"

definition deferred_invalidate :: "'w registry_env \<Rightarrow> (('w, 'x) oam_db_scheme, inst_reply) state \<Rightarrow> (('w, 'x) oam_db_scheme, inst_reply) state" where
  "deferred_invalidate E m = do { r \<leftarrow> m; _ \<leftarrow> invalidateProxyConnections E; ret r }"

record UpdateFirmwareRequest =
  uf_Cimage :: "string option"
  uf_Ctag :: "string option"
  uf_Description :: "string option"
  uf_Version :: "string option"

definition merge_firmware :: "UpdateFirmwareRequest \<Rightarrow> instance_view \<Rightarrow> instance_view" where
  "merge_firmware q i = i\<lparr>m_Cimage := the (uf_Cimage q), m_Ctag := the (uf_Ctag q),
     m_Description := (case uf_Description q of None \<Rightarrow> m_Description i | Some d \<Rightarrow> d),
     m_Version := (case uf_Version q of None \<Rightarrow> m_Version i | Some v \<Rightarrow> v)\<rparr>"

definition registry_err_text :: "registry_err \<Rightarrow> string" where
  "registry_err_text e = (case e of
      RDb d \<Rightarrow> ''database error''
    | ErrInstanceNotFound \<Rightarrow> ''LoxiLB instance not found''
    | ErrInstanceNameTaken \<Rightarrow> ''an instance with this name already exists''
    | ErrInstanceEndpointTaken \<Rightarrow> ''an instance is already registered at this endpoint''
    | RDocker t \<Rightarrow> t)"

definition bound_firmware :: "UpdateFirmwareRequest option \<Rightarrow> UpdateFirmwareRequest option" where
  "bound_firmware body = (case body of None \<Rightarrow> None | Some q \<Rightarrow> if uf_Cimage q = None \<or> uf_Ctag q = None then None else Some q)"

definition UpdateLoxiLBInstanceFirmware :: "'w registry_env \<Rightarrow> string \<Rightarrow> UpdateFirmwareRequest option \<Rightarrow> (('w, 'x) oam_db_scheme, inst_reply) state" where
  "UpdateLoxiLBInstanceFirmware E idParam body =
     (if atoi idParam = None then ret (IReply 400 (IError ''Invalid instance ID''))
      else (case bound_firmware body of
        None \<Rightarrow> ret (IReply 400 (IError ''bind''))
      | Some q \<Rightarrow>
          if uf_Cimage q = None \<or> uf_Cimage q = Some [] then ret (IReply 400 (IError ''cimage is required''))
          else if uf_Ctag q = None \<or> uf_Ctag q = Some [] then ret (IReply 400 (IError ''ctag is required''))
          else with_instance idParam (\<lambda>existing.
            (let i = merge_firmware q existing in
             deferred_invalidate E (do {
               r \<leftarrow> UpdateFirmware E i;
               case r of
                 Inl e \<Rightarrow> ret (IReply 500 (IError e))
               | Inr _ \<Rightarrow> do {
                   u \<leftarrow> UpdateLoxiLBInstance i;
                   ret (case u of
                       Inl e \<Rightarrow> IReply 500 (IError (''Failed to update database: '' @ registry_err_text e))
                     | Inr _ \<Rightarrow> IReply 200 (IMessage ''LoxiLB instance firmware updated successfully'')) } })))))"

definition StartLoxiLBInstanceFirmware :: "'w registry_env \<Rightarrow> string \<Rightarrow> (('w, 'x) oam_db_scheme, inst_reply) state" where
  "StartLoxiLBInstanceFirmware E idParam = with_instance idParam (\<lambda>i. deferred_invalidate E (do {
     r \<leftarrow> StartFirmware E i;
     ret (case r of Inl e \<Rightarrow> IReply 500 (IError e) | Inr _ \<Rightarrow> IReply 200 (IMessage ''LoxiLB instance firmware started successfully'')) }))"

definition StoptLoxiLBInstanceFirmware :: "'w registry_env \<Rightarrow> string \<Rightarrow> (('w, 'x) oam_db_scheme, inst_reply) state" where
  "StoptLoxiLBInstanceFirmware E idParam = with_instance idParam (\<lambda>i. deferred_invalidate E (do {
     r \<leftarrow> StopFirmware E i;
     ret (case r of Inl e \<Rightarrow> IReply 500 (IError e) | Inr _ \<Rightarrow> IReply 200 (IMessage ''LoxiLB instance firmware stopped successfully'')) }))"

section \<open>The registry invariant\<close>

text \<open>
  Every instance has its own id, endpoint and (up to case) name; the endpoint is the one derived from the row; and alerts, acknowledgments, snapshots and
  schedules refer to rows that exist.
\<close>

definition row_derived :: "int \<Rightarrow> LoxiLBInstance \<Rightarrow> bool" where
  "row_derived nxt i \<longleftrightarrow> 0 < i_id i \<and> i_id i < nxt \<and> i_api_endpoint i = endpoint_of (i_protocol i) (i_host i) (i_port i) (i_version i)"

definition rows_ok :: "(string \<Rightarrow> string) \<Rightarrow> LoxiLBInstance list \<Rightarrow> int \<Rightarrow> bool" where
  "rows_ok L is nxt \<longleftrightarrow> 0 < nxt \<and> unique_by i_id is \<and> unique_by i_api_endpoint is \<and> unique_by (\<lambda>i. L (i_name i)) is \<and> list_all (row_derived nxt) is"

definition refs_ok :: "int list \<Rightarrow> Alert list \<Rightarrow> Acknowledgment list \<Rightarrow> InstanceSnapshot list \<Rightarrow> InstanceSnapshotSchedule list \<Rightarrow> bool" where
  "refs_ok ids als acks sns scs \<longleftrightarrow>
     list_all (\<lambda>a. a_instance a \<in> set ids) als \<and> list_all (\<lambda>k. ack_alert k \<in> set (map a_id als)) acks \<and>
     list_all (\<lambda>n. sn_instance n \<in> set ids) sns \<and> list_all (\<lambda>c. sc_instance c \<in> set ids) scs"

definition registry_ok :: "(string \<Rightarrow> string) \<Rightarrow> ('w, 'x) oam_db_scheme \<Rightarrow> bool" where
  "registry_ok L s \<longleftrightarrow> rows_ok L (instances s) (seqs s ''loxilb_instances'') \<and>
     refs_ok (map i_id (instances s)) (alerts s) (acknowledgments s) (snapshots s) (schedules s)"

lemma row_derived_mono: "nxt \<le> nxt' \<Longrightarrow> row_derived nxt i \<Longrightarrow> row_derived nxt' i"
  by (simp add: row_derived_def)

lemma rows_ok_mono: "nxt \<le> nxt' \<Longrightarrow> rows_ok L is nxt \<Longrightarrow> rows_ok L is nxt'"
  by (auto simp: rows_ok_def intro: list.pred_mono_strong row_derived_mono)

lemma seqs_grow: "same_tables s s' \<Longrightarrow> seqs s t \<le> seqs s' t"
  by (simp add: same_tables_def)

lemma registry_ok_tables: "same_tables s s' \<Longrightarrow> registry_ok L s \<Longrightarrow> registry_ok L s'"
  by (simp add: registry_ok_def same_tables_oam rows_ok_mono [OF seqs_grow])

interpretation registry: table_invariant "registry_ok L :: ('w, 'x) oam_db_scheme \<Rightarrow> bool"
  by (rule table_invariant.intro) (rule registry_ok_tables)

text \<open>No row other than \<open>ex\<close> holds the name.\<close>

definition name_free :: "(string \<Rightarrow> string) \<Rightarrow> string \<Rightarrow> int \<Rightarrow> ('w, 'x) oam_db_scheme \<Rightarrow> bool" where
  "name_free L name ex s \<longleftrightarrow> (\<forall>i \<in> set (instances s). L (i_name i) = L name \<longrightarrow> i_id i = ex)"

definition claimable :: "(string \<Rightarrow> string) \<Rightarrow> string \<Rightarrow> int \<Rightarrow> ('w, 'x) oam_db_scheme \<Rightarrow> bool" where
  "claimable L name ex s \<longleftrightarrow> registry_ok L s \<and> name_free L name ex s"

interpretation claim: table_invariant "claimable L name ex :: ('w, 'x) oam_db_scheme \<Rightarrow> bool"
  by (rule table_invariant.intro) (auto simp: claimable_def name_free_def same_tables_oam intro: registry_ok_tables)

lemma insert_instance_ok:
  assumes "registry_ok L s" and "name_free L (i_name row) 0 s"
    and "i_api_endpoint row = endpoint_of (i_protocol row) (i_host row) (i_port row) (i_version row)"
  shows "registry_ok L (snd (insert_instance row s))"
proof -
  let ?n = "seqs s ''loxilb_instances''"
  from assms(1) have rows: "rows_ok L (instances s) ?n" by (simp add: registry_ok_def)
  then have grown: "rows_ok L (instances s) (?n + 1)" by (rule rows_ok_mono [rotated]) simp
  have seq: "registry_ok L (take_seq ''loxilb_instances'' s)"
    using assms(1) grown by (simp add: registry_ok_def take_seq_def)
  have fresh: "?n \<notin> i_id ` set (instances s)"
    using rows by (fastforce simp: rows_ok_def row_derived_def list_all_iff)
  have name: "L (i_name row) \<notin> (\<lambda>i. L (i_name i)) ` set (instances s)"
    using assms(2) rows by (fastforce simp: name_free_def rows_ok_def row_derived_def list_all_iff)
  show ?thesis
  proof (cases "\<not> row_fits row \<or> i_api_endpoint row \<in> set (map i_api_endpoint (instances s))")
    case True
    with seq show ?thesis by (auto simp: insert_instance_def Let_def)
  next
    case False
    have "rows_ok L (instances s @ [row\<lparr>i_id := ?n, i_created := db_now s\<rparr>]) (?n + 1)"
      using grown rows fresh name False assms(3) by (simp add: rows_ok_def unique_by_append1 row_derived_def)
    with False assms(1) show ?thesis
      by (auto simp: insert_instance_def Let_def registry_ok_def take_seq_def refs_ok_def list_all_iff)
  qed
qed

lemma unique_by_upd_one:
  assumes "unique_by i_id is" and "unique_by key is" and "\<And>i j. i \<in> set is \<Longrightarrow> i_id i = ident \<Longrightarrow> j \<in> set is \<Longrightarrow> i_id j \<noteq> ident \<Longrightarrow> key j \<noteq> key (f i)"
  shows "unique_by key (upd_where (\<lambda>i. i_id i = ident) f is)"
  using assms
proof (induction "is")
  case (Cons i "is")
  have rest: "unique_by key (upd_where (\<lambda>i. i_id i = ident) f is)"
    by (rule Cons.IH) (use Cons.prems in \<open>auto simp: unique_by_def\<close>)
  show ?case
  proof (cases "i_id i = ident")
    case True
    have "i_id i \<notin> i_id ` set is" using Cons.prems(1) by (simp add: unique_by_def)
    with True have others: "\<And>j. j \<in> set is \<Longrightarrow> i_id j \<noteq> ident" by (metis image_eqI)
    then have same: "upd_where (\<lambda>i. i_id i = ident) f is = is" by (simp add: upd_where_id)
    have "key (f i) \<notin> key ` set is" using Cons.prems(3) [of i] True others by fastforce
    with same Cons.prems(2) True show ?thesis by (simp add: unique_by_def)
  next
    case False
    have "key i \<notin> key ` set (upd_where (\<lambda>i. i_id i = ident) f is)"
      using Cons.prems(2) Cons.prems(3) [of _ i] False by (fastforce simp: set_upd_where unique_by_def)
    with False rest show ?thesis by (simp add: unique_by_def)
  qed
qed simp

lemma update_instance_ok:
  assumes "registry_ok L s" and "name_free L (m_Name v) ident s"
  shows "registry_ok L (snd (update_instance ident (write_instance v) s))"
proof (cases "update_instance ident (write_instance v) s")
  case (Pair r s')
  let ?f = "write_instance v" and ?is = "instances s"
  from assms(1) have rows: "rows_ok L ?is (seqs s ''loxilb_instances'')" by (simp add: registry_ok_def)
  have ids: "map i_id (upd_where (\<lambda>i. i_id i = ident) ?f ?is) = map i_id ?is"
    by (rule map_upd_where) (simp add: write_instance_def)
  show ?thesis
  proof (cases "s' = s")
    case False
    then have s': "s' = s\<lparr>instances := upd_where (\<lambda>i. i_id i = ident) ?f ?is\<rparr>"
      and ends: "\<And>i j. i \<in> set ?is \<Longrightarrow> i_id i = ident \<Longrightarrow> j \<in> set ?is \<Longrightarrow> i_id j \<noteq> ident \<Longrightarrow> i_api_endpoint j \<noteq> i_api_endpoint (?f i)"
      using Pair by (auto simp: update_instance_def split: if_splits)
    have uid: "unique_by i_id ?is" using rows by (simp add: rows_ok_def)
    have endpoints: "unique_by i_api_endpoint (upd_where (\<lambda>i. i_id i = ident) ?f ?is)"
      by (rule unique_by_upd_one [OF uid]) (use rows ends in \<open>auto simp: rows_ok_def\<close>)
    have names: "unique_by (\<lambda>i. L (i_name i)) (upd_where (\<lambda>i. i_id i = ident) ?f ?is)"
      by (rule unique_by_upd_one [OF uid]) (use rows assms(2) in \<open>auto simp: rows_ok_def name_free_def write_instance_def\<close>)
    have derived: "list_all (row_derived (seqs s ''loxilb_instances'')) (upd_where (\<lambda>i. i_id i = ident) ?f ?is)"
      using rows by (auto simp: rows_ok_def list_all_iff set_upd_where row_derived_def write_instance_def)
    have "unique_by i_id (upd_where (\<lambda>i. i_id i = ident) ?f ?is)" using uid by (simp add: unique_by_def ids)
    with endpoints names derived rows have "rows_ok L (instances s') (seqs s ''loxilb_instances'')" by (simp add: rows_ok_def s')
    with assms(1) s' Pair ids show ?thesis by (simp add: registry_ok_def)
  qed (use assms(1) Pair in simp)
qed

lemma kept_key: "x \<in> set (map k rows) \<Longrightarrow> x \<notin> set (map k (filter p rows)) \<Longrightarrow> x \<in> set (map k (del_where p rows))"
  by (auto simp: set_del_where)

lemma refs_ok_delete:
  assumes "refs_ok (map i_id is) als acks sns scs"
    and gone: "gone = set (map i_id (filter p is))" and lost: "lost = set (map a_id (filter (\<lambda>a. a_instance a \<in> gone) als))"
  shows "refs_ok (map i_id (del_where p is)) (del_where (\<lambda>a. a_instance a \<in> gone) als) (del_where (\<lambda>k. ack_alert k \<in> lost) acks)
    (del_where (\<lambda>n. sn_instance n \<in> gone) sns) (del_where (\<lambda>n. sc_instance n \<in> gone) scs)"
  using assms(1) kept_key [of _ i_id "is" p, folded gone] kept_key [of _ a_id als "\<lambda>a. a_instance a \<in> gone", folded lost]
  unfolding refs_ok_def list_all_iff set_del_where by blast

lemma delete_instance_ok:
  assumes "registry_ok L s"
  shows "registry_ok L (snd (delete_instance ident s))"
proof -
  have "refs_ok (map i_id (instances s)) (alerts s) (acknowledgments s) (snapshots s) (schedules s)"
    and "rows_ok L (instances s) (seqs s ''loxilb_instances'')"
    using assms by (simp_all add: registry_ok_def)
  then show ?thesis
    using refs_ok_delete [OF _ refl refl, of "instances s" _ _ _ _ "\<lambda>i. i_id i = ident"]
    by (simp add: delete_instance_def delete_instances_where_def Let_def registry_ok_def rows_ok_def unique_by_del_where list_all_iff set_del_where del: set_map set_filter)
qed

section \<open>The operations keep the invariant\<close>

lemma name_query_free:
  assumes "I = claimable L name ex \<or> I = registry_ok L" and "table_invariant I"
  shows "hoare I (db_query (\<lambda>s. ok (count_where (\<lambda>i. L (i_name i) = L name \<and> i_id i \<noteq> ex) (instances s))))
     (\<lambda>r s. I s \<and> (r = ok 0 \<longrightarrow> name_free L name ex s))"
  by (rule hoare_weaken [OF table_invariant.hoare_query [OF assms(2)]]) (auto simp: name_free_def count_where_0)

lemma InstanceNameTaken_free:
  "hoare (registry_ok (rg_lower E)) (InstanceNameTaken E name ex)
     (\<lambda>r s. registry_ok (rg_lower E) s \<and> (r = ok False \<longrightarrow> name_free (rg_lower E) name ex s))"
  unfolding InstanceNameTaken_def countInstances_def RetryOperation_once
  by (rule hoare_check [where R = "\<lambda>c s. registry_ok (rg_lower E) s \<and> (c = 0 \<longrightarrow> name_free (rg_lower E) name ex s)"],
      rule hoare_weaken [OF name_query_free [OF disjI2 [OF refl] registry.table_invariant_axioms]])
    (auto split: sum.splits intro: hoare_return)

lemma preserves_endpoint_taken: "table_invariant I \<Longrightarrow> preserves I (InstanceEndpointTaken E endpoint ex)"
  unfolding InstanceEndpointTaken_def countInstances_def RetryOperation_once
  by (intro hoare_rules table_invariant.preserves_query)

lemma rejectInstanceConflict_free:
  "hoare (registry_ok (rg_lower E)) (rejectInstanceConflict E flds ex)
     (\<lambda>r s. registry_ok (rg_lower E) s \<and> (r = None \<longrightarrow> claimable (rg_lower E) (f_Name flds) ex s))"
  unfolding rejectInstanceConflict_def
proof (rule hoare_bind [OF InstanceNameTaken_free], goal_cases)
  case (1 n)
  have endpoint: "hoare (claimable (rg_lower E) (f_Name flds) ex) (InstanceEndpointTaken E (APIEndpoint flds) ex) (\<lambda>_. claimable (rg_lower E) (f_Name flds) ex)"
    by (rule preserves_endpoint_taken [OF claim.table_invariant_axioms])
  have tail: "hoare (\<lambda>s. registry_ok (rg_lower E) s \<and> name_free (rg_lower E) (f_Name flds) ex s) (State_Monad.bind (InstanceEndpointTaken E (APIEndpoint flds) ex) k)
      (\<lambda>r s. registry_ok (rg_lower E) s \<and> (r = None \<longrightarrow> claimable (rg_lower E) (f_Name flds) ex s))"
    if "\<And>r. k r = (case r of Inl e \<Rightarrow> ret (Some a) | Inr t \<Rightarrow> if t then ret (Some b) else ret None)" for k a b
    by (rule hoare_bind [OF endpoint [unfolded claimable_def]], unfold that) (auto intro!: hoare_case_sum hoare_if hoare_return simp: claimable_def)
  show ?case
  proof (cases n)
    case (Inr b)
    then show ?thesis by (cases b) (auto intro!: hoare_return tail)
  qed (auto intro!: hoare_return)
qed

lemma AddLoxiLBInstanceWithArgs_ok:
  "hoare (claimable L name 0) (AddLoxiLBInstanceWithArgs name host port protocol description version cimage ctag isActive) (\<lambda>_. registry_ok L)"
  unfolding AddLoxiLBInstanceWithArgs_def RetryOperation_once
proof (rule hoare_bind [where R = "\<lambda>_. registry_ok L"])
  have ins: "hoare (claimable L name 0) (db_stmt (insert_instance (new_row name host port protocol description version cimage ctag isActive))) (\<lambda>_. registry_ok L)"
    by (rule claim.hoare_stmt) (auto simp: claimable_def new_row_def intro!: insert_instance_ok)
  show "hoare (claimable L name 0) (do {
      q \<leftarrow> db_stmt (insert_instance (new_row name host port protocol description version cimage ctag isActive));
      case q of
        Inl e \<Rightarrow> if IsDuplicateKeyError e then ret (ok (err ErrInstanceEndpointTaken)) else ret (err e)
      | Inr ident \<Rightarrow> ret (ok (ok ident)) }) (\<lambda>_. registry_ok L)"
    by (rule hoare_bind [OF ins]) (auto intro!: hoare_rules)
qed (rule preserves_return)

lemma UpdateLoxiLBInstance_ok:
  "hoare (claimable L (m_Name v) (m_ID v)) (UpdateLoxiLBInstance v) (\<lambda>_. registry_ok L)"
  unfolding UpdateLoxiLBInstance_def RetryOperation_once
proof (rule hoare_bind [where R = "\<lambda>_. registry_ok L"])
  have upd: "hoare (claimable L (m_Name v) (m_ID v)) (db_stmt (update_instance (m_ID v) (write_instance v))) (\<lambda>_. registry_ok L)"
    by (rule claim.hoare_stmt) (auto simp: claimable_def intro!: update_instance_ok)
  have tail: "hoare (claimable L (m_Name v) (m_ID v)) (do {
      u \<leftarrow> db_stmt (update_instance (m_ID v) (write_instance v));
      case u of
        Inl e \<Rightarrow> if IsDuplicateKeyError e then ret (ok (err ErrInstanceEndpointTaken)) else ret (err e)
      | Inr x \<Rightarrow> ret (ok (ok ())) }) (\<lambda>_. registry_ok L)"
    by (rule hoare_bind [OF upd]) (auto intro!: hoare_rules)
  show "hoare (claimable L (m_Name v) (m_ID v)) (do {
      q \<leftarrow> db_query (select_instance (m_ID v));
      case q of
        Inl e \<Rightarrow> if e = NoRows then ret (ok (err ErrInstanceNotFound)) else ret (err e)
      | Inr existing \<Rightarrow> do {
          u \<leftarrow> db_stmt (update_instance (m_ID v) (write_instance v));
          case u of
            Inl e \<Rightarrow> if IsDuplicateKeyError e then ret (ok (err ErrInstanceEndpointTaken)) else ret (err e)
          | Inr x \<Rightarrow> ret (ok (ok ())) } }) (\<lambda>_. registry_ok L)"
    by (rule hoare_bind [OF claim.preserves_query]) (auto intro!: hoare_case_sum hoare_if hoare_return tail simp: claimable_def)
qed (rule preserves_return)

lemma DeleteLoxiLBInstance_ok: "preserves (registry_ok L) (DeleteLoxiLBInstance ident)"
  unfolding DeleteLoxiLBInstance_def RetryOperation_once by (rule registry.preserves_stmt) (rule delete_instance_ok)

lemma invalidate_tables: "run_state (invalidateProxyConnections E) s = (u, s') \<Longrightarrow> same_tables s s'"
  by (auto simp: invalidateProxyConnections_def same_tables_def split: option.splits)

lemma preserves_invalidate: "table_invariant I \<Longrightarrow> preserves I (invalidateProxyConnections E)"
  by (rule hoareI) (metis invalidate_tables table_invariant.same_tables)

lemma CreateLoxiLBInstance_ok: "preserves (registry_ok (rg_lower E)) (CreateLoxiLBInstance E body)"
proof -
  have add: "hoare (claimable (rg_lower E) (f_Name flds) 0)
      (State_Monad.bind (AddLoxiLBInstanceWithArgs (f_Name flds) host port protocol description version cimage ctag isActive) k) (\<lambda>_. registry_ok (rg_lower E))"
    if "\<And>r. preserves (registry_ok (rg_lower E)) (k r)"
    for flds host port protocol description version cimage ctag isActive
      and k :: "registry_err + int \<times> string \<Rightarrow> (('w, 'x) oam_db_scheme, inst_reply) state"
    by (rule hoare_bind [OF AddLoxiLBInstanceWithArgs_ok that])
  have tail: "preserves (registry_ok (rg_lower E)) (k r)"
    if "k = (\<lambda>r. case r of
          Inl e \<Rightarrow> if e = ErrInstanceEndpointTaken then ret a else ret b
        | Inr (ident, endpoint) \<Rightarrow> do { now \<leftarrow> time_now; ret (c ident endpoint now) })"
    for a b and c :: "int \<Rightarrow> string \<Rightarrow> int \<Rightarrow> inst_reply" and k :: "registry_err + int \<times> string \<Rightarrow> (('w, 'x) oam_db_scheme, inst_reply) state" and r
    unfolding that by (intro hoare_rules registry.preserves_time_now)
  show ?thesis
    unfolding CreateLoxiLBInstance_def Let_def
    by (intro hoare_case_option preserves_return hoare_bind [OF rejectInstanceConflict_free])
      (auto intro!: hoare_return hoare_case_option hoare_weaken [OF add [OF tail [OF refl]]])
qed

lemma handle_UpdateLoxiLBInstance_ok:
  fixes E :: "'w registry_env"
  shows "preserves (registry_ok (rg_lower E) :: ('w, 'x) oam_db_scheme \<Rightarrow> bool) (handle_UpdateLoxiLBInstance E idParam body)"
proof -
  have tail: "preserves (registry_ok (rg_lower E)) (k r)"
    if "k = (\<lambda>r. case r of Inl e \<Rightarrow> ret (a e) | Inr _ \<Rightarrow> do { _ \<leftarrow> invalidateProxyConnections E; ret b })"
    for a b and k :: "registry_err + unit \<Rightarrow> (('w, 'x) oam_db_scheme, inst_reply) state" and r
    unfolding that by (intro hoare_rules preserves_invalidate registry.table_invariant_axioms)
  have upd: "hoare (claimable (rg_lower E) (f_Name flds) ident) (State_Monad.bind (UpdateLoxiLBInstance (view_of ident flds e b c)) k) (\<lambda>_. registry_ok (rg_lower E))"
    if "\<And>r. preserves (registry_ok (rg_lower E)) (k r)" for flds ident e b c and k :: "registry_err + unit \<Rightarrow> (('w, 'x) oam_db_scheme, inst_reply) state"
    using UpdateLoxiLBInstance_ok [of "rg_lower E" "view_of ident flds e b c"] by (intro hoare_bind [OF _ that]) (simp add: view_of_def)
  show ?thesis
    unfolding handle_UpdateLoxiLBInstance_def Let_def
    by (intro hoare_case_option preserves_return hoare_bind [OF rejectInstanceConflict_free])
      (auto intro!: hoare_return hoare_case_option hoare_weaken [OF upd [OF tail [OF refl]]])
qed

lemma handle_DeleteLoxiLBInstance_ok: "preserves (registry_ok L) (handle_DeleteLoxiLBInstance E idParam)"
  unfolding handle_DeleteLoxiLBInstance_def
  by (intro hoare_rules DeleteLoxiLBInstance_ok preserves_invalidate registry.table_invariant_axioms)

text \<open>What a read found stays true while only the engine acts.\<close>

definition found :: "(string \<Rightarrow> string) \<Rightarrow> int \<Rightarrow> instance_view \<Rightarrow> ('w, 'x) oam_db_scheme \<Rightarrow> bool" where
  "found L ident v s \<longleftrightarrow> registry_ok L s \<and> select_instance ident s = ok v"

interpretation found: table_invariant "found L ident v :: ('w, 'x) oam_db_scheme \<Rightarrow> bool"
  by (rule table_invariant.intro) (auto simp: found_def select_instance_def same_tables_oam intro: registry_ok_tables)

lemma scan_instance_ok: "scan_instance i = ok v \<Longrightarrow> m_Name v = i_name i \<and> m_ID v = i_id i \<and> m_ApiEndpoint v = i_api_endpoint i"
  by (auto simp: scan_instance_def split: option.splits)

lemma found_claimable:
  assumes "found L ident v s"
  shows "m_ID v = ident \<and> claimable L (m_Name v) ident s"
proof -
  from assms obtain i where i: "i \<in> set (instances s)" "i_id i = ident" "scan_instance i = ok v"
    by (auto simp: found_def select_instance_def split: option.splits dest: find_row_Some)
  from assms have "unique_by (\<lambda>i. L (i_name i)) (instances s)" by (simp add: found_def registry_ok_def rows_ok_def)
  then have "j = i" if "j \<in> set (instances s)" "L (i_name j) = L (i_name i)" for j
    using that i(1) by (auto intro: unique_by_eq)
  with i assms scan_instance_ok [OF i(3)] show ?thesis unfolding claimable_def name_free_def found_def by metis
qed

lemma Fetch_found:
  "hoare (registry_ok L) (FetchLoxiLBInstanceByID ident) (\<lambda>r s. registry_ok L s \<and> (\<forall>v. r = ok v \<longrightarrow> found L ident v s))"
  unfolding FetchLoxiLBInstanceByID_def RetryOperation_once
  by (rule hoare_weaken [OF registry.hoare_query]) (auto simp: found_def)

lemma with_instance_ok:
  assumes "\<And>ident v. hoare (found L ident v) (k v) (\<lambda>_. registry_ok L)"
  shows "preserves (registry_ok L) (with_instance idParam k)"
  unfolding with_instance_def
proof (intro hoare_case_option preserves_return hoare_bind [OF Fetch_found] hoare_case_sum)
  fix ident v and r :: "db_err + instance_view" assume "r = Inr v"
  then show "hoare (\<lambda>s. registry_ok L s \<and> (\<forall>v. r = ok v \<longrightarrow> found L ident v s)) (k v) (\<lambda>_. registry_ok L)"
    by (auto intro: hoare_weaken [OF assms])
qed (auto intro: hoare_return)

lemma deferred_invalidate_ok: "hoare P m (\<lambda>_. registry_ok L) \<Longrightarrow> hoare P (deferred_invalidate E m) (\<lambda>_. registry_ok L)"
  unfolding deferred_invalidate_def
  by (rule hoare_bind, assumption) (intro hoare_rules preserves_invalidate registry.table_invariant_axioms)

lemma found_registry: "preserves (found L ident v) m \<Longrightarrow> hoare (found L ident v) m (\<lambda>_. registry_ok L)"
  by (erule hoare_weaken) (auto simp: found_def)

lemma firmware_found:
  "preserves (found L ident v) (StartFirmware E i)" "preserves (found L ident v) (StopFirmware E i)" "preserves (found L ident v) (UpdateFirmware E i)"
  unfolding StartFirmware_def StopFirmware_def UpdateFirmware_def by (intro hoare_rules found.preserves_docker)+

lemma StartLoxiLBInstanceFirmware_ok: "preserves (registry_ok L) (StartLoxiLBInstanceFirmware E idParam)"
  unfolding StartLoxiLBInstanceFirmware_def
  by (intro with_instance_ok deferred_invalidate_ok found_registry preserves_bind firmware_found preserves_return)

lemma StoptLoxiLBInstanceFirmware_ok: "preserves (registry_ok L) (StoptLoxiLBInstanceFirmware E idParam)"
  unfolding StoptLoxiLBInstanceFirmware_def
  by (intro with_instance_ok deferred_invalidate_ok found_registry preserves_bind firmware_found preserves_return)

lemma UpdateLoxiLBInstanceFirmware_ok: "preserves (registry_ok L) (UpdateLoxiLBInstanceFirmware E idParam body)"
proof -
  have stored: "hoare (found L ident v) (State_Monad.bind (UpdateLoxiLBInstance (merge_firmware q v)) (\<lambda>u. ret (k u))) (\<lambda>_. registry_ok L)"
    for ident v q and k :: "registry_err + unit \<Rightarrow> inst_reply"
  proof (rule hoare_bind [OF hoare_weaken [OF UpdateLoxiLBInstance_ok [of L]] preserves_return])
    fix s assume "found L ident v s"
    from found_claimable [OF this] show "claimable L (m_Name (merge_firmware q v)) (m_ID (merge_firmware q v)) s" by (simp add: merge_firmware_def)
  qed
  show ?thesis
    unfolding UpdateLoxiLBInstanceFirmware_def Let_def
    by (intro hoare_rules with_instance_ok deferred_invalidate_ok hoare_bind [OF firmware_found(3)])
      (auto intro!: hoare_case_sum hoare_return stored simp: found_def)
qed

section \<open>Whole runs\<close>

datatype registry_call = RList | RGet string | RCreate "LoxiLBInstanceRequest option" | RUpdate string "instance_view option" | RDelete string
  | RFirmware string "UpdateFirmwareRequest option" | RStart string | RStop string

fun run_registry :: "'w registry_env \<Rightarrow> registry_call \<Rightarrow> (('w, 'x) oam_db_scheme, inst_reply) state" where
  "run_registry E RList = GetLoxiLBInstances"
| "run_registry E (RGet p) = GetLoxiLBInstanceByID p"
| "run_registry E (RCreate b) = CreateLoxiLBInstance E b"
| "run_registry E (RUpdate p b) = handle_UpdateLoxiLBInstance E p b"
| "run_registry E (RDelete p) = handle_DeleteLoxiLBInstance E p"
| "run_registry E (RFirmware p b) = UpdateLoxiLBInstanceFirmware E p b"
| "run_registry E (RStart p) = StartLoxiLBInstanceFirmware E p"
| "run_registry E (RStop p) = StoptLoxiLBInstanceFirmware E p"

fun run_registry_calls :: "'w registry_env \<Rightarrow> registry_call list \<Rightarrow> (('w, 'x) oam_db_scheme, inst_reply list) state" where
  "run_registry_calls E [] = ret []"
| "run_registry_calls E (c # cs) = do { r \<leftarrow> run_registry E c; rs \<leftarrow> run_registry_calls E cs; ret (r # rs) }"

lemma run_registry_ok: "preserves (registry_ok (rg_lower E)) (run_registry E c)"
proof (cases c)
  case RList
  then show ?thesis
    by (simp only: run_registry.simps GetLoxiLBInstances_def FetchLoxiLBInstances_def RetryOperation_once) (intro hoare_rules registry.preserves_query)
next
  case (RGet p)
  then show ?thesis
    by (simp only: run_registry.simps GetLoxiLBInstanceByID_def FetchLoxiLBInstanceByID_def RetryOperation_once) (intro hoare_rules registry.preserves_query)
qed (simp_all add: CreateLoxiLBInstance_ok handle_UpdateLoxiLBInstance_ok handle_DeleteLoxiLBInstance_ok UpdateLoxiLBInstanceFirmware_ok
    StartLoxiLBInstanceFirmware_ok StoptLoxiLBInstanceFirmware_ok)

lemma run_registry_calls_ok: "preserves (registry_ok (rg_lower E)) (run_registry_calls E cs)"
  by (induction cs) (auto intro!: hoare_rules run_registry_ok)

text \<open>
  The instance registry stays consistent through every sequence of its handlers, whatever statements fail or lose their answer and whatever the Docker
  engines answer: ids, endpoints and (up to the database's notion of case) names stay unique, every stored endpoint is the one derived from its row, and
  every alert, acknowledgment, snapshot and schedule refers to a row that exists.  Handlers run one after the other.
\<close>

theorem registry_stays_consistent:
  assumes "registry_ok (rg_lower E) s"
  shows "registry_ok (rg_lower E) (snd (run_state (run_registry_calls E cs) s))"
  using run_registry_calls_ok assms by (rule preservesD)

section \<open>Limits of the checks\<close>

definition demo_env :: "unit registry_env" where
  "demo_env = \<lparr>rg_docker = \<lparr>dk_env = \<lparr>OAM_DOCKER_TLS = [], OAM_DOCKER_PORT = []\<rparr>, dk_do = (\<lambda>verb u b w. (ok [], w)), dk_Id = (\<lambda>b. Some ''c1'')\<rparr>,
     rg_lower = map ascii_lower, rg_uni = id, rg_close_idle = None\<rparr>"

definition demo_registry :: "unit oam_db" where
  "demo_registry = \<lparr>clock = 0, tx_start = None, script = [], seqs = (\<lambda>_. 1), outside = (), users = [], instances = [], api_tokens = [], login_attempts = [],
     system_settings = [], system_config = [], alerts = [], acknowledgments = [], snapshots = [], schedules = []\<rparr>"

definition demo_request :: "string \<Rightarrow> LoxiLBInstanceRequest" where
  "demo_request host = \<lparr>f_Name = ''gw'', f_Host = host, f_Port = ''80'', f_Protocol = ''http'', f_Description = [], f_Version = ''v1'', f_Cimage = ''img'',
     f_Ctag = ''t'', q_IsActive = None\<rparr>"

definition demo_flds :: "string \<Rightarrow> InstanceFields" where
  "demo_flds host = InstanceFields.truncate (demo_request host)"

lemma demo_normal: "Normalize id (demo_flds ''a'') = demo_flds ''a''" "Normalize id (demo_flds ''b'') = demo_flds ''b''"
  by (simp_all add: demo_flds_def demo_request_def InstanceFields.truncate_def Normalize_def space_eval to_lower_def is_ascii_def ascii_lower_def byte_def in_range_def)

lemma demo_valid: "Validate (demo_flds ''a'') = None" "Validate (demo_flds ''b'') = None"
  by code_simp+

definition demo_row :: LoxiLBInstance where
  "demo_row = (new_row ''gw'' ''a'' ''80'' ''http'' [] ''v1'' ''img'' ''t'' True)\<lparr>i_id := 1, i_created := 0\<rparr>"

lemma demo_fits: "row_fits (new_row ''gw'' ''a'' ''80'' ''http'' [] ''v1'' ''img'' ''t'' True)"
  "row_fits (new_row ''gw'' ''b'' ''80'' ''http'' [] ''v1'' ''img'' ''t'' True)"
  by code_simp+

lemma demo_create:
  "run_state (CreateLoxiLBInstance demo_env (Some (demo_request ''a''))) demo_registry =
     (IReply 201 (IInstance (view_of 1 (demo_flds ''a'') ''http://a:80/netlox/v1'' True 0)),
      demo_registry\<lparr>seqs := (\<lambda>_. 1)(''loxilb_instances'' := 2), instances := [demo_row]\<rparr>)"
proof -
  have req: "bound_create (Some (demo_request ''a'')) = Some (demo_request ''a'')" by (simp add: bound_create_def demo_request_def)
  have flds: "InstanceFields.truncate (demo_request ''a'') = demo_flds ''a''" by (simp add: demo_flds_def)
  show ?thesis
    unfolding CreateLoxiLBInstance_def req option.case flds
    apply (simp add: Let_def demo_env_def demo_normal demo_valid)
    apply (simp add: rejectInstanceConflict_def InstanceNameTaken_def InstanceEndpointTaken_def countInstances_def demo_registry_def run_simps)
    by (simp add: AddLoxiLBInstanceWithArgs_def run_simps insert_instance_def Let_def take_seq_def demo_fits demo_flds_def demo_request_def
        InstanceFields.truncate_def endpoint_of_def demo_row_def db_now_def view_of_def)
qed

theorem registry_stays_consistent_witness:
  "instances (snd (run_state (run_registry_calls demo_env [RCreate (Some (demo_request ''a''))]) demo_registry)) = [demo_row] \<and>
   registry_ok (map ascii_lower) (snd (run_state (run_registry_calls demo_env [RCreate (Some (demo_request ''a''))]) demo_registry))"
proof -
  have "registry_ok (rg_lower demo_env) demo_registry"
    by (simp add: registry_ok_def rows_ok_def refs_ok_def demo_registry_def)
  from registry_stays_consistent [OF this, of "[RCreate (Some (demo_request ''a''))]"] show ?thesis
    by (simp add: demo_create) (simp add: demo_env_def)
qed

text \<open>
  The name has no constraint in the database: two registrations that both pass the checks before either is stored leave two rows with one name.
\<close>

lemma concurrent_creates_share_name:
  "case run_state (do {
      c1 \<leftarrow> rejectInstanceConflict demo_env (demo_flds ''a'') 0;
      c2 \<leftarrow> rejectInstanceConflict demo_env (demo_flds ''b'') 0;
      r1 \<leftarrow> AddLoxiLBInstanceWithArgs ''gw'' ''a'' ''80'' ''http'' [] ''v1'' ''img'' ''t'' True;
      r2 \<leftarrow> AddLoxiLBInstanceWithArgs ''gw'' ''b'' ''80'' ''http'' [] ''v1'' ''img'' ''t'' True;
      ret (c1, c2) }) demo_registry of (r, s) \<Rightarrow> r = (None, None) \<and> map i_name (instances s) = [''gw'', ''gw'']"
  by (simp add: rejectInstanceConflict_def InstanceNameTaken_def InstanceEndpointTaken_def countInstances_def demo_registry_def run_simps
      AddLoxiLBInstanceWithArgs_def insert_instance_def Let_def take_seq_def demo_fits)
    (simp add: new_row_def endpoint_of_def)

text \<open>
  The firmware handler stores what the request says without validating it: a version of dot segments moves the endpoint the proxy derives its targets from.
\<close>

definition demo_firmware :: UpdateFirmwareRequest where
  "demo_firmware = \<lparr>uf_Cimage = Some ''img'', uf_Ctag = Some ''t'', uf_Description = None, uf_Version = Some ''../..''\<rparr>"

lemma firmware_version_unchecked:
  "ValidateInstanceVersion ''../..'' \<noteq> None \<and>
   (case run_state (UpdateLoxiLBInstanceFirmware demo_env ''1'' (Some demo_firmware)) (demo_registry\<lparr>instances := [demo_row]\<rparr>) of
      (r, s) \<Rightarrow> ir_status r = 200 \<and> map i_api_endpoint (instances s) = [''http://a:80/netlox/../..''])"
proof -
  have at: "atoi ''1'' = Some 1" by code_simp
  let ?v = "view_of 1 (demo_flds ''a'') ''http://a:80/netlox/v1'' True 0"
  have scan: "scan_instance demo_row = ok ?v"
    by (simp add: demo_row_def new_row_def scan_instance_def view_of_def demo_flds_def demo_request_def InstanceFields.truncate_def endpoint_of_def)
  have fit: "row_fits (write_instance (merge_firmware demo_firmware ?v) demo_row)" by code_simp
  have row: "i_id demo_row = 1" "m_ID (merge_firmware demo_firmware ?v) = 1" by (simp_all add: demo_row_def merge_firmware_def view_of_def)
  have version: "ValidateInstanceVersion ''../..'' \<noteq> None" by code_simp
  have after: "i_api_endpoint (write_instance (merge_firmware demo_firmware ?v) demo_row) = ''http://a:80/netlox/../..''"
    by (simp add: write_instance_def merge_firmware_def demo_firmware_def view_of_def demo_flds_def demo_request_def InstanceFields.truncate_def endpoint_of_def)
  have req: "bound_firmware (Some demo_firmware) = Some demo_firmware" "uf_Cimage demo_firmware = Some ''img''" "uf_Ctag demo_firmware = Some ''t''"
    by (simp_all add: bound_firmware_def demo_firmware_def)
  show ?thesis
    unfolding UpdateLoxiLBInstanceFirmware_def req option.case
    by (simp add: at version req with_instance_def FetchLoxiLBInstanceByID_def demo_registry_def select_instance_def row scan Let_def deferred_invalidate_def
        invalidateProxyConnections_def UpdateFirmware_def StopContainer_def RemoveContainer_def PullImage_def RunContainer_def renameContainer_def StartContainer_def
        dockerPost_def docker_request_def run_simps demo_env_def UpdateLoxiLBInstance_def update_instance_def fit after)
qed

end
