(* ===== verification/Gateway_Identity.thy ===== *)
theory Gateway_Identity
  imports Instances
begin

text \<open>
  What OAM presents to a gateway and what it refuses to send there: the service identity (\<^verbatim>\<open>internal/services/gateway_identity.go\<close>), the reserved host
  endpoints (\<^verbatim>\<open>internal/config/reserved.go\<close>) and the proxy's time budget (\<^verbatim>\<open>internal/config/proxy.go\<close>).
\<close>

section \<open>Headers\<close>

text \<open>\<^verbatim>\<open>http.Header\<close> as an association list of values in canonical keys; \<^verbatim>\<open>http.CanonicalHeaderKey\<close>.\<close>

type_synonym headers = "(string \<times> string list) list"

definition header_token_char :: "char \<Rightarrow> bool" where
  "header_token_char c \<longleftrightarrow> alnum c \<or> c \<in> set ''!#$%&*+-.^_`|~'' \<or> byte c = 39"

definition upper_char :: "char \<Rightarrow> char" where
  "upper_char c = (if in_range 97 122 (byte c) then char_of (byte c - 32) else c)"

fun canonical_chars :: "bool \<Rightarrow> string \<Rightarrow> string" where
  "canonical_chars up [] = []"
| "canonical_chars up (c # cs) = (if up then upper_char c else ascii_lower c) # canonical_chars (c = CHR ''-'') cs"

definition CanonicalHeaderKey :: "string \<Rightarrow> string" where
  "CanonicalHeaderKey key = (if list_all header_token_char key then canonical_chars True key else key)"

definition header_del :: "string \<Rightarrow> headers \<Rightarrow> headers" where
  "header_del key hs = filter (\<lambda>h. fst h \<noteq> CanonicalHeaderKey key) hs"

definition header_set :: "string \<Rightarrow> string \<Rightarrow> headers \<Rightarrow> headers" where
  "header_set key v hs = header_del key hs @ [(CanonicalHeaderKey key, [v])]"

definition header_values :: "string \<Rightarrow> headers \<Rightarrow> string list" where
  "header_values key hs = concat (map snd (filter (\<lambda>h. fst h = CanonicalHeaderKey key) hs))"

definition header_add :: "string \<Rightarrow> string \<Rightarrow> headers \<Rightarrow> headers" where
  "header_add key v hs = header_del key hs @ [(CanonicalHeaderKey key, header_values key hs @ [v])]"

section \<open>The service identity\<close>

definition GatewayAuthModeDisabled :: string where "GatewayAuthModeDisabled = ''disabled''"
definition GatewayAuthModeServiceToken :: string where "GatewayAuthModeServiceToken = ''service-token''"
definition maxGatewayServiceTokenFileSize :: nat where "maxGatewayServiceTokenFileSize = 4096"

datatype identity_err = ErrGatewayServiceIdentityUnavailable | UnusedSecret | InvalidLineBreak | BearerPrefix | InvalidMode
  | BothSources | TokenFileNotAbsolute | TokenFileUnreadable | TokenFileNotRegular | TokenFileTooLarge

record GatewayServiceIdentity =
  gi_mode :: string
  gi_token :: string

definition normal_mode :: "(string \<Rightarrow> string) \<Rightarrow> string \<Rightarrow> string" where
  "normal_mode uni mode = (let m = to_lower uni (trim_space mode) in if m = [] then GatewayAuthModeDisabled else m)"

definition NewGatewayServiceIdentity :: "(string \<Rightarrow> string) \<Rightarrow> string \<Rightarrow> string \<Rightarrow> identity_err + GatewayServiceIdentity" where
  "NewGatewayServiceIdentity uni mode token =
     (let m = normal_mode uni mode; t = trim_space token in
      if m = GatewayAuthModeDisabled then
        (if t \<noteq> [] then err UnusedSecret else ok \<lparr>gi_mode = m, gi_token = t\<rparr>)
      else if m = GatewayAuthModeServiceToken then
        (if t = [] then err ErrGatewayServiceIdentityUnavailable
         else if list_ex (\<lambda>c. byte c = 13 \<or> byte c = 10) t then err InvalidLineBreak
         else if has_prefix (to_lower uni t) ''bearer '' then err BearerPrefix
         else ok \<lparr>gi_mode = m, gi_token = t\<rparr>)
      else err InvalidMode)"

text \<open>What \<^verbatim>\<open>os.Lstat\<close> and \<^verbatim>\<open>os.ReadFile\<close> say about a path.\<close>

record token_file =
  tf_regular :: bool
  tf_size :: nat
  tf_contents :: "string option"

definition readGatewayServiceTokenFile :: "(string \<Rightarrow> token_file option) \<Rightarrow> string \<Rightarrow> identity_err + string" where
  "readGatewayServiceTokenFile fs path =
     (if \<not> has_prefix path ''/'' then err TokenFileNotAbsolute
      else (case fs path of
          None \<Rightarrow> err TokenFileUnreadable
        | Some f \<Rightarrow>
            if \<not> tf_regular f then err TokenFileNotRegular
            else if tf_size f > maxGatewayServiceTokenFileSize then err TokenFileTooLarge
            else (case tf_contents f of None \<Rightarrow> err TokenFileUnreadable | Some c \<Rightarrow> ok (trim_space c))))"

definition gatewayServiceIdentityFromSources :: "(string \<Rightarrow> string) \<Rightarrow> (string \<Rightarrow> token_file option) \<Rightarrow> string \<Rightarrow> string \<Rightarrow> string
    \<Rightarrow> identity_err + GatewayServiceIdentity" where
  "gatewayServiceIdentityFromSources uni fs mode token tokenFile =
     (let m = normal_mode uni mode; t = trim_space token; f = trim_space tokenFile in
      if t \<noteq> [] \<and> f \<noteq> [] then err BothSources
      else if f = [] then NewGatewayServiceIdentity uni m t
      else if m \<noteq> GatewayAuthModeServiceToken then
        (if m = GatewayAuthModeDisabled then err UnusedSecret else NewGatewayServiceIdentity uni m [])
      else (case readGatewayServiceTokenFile fs f of Inl e \<Rightarrow> err e | Inr c \<Rightarrow> NewGatewayServiceIdentity uni m c))"

definition Mode :: "GatewayServiceIdentity \<Rightarrow> string" where
  "Mode g = (if gi_mode g = [] then GatewayAuthModeDisabled else gi_mode g)"

definition identity_Authorize :: "GatewayServiceIdentity \<Rightarrow> headers \<Rightarrow> identity_err + headers" where
  "identity_Authorize g hs =
     (let hs = header_del ''Authorization'' hs in
      if Mode g = GatewayAuthModeDisabled then ok hs
      else if Mode g = GatewayAuthModeServiceToken then
        (if gi_token g = [] then err ErrGatewayServiceIdentityUnavailable
         else ok (header_set ''Authorization'' (''Bearer '' @ gi_token g) hs))
      else err ErrGatewayServiceIdentityUnavailable)"

section \<open>Reserved endpoints\<close>

record ReservedEndpoint =
  re_IP :: "ip_addr option"
  re_Port :: int
  re_Proto :: string

text \<open>Addresses compare as sixteen bytes (\<^verbatim>\<open>net.IP.Equal\<close>, \<^verbatim>\<open>IsUnspecified\<close>).\<close>

definition To16 :: "ip_addr \<Rightarrow> nat list" where
  "To16 a = (case a of IPv4 q \<Rightarrow> replicate 10 0 @ [255, 255] @ q | IPv6 b \<Rightarrow> b)"

definition IsUnspecified :: "ip_addr \<Rightarrow> bool" where
  "IsUnspecified a \<longleftrightarrow> To16 a = replicate 10 0 @ [255, 255, 0, 0, 0, 0] \<or> To16 a = replicate 16 0"

definition last_index :: "char \<Rightarrow> string \<Rightarrow> nat option" where
  "last_index c s = (if c \<in> set s then Some (length s - 1 - length (takeWhile (\<lambda>d. d \<noteq> c) (rev s))) else None)"

definition first_index :: "char \<Rightarrow> string \<Rightarrow> nat option" where
  "first_index c s = (if c \<in> set s then Some (length (takeWhile (\<lambda>d. d \<noteq> c) s)) else None)"

text \<open>\<^verbatim>\<open>net.SplitHostPort\<close>.\<close>

definition SplitHostPort :: "string \<Rightarrow> (string \<times> string) option" where
  "SplitHostPort hp = (case last_index CHR '':'' hp of
      None \<Rightarrow> None
    | Some i \<Rightarrow>
        if has_prefix hp ''['' then
          (case first_index CHR '']'' hp of
             None \<Rightarrow> None
           | Some e \<Rightarrow>
               if e + 1 \<noteq> i then None
               else if CHR ''['' \<in> set (drop 1 hp) \<or> CHR '']'' \<in> set (drop (e + 1) hp) then None
               else Some (drop 1 (take e hp), drop (i + 1) hp))
        else (let host = take i hp in
          if CHR '':'' \<in> set host \<or> CHR ''['' \<in> set hp \<or> CHR '']'' \<in> set hp then None
          else Some (host, drop (i + 1) hp)))"

definition valid_port :: "string \<Rightarrow> int option" where
  "valid_port t = (case atoi t of None \<Rightarrow> None | Some p \<Rightarrow> if p < 1 \<or> p > 65535 then None else Some p)"

text \<open>The optional protocol after the last slash; anything but tcp and udp is an error.\<close>

definition reserved_proto :: "(string \<Rightarrow> string) \<Rightarrow> string \<Rightarrow> (string \<times> string) option" where
  "reserved_proto uni entry = (case last_index CHR ''/'' entry of
      None \<Rightarrow> Some (entry, [])
    | Some i \<Rightarrow>
        (let proto = to_lower uni (trim_space (drop (i + 1) entry)) in
         if proto \<noteq> ''tcp'' \<and> proto \<noteq> ''udp'' then None else Some (trim_space (take i entry), proto)))"

definition parse_reserved_entry :: "(string \<Rightarrow> string) \<Rightarrow> string \<Rightarrow> ReservedEndpoint option" where
  "parse_reserved_entry uni entry = (case reserved_proto uni entry of
      None \<Rightarrow> None
    | Some (hostport, proto) \<Rightarrow> (case SplitHostPort hostport of
        None \<Rightarrow> None
      | Some (host, portStr) \<Rightarrow> (case valid_port portStr of
          None \<Rightarrow> None
        | Some port \<Rightarrow>
            (let host = trim_space host in
             if host = [] then Some \<lparr>re_IP = None, re_Port = port, re_Proto = proto\<rparr>
             else (case ParseIP host of None \<Rightarrow> None | Some ip \<Rightarrow> Some \<lparr>re_IP = Some ip, re_Port = port, re_Proto = proto\<rparr>)))))"

text \<open>\<open>None\<close> is the error that stops the start of the server.\<close>

fun parse_entries :: "(string \<Rightarrow> string) \<Rightarrow> string list \<Rightarrow> ReservedEndpoint list option" where
  "parse_entries uni [] = Some []"
| "parse_entries uni (raw # raws) =
     (let entry = trim_space raw in
      if entry = [] then parse_entries uni raws
      else (case parse_reserved_entry uni entry of
          None \<Rightarrow> None
        | Some r \<Rightarrow> (case parse_entries uni raws of None \<Rightarrow> None | Some rs \<Rightarrow> Some (r # rs))))"

definition ParseReservedEndpoints :: "(string \<Rightarrow> string) \<Rightarrow> string \<Rightarrow> ReservedEndpoint list option" where
  "ParseReservedEndpoints uni v = parse_entries uni (split_on CHR '','' v)"

definition addrOverlaps :: "ip_addr option \<Rightarrow> ip_addr option \<Rightarrow> bool" where
  "addrOverlaps reservedIP ruleIP =
     (case reservedIP of
        None \<Rightarrow> True
      | Some r \<Rightarrow> if IsUnspecified r then True
          else (case ruleIP of None \<Rightarrow> True | Some q \<Rightarrow> if IsUnspecified q then True else To16 r = To16 q))"

definition MatchReservedEndpoint :: "(string \<Rightarrow> string) \<Rightarrow> ReservedEndpoint list \<Rightarrow> string \<Rightarrow> int \<Rightarrow> string \<Rightarrow> ReservedEndpoint option" where
  "MatchReservedEndpoint uni reserved ip port proto =
     (let ruleIP = ParseIP (trim_space ip); ruleProto = to_lower uni (trim_space proto) in
      List.find (\<lambda>r. re_Port r = port \<and> \<not> (re_Proto r \<noteq> [] \<and> ruleProto \<noteq> [] \<and> re_Proto r \<noteq> ruleProto) \<and> addrOverlaps (re_IP r) ruleIP) reserved)"

section \<open>The proxy's time budget\<close>

text \<open>\<^verbatim>\<open>time.ParseDuration\<close> is a parameter; an unusable value falls back to the default.\<close>

definition DefaultProxyRequestTimeout :: int where "DefaultProxyRequestTimeout = 10 * second"

definition parseProxyTimeout :: "(string \<Rightarrow> int option) \<Rightarrow> string \<Rightarrow> int \<times> bool" where
  "parseProxyTimeout dur v =
     (if v = [] then (DefaultProxyRequestTimeout, True)
      else (case dur v of
          None \<Rightarrow> (DefaultProxyRequestTimeout, False)
        | Some d \<Rightarrow> if d \<le> 0 then (DefaultProxyRequestTimeout, False) else (d, True)))"

definition ProxyRequestTimeout :: "(string \<Rightarrow> int option) \<Rightarrow> string \<Rightarrow> int" where
  "ProxyRequestTimeout dur v = (case parseProxyTimeout dur v of (d, fine) \<Rightarrow> if fine then d else DefaultProxyRequestTimeout)"

lemma ProxyRequestTimeout_pos: "0 < ProxyRequestTimeout dur v"
  by (auto simp: ProxyRequestTimeout_def parseProxyTimeout_def DefaultProxyRequestTimeout_def duration_defs split: option.splits)

section \<open>Facts\<close>

text \<open>An identity that the constructor accepts never fails to authorize a request, and sends one credential or none.\<close>

lemma normal_mode_idem:
  assumes "normal_mode uni mode = GatewayAuthModeDisabled \<or> normal_mode uni mode = GatewayAuthModeServiceToken"
  shows "normal_mode uni (normal_mode uni mode) = normal_mode uni mode"
proof -
  have "normal_mode uni GatewayAuthModeDisabled = GatewayAuthModeDisabled" "normal_mode uni GatewayAuthModeServiceToken = GatewayAuthModeServiceToken"
    by (simp_all add: normal_mode_def GatewayAuthModeDisabled_def GatewayAuthModeServiceToken_def space_eval to_lower_def is_ascii_def ascii_lower_def
        byte_def in_range_def Let_def)
  with assms show ?thesis by auto
qed

lemma new_identity_cases:
  assumes "NewGatewayServiceIdentity uni mode token = ok g"
  shows "(gi_mode g = GatewayAuthModeDisabled \<and> gi_token g = []) \<or> (gi_mode g = GatewayAuthModeServiceToken \<and> gi_token g \<noteq> [])"
  using assms by (auto simp: NewGatewayServiceIdentity_def Let_def split: if_splits)

lemma header_values_del [simp]: "header_values key (header_del key hs) = []"
  by (simp add: header_values_def header_del_def filter_False)

lemma header_values_set [simp]: "header_values key (header_set key v hs) = [v]"
  by (simp add: header_values_def header_set_def header_del_def)

lemma authorize_credential:
  assumes "identity_Authorize g hs = ok hs'"
  shows "header_values ''Authorization'' hs' = (if Mode g = GatewayAuthModeDisabled then [] else [''Bearer '' @ gi_token g]) \<and>
    (\<forall>h \<in> set hs'. fst h \<noteq> ''Authorization'' \<longrightarrow> h \<in> set hs)"
proof -
  have key: "CanonicalHeaderKey ''Authorization'' = ''Authorization''" by code_simp
  show ?thesis
    using assms by (auto simp: identity_Authorize_def Let_def header_set_def header_del_def header_values_def key split: if_splits)
qed

lemma new_identity_authorizes:
  assumes "NewGatewayServiceIdentity uni mode token = ok g"
  shows "\<exists>hs'. identity_Authorize g hs = ok hs'"
  using new_identity_cases [OF assms]
  by (auto simp: identity_Authorize_def Let_def Mode_def GatewayAuthModeDisabled_def GatewayAuthModeServiceToken_def)

text \<open>
  A rule takes over a reserved endpoint when the ports agree, the protocols can be the same and the addresses overlap; an address that cannot be read
  counts as every address.
\<close>

definition takes_over :: "(string \<Rightarrow> string) \<Rightarrow> string \<Rightarrow> int \<Rightarrow> string \<Rightarrow> ReservedEndpoint \<Rightarrow> bool" where
  "takes_over uni ip port proto r \<longleftrightarrow>
     re_Port r = port \<and>
     (re_Proto r = [] \<or> to_lower uni (trim_space proto) = [] \<or> re_Proto r = to_lower uni (trim_space proto)) \<and>
     (re_IP r = None \<or> ParseIP (trim_space ip) = None \<or>
      (\<exists>a b. re_IP r = Some a \<and> ParseIP (trim_space ip) = Some b \<and> (IsUnspecified a \<or> IsUnspecified b \<or> To16 a = To16 b)))"

lemma match_none: "MatchReservedEndpoint uni reserved ip port proto = None \<longleftrightarrow> (\<forall>r \<in> set reserved. \<not> takes_over uni ip port proto r)"
proof -
  let ?q = "to_lower uni (trim_space proto)"
  have eq: "re_Port r = port \<and> \<not> (re_Proto r \<noteq> [] \<and> ?q \<noteq> [] \<and> re_Proto r \<noteq> ?q) \<and> addrOverlaps (re_IP r) (ParseIP (trim_space ip)) \<longleftrightarrow>
      takes_over uni ip port proto r" for r
    by (cases "re_IP r"; cases "ParseIP (trim_space ip)") (auto simp: addrOverlaps_def takes_over_def)
  show ?thesis unfolding MatchReservedEndpoint_def Let_def eq find_None_iff by blast
qed

end
