(* ===== verification/Proxy.thy ===== *)
theory Proxy
  imports Registry Gateway_Identity Middleware
begin

text \<open>
  The pass-through to managed gateways: \<^verbatim>\<open>internal/services/proxy_service.go\<close>, \<^verbatim>\<open>internal/handlers/proxy_error.go\<close>, and the handlers
  \<^verbatim>\<open>ProxyToLoxiLB\<close> and \<^verbatim>\<open>HealthCheck\<close>.  The transport is a parameter that takes an outbound request to an answer or a failure; the world outside the
  database records every request that is sent, in order.
\<close>

section \<open>Requests, answers and failures\<close>

record proxy_request =
  pr_method :: string
  pr_url :: out_url
  pr_headers :: headers
  pr_body :: string

text \<open>\<open>rs_body\<close> is \<open>None\<close> when the body of an answer ends early.\<close>

record gateway_response =
  rs_status :: nat
  rs_headers :: headers
  rs_body :: "string option"

text \<open>What \<^verbatim>\<open>errors.Is\<close> and \<^verbatim>\<open>errors.As\<close> find in the chain of a transport failure.\<close>

datatype cause = DeadlineExceeded | NetTimeout | ContextCanceled | ECONNREFUSED | ECONNRESET | UnexpectedEOF | DNSError string | CertificateError | RecordHeaderError

record 'w net =
  sent :: "proxy_request list"
  peer :: 'w

record 'w proxy_env =
  px_registry :: "'w net registry_env"
  px_identity :: GatewayServiceIdentity
  px_reserved :: "ReservedEndpoint list"
  px_timeout :: int
  px_url_parse :: "string \<Rightarrow> (string \<times> string) option"
  px_request_ok :: "out_url \<Rightarrow> bool"
  px_rule :: "string \<Rightarrow> (string \<times> string \<times> string \<times> string) option"
  px_transport :: "proxy_request \<Rightarrow> 'w \<Rightarrow> (cause list + gateway_response) \<times> 'w"

abbreviation px_uni :: "'w proxy_env \<Rightarrow> string \<Rightarrow> string" where
  "px_uni P \<equiv> rg_uni (px_registry P)"

record ReservedEndpointError =
  rx_VIP :: string
  rx_Port :: int
  rx_Protocol :: string
  rx_Reserved :: ReservedEndpoint

datatype proxy_err = PInstanceNotFound | PCreateRequest | PReadRequestBody | PReserved ReservedEndpointError | PIdentityUnavailable
  | ProxyUpstreamError "cause list" | PReadResponse

definition upstream_Timeout :: "cause list \<Rightarrow> bool" where
  "upstream_Timeout cs \<longleftrightarrow> DeadlineExceeded \<in> set cs \<or> NetTimeout \<in> set cs"

section \<open>The reserved-endpoint guard\<close>

definition trim_quotes :: "string \<Rightarrow> string" where
  "trim_quotes s = rev (dropWhile (\<lambda>c. byte c = 34) (rev (dropWhile (\<lambda>c. byte c = 34) s)))"

definition parseRulePort :: "string \<Rightarrow> int option" where
  "parseRulePort raw = (let s = trim_quotes (trim_space raw) in if s = [] then None else valid_port s)"

text \<open>The addresses of a rule that are checked: the VIP, and the bind address unless it is omitted beside a VIP.\<close>

definition rule_vips :: "string \<Rightarrow> string \<Rightarrow> string list" where
  "rule_vips externalIP host = filter (\<lambda>vip. \<not> (vip = [] \<and> externalIP \<noteq> [])) [externalIP, host]"

fun first_match :: "(string \<Rightarrow> string) \<Rightarrow> ReservedEndpoint list \<Rightarrow> int \<Rightarrow> string \<Rightarrow> string list \<Rightarrow> ReservedEndpointError option" where
  "first_match uni reserved port proto [] = None"
| "first_match uni reserved port proto (vip # vips) = (case MatchReservedEndpoint uni reserved vip port proto of
      Some r \<Rightarrow> Some \<lparr>rx_VIP = vip, rx_Port = port, rx_Protocol = proto, rx_Reserved = r\<rparr>
    | None \<Rightarrow> first_match uni reserved port proto vips)"

definition checkReservedEndpoint :: "'w proxy_env \<Rightarrow> string \<Rightarrow> string \<Rightarrow> string \<Rightarrow> ReservedEndpointError option" where
  "checkReservedEndpoint P method targetPath body =
     (if px_reserved P = [] \<or> body = [] then None
      else if method \<noteq> ''POST'' \<and> method \<noteq> ''PUT'' then None
      else if \<not> contains (to_lower (px_uni P) targetPath) ''config/loadbalancer'' then None
      else (case px_rule P body of
          None \<Rightarrow> None
        | Some (externalIP, host, portRaw, proto) \<Rightarrow> (case parseRulePort portRaw of
            None \<Rightarrow> None
          | Some port \<Rightarrow> first_match (px_uni P) (px_reserved P) port proto (rule_vips externalIP host))))"

section \<open>Headers\<close>

definition safeGatewayRequestHeaders :: "string list" where
  "safeGatewayRequestHeaders = [''Accept'', ''Accept-Encoding'', ''Accept-Language'', ''Cache-Control'', ''Content-Encoding'', ''Content-Type'', ''If-Match'',
     ''If-None-Match'', ''X-Correlation-Id'', ''X-Request-Id'']"

definition copyHeaders :: "headers \<Rightarrow> headers \<Rightarrow> headers" where
  "copyHeaders src dst = fold (\<lambda>(key, vs) hs.
     if CanonicalHeaderKey key \<in> set safeGatewayRequestHeaders then fold (header_add key) vs hs else hs) src dst"

definition ErrorOriginHeader :: string where "ErrorOriginHeader = ''X-Loxi-Error-Origin''"
definition ErrorOriginGateway :: string where "ErrorOriginGateway = ''gateway''"
definition ErrorOriginOAM :: string where "ErrorOriginOAM = ''oam''"

text \<open>gin's \<^verbatim>\<open>c.Header\<close> sets one value, and an empty value removes the header.\<close>

definition gin_Header :: "string \<Rightarrow> string \<Rightarrow> headers \<Rightarrow> headers" where
  "gin_Header key v hs = (if v = [] then header_del key hs else header_set key v hs)"

definition MarkOAMOrigin :: "headers \<Rightarrow> headers" where
  "MarkOAMOrigin hs = gin_Header ErrorOriginHeader ErrorOriginOAM hs"

definition relayableGatewayResponseHeader :: "string \<Rightarrow> bool" where
  "relayableGatewayResponseHeader key \<longleftrightarrow>
     \<not> has_prefix (CanonicalHeaderKey key) ''Access-Control-'' \<and> CanonicalHeaderKey key \<noteq> ErrorOriginHeader"

definition relay_headers :: "headers \<Rightarrow> headers \<Rightarrow> headers" where
  "relay_headers src dst = fold (\<lambda>(key, vs) hs. if relayableGatewayResponseHeader key then fold (gin_Header key) vs hs else hs) src dst"

definition mark_gateway :: "nat \<Rightarrow> headers \<Rightarrow> headers" where
  "mark_gateway status hs = (if status \<ge> 400 then gin_Header ErrorOriginHeader ErrorOriginGateway hs else hs)"

section \<open>Forwarding\<close>

text \<open>The inbound request; the body is \<open>None\<close> when it cannot be read.\<close>

record inbound =
  in_method :: string
  in_decoded :: string
  in_escaped :: string
  in_query :: string
  in_headers :: headers
  in_body :: "string option"

definition client_Do :: "'w proxy_env \<Rightarrow> proxy_request \<Rightarrow> (('w net, 'x) oam_db_scheme, cause list + gateway_response) state" where
  "client_Do P req = State (\<lambda>s. case px_transport P req (peer (outside s)) of
     (r, w) \<Rightarrow> (r, s\<lparr>outside := \<lparr>sent = sent (outside s) @ [req], peer = w\<rparr>\<rparr>))"

text \<open>The request built for a fetched instance, or why there is none.\<close>

definition build_request :: "'w proxy_env \<Rightarrow> inbound \<Rightarrow> string \<Rightarrow> GatewayPath \<Rightarrow> proxy_err + proxy_request" where
  "build_request P q apiEndpoint path =
     (case gatewayTargetURL (px_url_parse P) apiEndpoint path (in_query q) of
        Inl e \<Rightarrow> err PCreateRequest
      | Inr targetURL \<Rightarrow> (case in_body q of
          None \<Rightarrow> err PReadRequestBody
        | Some body \<Rightarrow> (case checkReservedEndpoint P (in_method q) (rel path) body of
            Some rx \<Rightarrow> err (PReserved rx)
          | None \<Rightarrow>
              if \<not> px_request_ok P targetURL then err PCreateRequest
              else (case identity_Authorize (px_identity P) (copyHeaders (in_headers q) []) of
                  Inl e \<Rightarrow> err PIdentityUnavailable
                | Inr hs \<Rightarrow> ok \<lparr>pr_method = in_method q, pr_url = targetURL, pr_headers = hs, pr_body = body\<rparr>))))"

datatype proxy_body = PJson string string | PRaw string

record proxy_reply =
  rp_status :: nat
  rp_headers :: headers
  rp_body :: proxy_body

definition relay :: "gateway_response \<Rightarrow> string \<Rightarrow> headers \<Rightarrow> proxy_reply" where
  "relay resp body hs = \<lparr>rp_status = rs_status resp, rp_headers = mark_gateway (rs_status resp) (relay_headers (rs_headers resp) hs), rp_body = PRaw body\<rparr>"

definition ForwardRequest :: "'w proxy_env \<Rightarrow> inbound \<Rightarrow> headers \<Rightarrow> int \<Rightarrow> GatewayPath \<Rightarrow> (('w net, 'x) oam_db_scheme, proxy_err + proxy_reply) state" where
  "ForwardRequest P q hs instanceID path = do {
     i \<leftarrow> FetchLoxiLBInstanceByID instanceID;
     case i of
       Inl e \<Rightarrow> ret (err PInstanceNotFound)
     | Inr inst \<Rightarrow> (case build_request P q (m_ApiEndpoint inst) path of
         Inl e \<Rightarrow> ret (err e)
       | Inr req \<Rightarrow> do {
           r \<leftarrow> client_Do P req;
           ret (case r of
               Inl cs \<Rightarrow> err (ProxyUpstreamError cs)
             | Inr resp \<Rightarrow> (case rs_body resp of None \<Rightarrow> err PReadResponse | Some body \<Rightarrow> ok (relay resp body hs))) }) }"

section \<open>Classifying failures\<close>

text \<open>The printed time budget is left symbolic.\<close>

definition classifyUpstreamError :: "cause list \<Rightarrow> nat \<times> string \<times> string" where
  "classifyUpstreamError cs =
     (if upstream_Timeout cs then (504, ''Request to LoxiLB instance timed out'', ''no response within the proxy timeout'')
      else if ContextCanceled \<in> set cs then
        (502, ''Request to LoxiLB instance was cancelled'', ''the client closed the connection before the instance replied'')
      else if ECONNREFUSED \<in> set cs then (502, ''LoxiLB instance unreachable'', ''connection refused by the instance endpoint'')
      else if ECONNRESET \<in> set cs \<or> UnexpectedEOF \<in> set cs then
        (502, ''Connection to LoxiLB instance was reset'', ''the instance closed the connection before replying'')
      else (case List.find (\<lambda>c. case c of DNSError n \<Rightarrow> True | _ \<Rightarrow> False) cs of
          Some (DNSError n) \<Rightarrow> (502, ''LoxiLB instance address could not be resolved'', ''DNS lookup failed for '' @ n)
        | _ \<Rightarrow>
            if CertificateError \<in> set cs \<or> RecordHeaderError \<in> set cs then
              (502, ''TLS handshake with LoxiLB instance failed'', ''the instance is reachable but its TLS certificate was not accepted'')
            else (502, ''LoxiLB instance unreachable'', ''the connection to the instance endpoint could not be established'')))"

text \<open>The message of a reserved endpoint names the address, port and protocol asked for.\<close>

definition reserved_message :: "ReservedEndpointError \<Rightarrow> string" where
  "reserved_message rx = ''load-balancer VIP '' @ (if rx_VIP rx = [] then ''*'' else rx_VIP rx) @ '':'' @ itoa (rx_Port rx) @ ''/'' @ rx_Protocol rx @
     '' collides with reserved host endpoint''"

definition classifyProxyError :: "proxy_err \<Rightarrow> nat \<times> string \<times> string" where
  "classifyProxyError e = (case e of
      PReserved rx \<Rightarrow> (409, reserved_message rx, [])
    | PIdentityUnavailable \<Rightarrow> (503, ''Gateway service identity unavailable'', [])
    | PInstanceNotFound \<Rightarrow> (404, ''LoxiLB instance not found'', [])
    | PReadRequestBody \<Rightarrow> (400, ''Failed to read request body'', [])
    | PCreateRequest \<Rightarrow> (500, ''Proxy request failed'', [])
    | PReadResponse \<Rightarrow> (502, ''Incomplete response from LoxiLB instance'', ''the instance answered but the response body ended early'')
    | ProxyUpstreamError cs \<Rightarrow> classifyUpstreamError cs)"

definition oam_failure :: "nat \<times> string \<times> string \<Rightarrow> headers \<Rightarrow> proxy_reply" where
  "oam_failure c hs = (case c of (status, message, detail) \<Rightarrow> \<lparr>rp_status = status, rp_headers = MarkOAMOrigin hs, rp_body = PJson message detail\<rparr>)"

section \<open>Handlers\<close>

definition ProxyToLoxiLB :: "'w proxy_env \<Rightarrow> inbound \<Rightarrow> headers \<Rightarrow> string \<Rightarrow> GatewayPath option \<Rightarrow> (('w net, 'x) oam_db_scheme, proxy_reply) state" where
  "ProxyToLoxiLB P q hs idParam authorized = (case atoi idParam of
      None \<Rightarrow> ret (oam_failure (400, ''Invalid LoxiLB instance ID'', []) hs)
    | Some instanceID \<Rightarrow> (case authorized of
        None \<Rightarrow> ret (oam_failure (500, ''Proxy request failed'', []) hs)
      | Some path \<Rightarrow> do {
          r \<leftarrow> ForwardRequest P q hs instanceID path;
          ret (case r of Inl e \<Rightarrow> oam_failure (classifyProxyError e) hs | Inr reply \<Rightarrow> reply) }))"

definition HealthCheck :: "'w proxy_env option \<Rightarrow> (('w net, 'x) oam_db_scheme, nat \<times> string \<times> string) state" where
  "HealthCheck P = do {
     r \<leftarrow> PingDB;
     ret (case r of Inl e \<Rightarrow> (500, ''unhealthy'', case P of None \<Rightarrow> GatewayAuthModeDisabled | Some p \<Rightarrow> Mode (px_identity p))
        | Inr _ \<Rightarrow> (200, ''healthy'', case P of None \<Rightarrow> GatewayAuthModeDisabled | Some p \<Rightarrow> Mode (px_identity p))) }"

text \<open>The route: authentication and the gateway gate, which stores the authorized path, then the handler.\<close>

definition proxy_route :: "jwt \<Rightarrow> 'w proxy_env \<Rightarrow> inbound \<Rightarrow> headers \<Rightarrow> string \<Rightarrow> string \<Rightarrow> (('w net, 'x) oam_db_scheme, reply + proxy_reply) state" where
  "proxy_route J P q hs header idParam = do {
     g \<leftarrow> gateway_route J (px_uni P) (in_method q) (in_decoded q) (in_escaped q) header;
     case g of
       Inl r \<Rightarrow> ret (err r)
     | Inr (caller, path) \<Rightarrow> do { r \<leftarrow> ProxyToLoxiLB P q hs idParam (Some path); ret (ok r) } }"

section \<open>The boundary\<close>

text \<open>No load-balancer rule in the body takes over a reserved endpoint.\<close>

definition rule_clear :: "'w proxy_env \<Rightarrow> string \<Rightarrow> bool" where
  "rule_clear P body = (case px_rule P body of
      None \<Rightarrow> True
    | Some (externalIP, host, portRaw, proto) \<Rightarrow> (case parseRulePort portRaw of
        None \<Rightarrow> True
      | Some port \<Rightarrow> \<forall>vip \<in> set (rule_vips externalIP host). \<forall>r \<in> set (px_reserved P). \<not> takes_over (px_uni P) vip port proto r))"

text \<open>What may leave OAM for an authorized path: the path, allowed headers, OAM's own credential or none, and no rule on a reserved endpoint.\<close>

definition clean_request :: "'w proxy_env \<Rightarrow> inbound \<Rightarrow> string \<Rightarrow> GatewayPath \<Rightarrow> proxy_request \<Rightarrow> bool" where
  "clean_request P q apiEndpoint path req \<longleftrightarrow>
     gatewayTargetURL (px_url_parse P) apiEndpoint path (in_query q) = ok (pr_url req) \<and>
     pr_method req = in_method q \<and> in_body q = Some (pr_body req) \<and>
     (\<forall>h \<in> set (pr_headers req). fst h \<in> set (''Authorization'' # safeGatewayRequestHeaders)) \<and>
     header_values ''Authorization'' (pr_headers req) =
       (if Mode (px_identity P) = GatewayAuthModeDisabled then [] else [''Bearer '' @ gi_token (px_identity P)]) \<and>
     (in_method q \<in> {''POST'', ''PUT''} \<and> contains (to_lower (px_uni P) (rel path)) ''config/loadbalancer'' \<and> pr_body req \<noteq> []
        \<longrightarrow> rule_clear P (pr_body req))"

text \<open>Which hop produced the answer is marked by OAM alone, and the cross-origin policy on it is OAM's.\<close>

definition cors_part :: "headers \<Rightarrow> headers" where
  "cors_part hs = filter (\<lambda>h. has_prefix (fst h) ''Access-Control-'') hs"

definition honest_answer :: "headers \<Rightarrow> proxy_reply \<Rightarrow> bool" where
  "honest_answer hs reply \<longleftrightarrow>
     cors_part (rp_headers reply) = cors_part hs \<and>
     header_values ErrorOriginHeader (rp_headers reply) =
       (case rp_body reply of
          PJson message detail \<Rightarrow> [ErrorOriginOAM]
        | PRaw body \<Rightarrow> if rp_status reply \<ge> 400 then [ErrorOriginGateway] else header_values ErrorOriginHeader hs)"

lemma first_match_none: "first_match uni reserved port proto vips = None \<longleftrightarrow> (\<forall>vip \<in> set vips. \<forall>r \<in> set reserved. \<not> takes_over uni vip port proto r)"
proof (induction vips)
  case (Cons vip vips)
  show ?case
  proof (cases "MatchReservedEndpoint uni reserved vip port proto")
    case None
    with Cons.IH match_none [of uni reserved vip port proto] show ?thesis by simp
  next
    case (Some r)
    with match_none [of uni reserved vip port proto] show ?thesis by auto
  qed
qed simp

lemma checkReserved_clear:
  assumes "checkReservedEndpoint P method path body = None" and "method \<in> {''POST'', ''PUT''}"
    and "contains (to_lower (px_uni P) path) ''config/loadbalancer''" and "body \<noteq> []"
  shows "rule_clear P body"
  using assms by (auto simp: checkReservedEndpoint_def rule_clear_def first_match_none split: if_splits option.splits)

lemma header_add_keys: "h \<in> set (header_add key v hs) \<Longrightarrow> h \<in> set hs \<or> fst h = CanonicalHeaderKey key"
  by (auto simp: header_add_def header_del_def)

lemma fold_add_keys: "h \<in> set (fold (header_add key) vs hs) \<Longrightarrow> fst h \<in> fst ` set hs \<or> fst h = CanonicalHeaderKey key"
  by (induction vs arbitrary: hs) (fastforce dest: header_add_keys)+

lemma copyHeaders_keys: "h \<in> set (copyHeaders src dst) \<Longrightarrow> fst h \<in> fst ` set dst \<or> fst h \<in> set safeGatewayRequestHeaders"
proof (induction src arbitrary: dst)
  case (Cons kv src)
  obtain key vs where kv: "kv = (key, vs)" by force
  show ?case
  proof (cases "CanonicalHeaderKey key \<in> set safeGatewayRequestHeaders")
    case True
    with Cons.prems kv have "h \<in> set (copyHeaders src (fold (header_add key) vs dst))" by (simp add: copyHeaders_def)
    from Cons.IH [OF this] show ?thesis
    proof
      assume "fst h \<in> fst ` set (fold (header_add key) vs dst)"
      then obtain h' where "h' \<in> set (fold (header_add key) vs dst)" and "fst h = fst h'" by blast
      with fold_add_keys [of h' key vs dst] True show ?thesis by auto
    qed simp
  next
    case False
    with Cons.prems kv have "h \<in> set (copyHeaders src dst)" by (simp add: copyHeaders_def)
    then show ?thesis by (rule Cons.IH)
  qed
qed (simp add: copyHeaders_def)

lemma build_request_clean:
  assumes "build_request P q apiEndpoint path = ok req"
  shows "clean_request P q apiEndpoint path req"
proof -
  from assms obtain url body hs where url: "gatewayTargetURL (px_url_parse P) apiEndpoint path (in_query q) = ok url"
    and body: "in_body q = Some body" and guard: "checkReservedEndpoint P (in_method q) (rel path) body = None"
    and hs: "identity_Authorize (px_identity P) (copyHeaders (in_headers q) []) = ok hs"
    and req: "req = \<lparr>pr_method = in_method q, pr_url = url, pr_headers = hs, pr_body = body\<rparr>"
    by (auto simp: build_request_def split: sum.splits option.splits if_splits)
  have "fst h = ''Authorization'' \<or> fst h \<in> set safeGatewayRequestHeaders" if "h \<in> set hs" for h
    using authorize_credential [OF hs] that copyHeaders_keys [of h "in_headers q" "[]"] by auto
  with url body guard authorize_credential [OF hs] req checkReserved_clear [OF guard] show ?thesis
    by (auto simp: clean_request_def)
qed

lemma origin_key: "CanonicalHeaderKey ErrorOriginHeader = ErrorOriginHeader" "\<not> has_prefix ErrorOriginHeader ''Access-Control-''"
  by code_simp+

lemma gin_Header_cors: "\<not> has_prefix (CanonicalHeaderKey key) ''Access-Control-'' \<Longrightarrow> cors_part (gin_Header key v hs) = cors_part hs"
  by (auto simp: gin_Header_def cors_part_def header_set_def header_del_def filter_filter intro!: filter_cong)

lemma gin_Header_origin: "CanonicalHeaderKey key \<noteq> ErrorOriginHeader \<Longrightarrow> header_values ErrorOriginHeader (gin_Header key v hs) = header_values ErrorOriginHeader hs"
  by (auto simp: gin_Header_def header_values_def header_set_def header_del_def origin_key filter_filter intro!: arg_cong [where f = concat] arg_cong [where f = "map snd"] filter_cong)

lemma gin_fold:
  assumes "relayableGatewayResponseHeader key"
  shows "cors_part (fold (gin_Header key) vs hs) = cors_part hs \<and> header_values ErrorOriginHeader (fold (gin_Header key) vs hs) = header_values ErrorOriginHeader hs"
  using assms by (induction vs arbitrary: hs) (auto simp: relayableGatewayResponseHeader_def gin_Header_cors gin_Header_origin)

lemma relay_headers_keep:
  "cors_part (relay_headers src hs) = cors_part hs \<and> header_values ErrorOriginHeader (relay_headers src hs) = header_values ErrorOriginHeader hs"
proof (induction src arbitrary: hs)
  case (Cons kv src)
  obtain key vs where "kv = (key, vs)" by force
  with Cons.IH gin_fold [of key vs hs] show ?case by (simp add: relay_headers_def)
qed (simp add: relay_headers_def)

lemma gin_mark: "v \<noteq> [] \<Longrightarrow> header_values ErrorOriginHeader (gin_Header ErrorOriginHeader v hs) = [v]"
  by (simp add: gin_Header_def)

lemma relay_honest: "honest_answer hs (relay resp body hs)"
  by (simp add: honest_answer_def relay_def mark_gateway_def relay_headers_keep gin_mark gin_Header_cors origin_key ErrorOriginGateway_def)

lemma oam_failure_honest: "honest_answer hs (oam_failure c hs)"
  by (simp add: honest_answer_def oam_failure_def MarkOAMOrigin_def gin_mark gin_Header_cors origin_key ErrorOriginOAM_def split: prod.splits)

interpretation reached: table_invariant "same_tables s0 :: ('w, 'x) db_base_scheme \<Rightarrow> bool"
  by (rule table_invariant.intro) (rule same_tables_trans)

section \<open>Runs\<close>

lemma Fetch_run:
  assumes "run_state (FetchLoxiLBInstanceByID ident) s = (r, s')"
  shows "same_system s s' \<and> (\<forall>v. r = ok v \<longrightarrow> (\<exists>i \<in> set (instances s). i_id i = ident \<and> i_api_endpoint i = m_ApiEndpoint v))"
proof -
  from assms have run: "run_state (db_query (select_instance ident)) s = (r, s')" by (simp add: FetchLoxiLBInstanceByID_def)
  have "outside s' = outside s"
    using run by (auto simp: run_db_query run_next_outcome split: list.splits prod.splits outcome.splits)
  moreover have "\<exists>i \<in> set (instances s). i_id i = ident \<and> i_api_endpoint i = m_ApiEndpoint v" if "r = ok v" for v
  proof -
    from that db_query_run [OF run] have "select_instance ident s' = ok v" by auto
    then obtain i where i: "find_row (\<lambda>i. i_id i = ident) (instances s') = Some i" and v: "scan_instance i = ok v"
      by (auto simp: select_instance_def split: option.splits)
    from find_row_Some [OF i] scan_instance_ok [OF v] db_query_run [OF run] show ?thesis by (auto simp: same_tables_oam)
  qed
  ultimately show ?thesis using db_query_run [OF run] by (auto simp: same_system_def)
qed

lemma client_Do_run:
  assumes "run_state (client_Do P req) s = (r, s')"
  shows "same_tables s s' \<and> sent (outside s') = sent (outside s) @ [req]"
  using assms by (auto simp: client_Do_def same_tables_def split: prod.splits)

lemma ForwardRequest_run:
  assumes "run_state (ForwardRequest P q hs ident path) s = (r, s')"
  shows "same_tables s s' \<and> (\<forall>reply. r = ok reply \<longrightarrow> honest_answer hs reply) \<and>
    (sent (outside s') = sent (outside s) \<or>
     (\<exists>i \<in> set (instances s). \<exists>req. i_id i = ident \<and> clean_request P q (i_api_endpoint i) path req \<and> sent (outside s') = sent (outside s) @ [req]))"
proof -
  obtain f s1 where f: "run_state (FetchLoxiLBInstanceByID ident) s = (f, s1)" by force
  note fetch = Fetch_run [OF f]
  show ?thesis
  proof (cases f)
    case (Inl e)
    with f assms fetch show ?thesis by (auto simp: ForwardRequest_def same_system_def)
  next
    case (Inr v)
    with fetch obtain i where i: "i \<in> set (instances s)" "i_id i = ident" "i_api_endpoint i = m_ApiEndpoint v" by blast
    show ?thesis
    proof (cases "build_request P q (m_ApiEndpoint v) path")
      case (Inl e)
      with Inr f assms fetch show ?thesis by (auto simp: ForwardRequest_def same_system_def)
    next
      case req: (Inr req)
      obtain d s2 where d: "run_state (client_Do P req) s1 = (d, s2)" by force
      with Inr req f assms have s': "s' = s2" and r: "r = (case d of
               Inl cs \<Rightarrow> err (ProxyUpstreamError cs)
             | Inr resp \<Rightarrow> (case rs_body resp of None \<Rightarrow> err PReadResponse | Some body \<Rightarrow> ok (relay resp body hs)))"
        by (auto simp: ForwardRequest_def)
      have "honest_answer hs reply" if "r = ok reply" for reply
        using that r by (auto simp: relay_honest split: sum.splits option.splits)
      with client_Do_run [OF d] fetch i build_request_clean [OF req] s' show ?thesis
        by (auto simp: same_system_def intro: same_tables_trans)
    qed
  qed
qed

lemma gateway_route_tables:
  assumes "run_state (gateway_route J uni method decoded escaped header) s = (r, s')"
  shows "same_tables s s'"
proof -
  have "preserves (same_tables s) (gateway_route J uni method decoded escaped header)"
    unfolding gateway_route_def TokenAuthMiddleware_def RequireGatewayAccess_def resolveCaller_def GetUserByUsername_def select_user_def ValidateToken_def
      RetryOperation_once Let_def
    by (intro hoare_rules reached.preserves_query reached.preserves_time_now)
  from hoareD [OF this _ assms] show ?thesis by simp
qed

lemma gateway_route_outside:
  fixes s :: "('w, 'x) oam_db_scheme"
  shows "outside (snd (run_state (gateway_route J uni method decoded escaped header) s)) = outside s"
proof -
  have "silent (gateway_route J uni method decoded escaped header :: ('w, 'x, user_view \<times> GatewayPath) gate)"
    unfolding gateway_route_def TokenAuthMiddleware_def RequireGatewayAccess_def resolveCaller_def GetUserByUsername_def select_user_def ValidateToken_def
      RetryOperation_once Let_def
    by (intro silent_rules)
  then show ?thesis by (simp add: silent_def)
qed


section \<open>Evaluation\<close>

definition demo_proxy :: "unit proxy_env" where
  "demo_proxy = \<lparr>px_registry = \<lparr>rg_docker = \<lparr>dk_env = \<lparr>OAM_DOCKER_TLS = [], OAM_DOCKER_PORT = []\<rparr>, dk_do = (\<lambda>verb u b w. (ok [], w)), dk_Id = (\<lambda>b. None)\<rparr>,
       rg_lower = map ascii_lower, rg_uni = id, rg_close_idle = None\<rparr>,
     px_identity = \<lparr>gi_mode = ''service-token'', gi_token = ''svc''\<rparr>, px_reserved = [], px_timeout = 10 * second,
     px_url_parse = (\<lambda>u. Some (''http://a:80'', ''/netlox/v1'')), px_request_ok = (\<lambda>u. True), px_rule = (\<lambda>b. None),
     px_transport = (\<lambda>req w. (ok \<lparr>rs_status = 401, rs_headers = [(''Access-Control-Allow-Origin'', [''*''])], rs_body = Some ''no''\<rparr>, w))\<rparr>"

definition demo_proxy_db :: "unit net oam_db" where
  "demo_proxy_db = \<lparr>clock = 0, tx_start = None, script = [], seqs = (\<lambda>_. 5), outside = \<lparr>sent = [], peer = ()\<rparr>, users = [demo_admin], instances = [demo_row],
     api_tokens = [\<lparr>t_id = 1, t_value = ''admin.1'', t_user = ''1'', t_scopes = [], t_expires = hour, t_created = 0\<rparr>], login_attempts = [],
     system_settings = [], system_config = [], alerts = [], acknowledgments = [], snapshots = [], schedules = []\<rparr>"

definition demo_inbound :: inbound where
  "demo_inbound = \<lparr>in_method = ''GET'', in_decoded = ''/v1/version'', in_escaped = ''/v1/version'', in_query = [],
     in_headers = [(''Authorization'', [''Bearer admin.1'']), (''Accept'', [''text/plain''])], in_body = Some []\<rparr>"

definition demo_sent :: proxy_request where
  "demo_sent = \<lparr>pr_method = ''GET'', pr_url = \<lparr>authority = ''http://a:80'', url_path = ''/netlox/v1/version'', raw_query = []\<rparr>,
     pr_headers = [(''Accept'', [''text/plain'']), (''Authorization'', [''Bearer svc''])], pr_body = []\<rparr>"

lemma demo_gate:
  "\<exists>v. run_state (gateway_route demo_jwt id ''GET'' ''/v1/version'' ''/v1/version'' ''Bearer admin.1'') demo_proxy_db =
     (ok (v, \<lparr>rel = ''/version'', versioned = True\<rparr>), demo_proxy_db)"
proof -
  have tok: "trim_prefix ''Bearer admin.1'' ''Bearer '' = ''admin.1''" by (simp add: string_eval)
  have canon: "CanonicalGatewayPath id ''/v1/version'' ''/v1/version'' = ok \<lparr>rel = ''/version'', versioned = True\<rparr>"
    by (simp add: CanonicalGatewayPath_def Let_def string_eval bad_path_rune_def gatewayAPIVersion_def)
  have cls: "access_allowed ''admin'' (ClassifyGatewayRequest ''GET'' \<lparr>rel = ''/version'', versioned = True\<rparr>)" "GatewayMethodAllowed ''GET''" by code_simp+
  show ?thesis
    by (simp add: gateway_route_def run_check TokenAuthMiddleware_def tok run_time_now demo_jwt_def ValidateToken_def token_row_def
        demo_proxy_db_def demo_admin_def new_user_def itoa_1 db_now_def duration_defs RequireGatewayAccess_def resolveCaller_def GetUserByUsername_def
        select_user_def scan_text_def canon cls)
qed

lemma demo_build: "build_request demo_proxy demo_inbound ''http://a:80/netlox/v1'' \<lparr>rel = ''/version'', versioned = True\<rparr> = ok demo_sent"
proof -
  have url: "gatewayTargetURL (px_url_parse demo_proxy) ''http://a:80/netlox/v1'' \<lparr>rel = ''/version'', versioned = True\<rparr> [] = ok (pr_url demo_sent)"
    by (simp add: gatewayTargetURL_def demo_proxy_def demo_sent_def gatewayAPIVersion_def string_eval)
  have keys: "CanonicalHeaderKey ''Authorization'' = ''Authorization''" "CanonicalHeaderKey ''Accept'' = ''Accept''" by code_simp+
  have hs: "identity_Authorize (px_identity demo_proxy) (copyHeaders (in_headers demo_inbound) []) = ok (pr_headers demo_sent)"
    by (simp add: identity_Authorize_def Mode_def GatewayAuthModeDisabled_def GatewayAuthModeServiceToken_def demo_proxy_def demo_inbound_def demo_sent_def
        copyHeaders_def keys safeGatewayRequestHeaders_def header_add_def header_set_def header_del_def header_values_def)
  have fits: "checkReservedEndpoint demo_proxy m p b = None" "px_request_ok demo_proxy u" for m p b u
    by (simp_all add: checkReservedEndpoint_def demo_proxy_def)
  have q: "in_query demo_inbound = []" "in_body demo_inbound = Some []" "in_method demo_inbound = ''GET''" by (simp_all add: demo_inbound_def)
  show ?thesis by (simp add: build_request_def q url fits hs) (simp add: demo_sent_def)
qed


section \<open>Limits\<close>

text \<open>A database that does not answer is reported as an instance that does not exist.\<close>

lemma database_failure_reported_as_missing:
  assumes "script s = (Refused, d) # rest"
  shows "fst (run_state (ProxyToLoxiLB P q hs ''1'' (Some path)) s) = oam_failure (404, ''LoxiLB instance not found'', []) hs"
proof -
  have at: "atoi ''1'' = Some 1" by code_simp
  show ?thesis using assms by (simp add: ProxyToLoxiLB_def ForwardRequest_def FetchLoxiLBInstanceByID_def run_simps at classifyProxyError_def)
qed

text \<open>Of a header with several values only the last one is relayed.\<close>

lemma relay_keeps_last_value: "relay_headers [(''Set-Cookie'', [''a=1'', ''b=2''])] [] = [(''Set-Cookie'', [''b=2''])]"
  by code_simp

end
