(* ===== verification/Snapshots.thy ===== *)
theory Snapshots
  imports Proxy Operation "HOL-Library.Product_Lexorder"
begin

unbundle bit_operations_syntax

text \<open>
  Stored gateway configurations (\<^verbatim>\<open>internal/services/snapshot_service.go\<close>): taking, importing, reading, changing, deleting and restoring
  snapshots, and their schedules.

  Compression, AES-256-GCM, SHA-256, JSON decoding, time formatting and the quoting of \<^verbatim>\<open>%q\<close> come from the standard library and are parameters, as is the HTTP transport to
  the gateways.  The world outside the database records every request that is sent to a gateway.  Random bytes are arguments: \<open>None\<close> is a failing source.
\<close>

section \<open>Parameters\<close>

record snap_request =
  sq_method :: string
  sq_url :: string
  sq_headers :: headers
  sq_body :: string

record 'w snap_net =
  calls :: "snap_request list"
  gateways :: 'w

record snapshotEnvelope =
  se_SchemaVersion :: string
  se_Kind :: string
  se_GatewayVersion :: string
  se_Checksum :: string

record 'w snap_env =
  sv_encKey :: "string option"
  sv_identity :: GatewayServiceIdentity
  sv_gzip :: "string \<Rightarrow> string"
  sv_gunzip :: "string \<Rightarrow> string option"
  sv_seal :: "string \<Rightarrow> string \<Rightarrow> string \<Rightarrow> string"
  sv_open :: "string \<Rightarrow> string \<Rightarrow> string \<Rightarrow> string option"
  sv_sha256 :: "string \<Rightarrow> string"
  sv_envelope :: "string \<Rightarrow> snapshotEnvelope option"
  sv_domains :: "string \<Rightarrow> string list option"
  sv_json_valid :: "string \<Rightarrow> bool"
  sv_result :: "string \<Rightarrow> string"
  sv_stamp :: "int \<Rightarrow> string"
  sv_minute :: "int \<Rightarrow> string"
  sv_quote :: "string \<Rightarrow> string"
  sv_url_ok :: "string \<Rightarrow> bool"
  sv_transport :: "snap_request \<Rightarrow> 'w \<Rightarrow> (string + gateway_response) \<times> 'w"

definition MaxSnapshotBytes :: nat where "MaxSnapshotBytes = 16 * 1024 * 1024"

datatype snap_err = ErrSnapshotNotFound | SInstanceNotFound | ErrSnapshotPinned | ErrSnapshotTooLarge | ErrSnapshotCorrupted | ErrInvalidSnapshotDoc
  | ErrInvalidRestoreRequest | GatewayError nat string string | SIdentityUnavailable | SKeyMissing | SRandom | SDb db_err | SAborted snap_err

type_synonym ('w, 'x, 'a) snap_m = "(('w snap_net, 'x) oam_db_scheme, snap_err + 'a) state"

text \<open>
  \<^verbatim>\<open>SNAPSHOT_ENC_KEY\<close> is no key, or the base64 text of 32 bytes; anything else stops the start.
\<close>

definition snapshot_key :: "string \<Rightarrow> string option option" where
  "snapshot_key v = (if v = [] then Some None
     else (case b64_decode v of None \<Rightarrow> None | Some key \<Rightarrow> if length key \<noteq> 32 then None else Some (Some key)))"

section \<open>The gateway client\<close>

definition gatewayBaseURL :: "instance_view \<Rightarrow> string" where
  "gatewayBaseURL i = trim_suffix (m_ApiEndpoint i) ''/''"

text \<open>One exchange; the transport error text becomes a gateway error without a status.\<close>

definition gateway_send :: "'w snap_env \<Rightarrow> snap_request \<Rightarrow> ('w, 'x, gateway_response) snap_m" where
  "gateway_send E q = State (\<lambda>s. case sv_transport E q (gateways (outside s)) of
     (r, w) \<Rightarrow> (case r of Inl e \<Rightarrow> err (GatewayError 0 e []) | Inr resp \<Rightarrow> ok resp, s\<lparr>outside := \<lparr>calls = calls (outside s) @ [q], gateways = w\<rparr>\<rparr>))"

definition header_get :: "string \<Rightarrow> headers \<Rightarrow> string" where
  "header_get key hs = (case header_values key hs of [] \<Rightarrow> [] | v # _ \<Rightarrow> v)"

definition FetchSnapshot :: "'w snap_env \<Rightarrow> instance_view \<Rightarrow> ('w, 'x, string \<times> headers) snap_m" where
  "FetchSnapshot E i =
     (let url = gatewayBaseURL i @ ''/config/snapshot'' in
      if \<not> sv_url_ok E url then ret (err (GatewayError 0 ''creating gateway request'' []))
      else (case identity_Authorize (sv_identity E) [] of
          Inl e \<Rightarrow> ret (err SIdentityUnavailable)
        | Inr hs \<Rightarrow>
            check id (gateway_send E \<lparr>sq_method = ''GET'', sq_url = url, sq_headers = hs, sq_body = []\<rparr>) (\<lambda>resp.
              case rs_body resp of
                None \<Rightarrow> ret (err (GatewayError 0 ''reading gateway response'' []))
              | Some b \<Rightarrow>
                  (let body = take (MaxSnapshotBytes + 1) b in
                   if rs_status resp \<noteq> 200 then ret (err (GatewayError (rs_status resp) body (header_get ''Retry-After'' (rs_headers resp))))
                   else ret (ok (body, rs_headers resp))))))"

text \<open>\<^verbatim>\<open>url.Values.Encode\<close> sorts its keys.\<close>

definition restoreQuery :: "string \<Rightarrow> string list \<Rightarrow> string" where
  "restoreQuery mode components =
     (if components \<noteq> [] then ''components='' @ QueryEscape (join '','' components) @ ''&'' else []) @ ''mode='' @ QueryEscape mode"

definition gateway_Restore :: "'w snap_env \<Rightarrow> instance_view \<Rightarrow> string \<Rightarrow> string \<Rightarrow> string list \<Rightarrow> ('w, 'x, nat \<times> headers \<times> string) snap_m" where
  "gateway_Restore E i doc mode components =
     (let url = gatewayBaseURL i @ ''/config/restore?'' @ restoreQuery mode components in
      if \<not> sv_url_ok E url then ret (err (GatewayError 0 ''creating gateway request'' []))
      else (case identity_Authorize (sv_identity E) (header_set ''Content-Type'' ''application/json'' []) of
          Inl e \<Rightarrow> ret (err SIdentityUnavailable)
        | Inr hs \<Rightarrow>
            check id (gateway_send E \<lparr>sq_method = ''POST'', sq_url = url, sq_headers = hs, sq_body = doc\<rparr>) (\<lambda>resp.
              case rs_body resp of
                None \<Rightarrow> ret (err (GatewayError 0 ''reading gateway response'' []))
              | Some b \<Rightarrow> ret (ok (rs_status resp, rs_headers resp, take MaxSnapshotBytes b)))))"

section \<open>Documents\<close>

definition parseSnapshotEnvelope :: "'w snap_env \<Rightarrow> string \<Rightarrow> snap_err + snapshotEnvelope" where
  "parseSnapshotEnvelope E raw = (case sv_envelope E raw of
      None \<Rightarrow> err ErrInvalidSnapshotDoc
    | Some env \<Rightarrow>
        if se_Kind env \<noteq> ''loxilb-snapshot'' then err ErrInvalidSnapshotDoc
        else if se_SchemaVersion env = [] \<or> se_Checksum env = [] then err ErrInvalidSnapshotDoc
        else if \<not> has_prefix (se_Checksum env) ''sha256:'' then err ErrInvalidSnapshotDoc
        else ok env)"

definition RawChecksum :: "'w snap_env \<Rightarrow> string \<Rightarrow> string" where
  "RawChecksum E raw = ''sha256:'' @ hex_encode (sv_sha256 E raw)"

text \<open>A version 4 UUID.\<close>

definition newUUID :: "string option \<Rightarrow> string option" where
  "newUUID rnd = (case rnd of
      None \<Rightarrow> None
    | Some b \<Rightarrow>
        (let b = b[6 := char_of ((byte (b ! 6) AND 0x0f) OR 0x40)];
             b = b[8 := char_of ((byte (b ! 8) AND 0x3f) OR 0x80)]
         in Some (join ''-'' (map hex_encode [slice 0 4 b, slice 4 6 b, slice 6 8 b, slice 8 10 b, slice 10 16 b]))))"

definition gcm_NonceSize :: nat where "gcm_NonceSize = 12"

definition SealBlob :: "'w snap_env \<Rightarrow> string option \<Rightarrow> string \<Rightarrow> snap_err + string \<times> bool" where
  "SealBlob E rnd raw =
     (let packed = sv_gzip E raw in
      case sv_encKey E of
        None \<Rightarrow> ok (packed, False)
      | Some key \<Rightarrow> (case rnd of None \<Rightarrow> err SRandom | Some nonce \<Rightarrow> ok (nonce @ sv_seal E key nonce packed, True)))"

definition unpack :: "'w snap_env \<Rightarrow> string \<Rightarrow> snap_err + string" where
  "unpack E packed = (case sv_gunzip E packed of
      None \<Rightarrow> err ErrSnapshotCorrupted
    | Some raw \<Rightarrow> if length raw > MaxSnapshotBytes then err ErrSnapshotCorrupted else ok raw)"

definition OpenBlob :: "'w snap_env \<Rightarrow> string \<Rightarrow> bool \<Rightarrow> snap_err + string" where
  "OpenBlob E blob encrypted =
     (if encrypted then
        (case sv_encKey E of
           None \<Rightarrow> err SKeyMissing
         | Some key \<Rightarrow>
             if length blob < gcm_NonceSize then err ErrSnapshotCorrupted
             else (case sv_open E key (take gcm_NonceSize blob) (drop gcm_NonceSize blob) of
                 None \<Rightarrow> err ErrSnapshotCorrupted
               | Some packed \<Rightarrow> unpack E packed))
      else unpack E blob)"

definition validTriggerType :: "string \<Rightarrow> bool" where
  "validTriggerType t \<longleftrightarrow> t \<in> set [''manual'', ''scheduled'', ''pre_restore'', ''pre_upgrade'']"

section \<open>Rows\<close>

text \<open>The text columns: valid UTF-8 without a zero byte, at most \<open>n\<close> characters.\<close>

definition pg_text :: "nat \<Rightarrow> string \<Rightarrow> bool" where
  "pg_text n t \<longleftrightarrow> valid_utf8 t \<and> list_all (\<lambda>c. byte c \<noteq> 0) t \<and> length (runes t) \<le> n"

definition snapshot_row_ok :: "InstanceSnapshot \<Rightarrow> bool" where
  "snapshot_row_ok n \<longleftrightarrow> pg_text 128 (sn_name n) \<and> validTriggerType (sn_trigger n) \<and> pg_text 16 (sn_schema_version n) \<and>
     pg_text 64 (sn_gateway_version n) \<and> pg_text 71 (sn_checksum n) \<and> pg_text 71 (sn_stored_checksum n) \<and> pg_text 64 (sn_created_by n)"

definition insert_snapshot :: "InstanceSnapshot \<Rightarrow> ('w, 'x) oam_db_scheme \<Rightarrow> (db_err + unit) \<times> ('w, 'x) oam_db_scheme" where
  "insert_snapshot n s =
     (if \<not> snapshot_row_ok n then (err CheckViolation, s)
      else if sn_id n \<in> set (map sn_id (snapshots s)) then (err (UniqueViolation ''instance_snapshots_pkey''), s)
      else if sn_instance n \<notin> set (map i_id (instances s)) then (err ForeignKeyViolation, s)
      else (ok (), s\<lparr>snapshots := snapshots s @ [n\<lparr>sn_created := db_now s\<rparr>]\<rparr>))"

definition update_snapshot :: "string \<Rightarrow> (InstanceSnapshot \<Rightarrow> InstanceSnapshot) \<Rightarrow> ('w, 'x) oam_db_scheme \<Rightarrow> (db_err + unit) \<times> ('w, 'x) oam_db_scheme" where
  "update_snapshot ident f s =
     (if \<exists>n \<in> set (snapshots s). sn_id n = ident \<and> \<not> snapshot_row_ok (f n) then (err CheckViolation, s)
      else (ok (), s\<lparr>snapshots := upd_where (\<lambda>n. sn_id n = ident) f (snapshots s)\<rparr>))"

definition delete_snapshot :: "string \<Rightarrow> ('w, 'x) oam_db_scheme \<Rightarrow> (db_err + unit) \<times> ('w, 'x) oam_db_scheme" where
  "delete_snapshot ident s = (ok (), s\<lparr>snapshots := del_where (\<lambda>n. sn_id n = ident) (snapshots s)\<rparr>)"

text \<open>The metadata of a row: never the blob, and the restore record only where the query selects it.\<close>

definition scanSnapshotMeta :: "bool \<Rightarrow> InstanceSnapshot \<Rightarrow> InstanceSnapshot" where
  "scanSnapshotMeta withRestoreResponse n =
     (let m = n\<lparr>sn_blob := []\<rparr> in if withRestoreResponse then m else m\<lparr>sn_last_response := None, sn_last_components := None\<rparr>)"

definition select_snapshot :: "string \<Rightarrow> ('w, 'x) oam_db_scheme \<Rightarrow> db_err + InstanceSnapshot" where
  "select_snapshot ident s = (case find_row (\<lambda>n. sn_id n = ident) (snapshots s) of None \<Rightarrow> err NoRows | Some n \<Rightarrow> ok n)"

section \<open>Reading and changing snapshots\<close>

definition snap_fail :: "db_err \<Rightarrow> snap_err" where
  "snap_fail e = (if e = NoRows then ErrSnapshotNotFound else SDb e)"

definition GetSnapshot :: "string \<Rightarrow> ('w, 'x, InstanceSnapshot) snap_m" where
  "GetSnapshot ident = check snap_fail (db_query (select_snapshot ident)) (\<lambda>n. ret (ok (scanSnapshotMeta True n)))"

definition storeSnapshot :: "'w snap_env \<Rightarrow> string option \<times> string option \<Rightarrow> int \<Rightarrow> string \<Rightarrow> string \<Rightarrow> string \<Rightarrow> snapshotEnvelope \<Rightarrow> string \<Rightarrow> string
    \<Rightarrow> ('w, 'x, InstanceSnapshot) snap_m" where
  "storeSnapshot E rnd instanceID name description trigger env raw createdBy = (case newUUID (fst rnd) of
      None \<Rightarrow> ret (err SRandom)
    | Some ident \<Rightarrow> (case SealBlob E (snd rnd) raw of
        Inl e \<Rightarrow> ret (err e)
      | Inr (blob, encrypted) \<Rightarrow>
          check SDb (db_stmt (insert_snapshot
             \<lparr>sn_id = ident, sn_instance = instanceID, sn_name = (if length name > 128 then take 128 name else name), sn_description = description,
              sn_trigger = trigger, sn_schema_version = se_SchemaVersion env, sn_gateway_version = se_GatewayVersion env, sn_size = int (length raw),
              sn_checksum = se_Checksum env, sn_stored_checksum = RawChecksum E raw, sn_blob = blob, sn_encrypted = encrypted, sn_pinned = False,
              sn_checksum_ok = True, sn_created_by = createdBy, sn_created = 0, sn_restore_count = 0, sn_last_restored = None, sn_last_result = None,
              sn_last_response = None, sn_last_components = None\<rparr>)) (\<lambda>_. GetSnapshot ident)))"

record TakeSnapshotRequest =
  ts_Name :: string
  ts_Description :: string
  ts_TriggerType :: string

definition fetch_instance :: "int \<Rightarrow> ('w, 'x, instance_view) snap_m" where
  "fetch_instance ident = check (\<lambda>e. SInstanceNotFound) (FetchLoxiLBInstanceByID ident) (\<lambda>i. ret (ok i))"

definition TakeSnapshot :: "'w snap_env \<Rightarrow> string option \<times> string option \<Rightarrow> int \<Rightarrow> TakeSnapshotRequest \<Rightarrow> string \<Rightarrow> ('w, 'x, InstanceSnapshot) snap_m" where
  "TakeSnapshot E rnd instanceID req createdBy =
     (let trigger = (if ts_TriggerType req = [] then ''manual'' else ts_TriggerType req) in
      if \<not> validTriggerType trigger then ret (err ErrInvalidSnapshotDoc)
      else check id (fetch_instance instanceID) (\<lambda>i.
           check id (FetchSnapshot E i) (\<lambda>(raw, header).
             if length raw > MaxSnapshotBytes then ret (err ErrSnapshotTooLarge)
             else (case parseSnapshotEnvelope E raw of
                 Inl e \<Rightarrow> ret (err e)
               | Inr env \<Rightarrow>
                   (let hc = header_get ''X-Snapshot-Checksum'' header in
                    if hc \<noteq> [] \<and> hc \<noteq> se_Checksum env then ret (err ErrInvalidSnapshotDoc)
                    else do {
                      now \<leftarrow> time_now;
                      storeSnapshot E rnd (m_ID i) (if ts_Name req = [] then m_Name i @ ''-'' @ sv_stamp E now else ts_Name req)
                        (ts_Description req) trigger env raw createdBy })))))"

definition ImportSnapshot :: "'w snap_env \<Rightarrow> string option \<times> string option \<Rightarrow> int \<Rightarrow> string \<Rightarrow> string \<Rightarrow> string \<Rightarrow> string \<Rightarrow> ('w, 'x, InstanceSnapshot) snap_m" where
  "ImportSnapshot E rnd instanceID name description raw createdBy =
     (if length raw > MaxSnapshotBytes then ret (err ErrSnapshotTooLarge)
      else check id (fetch_instance instanceID) (\<lambda>i. case parseSnapshotEnvelope E raw of
          Inl e \<Rightarrow> ret (err e)
        | Inr env \<Rightarrow> do {
            now \<leftarrow> time_now;
            storeSnapshot E rnd (m_ID i) (if name = [] then ''upload-'' @ sv_stamp E now else name) description ''manual'' env raw createdBy }))"

record snapshot_page =
  sp_Data :: "InstanceSnapshot list"
  sp_Page :: int
  sp_Limit :: int
  sp_TotalCount :: int
  sp_TotalPages :: int
  sp_HasNext :: bool
  sp_HasPrev :: bool

definition newest_first :: "InstanceSnapshot list \<Rightarrow> InstanceSnapshot list" where
  "newest_first ns = sort_key (\<lambda>n. (- sn_created n, sn_id n)) ns"

text \<open>A 64-bit \<^verbatim>\<open>int\<close>, and a page of rows: PostgreSQL refuses a negative offset.\<close>

definition int64 :: "int \<Rightarrow> int" where
  "int64 n = (n + 2 ^ 63) mod 2 ^ 64 - 2 ^ 63"

definition page_rows :: "int \<Rightarrow> int \<Rightarrow> 'a list \<Rightarrow> db_err + 'a list" where
  "page_rows limit offset rows = (if offset < 0 then err DbFail else ok (take (nat limit) (drop (nat offset) rows)))"

definition ListSnapshots :: "int \<Rightarrow> int \<Rightarrow> int \<Rightarrow> ('w, 'x, snapshot_page) snap_m" where
  "ListSnapshots instanceID page limit =
     (let page = (if page < 1 then 1 else page); limit = (if limit < 1 \<or> limit > 100 then 20 else limit) in
      check SDb (db_query (\<lambda>s. ok (int (count_where (\<lambda>n. sn_instance n = instanceID) (snapshots s))))) (\<lambda>total.
      check SDb (db_query (\<lambda>s. page_rows limit (int64 ((page - 1) * limit)) (newest_first (filter (\<lambda>n. sn_instance n = instanceID) (snapshots s))))) (\<lambda>rows.
        (let totalPages = (total + limit - 1) div limit in
         ret (ok \<lparr>sp_Data = map (scanSnapshotMeta False) rows, sp_Page = page, sp_Limit = limit, sp_TotalCount = total, sp_TotalPages = totalPages,
                  sp_HasNext = (page < totalPages), sp_HasPrev = (page > 1)\<rparr>)))))"

definition markChecksum :: "string \<Rightarrow> bool \<Rightarrow> (('w snap_net, 'x) oam_db_scheme, unit) state" where
  "markChecksum ident good = do { _ \<leftarrow> db_stmt (update_snapshot ident (\<lambda>n. n\<lparr>sn_checksum_ok := good\<rparr>)); ret () }"

definition GetSnapshotDocument :: "'w snap_env \<Rightarrow> string \<Rightarrow> ('w, 'x, string \<times> InstanceSnapshot) snap_m" where
  "GetSnapshotDocument E ident =
     check snap_fail (db_query (select_snapshot ident)) (\<lambda>n.
       case (case OpenBlob E (sn_blob n) (sn_encrypted n) of
               Inl e \<Rightarrow> err e
             | Inr raw \<Rightarrow> if RawChecksum E raw \<noteq> sn_stored_checksum n then err ErrSnapshotCorrupted else ok raw) of
         Inl e \<Rightarrow> if e = ErrSnapshotCorrupted then do { _ \<leftarrow> markChecksum ident False; ret (err e) } else ret (err e)
       | Inr raw \<Rightarrow>
           (let snap = scanSnapshotMeta False n in
            if \<not> sn_checksum_ok n then do { _ \<leftarrow> markChecksum ident True; ret (ok (raw, snap\<lparr>sn_checksum_ok := True\<rparr>)) }
            else ret (ok (raw, snap))))"

record UpdateSnapshotRequest =
  us_Name :: "string option"
  us_Description :: "string option"
  us_Pinned :: "bool option"

definition UpdateSnapshot :: "string \<Rightarrow> UpdateSnapshotRequest \<Rightarrow> ('w, 'x, InstanceSnapshot) snap_m" where
  "UpdateSnapshot ident req =
     check id (GetSnapshot ident) (\<lambda>snap.
       (let name = (case us_Name req of None \<Rightarrow> sn_name snap | Some n \<Rightarrow> if length n > 128 then take 128 n else n);
            description = (case us_Description req of None \<Rightarrow> sn_description snap | Some d \<Rightarrow> d);
            pinned = (case us_Pinned req of None \<Rightarrow> sn_pinned snap | Some p \<Rightarrow> p) in
        check SDb (db_stmt (update_snapshot ident (\<lambda>n. n\<lparr>sn_name := name, sn_description := description, sn_pinned := pinned\<rparr>))) (\<lambda>_.
          GetSnapshot ident)))"

definition DeleteSnapshot :: "string \<Rightarrow> bool \<Rightarrow> ('w, 'x, unit) snap_m" where
  "DeleteSnapshot ident force =
     check id (GetSnapshot ident) (\<lambda>snap.
       if sn_pinned snap \<and> \<not> force then ret (err ErrSnapshotPinned)
       else check SDb (db_stmt (delete_snapshot ident)) (\<lambda>_. ret (ok ())))"

section \<open>Schedules\<close>

definition GetSchedule :: "int \<Rightarrow> ('w, 'x, InstanceSnapshotSchedule) snap_m" where
  "GetSchedule instanceID =
     check id (fetch_instance instanceID) (\<lambda>_. do {
       r \<leftarrow> db_query (\<lambda>s. case find_row (\<lambda>c. sc_instance c = instanceID) (schedules s) of None \<Rightarrow> err NoRows | Some c \<Rightarrow> ok c);
       case r of
         Inr c \<Rightarrow> ret (ok c)
       | Inl e \<Rightarrow>
           if e = NoRows then ret (ok \<lparr>sc_instance = instanceID, sc_enabled = False, sc_interval_hours = 24, sc_retain_count = 10, sc_last_run = None, sc_last_result = None\<rparr>)
           else ret (err (SDb e)) })"

record SnapshotScheduleRequest =
  sr_Enabled :: bool
  sr_IntervalHours :: int
  sr_RetainCount :: int

definition upsert_schedule :: "int \<Rightarrow> bool \<Rightarrow> int \<Rightarrow> int \<Rightarrow> ('w, 'x) oam_db_scheme \<Rightarrow> (db_err + unit) \<times> ('w, 'x) oam_db_scheme" where
  "upsert_schedule instanceID enabled interval retain s =
     (if interval \<le> 0 \<or> retain \<le> 0 then (err CheckViolation, s)
      else if instanceID \<notin> set (map i_id (instances s)) then (err ForeignKeyViolation, s)
      else if instanceID \<in> set (map sc_instance (schedules s))
      then (ok (), s\<lparr>schedules := upd_where (\<lambda>c. sc_instance c = instanceID)
             (\<lambda>c. c\<lparr>sc_enabled := enabled, sc_interval_hours := interval, sc_retain_count := retain\<rparr>) (schedules s)\<rparr>)
      else (ok (), s\<lparr>schedules := schedules s @ [\<lparr>sc_instance = instanceID, sc_enabled = enabled, sc_interval_hours = interval, sc_retain_count = retain,
             sc_last_run = None, sc_last_result = None\<rparr>]\<rparr>))"

definition PutSchedule :: "int \<Rightarrow> SnapshotScheduleRequest \<Rightarrow> ('w, 'x, InstanceSnapshotSchedule) snap_m" where
  "PutSchedule instanceID req =
     check id (fetch_instance instanceID) (\<lambda>_.
       (let interval = (if sr_IntervalHours req < 1 then 24 else sr_IntervalHours req); retain = (if sr_RetainCount req < 1 then 10 else sr_RetainCount req) in
        check SDb (db_stmt (upsert_schedule instanceID (sr_Enabled req) interval retain)) (\<lambda>_. GetSchedule instanceID)))"

section \<open>Restoring\<close>

definition MapGatewayRestoreResult :: "string \<Rightarrow> string option" where
  "MapGatewayRestoreResult result =
     (if result = ''ok'' then Some ''ok'' else if result = ''rolled-back'' then Some ''rolled_back''
      else if result = ''ROLLBACK-FAILED'' then Some ''rollback_failed'' else None)"

text \<open>\<^verbatim>\<open>^[a-z0-9_-]{1,64}$\<close>\<close>

definition componentNameRE :: "string \<Rightarrow> bool" where
  "componentNameRE name \<longleftrightarrow> 1 \<le> length name \<and> length name \<le> 64 \<and> list_all (\<lambda>c. lower_alnum c \<or> c = CHR ''_'' \<or> c = CHR ''-'') name"

text \<open>\<open>None\<close> is the nil slice: no selection.\<close>

definition validateRestoreComponents :: "string list option \<Rightarrow> snap_err option" where
  "validateRestoreComponents components = (case components of
      None \<Rightarrow> None
    | Some cs \<Rightarrow>
        if cs = [] then Some ErrInvalidRestoreRequest
        else if \<not> list_all componentNameRE cs \<or> \<not> distinct cs then Some ErrInvalidRestoreRequest
        else None)"

definition checkComponentsCovered :: "'w snap_env \<Rightarrow> string \<Rightarrow> string list \<Rightarrow> snap_err option" where
  "checkComponentsCovered E raw components =
     (if components = [] then None
      else (case sv_domains E raw of
          None \<Rightarrow> None
        | Some included \<Rightarrow>
            if included = [] then None
            else if list_all (\<lambda>c. c \<in> set included) components then None else Some ErrInvalidRestoreRequest))"

record RestoreSnapshotRequest =
  rr_Mode :: string
  rr_TargetInstanceID :: "int option"
  rr_Components :: "string list option"

record RestoreOutcome =
  ro_SnapshotID :: string
  ro_InstanceID :: int
  ro_Mode :: string
  ro_CrossInstance :: bool
  ro_Components :: "string list option"
  ro_PreRestoreSnapshotID :: string
  ro_GatewayStatus :: nat
  ro_GatewayRetryAfter :: string
  ro_GatewayResponse :: string

definition selection :: "RestoreSnapshotRequest \<Rightarrow> string list" where
  "selection req = (case rr_Components req of None \<Rightarrow> [] | Some cs \<Rightarrow> cs)"

definition recordRestore :: "string \<Rightarrow> string option \<Rightarrow> string \<Rightarrow> string list \<Rightarrow> (('w snap_net, 'x) oam_db_scheme, unit) state" where
  "recordRestore ident result response components = do {
     _ \<leftarrow> db_stmt (\<lambda>s. update_snapshot ident (\<lambda>n. n\<lparr>sn_restore_count := sn_restore_count n + 1, sn_last_restored := Some (db_now s), sn_last_result := result,
            sn_last_response := Some response, sn_last_components := (if components \<noteq> [] then Some (join '','' components) else None)\<rparr>) s);
     ret () }"

text \<open>The texts of the errors; what a wrapped cause appends to them is left out.\<close>

fun snap_err_text :: "snap_err \<Rightarrow> string" where
  "snap_err_text (GatewayError code body retryAfter) = (if code = 0 then body else ''gateway returned '' @ itoa (int code) @ '': '' @ body)"
| "snap_err_text (SAborted e) = ''aborting restore: could not take the pre-restore safety snapshot: '' @ snap_err_text e"
| "snap_err_text SIdentityUnavailable = ''gateway service identity is unavailable''"
| "snap_err_text ErrSnapshotNotFound = ''snapshot not found''"
| "snap_err_text SInstanceNotFound = ''LoxiLB instance not found''"
| "snap_err_text ErrSnapshotPinned = ''snapshot is pinned; delete requires force=true''"
| "snap_err_text ErrSnapshotTooLarge = ''snapshot exceeds the 16 MB size limit''"
| "snap_err_text ErrSnapshotCorrupted = ''stored snapshot blob failed integrity verification''"
| "snap_err_text ErrInvalidSnapshotDoc = ''invalid snapshot document''"
| "snap_err_text ErrInvalidRestoreRequest = ''invalid restore request''"
| "snap_err_text e = ''internal error''"

definition RestoreModeDryRun :: string where "RestoreModeDryRun = ''dry-run''"
definition RestoreModeCommit :: string where "RestoreModeCommit = ''commit''"

text \<open>The safety snapshot a commit takes first; a dry run takes none.\<close>

definition pre_restore :: "'w snap_env \<Rightarrow> string option \<times> string option \<Rightarrow> string \<Rightarrow> int \<Rightarrow> InstanceSnapshot \<Rightarrow> string \<Rightarrow> ('w, 'x, string) snap_m" where
  "pre_restore E rnd mode target snap actor =
     (if mode = RestoreModeCommit then do {
        now \<leftarrow> time_now;
        check SAborted (TakeSnapshot E rnd target \<lparr>ts_Name = ''pre-restore-'' @ sv_stamp E now,
            ts_Description = ''automatic safety snapshot before restoring '' @ sv_quote E (sn_name snap) @ '' ('' @ sn_id snap @ '')'', ts_TriggerType = ''pre_restore''\<rparr> actor)
          (\<lambda>pre. ret (ok (sn_id pre))) }
      else ret (ok []))"

definition RestoreSnapshot :: "'w snap_env \<Rightarrow> string option \<times> string option \<Rightarrow> string \<Rightarrow> RestoreSnapshotRequest \<Rightarrow> string \<Rightarrow> ('w, 'x, RestoreOutcome) snap_m" where
  "RestoreSnapshot E rnd ident req actor =
     (let mode = (if rr_Mode req = [] then RestoreModeDryRun else rr_Mode req) in
      if mode \<noteq> RestoreModeDryRun \<and> mode \<noteq> RestoreModeCommit then ret (err ErrInvalidRestoreRequest)
      else (case validateRestoreComponents (rr_Components req) of
          Some e \<Rightarrow> ret (err e)
        | None \<Rightarrow> check id (GetSnapshotDocument E ident) (\<lambda>(raw, snap).
            case checkComponentsCovered E raw (selection req) of
              Some e \<Rightarrow> ret (err e)
            | None \<Rightarrow>
                check id (fetch_instance (case rr_TargetInstanceID req of None \<Rightarrow> sn_instance snap | Some t \<Rightarrow> t)) (\<lambda>target.
                check id (pre_restore E rnd mode (m_ID target) snap actor) (\<lambda>pre. do {
                  r \<leftarrow> gateway_Restore E target raw mode (selection req);
                  case r of
                    Inl e \<Rightarrow> do {
                      _ \<leftarrow> (if mode = RestoreModeCommit then recordRestore ident None (''{'' @ dquote # ''error'' @ dquote # '':'' @ sv_quote E (snap_err_text e) @ ''}'') (selection req) else ret ());
                      ret (err e) }
                  | Inr (status, header, body) \<Rightarrow>
                      (let response = (if sv_json_valid E body then body else json_string body) in do {
                         _ \<leftarrow> (if mode = RestoreModeCommit then recordRestore ident (MapGatewayRestoreResult (sv_result E body)) response (selection req) else ret ());
                         ret (ok \<lparr>ro_SnapshotID = ident, ro_InstanceID = m_ID target, ro_Mode = mode, ro_CrossInstance = (m_ID target \<noteq> sn_instance snap),
                            ro_Components = rr_Components req, ro_PreRestoreSnapshotID = pre, ro_GatewayStatus = status,
                            ro_GatewayRetryAfter = header_get ''Retry-After'' header, ro_GatewayResponse = response\<rparr>) }) })))))"

end
