(* ===== verification/Snapshot_Scheduler.thy ===== *)
theory Snapshot_Scheduler
  imports Snapshots
begin

text \<open>
  The snapshot scheduler (\<^verbatim>\<open>internal/services/snapshot_scheduler.go\<close>): one tick takes the due scheduled snapshots, trims every instance to its
  retention count and, once a day, verifies every stored blob.  The ticker that calls it is not modelled.
\<close>

section \<open>A tick\<close>

definition IntegritySweepEvery :: int where "IntegritySweepEvery = 24 * hour"
definition schedulerActor :: string where "schedulerActor = ''snapshot-scheduler''"

definition ScheduleDue :: "InstanceSnapshotSchedule \<Rightarrow> int \<Rightarrow> bool" where
  "ScheduleDue c now =
     (if \<not> sc_enabled c then False
      else (case sc_last_run c of None \<Rightarrow> True | Some t \<Rightarrow> now - t \<ge> sc_interval_hours c * hour))"

definition record_run :: "string \<Rightarrow> int \<Rightarrow> ('w, 'x) oam_db_scheme \<Rightarrow> (db_err + unit) \<times> ('w, 'x) oam_db_scheme" where
  "record_run result instanceID s =
     (if \<not> pg_text 255 result then (err CheckViolation, s)
      else (ok (), s\<lparr>schedules := upd_where (\<lambda>c. sc_instance c = instanceID) (\<lambda>c. c\<lparr>sc_last_run := Some (db_now s), sc_last_result := Some result\<rparr>) (schedules s)\<rparr>))"

text \<open>The due schedules in turn; \<open>rnds\<close> supplies the random bytes of each.\<close>

fun run_due :: "'w snap_env \<Rightarrow> (nat \<Rightarrow> string option \<times> string option) \<Rightarrow> int \<Rightarrow> InstanceSnapshotSchedule list \<Rightarrow> (('w snap_net, 'x) oam_db_scheme, unit) state" where
  "run_due E rnds now [] = ret ()"
| "run_due E rnds now (c # cs) = do {
     r \<leftarrow> TakeSnapshot E (rnds 0) (sc_instance c) \<lparr>ts_Name = ''scheduled-'' @ sv_minute E now, ts_Description = [], ts_TriggerType = ''scheduled''\<rparr> schedulerActor;
     _ \<leftarrow> db_stmt (record_run (case r of Inl e \<Rightarrow> take 255 (snap_err_text e) | Inr _ \<Rightarrow> ''ok'') (sc_instance c));
     run_due E (\<lambda>k. rnds (Suc k)) now cs }"

definition enabled_schedules :: "('w, 'x) oam_db_scheme \<Rightarrow> db_err + InstanceSnapshotSchedule list" where
  "enabled_schedules s = ok (filter sc_enabled (schedules s))"

definition runDueSchedules :: "'w snap_env \<Rightarrow> (nat \<Rightarrow> string option \<times> string option) \<Rightarrow> int \<Rightarrow> (('w snap_net, 'x) oam_db_scheme, unit) state" where
  "runDueSchedules E rnds now = do {
     r \<leftarrow> db_query enabled_schedules;
     case r of Inl e \<Rightarrow> ret () | Inr cs \<Rightarrow> run_due E rnds now (filter (\<lambda>c. ScheduleDue c now) cs) }"

section \<open>Retention\<close>

definition RetentionVictims :: "string list \<Rightarrow> int \<Rightarrow> string list" where
  "RetentionVictims newestFirst retain =
     (let retain = (if retain < 1 then 1 else retain) in
      if int (length newestFirst) \<le> retain then [] else drop (nat retain) newestFirst)"

definition retention_exempt :: "InstanceSnapshot \<Rightarrow> bool" where
  "retention_exempt n \<longleftrightarrow> sn_pinned n \<or> sn_trigger n = ''pre_upgrade''"

definition candidates :: "int \<Rightarrow> InstanceSnapshot list \<Rightarrow> InstanceSnapshot list" where
  "candidates instanceID ns = filter (\<lambda>n. sn_instance n = instanceID \<and> \<not> retention_exempt n) ns"

definition retain_by_instance :: "InstanceSnapshotSchedule list \<Rightarrow> int \<Rightarrow> int option" where
  "retain_by_instance cs = fold (\<lambda>c m. m(sc_instance c \<mapsto> sc_retain_count c)) cs Map.empty"

fun delete_all :: "string list \<Rightarrow> (('w snap_net, 'x) oam_db_scheme, unit) state" where
  "delete_all [] = ret ()"
| "delete_all (i # is) = do { _ \<leftarrow> db_stmt (delete_snapshot i); delete_all is }"

fun trim_instances :: "(int \<Rightarrow> int option) \<Rightarrow> int list \<Rightarrow> (('w snap_net, 'x) oam_db_scheme, unit) state" where
  "trim_instances retains [] = ret ()"
| "trim_instances retains (i # is) = do {
     r \<leftarrow> db_query (\<lambda>s. ok (map sn_id (newest_first (candidates i (snapshots s)))));
     _ \<leftarrow> (case r of
         Inl e \<Rightarrow> ret ()
       | Inr ids \<Rightarrow> delete_all (RetentionVictims ids (case retains i of None \<Rightarrow> 10 | Some k \<Rightarrow> k)));
     trim_instances retains is }"

definition runRetention :: "(('w snap_net, 'x) oam_db_scheme, unit) state" where
  "runRetention = do {
     c \<leftarrow> db_query enabled_schedules;
     r \<leftarrow> db_query (\<lambda>s. ok (remdups (map sn_instance (snapshots s))));
     case r of
       Inl e \<Rightarrow> ret ()
     | Inr ids \<Rightarrow> trim_instances (case c of Inl e \<Rightarrow> Map.empty | Inr cs \<Rightarrow> retain_by_instance cs) ids }"

section \<open>Integrity sweep\<close>

fun sweep :: "'w snap_env \<Rightarrow> string list \<Rightarrow> (('w snap_net, 'x) oam_db_scheme, nat) state" where
  "sweep E [] = ret 0"
| "sweep E (i # is) = do {
     r \<leftarrow> GetSnapshotDocument E i;
     bad \<leftarrow> sweep E is;
     ret (case r of Inl e \<Rightarrow> Suc bad | Inr _ \<Rightarrow> bad) }"

definition runIntegritySweep :: "'w snap_env \<Rightarrow> (('w snap_net, 'x) oam_db_scheme, nat) state" where
  "runIntegritySweep E = do {
     r \<leftarrow> db_query (\<lambda>s. ok (map sn_id (snapshots s)));
     case r of Inl e \<Rightarrow> ret 0 | Inr ids \<Rightarrow> sweep E ids }"

text \<open>\<open>None\<close> is the zero time of a scheduler that has not swept yet; the new value is the result.\<close>

definition RunOnce :: "'w snap_env \<Rightarrow> (nat \<Rightarrow> string option \<times> string option) \<Rightarrow> int option \<Rightarrow> int \<Rightarrow> (('w snap_net, 'x) oam_db_scheme, int option) state" where
  "RunOnce E rnds lastSweep now = do {
     _ \<leftarrow> runDueSchedules E rnds now;
     _ \<leftarrow> runRetention;
     if (case lastSweep of None \<Rightarrow> True | Some t \<Rightarrow> now - t \<ge> IntegritySweepEvery)
     then do { _ \<leftarrow> runIntegritySweep E; ret (Some now) }
     else ret lastSweep }"

section \<open>What retention keeps\<close>

text \<open>How many snapshots of its instance that may be trimmed are newer than a given one.\<close>

definition age_key :: "InstanceSnapshot \<Rightarrow> int \<times> string" where
  "age_key n = (- sn_created n, sn_id n)"

definition newer :: "InstanceSnapshot list \<Rightarrow> InstanceSnapshot \<Rightarrow> nat" where
  "newer ns n = length (filter (\<lambda>m. age_key m < age_key n) (candidates (sn_instance n) ns))"

text \<open>The count an instance is trimmed to: its enabled schedule's, or ten.\<close>

definition retain_count :: "InstanceSnapshotSchedule list \<Rightarrow> int \<Rightarrow> nat" where
  "retain_count cs i = nat (max 1 (case retain_by_instance (filter sc_enabled cs) i of None \<Rightarrow> 10 | Some k \<Rightarrow> k))"

lemma take_sorted_rank:
  fixes key :: "'r \<Rightarrow> 'k :: linorder"
  assumes "distinct (map key xs)" and "x \<in> set xs"
  shows "x \<in> set (take k (sort_key key xs)) \<longleftrightarrow> length (filter (\<lambda>m. key m < key x) xs) < k"
proof -
  let ?ys = "sort_key key xs"
  have dist: "distinct (map key ?ys)" using assms(1) by (simp add: distinct_map)
  have strict: "sorted_wrt (<) (map key ?ys)" using dist by (simp add: strict_sorted_iff)
  from assms(2) obtain i where i: "i < length ?ys" "?ys ! i = x" by (metis in_set_conv_nth set_sort)
  have order: "key (?ys ! j) < key x \<longleftrightarrow> j < i" if "j < length ?ys" for j
  proof -
    have less: "key (?ys ! a) < key (?ys ! b)" if "a < b" "b < length ?ys" for a b
      using sorted_wrt_nth_less [OF strict that(1)] that by simp
    then show ?thesis using i that by (metis less_imp_not_less linorder_neqE_nat)
  qed
  have "length (filter (\<lambda>m. key m < key x) xs) = length (filter (\<lambda>m. key m < key x) ?ys)"
    by (metis filter_sort length_sort)
  also have "\<dots> = card {j. j < length ?ys \<and> j < i}"
    unfolding length_filter_conv_card by (rule arg_cong [where f = card]) (use order in auto)
  also have "{j. j < length ?ys \<and> j < i} = {..<i}" using i(1) by auto
  finally have rank: "length (filter (\<lambda>m. key m < key x) xs) = i" by simp
  have "x \<in> set (take k ?ys) \<longleftrightarrow> i < k"
  proof
    assume "x \<in> set (take k ?ys)"
    then obtain j where "j < k" "j < length ?ys" "?ys ! j = x" by (auto simp: in_set_conv_nth)
    with i dist show "i < k" by (metis distinct_map nth_eq_iff_index_eq)
  next
    assume "i < k"
    with i show "x \<in> set (take k ?ys)" by (auto simp: in_set_conv_nth intro!: exI [of _ i])
  qed
  with rank show ?thesis by simp
qed

lemma candidates_keys: "unique_by sn_id ns \<Longrightarrow> distinct (map age_key (candidates i ns))"
  unfolding candidates_def age_key_def unique_by_def
  by (auto simp: distinct_map inj_on_def)

text \<open>The victims of one instance are the candidates that have at least as many newer ones.\<close>

lemma victims_rank:
  assumes "unique_by sn_id ns" and "n \<in> set ns"
  shows "sn_id n \<in> set (RetentionVictims (map sn_id (newest_first (candidates i ns))) k) \<longleftrightarrow>
    sn_instance n = i \<and> \<not> retention_exempt n \<and> newer ns n \<ge> nat (max 1 k)"
proof -
  let ?ys = "newest_first (candidates i ns)" and ?k = "nat (max 1 k)"
  have victims: "RetentionVictims (map sn_id ?ys) k = map sn_id (drop ?k ?ys)"
    by (auto simp: RetentionVictims_def Let_def drop_map max_def)
  have ys: "?ys = sort_key age_key (candidates i ns)" by (simp add: newest_first_def age_key_def [abs_def])
  have dist: "distinct ?ys"
    using candidates_keys [OF assms(1)] by (simp add: ys distinct_map)
  have sub: "set ?ys = {m \<in> set ns. sn_instance m = i \<and> \<not> retention_exempt m}" unfolding ys by (auto simp: candidates_def)
  have "sn_id n \<in> set (map sn_id (drop ?k ?ys)) \<longleftrightarrow> n \<in> set (drop ?k ?ys)"
    using assms sub by (auto dest: in_set_dropD unique_by_eq)
  also have "\<dots> \<longleftrightarrow> n \<in> set ?ys \<and> n \<notin> set (take ?k ?ys)"
    using dist by (metis append_take_drop_id disjoint_iff distinct_append in_set_dropD set_append Un_iff)
  also have "\<dots> \<longleftrightarrow> sn_instance n = i \<and> \<not> retention_exempt n \<and> newer ns n \<ge> ?k"
    using take_sorted_rank [OF candidates_keys [OF assms(1)], of n i ?k] assms(2) sub unfolding ys
    by (auto simp: newer_def candidates_def)
  finally show ?thesis by (simp add: victims)
qed

text \<open>
  What the loop guarantees from \<open>s0\<close> on: rows only disappear, and none that is exempt or has fewer than \<open>least i\<close> newer ones.
\<close>

definition trimming :: "(int \<Rightarrow> nat) \<Rightarrow> ('w, 'x) oam_db_scheme \<Rightarrow> ('w, 'x) oam_db_scheme \<Rightarrow> bool" where
  "trimming least s0 s \<longleftrightarrow>
     set (snapshots s) \<subseteq> set (snapshots s0) \<and> unique_by sn_id (snapshots s) \<and>
     (\<forall>n \<in> set (snapshots s0). retention_exempt n \<or> newer (snapshots s0) n < least (sn_instance n) \<longrightarrow> n \<in> set (snapshots s))"

interpretation trimming: table_invariant "trimming least s0 :: ('w, 'x) oam_db_scheme \<Rightarrow> bool"
  by (rule table_invariant.intro) (simp add: trimming_def same_tables_oam)

lemma distinct_filter_length:
  assumes "set xs \<subseteq> set ys" and "distinct xs"
  shows "length (filter p xs) \<le> length (filter p ys)"
proof -
  have "length (filter p xs) = card (set (filter p xs))" using assms(2) by (metis distinct_card distinct_filter)
  also have "\<dots> \<le> card (set (filter p ys))" by (rule card_mono) (use assms(1) in auto)
  also have "\<dots> \<le> length (filter p ys)" by (rule card_length)
  finally show ?thesis .
qed

lemma newer_mono:
  assumes "set ns \<subseteq> set ms" and "unique_by sn_id ns"
  shows "newer ns n \<le> newer ms n"
proof -
  have "distinct ns" using assms(2) by (simp add: unique_by_def distinct_map)
  from distinct_filter_length [OF assms(1) this, of "\<lambda>m. age_key m < age_key n \<and> sn_instance m = sn_instance n \<and> \<not> retention_exempt m"]
  show ?thesis by (simp add: newer_def candidates_def conj_commute conj_left_commute)
qed

lemma delete_all_trims:
  assumes "\<And>n. n \<in> set (snapshots s0) \<Longrightarrow> sn_id n \<in> set is \<Longrightarrow> \<not> retention_exempt n \<and> least (sn_instance n) \<le> newer (snapshots s0) n"
  shows "preserves (trimming least s0) (delete_all is)"
  using assms
proof (induction "is")
  case (Cons i "is")
  have "preserves (trimming least s0) (db_stmt (delete_snapshot i))"
  proof (rule trimming.preserves_stmt)
    fix s :: "('a snap_net, 'b) oam_db_scheme"
    assume t: "trimming least s0 s"
    have "sn_id n \<noteq> i" if "n \<in> set (snapshots s0)" "retention_exempt n \<or> newer (snapshots s0) n < least (sn_instance n)" for n
      using Cons.prems [OF that(1)] that(2) by auto
    with t show "trimming least s0 (snd (delete_snapshot i s))"
      by (auto simp: trimming_def delete_snapshot_def unique_by_del_where set_del_where)
  qed
  with Cons show ?case by (auto intro: preserves_bind)
qed (simp add: preserves_return)

lemma trim_instances_trims:
  assumes "\<And>i. least i \<le> nat (max 1 (case retains i of None \<Rightarrow> 10 | Some k \<Rightarrow> k))" and "unique_by sn_id (snapshots s0)"
  shows "preserves (trimming least s0) (trim_instances retains is)"
proof (induction "is")
  case (Cons i "is")
  let ?k = "case retains i of None \<Rightarrow> 10 | Some k \<Rightarrow> k"
  let ?ids = "\<lambda>s. map sn_id (newest_first (candidates i (snapshots s)))"
  have step: "hoare (\<lambda>s. trimming least s0 s \<and> ids = ?ids s) (delete_all (RetentionVictims ids ?k)) (\<lambda>_. trimming least s0)" for ids
  proof (rule hoareI)
    fix s r s'
    assume s: "trimming least s0 s \<and> ids = ?ids s" and run: "run_state (delete_all (RetentionVictims ids ?k)) s = (r, s')"
    have "\<not> retention_exempt n \<and> least (sn_instance n) \<le> newer (snapshots s0) n"
      if n: "n \<in> set (snapshots s0)" and victim: "sn_id n \<in> set (RetentionVictims ids ?k)" for n
    proof -
      have uniq: "unique_by sn_id (snapshots s)" and sub: "set (snapshots s) \<subseteq> set (snapshots s0)" using s by (auto simp: trimming_def)
      have "sn_id n \<in> set (?ids s)" using victim s by (auto simp: RetentionVictims_def Let_def split: if_splits dest: in_set_dropD)
      then obtain m where "m \<in> set (snapshots s)" and "sn_id m = sn_id n" by (auto simp: newest_first_def candidates_def)
      with sub n assms(2) have "n \<in> set (snapshots s)" by (auto dest: unique_by_eq)
      with victims_rank [OF uniq this, of i ?k] victim s have "sn_instance n = i" and "\<not> retention_exempt n" and "nat (max 1 ?k) \<le> newer (snapshots s) n"
        by simp_all
      with assms(1) [of i] newer_mono [OF sub uniq, of n] show ?thesis by (auto intro: order_trans)
    qed
    from hoareD [OF delete_all_trims [OF this] _ run] s show "trimming least s0 s'" by blast
  qed
  show ?case
    unfolding trim_instances.simps
  proof (rule hoare_bind [OF trimming.hoare_query], rule hoare_bind [where R = "\<lambda>_. trimming least s0"], goal_cases)
    case (1 r)
    show ?case by (cases r) (auto intro!: hoare_return hoare_weaken [OF step])
  qed (rule Cons.IH)
qed (simp add: preserves_return)

lemma runRetention_trims:
  assumes "\<And>i. least i \<le> min 10 (retain_count (schedules s0) i)" and "unique_by sn_id (snapshots s0)"
  shows "hoare (\<lambda>s. trimming least s0 s \<and> schedules s = schedules s0) runRetention (\<lambda>_. trimming least s0)"
proof -
  let ?I = "\<lambda>s :: ('a snap_net, 'b) oam_db_scheme. trimming least s0 s \<and> schedules s = schedules s0"
  have inv: "table_invariant ?I"
    by (rule table_invariant.intro) (simp add: trimming_def same_tables_oam)
  have few: "least i \<le> nat (max 1 (case (case c of Inl e \<Rightarrow> Map.empty | Inr cs \<Rightarrow> retain_by_instance cs) i of None \<Rightarrow> 10 | Some k \<Rightarrow> k))"
    if "c = err DbFail \<or> c = ok (filter sc_enabled (schedules s0))" for c :: "db_err + InstanceSnapshotSchedule list" and i
    using that assms(1) [of i] by (auto simp: retain_count_def)
  show ?thesis
    unfolding runRetention_def
  proof (rule hoare_bind [OF table_invariant.hoare_query [OF inv]], goal_cases)
    case (1 c)
    show ?case
    proof (cases "c = err DbFail \<or> c = ok (filter sc_enabled (schedules s0))")
      case True
      have "hoare (trimming least s0) (do {
          r \<leftarrow> db_query (\<lambda>s. ok (remdups (map sn_instance (snapshots s))));
          case r of Inl e \<Rightarrow> ret () | Inr ids \<Rightarrow> trim_instances (case c of Inl e \<Rightarrow> Map.empty | Inr cs \<Rightarrow> retain_by_instance cs) ids }) (\<lambda>_. trimming least s0)"
        by (intro hoare_rules trimming.preserves_query trim_instances_trims [OF few [OF True] assms(2)])
      then show ?thesis by (rule hoare_weaken) auto
    next
      case False
      then show ?thesis by (auto simp: hoare_def enabled_schedules_def)
    qed
  qed
qed

text \<open>Without failures retention removes exactly the rows past the count.\<close>

lemma delete_all_calm:
  "script s = [] \<Longrightarrow> run_state (delete_all is) s = ((), s\<lparr>snapshots := del_where (\<lambda>n. sn_id n \<in> set is) (snapshots s)\<rparr>)"
proof (induction "is" arbitrary: s)
  case Nil
  then show ?case by (simp add: del_where_def)
next
  case (Cons i "is")
  then show ?case by (simp add: delete_snapshot_def del_where_def conj_commute)
qed

definition too_old :: "(int \<Rightarrow> int option) \<Rightarrow> InstanceSnapshot list \<Rightarrow> InstanceSnapshot \<Rightarrow> bool" where
  "too_old retains ns n \<longleftrightarrow> \<not> retention_exempt n \<and> nat (max 1 (case retains (sn_instance n) of None \<Rightarrow> 10 | Some k \<Rightarrow> k)) \<le> newer ns n"

lemma trim_instances_calm:
  assumes "script s = []" and "snapshots s = filter (\<lambda>n. \<not> (sn_instance n \<in> P \<and> too_old retains ns n)) ns"
    and "distinct is" and "set is \<inter> P = {}" and "unique_by sn_id ns"
  shows "run_state (trim_instances retains is) s = ((), s\<lparr>snapshots := filter (\<lambda>n. \<not> (sn_instance n \<in> P \<union> set is \<and> too_old retains ns n)) ns\<rparr>)"
  using assms
proof (induction "is" arbitrary: s P)
  case Nil
  then show ?case by simp
next
  case (Cons i "is")
  let ?k = "case retains i of None \<Rightarrow> 10 | Some k \<Rightarrow> k"
  let ?s1 = "s\<lparr>snapshots := filter (\<lambda>n. \<not> (sn_instance n \<in> insert i P \<and> too_old retains ns n)) ns\<rparr>"
  have cand: "candidates i (snapshots s) = candidates i ns"
    using Cons.prems(2,4) by (auto simp: candidates_def intro!: filter_cong)
  have gone: "del_where (\<lambda>n. sn_id n \<in> set (RetentionVictims (map sn_id (newest_first (candidates i ns))) ?k)) (snapshots s) =
      filter (\<lambda>n. \<not> (sn_instance n \<in> insert i P \<and> too_old retains ns n)) ns"
    unfolding del_where_def Cons.prems(2) filter_filter
    by (rule filter_cong) (use victims_rank [OF Cons.prems(5), of _ i ?k] in \<open>auto simp: too_old_def\<close>)
  have "run_state (trim_instances retains is) ?s1 = ((), ?s1\<lparr>snapshots := filter (\<lambda>n. \<not> (sn_instance n \<in> insert i P \<union> set is \<and> too_old retains ns n)) ns\<rparr>)"
    by (rule Cons.IH) (use Cons.prems in auto)
  with Cons.prems(1) show ?case by (simp add: cand delete_all_calm gone)
qed

lemma runRetention_calm:
  assumes "script s = []" and "unique_by sn_id (snapshots s)"
  shows "snapshots (snd (run_state runRetention s)) =
    filter (\<lambda>n. retention_exempt n \<or> newer (snapshots s) n < retain_count (schedules s) (sn_instance n)) (snapshots s)"
proof -
  let ?retains = "retain_by_instance (filter sc_enabled (schedules s))"
  have "run_state (trim_instances ?retains (remdups (map sn_instance (snapshots s)))) s =
      ((), s\<lparr>snapshots := filter (\<lambda>n. \<not> (sn_instance n \<in> {} \<union> set (remdups (map sn_instance (snapshots s))) \<and> too_old ?retains (snapshots s) n)) (snapshots s)\<rparr>)"
    by (rule trim_instances_calm) (use assms in auto)
  then have "snapshots (snd (run_state runRetention s)) = filter (\<lambda>n. \<not> (sn_instance n \<in> sn_instance ` set (snapshots s) \<and> too_old ?retains (snapshots s) n)) (snapshots s)"
    using assms(1) by (simp add: runRetention_def enabled_schedules_def)
  also have "\<dots> = filter (\<lambda>n. retention_exempt n \<or> newer (snapshots s) n < retain_count (schedules s) (sn_instance n)) (snapshots s)"
    by (rule filter_cong) (auto simp: too_old_def retain_count_def not_le)
  finally show ?thesis .
qed


section \<open>Evaluation\<close>

definition demo_snap :: "string \<Rightarrow> int \<Rightarrow> bool \<Rightarrow> InstanceSnapshot" where
  "demo_snap ident created pinned = \<lparr>sn_id = ident, sn_instance = 1, sn_name = ''n'', sn_description = [], sn_trigger = ''scheduled'', sn_schema_version = ''1'',
     sn_gateway_version = ''g'', sn_size = 0, sn_checksum = ''sha256:'', sn_stored_checksum = ''sha256:'', sn_blob = [], sn_encrypted = False, sn_pinned = pinned,
     sn_checksum_ok = True, sn_created_by = ''u'', sn_created = created, sn_restore_count = 0, sn_last_restored = None, sn_last_result = None,
     sn_last_response = None, sn_last_components = None\<rparr>"

definition demo_schedule :: "bool \<Rightarrow> int \<Rightarrow> InstanceSnapshotSchedule" where
  "demo_schedule enabled retain = \<lparr>sc_instance = 1, sc_enabled = enabled, sc_interval_hours = 24, sc_retain_count = retain, sc_last_run = None, sc_last_result = None\<rparr>"

definition demo_snap_db :: "unit snap_net oam_db" where
  "demo_snap_db = \<lparr>clock = 0, tx_start = None, script = [], seqs = (\<lambda>_. 5), outside = \<lparr>calls = [], gateways = ()\<rparr>, users = [], instances = [demo_row],
     api_tokens = [], login_attempts = [], system_settings = [], system_config = [], alerts = [], acknowledgments = [],
     snapshots = [demo_snap ''a'' 1 True, demo_snap ''b'' 2 False, demo_snap ''c'' 3 False], schedules = [demo_schedule True 1]\<rparr>"


section \<open>Limits\<close>

text \<open>The count of a schedule that is switched off is not used: its instance is trimmed to ten.\<close>

lemma disabled_schedule_count_ignored: "retain_count [demo_schedule False 50] 1 = 10"
  by (simp add: retain_count_def retain_by_instance_def demo_schedule_def)

text \<open>Cutting a name or a result by bytes can leave a text the database refuses.\<close>

lemma cut_splits_rune:
  assumes "is_ascii w" and "length w = 127"
  shows "valid_utf8 (w @ [CHR 0xC3, CHR 0xA9]) \<and> \<not> pg_text 128 (take 128 (w @ [CHR 0xC3, CHR 0xA9]))"
proof -
  have w: "list_all (\<lambda>(i, r, w). \<not> (r = rune_error \<and> w = 1)) (range_runes i w)" for i
    using assms(1) by (induction w arbitrary: i) (auto simp: is_ascii_def rune_error_def)
  have one: "range_runes i [CHR 0xC3] = [(i, rune_error, 1)]" for i
    by (simp add: range_runes.simps byte_def in_range_def decode_rune_def Let_def)
  have two: "range_runes i [CHR 0xC3, CHR 0xA9] = [(i, 233, 2)]" for i
    by (simp add: range_runes.simps byte_def in_range_def decode_rune_def second_byte_ok_def Let_def)
  show ?thesis using w assms by (simp add: pg_text_def valid_utf8_def range_runes_append_ascii one two rune_error_def)
qed

end
