(* ===== verification/Snapshot_Safety.thy ===== *)
theory Snapshot_Safety
  imports Snapshot_Scheduler
begin

text \<open>
  What the snapshot service and its scheduler guarantee together: stored documents never change, only verified documents reach a gateway, and a commit is
  preceded by a stored safety snapshot of its target.
\<close>

section \<open>Invariants of the snapshot tables\<close>

text \<open>The part of a row that is written once, when the snapshot is stored.\<close>

definition doc_of :: "InstanceSnapshot \<Rightarrow> string \<times> int \<times> string \<times> string \<times> bool \<times> string" where
  "doc_of n = (sn_id n, sn_instance n, sn_trigger n, sn_blob n, sn_encrypted n, sn_stored_checksum n)"

definition keeps_doc :: "(InstanceSnapshot \<Rightarrow> InstanceSnapshot) \<Rightarrow> bool" where
  "keeps_doc f \<longleftrightarrow> (\<forall>n. doc_of (f n) = doc_of n)"

text \<open>
  The interface between the tables and the operations: an invariant that survives inserting a row with a \<open>fresh\<close> id, changes that leave the document
  alone, deletions and schedule writes survives every operation whose random bytes give fresh ids.
\<close>

locale snapshot_tables = table_invariant I
  for I :: "('w snap_net, 'x) oam_db_scheme \<Rightarrow> bool" +
  fixes fresh :: "string \<Rightarrow> bool"
  assumes insert_keeps: "I s \<Longrightarrow> fresh (sn_id n) \<Longrightarrow> I (snd (insert_snapshot n s))"
    and update_keeps: "I s \<Longrightarrow> keeps_doc f \<Longrightarrow> I (snd (update_snapshot ident f s))"
    and delete_keeps: "I s \<Longrightarrow> I (snd (delete_snapshot ident s))"
    and schedule_keeps: "I s \<Longrightarrow> I (snd (upsert_schedule i b h k s))"
    and record_keeps: "I s \<Longrightarrow> I (snd (record_run t i s))"
begin

lemma preserves_gateway_send: "preserves I (gateway_send E q)"
proof (rule hoareI)
  fix s r s'
  assume "I s" and "run_state (gateway_send E q) s = (r, s')"
  moreover from this(2) have "same_tables s s'" by (auto simp: gateway_send_def same_tables_def split: prod.splits)
  ultimately show "I s'" by (metis same_tables)
qed

lemma preserves_FetchSnapshot: "preserves I (FetchSnapshot E i)"
  unfolding FetchSnapshot_def by (intro hoare_rules preserves_gateway_send)

lemma preserves_gateway_Restore: "preserves I (gateway_Restore E i doc mode cs)"
  unfolding gateway_Restore_def by (intro hoare_rules preserves_gateway_send)

lemma preserves_fetch_instance: "preserves I (fetch_instance ident)"
  unfolding fetch_instance_def FetchLoxiLBInstanceByID_def RetryOperation_once by (intro hoare_rules preserves_query)

lemma preserves_GetSnapshot: "preserves I (GetSnapshot ident)"
  unfolding GetSnapshot_def by (intro hoare_rules preserves_query)

lemma preserves_storeSnapshot:
  assumes "\<And>ident. newUUID (fst rnd) = Some ident \<Longrightarrow> fresh ident"
  shows "preserves I (storeSnapshot E rnd i name d t env raw who)"
  unfolding storeSnapshot_def
  by (intro hoare_rules preserves_stmt preserves_GetSnapshot insert_keeps) (use assms in auto)

lemma preserves_TakeSnapshot:
  assumes "\<And>ident. newUUID (fst rnd) = Some ident \<Longrightarrow> fresh ident"
  shows "preserves I (TakeSnapshot E rnd i req who)"
  unfolding TakeSnapshot_def
  by (intro hoare_rules preserves_fetch_instance preserves_FetchSnapshot preserves_time_now preserves_storeSnapshot assms)

lemma preserves_ImportSnapshot:
  assumes "\<And>ident. newUUID (fst rnd) = Some ident \<Longrightarrow> fresh ident"
  shows "preserves I (ImportSnapshot E rnd i name d raw who)"
  unfolding ImportSnapshot_def
  by (intro hoare_rules preserves_fetch_instance preserves_time_now preserves_storeSnapshot assms)

lemma preserves_markChecksum: "preserves I (markChecksum ident good)"
  unfolding markChecksum_def
  by (intro hoare_rules preserves_stmt update_keeps) (auto simp: keeps_doc_def doc_of_def)

lemma preserves_GetSnapshotDocument: "preserves I (GetSnapshotDocument E ident)"
  unfolding GetSnapshotDocument_def by (intro hoare_rules preserves_query preserves_markChecksum)

lemma preserves_UpdateSnapshot: "preserves I (UpdateSnapshot ident req)"
  unfolding UpdateSnapshot_def
  by (intro hoare_rules preserves_GetSnapshot preserves_stmt update_keeps) (auto simp: keeps_doc_def doc_of_def)

lemma preserves_DeleteSnapshot: "preserves I (DeleteSnapshot ident force)"
  unfolding DeleteSnapshot_def by (intro hoare_rules preserves_GetSnapshot preserves_stmt delete_keeps)

lemma preserves_recordRestore: "preserves I (recordRestore ident result response cs)"
  unfolding recordRestore_def
  by (intro hoare_rules preserves_stmt update_keeps) (auto simp: keeps_doc_def doc_of_def)

lemma preserves_pre_restore:
  assumes "\<And>ident. newUUID (fst rnd) = Some ident \<Longrightarrow> fresh ident"
  shows "preserves I (pre_restore E rnd mode t snap actor)"
  unfolding pre_restore_def by (intro hoare_rules preserves_time_now preserves_TakeSnapshot assms)

lemma preserves_RestoreSnapshot:
  assumes "\<And>ident. newUUID (fst rnd) = Some ident \<Longrightarrow> fresh ident"
  shows "preserves I (RestoreSnapshot E rnd ident req actor)"
  unfolding RestoreSnapshot_def
  by (intro hoare_rules preserves_GetSnapshotDocument preserves_fetch_instance preserves_pre_restore preserves_gateway_Restore preserves_recordRestore assms)

lemma preserves_GetSchedule: "preserves I (GetSchedule i)"
  unfolding GetSchedule_def by (intro hoare_rules preserves_fetch_instance preserves_query)

lemma preserves_PutSchedule: "preserves I (PutSchedule i req)"
  unfolding PutSchedule_def by (intro hoare_rules preserves_fetch_instance preserves_stmt schedule_keeps preserves_GetSchedule)

lemma preserves_run_due:
  assumes "\<And>k ident. newUUID (fst (rnds k)) = Some ident \<Longrightarrow> fresh ident"
  shows "preserves I (run_due E rnds now cs)"
  using assms
  by (induction E rnds now cs rule: run_due.induct) (auto intro!: hoare_rules preserves_TakeSnapshot preserves_stmt record_keeps)

lemma preserves_runDueSchedules:
  assumes "\<And>k ident. newUUID (fst (rnds k)) = Some ident \<Longrightarrow> fresh ident"
  shows "preserves I (runDueSchedules E rnds now)"
  unfolding runDueSchedules_def by (intro hoare_rules preserves_query preserves_run_due assms)

lemma preserves_delete_all: "preserves I (delete_all is)"
  by (induction "is") (auto intro!: hoare_rules preserves_stmt delete_keeps)

lemma preserves_trim_instances: "preserves I (trim_instances retains is)"
  by (induction "is") (auto intro!: hoare_rules preserves_query preserves_delete_all)

lemma preserves_runRetention: "preserves I runRetention"
  unfolding runRetention_def by (intro hoare_rules preserves_query preserves_trim_instances)

lemma preserves_sweep: "preserves I (sweep E is)"
  by (induction "is") (auto intro!: hoare_rules preserves_GetSnapshotDocument)

lemma preserves_RunOnce:
  assumes "\<And>k ident. newUUID (fst (rnds k)) = Some ident \<Longrightarrow> fresh ident"
  shows "preserves I (RunOnce E rnds lastSweep now)"
  unfolding RunOnce_def runIntegritySweep_def
  by (intro hoare_rules preserves_runDueSchedules preserves_runRetention preserves_query preserves_sweep assms)

end

section \<open>The invariants\<close>

text \<open>A stored document stays what it is as long as its id is not given out again.\<close>

definition holds_doc :: "string \<times> int \<times> string \<times> string \<times> bool \<times> string \<Rightarrow> ('w, 'x) oam_db_scheme \<Rightarrow> bool" where
  "holds_doc d s \<longleftrightarrow> (\<forall>n \<in> set (snapshots s). sn_id n = fst d \<longrightarrow> doc_of n = d)"

lemma doc_id: "doc_of n = doc_of m \<Longrightarrow> sn_id n = sn_id m"
  by (simp add: doc_of_def)

interpretation kept: snapshot_tables "holds_doc d :: ('w snap_net, 'x) oam_db_scheme \<Rightarrow> bool" "\<lambda>i. i \<noteq> fst d"
proof
  fix s s' :: "('w snap_net, 'x) oam_db_scheme" assume "same_tables s s'" and "holds_doc d s"
  then show "holds_doc d s'" by (simp add: holds_doc_def same_tables_oam)
next
  fix s :: "('w snap_net, 'x) oam_db_scheme" and n :: InstanceSnapshot assume "holds_doc d s" and "sn_id n \<noteq> fst d"
  then show "holds_doc d (snd (insert_snapshot n s))" by (auto simp: holds_doc_def insert_snapshot_def doc_of_def)
next
  fix s :: "('w snap_net, 'x) oam_db_scheme" and f ident assume "holds_doc d s" and "keeps_doc f"
  then show "holds_doc d (snd (update_snapshot ident f s))"
    by (auto simp: holds_doc_def update_snapshot_def keeps_doc_def set_upd_where dest: doc_id [THEN sym]) (metis doc_id)+
qed (auto simp: holds_doc_def delete_snapshot_def upsert_schedule_def record_run_def set_del_where)

text \<open>The registry's references and the uniqueness of snapshot ids.\<close>

definition snapshots_ok :: "(string \<Rightarrow> string) \<Rightarrow> ('w, 'x) oam_db_scheme \<Rightarrow> bool" where
  "snapshots_ok L s \<longleftrightarrow> registry_ok L s \<and> unique_by sn_id (snapshots s) \<and> unique_by sc_instance (schedules s)"

interpretation stored: snapshot_tables "snapshots_ok L :: ('w snap_net, 'x) oam_db_scheme \<Rightarrow> bool" "\<lambda>i. True"
proof
  fix s s' :: "('w snap_net, 'x) oam_db_scheme" assume "same_tables s s'" and "snapshots_ok L s"
  then show "snapshots_ok L s'" by (auto simp: snapshots_ok_def same_tables_oam intro: registry_ok_tables)
next
  fix s :: "('w snap_net, 'x) oam_db_scheme" and n :: InstanceSnapshot assume "snapshots_ok L s"
  then show "snapshots_ok L (snd (insert_snapshot n s))"
    by (auto simp: snapshots_ok_def insert_snapshot_def registry_ok_def refs_ok_def unique_by_append1)
next
  fix s :: "('w snap_net, 'x) oam_db_scheme" and f ident assume "snapshots_ok L s" and f: "keeps_doc f"
  have "sn_id (f n) = sn_id n" and "sn_instance (f n) = sn_instance n" for n using f by (auto simp: keeps_doc_def doc_of_def)
  with \<open>snapshots_ok L s\<close> show "snapshots_ok L (snd (update_snapshot ident f s))"
    by (auto simp: snapshots_ok_def update_snapshot_def registry_ok_def refs_ok_def list_all_iff set_upd_where unique_by_upd_where)
next
  fix s :: "('w snap_net, 'x) oam_db_scheme" and ident assume "snapshots_ok L s"
  then show "snapshots_ok L (snd (delete_snapshot ident s))"
    by (auto simp: snapshots_ok_def delete_snapshot_def registry_ok_def refs_ok_def list_all_iff set_del_where unique_by_del_where)
next
  fix s :: "('w snap_net, 'x) oam_db_scheme" and i b h k assume "snapshots_ok L s"
  then show "snapshots_ok L (snd (upsert_schedule i b h k s))"
    by (auto simp: snapshots_ok_def upsert_schedule_def registry_ok_def refs_ok_def list_all_iff set_upd_where unique_by_upd_where unique_by_append1)
next
  fix s :: "('w snap_net, 'x) oam_db_scheme" and t i assume "snapshots_ok L s"
  then show "snapshots_ok L (snd (record_run t i s))"
    by (auto simp: snapshots_ok_def record_run_def registry_ok_def refs_ok_def list_all_iff set_upd_where unique_by_upd_where)
qed

section \<open>Whole runs\<close>

datatype snap_call = STake "string option \<times> string option" int TakeSnapshotRequest string
  | SImport "string option \<times> string option" int string string string string
  | SGet string | SDocument string | SList int int int | SUpdate string UpdateSnapshotRequest | SDelete string bool
  | SRestore "string option \<times> string option" string RestoreSnapshotRequest string
  | SGetSchedule int | SPutSchedule int SnapshotScheduleRequest
  | STick "nat \<Rightarrow> string option \<times> string option" "int option" int

fun run_snap :: "'w snap_env \<Rightarrow> snap_call \<Rightarrow> (('w snap_net, 'x) oam_db_scheme, unit) state" where
  "run_snap E (STake rnd i req who) = do { _ \<leftarrow> TakeSnapshot E rnd i req who; ret () }"
| "run_snap E (SImport rnd i name d raw who) = do { _ \<leftarrow> ImportSnapshot E rnd i name d raw who; ret () }"
| "run_snap E (SGet ident) = do { _ \<leftarrow> GetSnapshot ident; ret () }"
| "run_snap E (SDocument ident) = do { _ \<leftarrow> GetSnapshotDocument E ident; ret () }"
| "run_snap E (SList i page limit) = do { _ \<leftarrow> ListSnapshots i page limit; ret () }"
| "run_snap E (SUpdate ident req) = do { _ \<leftarrow> UpdateSnapshot ident req; ret () }"
| "run_snap E (SDelete ident force) = do { _ \<leftarrow> DeleteSnapshot ident force; ret () }"
| "run_snap E (SRestore rnd ident req who) = do { _ \<leftarrow> RestoreSnapshot E rnd ident req who; ret () }"
| "run_snap E (SGetSchedule i) = do { _ \<leftarrow> GetSchedule i; ret () }"
| "run_snap E (SPutSchedule i req) = do { _ \<leftarrow> PutSchedule i req; ret () }"
| "run_snap E (STick rnds lastSweep now) = do { _ \<leftarrow> RunOnce E rnds lastSweep now; ret () }"

fun run_snaps :: "'w snap_env \<Rightarrow> snap_call list \<Rightarrow> (('w snap_net, 'x) oam_db_scheme, unit) state" where
  "run_snaps E [] = ret ()"
| "run_snaps E (c # cs) = do { _ \<leftarrow> run_snap E c; run_snaps E cs }"

text \<open>The ids a call may give out.\<close>

fun gives_out :: "snap_call \<Rightarrow> string \<Rightarrow> bool" where
  "gives_out (STake rnd i req who) ident \<longleftrightarrow> newUUID (fst rnd) = Some ident"
| "gives_out (SImport rnd i name d raw who) ident \<longleftrightarrow> newUUID (fst rnd) = Some ident"
| "gives_out (SRestore rnd i req who) ident \<longleftrightarrow> newUUID (fst rnd) = Some ident"
| "gives_out (STick rnds lastSweep now) ident \<longleftrightarrow> (\<exists>k. newUUID (fst (rnds k)) = Some ident)"
| "gives_out c ident \<longleftrightarrow> False"

context snapshot_tables
begin

lemma preserves_run_snap:
  assumes "\<And>ident. gives_out c ident \<Longrightarrow> fresh ident"
  shows "preserves I (run_snap E c)"
  using assms
  by (cases c)
    (auto simp: ListSnapshots_def Let_def intro!: hoare_rules preserves_TakeSnapshot preserves_ImportSnapshot preserves_GetSnapshot preserves_GetSnapshotDocument
      preserves_query preserves_UpdateSnapshot preserves_DeleteSnapshot preserves_RestoreSnapshot preserves_GetSchedule preserves_PutSchedule preserves_RunOnce)

lemma preserves_run_snaps:
  assumes "\<And>c ident. c \<in> set cs \<Longrightarrow> gives_out c ident \<Longrightarrow> fresh ident"
  shows "preserves I (run_snaps E cs)"
  using assms by (induction cs) (auto intro!: preserves_bind preserves_return preserves_run_snap)

end

lemma snapshot_calls_keep_registry: "snapshots_ok L s \<Longrightarrow> snapshots_ok L (snd (run_state (run_snaps E cs) s))"
  by (rule preservesD [OF stored.preserves_run_snaps]) simp_all

section \<open>Documents come back\<close>

text \<open>What the code relies on of compression and authenticated encryption.\<close>

definition codec_ok :: "'w snap_env \<Rightarrow> bool" where
  "codec_ok E \<longleftrightarrow> (\<forall>raw. sv_gunzip E (sv_gzip E raw) = Some raw) \<and> (\<forall>key nonce p. sv_open E key nonce (sv_seal E key nonce p) = Some p)"

lemma open_seal:
  assumes "codec_ok E" and "SealBlob E rnd raw = ok (blob, encrypted)" and "length raw \<le> MaxSnapshotBytes"
    and "\<And>nonce. rnd = Some nonce \<Longrightarrow> length nonce = gcm_NonceSize"
  shows "OpenBlob E blob encrypted = ok raw"
  using assms by (auto simp: SealBlob_def OpenBlob_def unpack_def codec_ok_def Let_def split: option.splits)

lemma GetSnapshot_ok:
  assumes "run_state (GetSnapshot ident) s = (ok n, s')"
  shows "same_tables s s' \<and> sn_id n = ident"
proof -
  obtain q s1 where q: "run_state (db_query (select_snapshot ident)) s = (q, s1)" by force
  with assms obtain m where "q = ok m" and "n = scanSnapshotMeta True m" and "s1 = s'"
    by (cases q) (auto simp: GetSnapshot_def run_check)
  with db_query_run [OF q] show ?thesis
    by (auto simp: select_snapshot_def scanSnapshotMeta_def Let_def split: option.splits dest!: find_row_Some)
qed

lemma storeSnapshot_ok:
  assumes "run_state (storeSnapshot E rnd i name d t env raw who) s = (ok snap, s')"
  obtains blob encrypted where "SealBlob E (snd rnd) raw = ok (blob, encrypted)" and "newUUID (fst rnd) = Some (sn_id snap)"
    and "sn_id snap \<notin> set (map sn_id (snapshots s))"
    and "\<exists>n. snapshots s' = snapshots s @ [n] \<and> doc_of n = (sn_id snap, i, t, blob, encrypted, RawChecksum E raw)"
proof -
  from assms obtain ident blob encrypted where u: "newUUID (fst rnd) = Some ident" and b: "SealBlob E (snd rnd) raw = ok (blob, encrypted)"
    by (auto simp: storeSnapshot_def split: option.splits sum.splits)
  let ?n = "\<lparr>sn_id = ident, sn_instance = i, sn_name = (if length name > 128 then take 128 name else name), sn_description = d,
              sn_trigger = t, sn_schema_version = se_SchemaVersion env, sn_gateway_version = se_GatewayVersion env, sn_size = int (length raw),
              sn_checksum = se_Checksum env, sn_stored_checksum = RawChecksum E raw, sn_blob = blob, sn_encrypted = encrypted, sn_pinned = False,
              sn_checksum_ok = True, sn_created_by = who, sn_created = 0, sn_restore_count = 0, sn_last_restored = None, sn_last_result = None,
              sn_last_response = None, sn_last_components = None\<rparr>"
  obtain q s1 where q: "run_state (db_stmt (insert_snapshot ?n)) s = (q, s1)" by force
  with assms u b have "q = ok ()" and get: "run_state (GetSnapshot ident) s1 = (ok snap, s')"
    by (cases q; auto simp: storeSnapshot_def run_check)+
  with q obtain s0 where "same_tables s s0" and ins: "insert_snapshot ?n s0 = (ok (), s1)" by (auto elim: db_stmt_ok)
  moreover from GetSnapshot_ok [OF get] have "snapshots s' = snapshots s1" and ident: "sn_id snap = ident" by (auto simp: same_tables_oam)
  ultimately show thesis
    using u by (intro that [OF b]) (auto simp: insert_snapshot_def doc_of_def same_tables_oam split: if_splits)
qed

lemma ImportSnapshot_ok:
  assumes "run_state (ImportSnapshot E rnd i name d raw who) s = (ok snap, s')"
  obtains blob encrypted n where "length raw \<le> MaxSnapshotBytes" and "SealBlob E (snd rnd) raw = ok (blob, encrypted)"
    and "n \<in> set (snapshots s')" and "sn_id n = sn_id snap" and "sn_blob n = blob" and "sn_encrypted n = encrypted" and "sn_stored_checksum n = RawChecksum E raw"
    and "holds_doc (doc_of n) s'"
proof -
  obtain f s1 where f: "run_state (fetch_instance i) s = (f, s1)" by force
  have size: "length raw \<le> MaxSnapshotBytes" using assms by (auto simp: ImportSnapshot_def split: if_splits)
  from f size assms obtain v where v: "f = ok v" by (cases f) (auto simp: ImportSnapshot_def run_check)
  from f v size assms obtain env where env: "parseSnapshotEnvelope E raw = ok env"
    by (cases "parseSnapshotEnvelope E raw") (auto simp: ImportSnapshot_def run_check)
  from f v size env assms obtain nm where store: "run_state (storeSnapshot E rnd (m_ID v) nm d ''manual'' env raw who) s1 = (ok snap, s')"
    by (auto simp: ImportSnapshot_def run_check run_time_now)
  from store show thesis
  proof (rule storeSnapshot_ok)
    fix blob encrypted
    assume b: "SealBlob E (snd rnd) raw = ok (blob, encrypted)" and new: "sn_id snap \<notin> set (map sn_id (snapshots s1))"
      and "\<exists>n. snapshots s' = snapshots s1 @ [n] \<and> doc_of n = (sn_id snap, m_ID v, ''manual'', blob, encrypted, RawChecksum E raw)"
    then obtain n where n: "snapshots s' = snapshots s1 @ [n]" and doc: "doc_of n = (sn_id snap, m_ID v, ''manual'', blob, encrypted, RawChecksum E raw)" by blast
    have "sn_id k \<noteq> sn_id snap" if "k \<in> set (snapshots s1)" for k :: InstanceSnapshot using new that by (auto simp: image_iff)
    with n doc have "k = n" if "k \<in> set (snapshots s')" and "sn_id k = sn_id n" for k :: InstanceSnapshot
      using that by (fastforce simp: doc_of_def)
    then have "holds_doc (doc_of n) s'" by (auto simp: holds_doc_def doc_of_def)
    with n doc show thesis by (intro that [OF size b, of n]) (auto simp: doc_of_def)
  qed
qed

lemma GetSnapshotDocument_calm:
  assumes "script s = []" and "find_row (\<lambda>n. sn_id n = ident) (snapshots s) = Some n"
    and "OpenBlob E (sn_blob n) (sn_encrypted n) = ok raw" and "sn_stored_checksum n = RawChecksum E raw"
  shows "\<exists>m s'. run_state (GetSnapshotDocument E ident) s = (ok (raw, m), s') \<and> sn_stored_checksum m = RawChecksum E raw"
  using assms
  by (cases "sn_checksum_ok n")
    (auto simp: GetSnapshotDocument_def run_check select_snapshot_def scanSnapshotMeta_def Let_def markChecksum_def split: prod.splits)

text \<open>
  C38. A stored document comes back byte for byte.  After an upload that was answered with its metadata, and any further snapshots taken, imported, renamed,
  pinned, deleted or restored, schedule changes and scheduler ticks with whatever failures of the database and the gateways, reading the snapshot returns
  exactly the uploaded bytes as long as it has not been deleted and the database answers.  Compression and encryption are assumed to be inverted by
  their counterparts and the random source not to repeat the snapshot's id.
\<close>

theorem snapshot_document_roundtrip:
  assumes "codec_ok E" and "run_state (ImportSnapshot E rnd i name d raw who) s = (ok snap, s1)"
    and "\<And>nonce. snd rnd = Some nonce \<Longrightarrow> length nonce = gcm_NonceSize"
    and "run_state (run_snaps E cs) s1 = (u, s2)" and "\<And>c. c \<in> set cs \<Longrightarrow> \<not> gives_out c (sn_id snap)"
    and "sn_id snap \<in> set (map sn_id (snapshots s2))" and "script s2 = []"
  shows "\<exists>m s3. run_state (GetSnapshotDocument E (sn_id snap)) s2 = (ok (raw, m), s3) \<and> sn_stored_checksum m = RawChecksum E raw"
proof -
  from assms(2) obtain blob encrypted n where size: "length raw \<le> MaxSnapshotBytes" and b: "SealBlob E (snd rnd) raw = ok (blob, encrypted)"
    and n: "sn_id n = sn_id snap" "sn_blob n = blob" "sn_encrypted n = encrypted" "sn_stored_checksum n = RawChecksum E raw" and h: "holds_doc (doc_of n) s1"
    by (rule ImportSnapshot_ok)
  have "preserves (holds_doc (doc_of n)) (run_snaps E cs)"
    by (rule kept.preserves_run_snaps) (use assms(5) n(1) in \<open>auto simp: doc_of_def\<close>)
  from hoareD [OF this h assms(4)] have h2: "holds_doc (doc_of n) s2" .
  from assms(6) obtain k where k: "find_row (\<lambda>n. sn_id n = sn_id snap) (snapshots s2) = Some k"
    by (cases "find_row (\<lambda>n. sn_id n = sn_id snap) (snapshots s2)") (auto simp: find_row_None)
  with find_row_Some [OF k] h2 n(1) have "doc_of k = doc_of n" by (auto simp: holds_doc_def doc_of_def)
  with n have "sn_blob k = blob" "sn_encrypted k = encrypted" "sn_stored_checksum k = RawChecksum E raw" by (auto simp: doc_of_def)
  with GetSnapshotDocument_calm [OF assms(7) k] open_seal [OF assms(1) b size assms(3)] show ?thesis by auto
qed

section \<open>What a restore sends\<close>

text \<open>The bytes of the stored row, opened and checked against the checksum taken when it was stored.\<close>

definition verified_document :: "'w snap_env \<Rightarrow> string \<Rightarrow> ('w snap_net, 'x) oam_db_scheme \<Rightarrow> string \<Rightarrow> int \<Rightarrow> bool" where
  "verified_document E ident s raw owner \<longleftrightarrow> (\<exists>n. find_row (\<lambda>n. sn_id n = ident) (snapshots s) = Some n \<and>
     OpenBlob E (sn_blob n) (sn_encrypted n) = ok raw \<and> RawChecksum E raw = sn_stored_checksum n \<and> sn_instance n = owner)"

text \<open>A safety snapshot of an instance that was not there before.\<close>

definition safety_snapshot :: "('w snap_net, 'x) oam_db_scheme \<Rightarrow> int \<Rightarrow> ('w snap_net, 'x) oam_db_scheme \<Rightarrow> bool" where
  "safety_snapshot s0 t s \<longleftrightarrow> (\<exists>d \<in> set (map doc_of (snapshots s)). fst d \<notin> sn_id ` set (snapshots s0) \<and> fst (snd d) = t \<and> fst (snd (snd d)) = ''pre_restore'')"

text \<open>Everything before the restore request only reads from the gateways and deletes no row.\<close>

definition only_reads :: "snap_request list \<Rightarrow> bool" where
  "only_reads qs \<longleftrightarrow> list_all (\<lambda>q. sq_method q = ''GET'') qs"

definition reading :: "('w snap_net, 'x) oam_db_scheme \<Rightarrow> ('w snap_net, 'x) oam_db_scheme \<Rightarrow> bool" where
  "reading s0 s \<longleftrightarrow> instances s = instances s0 \<and> sn_id ` set (snapshots s0) \<subseteq> sn_id ` set (snapshots s) \<and>
     (\<exists>gs. calls (outside s) = calls (outside s0) @ gs \<and> only_reads gs)"

interpretation reading: system_invariant "reading s0 :: ('w snap_net, 'x) oam_db_scheme \<Rightarrow> bool"
  by unfold_locales (auto simp: reading_def same_system_def same_tables_oam)

lemma same_ids: "keeps_doc f \<Longrightarrow> sn_id ` set (upd_where p f ns) = sn_id ` set ns"
  by (induction ns) (auto simp: keeps_doc_def doc_of_def)

lemma reading_update: "reading s0 s \<Longrightarrow> keeps_doc f \<Longrightarrow> reading s0 (snd (update_snapshot ident f s))"
  by (auto simp: reading_def update_snapshot_def same_ids)

lemma reading_markChecksum: "preserves (reading s0) (markChecksum ident good)"
  unfolding markChecksum_def
  by (intro hoare_rules reading.keeps_stmt reading_update) (auto simp: keeps_doc_def doc_of_def)

lemma reading_GetSnapshotDocument:
  "hoare (\<lambda>s. s = s0) (GetSnapshotDocument E ident)
     (\<lambda>r s. reading s0 s \<and> (\<forall>raw m. r = ok (raw, m) \<longrightarrow> verified_document E ident s0 raw (sn_instance m)))"
proof (rule hoareI)
  fix s r s'
  assume "s = s0" and run: "run_state (GetSnapshotDocument E ident) s = (r, s')"
  have refl: "reading s0 s0" by (auto simp: reading_def only_reads_def)
  have "preserves (reading s0) (GetSnapshotDocument E ident)"
    unfolding GetSnapshotDocument_def by (intro hoare_rules reading.keeps_query reading_markChecksum)
  with run \<open>s = s0\<close> refl have "reading s0 s'" by (auto dest: hoareD)
  moreover have "verified_document E ident s0 raw (sn_instance m)" if "r = ok (raw, m)" for raw m
  proof -
    obtain q s1 where q: "run_state (db_query (select_snapshot ident)) s0 = (q, s1)" by force
    with run that \<open>s = s0\<close> obtain n where n: "q = ok n" by (cases q) (auto simp: GetSnapshotDocument_def run_check)
    with db_query_run [OF q] have "find_row (\<lambda>n. sn_id n = ident) (snapshots s0) = Some n"
      by (auto simp: select_snapshot_def same_tables_oam split: option.splits)
    moreover have "OpenBlob E (sn_blob n) (sn_encrypted n) = ok raw \<and> RawChecksum E raw = sn_stored_checksum n \<and> sn_instance n = sn_instance m"
      using run that \<open>s = s0\<close> q n
      by (auto simp: GetSnapshotDocument_def run_check scanSnapshotMeta_def Let_def split: sum.splits if_splits prod.splits)
    ultimately show ?thesis by (auto simp: verified_document_def)
  qed
  ultimately show "reading s0 s' \<and> (\<forall>raw m. r = ok (raw, m) \<longrightarrow> verified_document E ident s0 raw (sn_instance m))" by blast
qed

text \<open>The instance an operation talks to is a row of the registry.\<close>

definition registered :: "('w snap_net, 'x) oam_db_scheme \<Rightarrow> int \<Rightarrow> instance_view \<Rightarrow> bool" where
  "registered s t v \<longleftrightarrow> m_ID v = t \<and> (\<exists>i \<in> set (instances s). i_id i = t \<and> i_api_endpoint i = m_ApiEndpoint v)"

lemma reading_fetch_instance:
  "hoare (reading s0) (fetch_instance t) (\<lambda>r s. reading s0 s \<and> (\<forall>v. r = ok v \<longrightarrow> registered s0 t v))"
  unfolding fetch_instance_def FetchLoxiLBInstanceByID_def RetryOperation_once
proof (rule hoare_check [where R = "\<lambda>v s. reading s0 s \<and> registered s0 t v"], rule hoare_weaken [OF reading.query_result])
  fix s :: "('a snap_net, 'b) oam_db_scheme" and r assume "reading s0 s \<and> (r = err DbFail \<or> r = select_instance t s)"
  then show "case r of Inl e \<Rightarrow> reading s0 s \<and> (\<forall>v. err SInstanceNotFound = ok v \<longrightarrow> registered s0 t v) | Inr v \<Rightarrow> reading s0 s \<and> registered s0 t v"
    by (auto simp: select_instance_def scan_instance_def registered_def reading_def split: option.splits sum.splits dest!: find_row_Some)
qed (auto intro: hoare_return)

lemma reading_FetchSnapshot: "preserves (reading s0) (FetchSnapshot E i)"
proof -
  have "preserves (reading s0) (gateway_send E q)" if "sq_method q = ''GET''" for q
    using that by (auto simp: hoare_def gateway_send_def reading_def only_reads_def split: prod.splits)
  then show ?thesis unfolding FetchSnapshot_def by (intro hoare_rules) simp
qed

lemma reading_storeSnapshot:
  "hoare (reading s0) (storeSnapshot E rnd i name d t env raw who)
     (\<lambda>r s. reading s0 s \<and> (\<forall>snap. r = ok snap \<longrightarrow> (\<exists>n \<in> set (map doc_of (snapshots s)). fst n \<notin> sn_id ` set (snapshots s0) \<and> fst (snd n) = i \<and> fst (snd (snd n)) = t)))"
proof (rule hoareI, intro conjI allI impI)
  fix s r s'
  assume R: "reading s0 s" and run: "run_state (storeSnapshot E rnd i name d t env raw who) s = (r, s')"
  have "preserves (reading s0) (storeSnapshot E rnd i name d t env raw who)"
    unfolding storeSnapshot_def GetSnapshot_def
    by (intro hoare_rules reading.keeps_query reading.keeps_stmt) (auto simp: reading_def insert_snapshot_def)
  with R run show "reading s0 s'" by (auto dest: hoareD)
  fix snap assume "r = ok snap"
  with run have "run_state (storeSnapshot E rnd i name d t env raw who) s = (ok snap, s')" by simp
  then show "\<exists>n \<in> set (map doc_of (snapshots s')). fst n \<notin> sn_id ` set (snapshots s0) \<and> fst (snd n) = i \<and> fst (snd (snd n)) = t"
  proof (rule storeSnapshot_ok)
    fix blob encrypted
    assume "sn_id snap \<notin> set (map sn_id (snapshots s))"
      and "\<exists>n. snapshots s' = snapshots s @ [n] \<and> doc_of n = (sn_id snap, i, t, blob, encrypted, RawChecksum E raw)"
    moreover from this(1) R have "sn_id snap \<notin> sn_id ` set (snapshots s0)" by (auto simp: reading_def)
    ultimately show ?thesis by (auto intro: bexI [rotated])
  qed
qed

lemma hoare_pure: "(b \<Longrightarrow> hoare P m Q) \<Longrightarrow> hoare (\<lambda>s. P s \<and> b) m Q"
  by (auto simp: hoare_def)

text \<open>A new row of the instance with the trigger: what a snapshot answered with its metadata leaves.\<close>

definition stored_new :: "('w snap_net, 'x) oam_db_scheme \<Rightarrow> int \<Rightarrow> string \<Rightarrow> snap_err + InstanceSnapshot \<Rightarrow> ('w snap_net, 'x) oam_db_scheme \<Rightarrow> bool" where
  "stored_new s0 i t r s \<longleftrightarrow> reading s0 s \<and> (\<forall>snap. r = ok snap \<longrightarrow>
     (\<exists>n \<in> set (map doc_of (snapshots s)). fst n \<notin> sn_id ` set (snapshots s0) \<and> fst (snd n) = i \<and> fst (snd (snd n)) = t))"

lemma stored_new_err: "reading s0 s \<Longrightarrow> stored_new s0 i t (err e) s"
  by (simp add: stored_new_def)

lemma hoare_check_keeps:
  assumes "preserves P m" and "\<And>e s. P s \<Longrightarrow> Q (err e) s" and "\<And>a. hoare P (k a) Q"
  shows "hoare P (check wrap m k) Q"
  by (rule hoare_check [where R = "\<lambda>_. P"], rule hoare_weaken [OF assms(1)]) (use assms(2,3) in \<open>auto split: sum.splits\<close>)

lemma reading_time_now: "preserves (reading s0) time_now"
  by (simp add: hoare_def run_time_now)

lemma reading_TakeSnapshot:
  assumes "ts_TriggerType req \<noteq> []"
  shows "hoare (reading s0) (TakeSnapshot E rnd i req who) (stored_new s0 i (ts_TriggerType req))"
  unfolding TakeSnapshot_def
proof (intro hoare_let hoare_if hoare_return stored_new_err, assumption,
    rule hoare_check [where R = "\<lambda>v s. reading s0 s \<and> m_ID v = i"], rule hoare_weaken [OF reading_fetch_instance], goal_cases)
  case (3 v)
  have store: "hoare (reading s0) (storeSnapshot E rnd (m_ID v) name d (ts_TriggerType req) env raw who) (stored_new s0 (m_ID v) (ts_TriggerType req))" for name d env raw
    by (rule hoare_weaken [OF reading_storeSnapshot]) (auto simp: stored_new_def)
  show ?case
    by (rule hoare_pure, rule hoare_check_keeps [OF reading_FetchSnapshot])
      (use assms in \<open>auto simp: stored_new_err intro!: hoare_rules stored_new_err hoare_bind [OF reading_time_now] store\<close>)
qed (auto simp: registered_def stored_new_err split: sum.splits)

lemma reading_pre_restore:
  "hoare (reading s0) (pre_restore E rnd mode t snap actor)
     (\<lambda>r s. reading s0 s \<and> (\<forall>p. r = ok p \<longrightarrow> mode = RestoreModeCommit \<longrightarrow> safety_snapshot s0 t s))"
proof -
  have take: "hoare (reading s0) (TakeSnapshot E rnd t \<lparr>ts_Name = name, ts_Description = d, ts_TriggerType = ''pre_restore''\<rparr> who) (stored_new s0 t ''pre_restore'')" for name d who
    using reading_TakeSnapshot [of "\<lparr>ts_Name = name, ts_Description = d, ts_TriggerType = ''pre_restore''\<rparr>"] by simp
  show ?thesis
    unfolding pre_restore_def
    by (intro hoare_if hoare_bind [where R = "\<lambda>_. reading s0"] hoare_check [where R = "\<lambda>_ s. reading s0 s \<and> safety_snapshot s0 t s"] hoare_weaken [OF take] hoare_return)
      (auto simp: hoare_def run_time_now stored_new_def safety_snapshot_def split: sum.splits)
qed

definition restore_mode :: "RestoreSnapshotRequest \<Rightarrow> string" where
  "restore_mode req = (if rr_Mode req = [] then RestoreModeDryRun else rr_Mode req)"

definition restore_target :: "RestoreSnapshotRequest \<Rightarrow> int \<Rightarrow> int" where
  "restore_target req owner = (case rr_TargetInstanceID req of None \<Rightarrow> owner | Some t \<Rightarrow> t)"

text \<open>The one request that changes a gateway: the verified document, to the target's registered endpoint, with the mode and the selection that were asked for.\<close>

definition restore_request :: "'w snap_env \<Rightarrow> string \<Rightarrow> RestoreSnapshotRequest \<Rightarrow> ('w snap_net, 'x) oam_db_scheme \<Rightarrow> snap_request \<Rightarrow> int \<Rightarrow> bool" where
  "restore_request E ident req s q t \<longleftrightarrow> (\<exists>owner. verified_document E ident s (sq_body q) owner \<and> t = restore_target req owner) \<and>
     sq_method q = ''POST'' \<and> restore_mode req \<in> {RestoreModeDryRun, RestoreModeCommit} \<and> validateRestoreComponents (rr_Components req) = None \<and>
     (\<exists>i \<in> set (instances s). i_id i = t \<and> sq_url q = trim_suffix (i_api_endpoint i) ''/'' @ ''/config/restore?'' @ restoreQuery (restore_mode req) (selection req))"

definition sent_safely :: "'w snap_env \<Rightarrow> string \<Rightarrow> RestoreSnapshotRequest \<Rightarrow> ('w snap_net, 'x) oam_db_scheme \<Rightarrow> ('w snap_net, 'x) oam_db_scheme \<Rightarrow> bool" where
  "sent_safely E ident req s0 s \<longleftrightarrow> (\<exists>gs q t. calls (outside s) = calls (outside s0) @ gs @ [q] \<and> only_reads gs \<and> restore_request E ident req s0 q t \<and>
     (restore_mode req = RestoreModeCommit \<longrightarrow> safety_snapshot s0 t s))"

lemma safety_update: "keeps_doc f \<Longrightarrow> safety_snapshot s0 t (snd (update_snapshot ident f s)) = safety_snapshot s0 t s"
proof -
  assume "keeps_doc f"
  then have "map doc_of (upd_where p f ns) = map doc_of ns" for p ns by (induction ns) (auto simp: keeps_doc_def)
  then have "map doc_of (snapshots (snd (update_snapshot ident f s))) = map doc_of (snapshots s)" by (simp add: update_snapshot_def)
  then show ?thesis unfolding safety_snapshot_def by (simp only:)
qed

interpretation sent: system_invariant "sent_safely E ident req s0 :: ('w snap_net, 'x) oam_db_scheme \<Rightarrow> bool"
proof
  fix s s' :: "('w snap_net, 'x) oam_db_scheme" assume "same_system s s'" and sent: "sent_safely E ident req s0 s"
  then have "outside s' = outside s" and "snapshots s' = snapshots s" by (auto simp: same_system_def same_tables_oam)
  with sent show "sent_safely E ident req s0 s'" by (simp add: sent_safely_def safety_snapshot_def)
qed

lemma sent_recordRestore: "preserves (sent_safely E i req s0) (recordRestore ident result response cs)"
proof -
  have "sent_safely E i req s0 (snd (update_snapshot ident f s)) = sent_safely E i req s0 s" if "keeps_doc f" for f s
  proof -
    have "outside (snd (update_snapshot ident f s)) = outside s" by (simp add: update_snapshot_def)
    then show ?thesis by (simp add: sent_safely_def safety_update [OF that])
  qed
  then show ?thesis
    unfolding recordRestore_def by (intro hoare_rules sent.keeps_stmt) (auto simp: keeps_doc_def doc_of_def)
qed

lemma reading_recordRestore: "preserves (reading s0) (recordRestore ident result response cs)"
  unfolding recordRestore_def
  by (intro hoare_rules reading.keeps_stmt reading_update) (auto simp: keeps_doc_def doc_of_def)

lemma sent_gateway_Restore:
  fixes s0 :: "('w snap_net, 'x) oam_db_scheme"
  assumes "verified_document E ident s0 raw owner" and "registered s0 (restore_target req owner) v"
    and "restore_mode req \<in> {RestoreModeDryRun, RestoreModeCommit}" and "validateRestoreComponents (rr_Components req) = None"
  shows "hoare (\<lambda>s. reading s0 s \<and> (restore_mode req = RestoreModeCommit \<longrightarrow> safety_snapshot s0 (restore_target req owner) s))
    (gateway_Restore E v raw (restore_mode req) (selection req)) (\<lambda>r s. reading s0 s \<and> (\<exists>e. r = err e) \<or> sent_safely E ident req s0 s)"
    (is "hoare ?P _ ?Q")
proof -
  let ?url = "gatewayBaseURL v @ ''/config/restore?'' @ restoreQuery (restore_mode req) (selection req)"
  have send: "hoare ?P (gateway_send E \<lparr>sq_method = ''POST'', sq_url = ?url, sq_headers = hs, sq_body = raw\<rparr>) (\<lambda>_. sent_safely E ident req s0)" (is "hoare _ (gateway_send E ?q) _") for hs
  proof (rule hoareI)
    fix s r s' assume P: "?P s" and "run_state (gateway_send E ?q) s = (r, s')"
    then have out: "calls (outside s') = calls (outside s) @ [?q]" and same: "snapshots s' = snapshots s"
      by (auto simp: gateway_send_def split: prod.splits)
    from P obtain gs where gs: "calls (outside s) = calls (outside s0) @ gs" "only_reads gs" by (auto simp: reading_def)
    moreover have "restore_request E ident req s0 ?q (restore_target req owner)"
      using assms by (auto simp: restore_request_def registered_def gatewayBaseURL_def)
    ultimately show "sent_safely E ident req s0 s'"
      using P out same by (auto simp: sent_safely_def safety_snapshot_def)
  qed
  have checked: "hoare ?P (check id (gateway_send E \<lparr>sq_method = ''POST'', sq_url = ?url, sq_headers = hs, sq_body = raw\<rparr>) k) ?Q"
    if "\<And>a. preserves (sent_safely E ident req s0) (k a)" for hs and k :: "gateway_response \<Rightarrow> ('w, 'x, nat \<times> headers \<times> string) snap_m"
    by (rule hoare_check [where R = "\<lambda>_. sent_safely E ident req s0"], rule hoare_weaken [OF send]) (auto split: sum.splits intro: hoare_weaken [OF that])
  show ?thesis
    unfolding gateway_Restore_def by (intro hoare_let hoare_if hoare_case_sum hoare_return checked hoare_case_option) auto
qed

lemma sent_RestoreSnapshot:
  "hoare (\<lambda>s. s = s0) (RestoreSnapshot E rnd ident req actor) (\<lambda>r s. reading s0 s \<and> (\<exists>e. r = err e) \<or> sent_safely E ident req s0 s)"
    (is "hoare _ _ ?Q")
proof -
  have refl: "reading s0 s0" by (auto simp: reading_def only_reads_def)
  have finish: "hoare (\<lambda>s. reading s0 s \<and> (\<exists>e. r = err e) \<or> sent_safely E ident req s0 s) (case r of
        Inl e \<Rightarrow> do { _ \<leftarrow> (if mode = RestoreModeCommit then recordRestore ident None (f e) cs else ret ()); ret (err e) }
      | Inr (status, header, body) \<Rightarrow> (let response = g body in do {
          _ \<leftarrow> (if mode = RestoreModeCommit then recordRestore ident (h body) response cs else ret ());
          ret (ok (out status header response)) })) ?Q" for r mode f cs g h out
  proof (cases r)
    case (Inl e)
    have "hoare (\<lambda>s. reading s0 s \<or> sent_safely E ident req s0 s) (recordRestore ident None (f e) cs) (\<lambda>_ s. reading s0 s \<or> sent_safely E ident req s0 s)"
      using reading_recordRestore [of s0 ident None "f e" cs] sent_recordRestore [of E ident req s0 ident None "f e" cs] unfolding hoare_def by (auto split: prod.splits)
    with Inl show ?thesis by (auto intro!: hoare_rules hoare_bind [where R = "\<lambda>_ s. reading s0 s \<or> sent_safely E ident req s0 s"])
  next
    case (Inr a)
    then show ?thesis
      by (auto intro!: hoare_rules hoare_bind [where R = "\<lambda>_. sent_safely E ident req s0"] sent_recordRestore split: prod.splits)
  qed
  have inner: "hoare (reading s0) (check id (fetch_instance (restore_target req owner)) (\<lambda>v. check id (pre_restore E rnd (restore_mode req) (m_ID v) snap actor)
      (\<lambda>pre. do { r \<leftarrow> gateway_Restore E v raw (restore_mode req) (selection req); k v pre r }))) ?Q"
    if doc: "verified_document E ident s0 raw owner" and mode: "restore_mode req \<in> {RestoreModeDryRun, RestoreModeCommit}"
      and cs: "validateRestoreComponents (rr_Components req) = None"
      and k: "\<And>v pre r. hoare (\<lambda>s. reading s0 s \<and> (\<exists>e. r = err e) \<or> sent_safely E ident req s0 s) (k v pre r) ?Q" for raw owner snap k
  proof (rule hoare_check [where R = "\<lambda>v s. reading s0 s \<and> registered s0 (restore_target req owner) v"], rule hoare_weaken [OF reading_fetch_instance])
    fix v
    show "hoare (\<lambda>s. reading s0 s \<and> registered s0 (restore_target req owner) v) (check id (pre_restore E rnd (restore_mode req) (m_ID v) snap actor)
        (\<lambda>pre. do { r \<leftarrow> gateway_Restore E v raw (restore_mode req) (selection req); k v pre r })) ?Q"
      by (rule hoare_pure, rule hoare_check [OF hoare_weaken [OF reading_pre_restore] hoare_bind [OF sent_gateway_Restore [OF doc _ mode cs] k]])
        (auto simp: registered_def split: sum.splits)
  qed (auto split: sum.splits)
  show ?thesis
  proof (cases "restore_mode req \<in> {RestoreModeDryRun, RestoreModeCommit} \<and> validateRestoreComponents (rr_Components req) = None")
    case True
    show ?thesis
      unfolding RestoreSnapshot_def restore_mode_def [symmetric] restore_target_def [symmetric] Let_def [of "restore_mode req"]
      by (intro hoare_if hoare_case_option hoare_return
          hoare_check [where R = "\<lambda>x s. reading s0 s \<and> verified_document E ident s0 (fst x) (sn_instance (snd x))"] hoare_weaken [OF reading_GetSnapshotDocument]
          hoare_case_prod hoare_pure inner finish)
        (use True refl in \<open>auto split: sum.splits\<close>)
  next
    case False
    then show ?thesis
      using refl by (auto simp: RestoreSnapshot_def restore_mode_def hoare_def Let_def split: option.splits)
  qed
qed


section \<open>Evaluation\<close>

definition demo_snap_env :: "unit snap_env" where
  "demo_snap_env = \<lparr>sv_encKey = None, sv_identity = \<lparr>gi_mode = GatewayAuthModeDisabled, gi_token = []\<rparr>, sv_gzip = rev, sv_gunzip = (\<lambda>b. Some (rev b)),
     sv_seal = (\<lambda>key nonce p. p), sv_open = (\<lambda>key nonce b. Some b), sv_sha256 = (\<lambda>_. []),
     sv_envelope = (\<lambda>_. Some \<lparr>se_SchemaVersion = ''1'', se_Kind = ''loxilb-snapshot'', se_GatewayVersion = ''g'', se_Checksum = ''sha256:''\<rparr>),
     sv_domains = (\<lambda>_. None), sv_json_valid = (\<lambda>_. True), sv_result = (\<lambda>_. ''ok''), sv_stamp = (\<lambda>_. ''t''), sv_minute = (\<lambda>_. ''t''), sv_quote = (\<lambda>t. t),
     sv_url_ok = (\<lambda>_. True), sv_transport = (\<lambda>q w. (ok \<lparr>rs_status = 200, rs_headers = [], rs_body = Some ''{}''\<rparr>, w))\<rparr>"

definition demo_random :: "string option \<times> string option" where
  "demo_random = (Some (replicate 16 (CHR ''0'')), None)"

definition demo_uuid :: string where
  "demo_uuid = ''30303030-3030-4030-b030-303030303030''"

lemma demo_newUUID: "newUUID (fst demo_random) = Some demo_uuid"
  unfolding demo_random_def demo_uuid_def fst_conv by code_simp

lemma pg_text_ascii:
  assumes "is_ascii t" and "list_all (\<lambda>c. byte c \<noteq> 0) t" and "length t \<le> n"
  shows "pg_text n t"
proof -
  have "list_all (\<lambda>(i, r, w). \<not> (r = rune_error \<and> w = 1)) (range_runes i t)" for i
    using assms(1) by (induction t arbitrary: i) (auto simp: is_ascii_def rune_error_def)
  with assms show ?thesis by (simp add: pg_text_def valid_utf8_def runes_ascii)
qed

lemma demo_text: "pg_text 128 ''n''" "pg_text 16 ''1''" "pg_text 64 ''g''" "pg_text 71 ''sha256:''" "pg_text 64 ''u''" "pg_text 128 ''pre-restore-t''"
  by (rule pg_text_ascii; simp add: is_ascii_def byte_def)+

abbreviation demo_view :: instance_view where
  "demo_view \<equiv> view_of 1 (demo_flds ''a'') ''http://a:80/netlox/v1'' True 0"

lemma demo_fetch:
  assumes "instances s = [demo_row]" and "script s = []"
  shows "run_state (fetch_instance 1) s = (ok demo_view, s)"
  using assms
  by (simp add: fetch_instance_def FetchLoxiLBInstanceByID_def run_check select_instance_def demo_row_def new_row_def scan_instance_def view_of_def
      demo_flds_def demo_request_def InstanceFields.truncate_def endpoint_of_def)

lemma demo_parse: "parseSnapshotEnvelope demo_snap_env ''{}'' = ok \<lparr>se_SchemaVersion = ''1'', se_Kind = ''loxilb-snapshot'', se_GatewayVersion = ''g'', se_Checksum = ''sha256:''\<rparr>"
  by (simp add: parseSnapshotEnvelope_def demo_snap_env_def has_prefix_def)

lemma demo_import: "\<exists>snap. run_state (ImportSnapshot demo_snap_env demo_random 1 ''n'' [] ''{}'' ''u'') demo_snap_db =
    (ok snap, demo_snap_db\<lparr>snapshots := snapshots demo_snap_db @ [demo_snap demo_uuid 0 False\<lparr>sn_trigger := ''manual'', sn_size := 2, sn_blob := ''}{''\<rparr>]\<rparr>) \<and> sn_id snap = demo_uuid"
proof -
  have fetch: "run_state (fetch_instance 1) demo_snap_db = (ok demo_view, demo_snap_db)"
    by (rule demo_fetch) (simp_all add: demo_snap_db_def)
  show ?thesis
    by (simp add: ImportSnapshot_def MaxSnapshotBytes_def run_check fetch demo_parse run_time_now storeSnapshot_def demo_newUUID)
      (simp add: SealBlob_def demo_snap_env_def demo_random_def RawChecksum_def hex_encode_def run_check demo_snap_db_def insert_snapshot_def snapshot_row_ok_def
        demo_text validTriggerType_def view_of_def GetSnapshot_def select_snapshot_def scanSnapshotMeta_def demo_snap_def demo_row_def db_now_def demo_uuid_def)
qed

theorem snapshot_document_roundtrip_witness:
  "\<exists>m s3. run_state (GetSnapshotDocument demo_snap_env demo_uuid) (snd (run_state (run_snaps demo_snap_env [SDelete ''b'' False])
      (snd (run_state (ImportSnapshot demo_snap_env demo_random 1 ''n'' [] ''{}'' ''u'') demo_snap_db)))) = (ok (''{}'', m), s3) \<and>
    sn_stored_checksum m = RawChecksum demo_snap_env ''{}''"
proof -
  obtain snap s1 where imp: "run_state (ImportSnapshot demo_snap_env demo_random 1 ''n'' [] ''{}'' ''u'') demo_snap_db = (ok snap, s1)"
    and s1: "s1 = demo_snap_db\<lparr>snapshots := snapshots demo_snap_db @ [demo_snap demo_uuid 0 False\<lparr>sn_trigger := ''manual'', sn_size := 2, sn_blob := ''}{''\<rparr>]\<rparr>"
    and ident: "sn_id snap = demo_uuid"
    using demo_import by auto
  obtain u s2 where run: "run_state (run_snaps demo_snap_env [SDelete ''b'' False]) s1 = (u, s2)"
    by (cases "run_state (run_snaps demo_snap_env [SDelete ''b'' False]) s1") blast
  have codec: "codec_ok demo_snap_env" by (simp add: codec_ok_def demo_snap_env_def)
  have s2: "snapshots s2 = [demo_snap ''a'' 1 True, demo_snap ''c'' 3 False, demo_snap demo_uuid 0 False\<lparr>sn_trigger := ''manual'', sn_size := 2, sn_blob := ''}{''\<rparr>] \<and> script s2 = []"
    using run unfolding s1
    by (auto simp: demo_snap_db_def DeleteSnapshot_def GetSnapshot_def run_check select_snapshot_def scanSnapshotMeta_def demo_snap_def delete_snapshot_def del_where_def demo_uuid_def Let_def)
  have "\<exists>m s3. run_state (GetSnapshotDocument demo_snap_env (sn_id snap)) s2 = (ok (''{}'', m), s3) \<and> sn_stored_checksum m = RawChecksum demo_snap_env ''{}''"
    by (rule snapshot_document_roundtrip [OF codec imp _ run]) (use s2 ident in \<open>auto simp: demo_random_def demo_snap_def\<close>)
  with imp run ident show ?thesis by simp
qed

definition demo_restore :: RestoreSnapshotRequest where
  "demo_restore = \<lparr>rr_Mode = RestoreModeCommit, rr_TargetInstanceID = None, rr_Components = None\<rparr>"

lemma demo_here: "run_state (fetch_instance 1) demo_snap_db = (ok demo_view, demo_snap_db)"
  by (rule demo_fetch) (simp_all add: demo_snap_db_def)

lemma demo_document: "run_state (GetSnapshotDocument demo_snap_env ''a'') demo_snap_db = (ok ([], scanSnapshotMeta False (demo_snap ''a'' 1 True)), demo_snap_db)"
  by (simp add: GetSnapshotDocument_def run_check demo_snap_db_def select_snapshot_def demo_snap_def OpenBlob_def unpack_def demo_snap_env_def RawChecksum_def hex_encode_def
      scanSnapshotMeta_def)

lemma demo_identity: "identity_Authorize \<lparr>gi_mode = GatewayAuthModeDisabled, gi_token = []\<rparr> hs = ok (header_del ''Authorization'' hs)"
  by (simp add: identity_Authorize_def Mode_def GatewayAuthModeDisabled_def GatewayAuthModeServiceToken_def)

lemma demo_gateway: "\<exists>s'. run_state (gateway_Restore demo_snap_env demo_view raw mode cs) s = (ok (200, [], ''{}''), s')"
  by (simp add: gateway_Restore_def demo_snap_env_def demo_identity run_check gateway_send_def MaxSnapshotBytes_def Let_def)

lemma demo_read: "\<exists>w. run_state (FetchSnapshot demo_snap_env demo_view) demo_snap_db = (ok (''{}'', []), demo_snap_db\<lparr>outside := w\<rparr>)"
  by (simp add: FetchSnapshot_def demo_snap_env_def demo_identity run_check gateway_send_def MaxSnapshotBytes_def Let_def) blast

lemma demo_pre_restore: "\<exists>s'. run_state (pre_restore demo_snap_env demo_random RestoreModeCommit 1 snap ''u'') demo_snap_db = (ok demo_uuid, s')"
proof -
  obtain w where w: "run_state (FetchSnapshot demo_snap_env demo_view) demo_snap_db = (ok (''{}'', []), demo_snap_db\<lparr>outside := w\<rparr>)" using demo_read by blast
  show ?thesis
    by (simp add: pre_restore_def run_time_now run_check TakeSnapshot_def validTriggerType_def demo_here w MaxSnapshotBytes_def demo_parse header_get_def header_values_def storeSnapshot_def demo_newUUID Let_def)
      (simp add: SealBlob_def demo_snap_env_def demo_random_def RawChecksum_def hex_encode_def run_check demo_snap_db_def insert_snapshot_def snapshot_row_ok_def
        demo_text validTriggerType_def view_of_def GetSnapshot_def select_snapshot_def scanSnapshotMeta_def demo_snap_def demo_row_def db_now_def demo_uuid_def)
qed


end
