(* ===== verification/Snapshot_Handlers.thy ===== *)
theory Snapshot_Handlers
  imports Snapshot_Safety
begin

text \<open>
  The HTTP face of the snapshots (\<^verbatim>\<open>internal/handlers/snapshot_handler.go\<close>) and its routes: request decoding, the translation of errors, and which
  requests need the right to write configurations.  JSON and multipart decoding are parameters: a handler gets what they return.
\<close>

section \<open>Requests and replies\<close>

text \<open>\<open>SFailure\<close> is the text of an error, \<open>SError\<close> a fixed text, \<open>SBad\<close> a fixed text followed by a decoder's message.\<close>

datatype snap_body = SFailure snap_err | SError string | SBad string | SRaw string | SMeta InstanceSnapshot | SPage snapshot_page
  | SOutcome RestoreOutcome | SSchedule InstanceSnapshotSchedule | SMessage string

record snap_reply =
  sy_status :: nat
  sy_headers :: headers
  sy_body :: snap_body

definition snap_JSON :: "nat \<Rightarrow> headers \<Rightarrow> snap_body \<Rightarrow> snap_reply" where
  "snap_JSON status hs body = \<lparr>sy_status = status, sy_headers = hs, sy_body = body\<rparr>"

text \<open>What \<^verbatim>\<open>errors.As\<close> and \<^verbatim>\<open>errors.Is\<close> find: the error inside the wrapper of a restore that was given up.\<close>

fun innermost :: "snap_err \<Rightarrow> snap_err" where
  "innermost (SAborted e) = innermost e"
| "innermost e = e"

definition writeSnapshotError :: "headers \<Rightarrow> snap_err \<Rightarrow> snap_reply" where
  "writeSnapshotError hs e = (case innermost e of
      GatewayError code body retryAfter \<Rightarrow>
        if code \<noteq> 0 then
          (let hs = gin_Header ErrorOriginHeader ErrorOriginGateway hs;
               hs = (if retryAfter \<noteq> [] then gin_Header ''Retry-After'' retryAfter hs else hs) in
           snap_JSON code hs (if has_prefix (trim_space body) ''{'' then SRaw body else SError body))
        else snap_JSON 502 (MarkOAMOrigin hs) (SError body)
    | ErrSnapshotNotFound \<Rightarrow> snap_JSON 404 (MarkOAMOrigin hs) (SFailure e)
    | SInstanceNotFound \<Rightarrow> snap_JSON 404 (MarkOAMOrigin hs) (SFailure e)
    | ErrSnapshotPinned \<Rightarrow> snap_JSON 409 (MarkOAMOrigin hs) (SFailure e)
    | ErrSnapshotTooLarge \<Rightarrow> snap_JSON 413 (MarkOAMOrigin hs) (SFailure e)
    | ErrSnapshotCorrupted \<Rightarrow> snap_JSON 422 (MarkOAMOrigin hs) (SFailure e)
    | ErrInvalidSnapshotDoc \<Rightarrow> snap_JSON 400 (MarkOAMOrigin hs) (SFailure e)
    | ErrInvalidRestoreRequest \<Rightarrow> snap_JSON 400 (MarkOAMOrigin hs) (SFailure e)
    | SIdentityUnavailable \<Rightarrow> snap_JSON 503 (MarkOAMOrigin hs) (SError ''Gateway service identity unavailable'')
    | _ \<Rightarrow> snap_JSON 500 (MarkOAMOrigin hs) (SFailure e))"

text \<open>The reply to a service call.\<close>

definition answer :: "headers \<Rightarrow> nat \<Rightarrow> ('a \<Rightarrow> snap_body) \<Rightarrow> snap_err + 'a \<Rightarrow> snap_reply" where
  "answer hs status f r = (case r of Inl e \<Rightarrow> writeSnapshotError hs e | Inr a \<Rightarrow> snap_JSON status hs (f a))"

type_synonym ('w, 'x) snap_handler = "(('w snap_net, 'x) oam_db_scheme, snap_reply) state"

definition instanceIDParam :: "headers \<Rightarrow> string \<Rightarrow> (int \<Rightarrow> ('w, 'x) snap_handler) \<Rightarrow> ('w, 'x) snap_handler" where
  "instanceIDParam hs idParam k = (case atoi idParam of
      None \<Rightarrow> ret (snap_JSON 400 hs (SError ''Invalid LoxiLB instance ID''))
    | Some i \<Rightarrow> k i)"

text \<open>A JSON body: its declared length (\<open>-1\<close> when it is sent in chunks) and what binding it gives.\<close>

record 'a json_body =
  jb_length :: int
  jb_bind :: "'a option"

definition invalid_body :: "headers \<Rightarrow> snap_reply" where
  "invalid_body hs = snap_JSON 400 hs (SBad ''Invalid request body: '')"

text \<open>\<^verbatim>\<open>n, _ := strconv.Atoi(s)\<close>: zero for a text that is no number, the nearest number for one out of range.\<close>

definition atoi_value :: "string \<Rightarrow> int" where
  "atoi_value s = (case atoi s of
      Some n \<Rightarrow> n
    | None \<Rightarrow>
        (let neg = has_prefix s ''-''; body = (if neg \<or> has_prefix s ''+'' then tl s else s) in
         if body = [] \<or> digits_val 0 body = None then 0 else if neg then - (2 ^ 63) else 2 ^ 63 - 1))"

section \<open>Handlers\<close>

definition handle_TakeSnapshot :: "'w snap_env \<Rightarrow> string option \<times> string option \<Rightarrow> headers \<Rightarrow> string \<Rightarrow> TakeSnapshotRequest json_body \<Rightarrow> string \<Rightarrow> ('w, 'x) snap_handler" where
  "handle_TakeSnapshot E rnd hs idParam body caller = instanceIDParam hs idParam (\<lambda>i.
     case (if jb_length body > 0 then jb_bind body else Some \<lparr>ts_Name = [], ts_Description = [], ts_TriggerType = []\<rparr>) of
       None \<Rightarrow> ret (invalid_body hs)
     | Some req \<Rightarrow> do { r \<leftarrow> TakeSnapshot E rnd i req caller; ret (answer hs 201 SMeta r) })"

text \<open>The query parameters arrive with their defaults filled in.\<close>

definition handle_ListSnapshots :: "headers \<Rightarrow> string \<Rightarrow> string \<Rightarrow> string \<Rightarrow> ('w, 'x) snap_handler" where
  "handle_ListSnapshots hs idParam page limit = instanceIDParam hs idParam (\<lambda>i.
     do { r \<leftarrow> ListSnapshots i (atoi_value page) (atoi_value limit); ret (answer hs 200 SPage r) })"

definition handle_GetSnapshot :: "headers \<Rightarrow> string \<Rightarrow> ('w, 'x) snap_handler" where
  "handle_GetSnapshot hs sid = do { r \<leftarrow> GetSnapshot sid; ret (answer hs 200 SMeta r) }"

definition DownloadSnapshot :: "'w snap_env \<Rightarrow> headers \<Rightarrow> string \<Rightarrow> ('w, 'x) snap_handler" where
  "DownloadSnapshot E hs sid = do {
     r \<leftarrow> GetSnapshotDocument E sid;
     case r of
       Inl e \<Rightarrow> ret (writeSnapshotError hs e)
     | Inr (raw, snap) \<Rightarrow> do {
         i \<leftarrow> FetchLoxiLBInstanceByID (sn_instance snap);
         let instanceName = (case i of Inl e \<Rightarrow> ''instance-'' @ itoa (sn_instance snap) | Inr v \<Rightarrow> m_Name v);
         let filename = instanceName @ ''-'' @ sn_name snap @ ''-'' @ sv_stamp E (sn_created snap) @ ''.json'';
         let hs = gin_Header ''Content-Disposition'' (''attachment; filename='' @ sv_quote E filename) hs;
         let hs = gin_Header ''X-Snapshot-Checksum'' (sn_checksum snap) hs;
         let hs = gin_Header ''X-Content-Checksum'' (sn_stored_checksum snap) hs;
         ret (snap_JSON 200 hs (SRaw raw)) } }"

text \<open>The multipart file: missing, or its declared size and its bytes unless opening or reading it fails.\<close>

definition UploadSnapshot :: "'w snap_env \<Rightarrow> string option \<times> string option \<Rightarrow> headers \<Rightarrow> string \<Rightarrow> (nat \<times> string option) option \<Rightarrow> string \<Rightarrow> string \<Rightarrow> string
    \<Rightarrow> ('w, 'x) snap_handler" where
  "UploadSnapshot E rnd hs idParam upload name description caller = instanceIDParam hs idParam (\<lambda>i. case upload of
      None \<Rightarrow> ret (snap_JSON 400 hs (SError (''multipart field '' @ dquote # ''file'' @ dquote # '' is required'')))
    | Some (declared, contents) \<Rightarrow>
        if declared > MaxSnapshotBytes then ret (snap_JSON 413 hs (SFailure ErrSnapshotTooLarge))
        else (case contents of
            None \<Rightarrow> ret (snap_JSON 400 hs (SBad ''reading upload: ''))
          | Some bytes \<Rightarrow> do {
              r \<leftarrow> ImportSnapshot E rnd i name description (take (MaxSnapshotBytes + 1) bytes) caller;
              ret (answer hs 201 SMeta r) }))"

text \<open>The body decoded into the request, and its top-level field names.\<close>

record restore_decoder =
  rd_request :: "string \<Rightarrow> RestoreSnapshotRequest option"
  rd_fields :: "string \<Rightarrow> string list option"

definition decodeRestoreRequest :: "restore_decoder \<Rightarrow> string \<Rightarrow> RestoreSnapshotRequest option" where
  "decodeRestoreRequest D body = (case rd_request D body of
      None \<Rightarrow> None
    | Some req \<Rightarrow> (case rd_fields D body of
        None \<Rightarrow> None
      | Some flds \<Rightarrow> if ''components'' \<in> set flds \<and> rr_Components req = None then None else Some req))"

definition handle_RestoreSnapshot :: "'w snap_env \<Rightarrow> restore_decoder \<Rightarrow> string option \<times> string option \<Rightarrow> headers \<Rightarrow> string \<Rightarrow> int \<Rightarrow> string option \<Rightarrow> string
    \<Rightarrow> ('w, 'x) snap_handler" where
  "handle_RestoreSnapshot E D rnd hs sid len body caller =
     (case (if len > 0 then Option.bind body (decodeRestoreRequest D) else Some \<lparr>rr_Mode = [], rr_TargetInstanceID = None, rr_Components = None\<rparr>) of
        None \<Rightarrow> ret (invalid_body hs)
      | Some req \<Rightarrow> do {
          r \<leftarrow> RestoreSnapshot E rnd sid req caller;
          ret (case r of
              Inl e \<Rightarrow> writeSnapshotError hs e
            | Inr outcome \<Rightarrow>
                snap_JSON 200 (if ro_GatewayRetryAfter outcome \<noteq> [] then gin_Header ''Retry-After'' (ro_GatewayRetryAfter outcome) hs else hs) (SOutcome outcome)) })"

definition handle_UpdateSnapshot :: "headers \<Rightarrow> string \<Rightarrow> UpdateSnapshotRequest option \<Rightarrow> ('w, 'x) snap_handler" where
  "handle_UpdateSnapshot hs sid body = (case body of
      None \<Rightarrow> ret (invalid_body hs)
    | Some req \<Rightarrow> do { r \<leftarrow> UpdateSnapshot sid req; ret (answer hs 200 SMeta r) })"

definition handle_DeleteSnapshot :: "headers \<Rightarrow> string \<Rightarrow> string \<Rightarrow> ('w, 'x) snap_handler" where
  "handle_DeleteSnapshot hs sid force = do { r \<leftarrow> DeleteSnapshot sid (force = ''true''); ret (answer hs 200 (\<lambda>_. SMessage ''Snapshot deleted'') r) }"

definition GetSnapshotSchedule :: "headers \<Rightarrow> string \<Rightarrow> ('w, 'x) snap_handler" where
  "GetSnapshotSchedule hs idParam = instanceIDParam hs idParam (\<lambda>i. do { r \<leftarrow> GetSchedule i; ret (answer hs 200 SSchedule r) })"

definition PutSnapshotSchedule :: "headers \<Rightarrow> string \<Rightarrow> SnapshotScheduleRequest option \<Rightarrow> ('w, 'x) snap_handler" where
  "PutSnapshotSchedule hs idParam body = instanceIDParam hs idParam (\<lambda>i. case body of
      None \<Rightarrow> ret (invalid_body hs)
    | Some req \<Rightarrow> do { r \<leftarrow> PutSchedule i req; ret (answer hs 200 SSchedule r) })"

section \<open>Routes\<close>

datatype snap_endpoint = HTake string "TakeSnapshotRequest json_body" | HList string string string | HUpload string "(nat \<times> string option) option" string string
  | HGetSchedule string | HPutSchedule string "SnapshotScheduleRequest option" | HGet string | HUpdate string "UpdateSnapshotRequest option"
  | HDelete string string | HDownload string | HRestore string int "string option"

fun snap_handle :: "'w snap_env \<Rightarrow> restore_decoder \<Rightarrow> string option \<times> string option \<Rightarrow> headers \<Rightarrow> snap_endpoint \<Rightarrow> string \<Rightarrow> ('w, 'x) snap_handler" where
  "snap_handle E D rnd hs (HTake i body) who = handle_TakeSnapshot E rnd hs i body who"
| "snap_handle E D rnd hs (HList i page limit) who = handle_ListSnapshots hs i page limit"
| "snap_handle E D rnd hs (HUpload i upload name description) who = UploadSnapshot E rnd hs i upload name description who"
| "snap_handle E D rnd hs (HGetSchedule i) who = GetSnapshotSchedule hs i"
| "snap_handle E D rnd hs (HPutSchedule i body) who = PutSnapshotSchedule hs i body"
| "snap_handle E D rnd hs (HGet sid) who = handle_GetSnapshot hs sid"
| "snap_handle E D rnd hs (HUpdate sid body) who = handle_UpdateSnapshot hs sid body"
| "snap_handle E D rnd hs (HDelete sid force) who = handle_DeleteSnapshot hs sid force"
| "snap_handle E D rnd hs (HDownload sid) who = DownloadSnapshot E hs sid"
| "snap_handle E D rnd hs (HRestore sid len body) who = handle_RestoreSnapshot E D rnd hs sid len body who"

fun needs_config_write :: "snap_endpoint \<Rightarrow> bool" where
  "needs_config_write (HList i page limit) = False"
| "needs_config_write (HGetSchedule i) = False"
| "needs_config_write (HGet sid) = False"
| "needs_config_write h = True"

text \<open>Authentication, the capability where the route table asks for it, the handler.\<close>

definition snapshot_route :: "jwt \<Rightarrow> 'w snap_env \<Rightarrow> restore_decoder \<Rightarrow> string option \<times> string option \<Rightarrow> headers \<Rightarrow> string \<Rightarrow> snap_endpoint
    \<Rightarrow> (('w snap_net, 'x) oam_db_scheme, reply + snap_reply) state" where
  "snapshot_route J E D rnd hs header h =
     check id (TokenAuthMiddleware J header) (\<lambda>claims.
     check id (if needs_config_write h then check id (RequireCapability ActConfigWrite claims) (\<lambda>_. ret (ok ())) else ret (ok ())) (\<lambda>_. do {
       r \<leftarrow> snap_handle E D rnd hs h (c_username claims); ret (ok r) }))"

section \<open>What the gates let through\<close>

interpretation untouched: system_invariant "same_system s0 :: ('w, 'x) db_base_scheme \<Rightarrow> bool"
  by unfold_locales (rule same_system_trans)

lemma untouched_time_now: "preserves (same_system s0) time_now"
  by (simp add: hoare_def run_time_now)

lemmas untouched_rules = hoare_rules untouched.keeps_query untouched_time_now

lemma untouched_auth: "preserves (same_system s0) (TokenAuthMiddleware J header)"
  unfolding TokenAuthMiddleware_def ValidateToken_def RetryOperation_once by (intro untouched_rules)

lemma untouched_capability: "preserves (same_system s0) (RequireCapability action claims)"
  unfolding RequireCapability_def resolveCaller_def GetUserByUsername_def select_user_def RetryOperation_once by (intro untouched_rules)

text \<open>A reply that carries metadata only.\<close>

fun metadata_only :: "snap_body \<Rightarrow> bool" where
  "metadata_only (SRaw raw) = False"
| "metadata_only (SMeta n) = (sn_blob n = [])"
| "metadata_only (SPage p) = list_all (\<lambda>n. sn_blob n = []) (sp_Data p)"
| "metadata_only b = True"

lemma scanned_blob [simp]: "sn_blob (scanSnapshotMeta w n) = []"
  by (simp add: scanSnapshotMeta_def Let_def)

definition read_errors :: "snap_err + 'a \<Rightarrow> bool" where
  "read_errors r \<longleftrightarrow> (\<forall>e. r = err e \<longrightarrow> e = ErrSnapshotNotFound \<or> e = SInstanceNotFound \<or> (\<exists>d. e = SDb d))"

lemma answer_read:
  assumes "read_errors r" and "\<And>a. r = ok a \<Longrightarrow> metadata_only (f a)"
  shows "metadata_only (sy_body (answer hs status f r))"
  using assms by (auto simp: answer_def read_errors_def writeSnapshotError_def snap_JSON_def split: sum.splits)

text \<open>The three reads answer from the tables alone.\<close>

definition plain_read :: "('w snap_net, 'x) oam_db_scheme \<Rightarrow> snap_reply \<Rightarrow> ('w snap_net, 'x) oam_db_scheme \<Rightarrow> bool" where
  "plain_read s0 reply s \<longleftrightarrow> same_system s0 s \<and> metadata_only (sy_body reply)"

lemma plain_answer:
  assumes "hoare (same_system s0) m (\<lambda>r s. same_system s0 s \<and> read_errors r \<and> (\<forall>a. r = ok a \<longrightarrow> metadata_only (f a)))"
  shows "hoare (same_system s0) (do { r \<leftarrow> m; ret (answer hs status f r) }) (plain_read s0)"
  by (rule hoare_bind [OF assms]) (auto intro!: hoare_return simp: plain_read_def answer_read)

lemma plain_param: "(\<And>i. hoare (same_system s0) (k i) (plain_read s0)) \<Longrightarrow> hoare (same_system s0) (instanceIDParam hs idParam k) (plain_read s0)"
  unfolding instanceIDParam_def by (auto intro!: hoare_rules hoare_return simp: plain_read_def snap_JSON_def split: option.splits)

lemma hoare_check_read:
  assumes "\<And>e. Q (err (wrap e)) " and "\<And>a. hoare (same_system s0) (k a) (\<lambda>r s. same_system s0 s \<and> Q r)"
  shows "hoare (same_system s0) (check wrap (db_query g) k) (\<lambda>r s. same_system s0 s \<and> Q r)"
  by (rule hoare_check [where R = "\<lambda>_. same_system s0"], rule hoare_weaken [OF untouched.keeps_query]) (use assms in \<open>auto split: sum.splits\<close>)

lemma read_handlers:
  assumes "\<not> needs_config_write h"
  shows "hoare (same_system s0) (snap_handle E D rnd hs h who) (plain_read s0)"
proof (cases h)
  case (HGet sid)
  have "hoare (same_system s0) (GetSnapshot sid) (\<lambda>r s. same_system s0 s \<and> (read_errors r \<and> (\<forall>n. r = ok n \<longrightarrow> metadata_only (SMeta n))))"
    unfolding GetSnapshot_def by (rule hoare_check_read) (auto simp: read_errors_def snap_fail_def intro!: hoare_return)
  with HGet show ?thesis by (simp add: handle_GetSnapshot_def plain_answer)
next
  case (HList i page limit)
  have "hoare (same_system s0) (ListSnapshots j p l) (\<lambda>r s. same_system s0 s \<and> (read_errors r \<and> (\<forall>n. r = ok n \<longrightarrow> metadata_only (SPage n))))" for j p l
    unfolding ListSnapshots_def
    by (intro hoare_let hoare_check_read hoare_return) (auto simp: read_errors_def list_all_iff)
  with HList show ?thesis by (simp add: handle_ListSnapshots_def plain_answer plain_param)
next
  case (HGetSchedule i)
  have look: "hoare (same_system s0) (fetch_instance j) (\<lambda>r s. same_system s0 s \<and> (\<forall>e. r = err e \<longrightarrow> e = SInstanceNotFound))" for j
    unfolding fetch_instance_def FetchLoxiLBInstanceByID_def RetryOperation_once by (rule hoare_check_read) (auto intro!: hoare_return)
  have "hoare (same_system s0) (GetSchedule j) (\<lambda>r s. same_system s0 s \<and> (read_errors r \<and> (\<forall>n. r = ok n \<longrightarrow> metadata_only (SSchedule n))))" for j
    unfolding GetSchedule_def
    by (rule hoare_check [where R = "\<lambda>_. same_system s0", OF hoare_weaken [OF look] hoare_bind [OF untouched.keeps_query]])
      (auto simp: read_errors_def intro!: hoare_rules hoare_return split: sum.splits)
  with HGetSchedule show ?thesis by (simp add: GetSnapshotSchedule_def plain_answer plain_param)
qed (use assms in auto)

text \<open>
  C4. The snapshot routes are guarded as their table says.  A handler only answers when the token verifies, is stored, unexpired and belongs to an existing
  user; everything that takes, uploads, changes, deletes, downloads or restores a snapshot or changes a schedule needs an account whose role may write
  configurations.  A request that a gate refuses, and every metadata read, leaves the database and the gateways alone, and a read never shows a stored document.
\<close>

theorem snapshot_routes_guarded:
  assumes "run_state (snapshot_route J E D rnd hs header h) s = (r, s')" and "tx_start s = None"
  shows "(\<forall>reply. r = ok reply \<longrightarrow> (\<exists>claims. live_token J header claims s \<and>
       (needs_config_write h \<longrightarrow> (\<exists>v. caller_row claims v s \<and> Can (v_role v) ActConfigWrite)))) \<and>
    (\<forall>e. r = err e \<longrightarrow> same_system s s') \<and>
    (\<not> needs_config_write h \<longrightarrow> same_system s s' \<and> (\<forall>reply. r = ok reply \<longrightarrow> metadata_only (sy_body reply)))"
proof -
  obtain a s1 where auth: "run_state (TokenAuthMiddleware J header) s = (a, s1)" by force
  from hoareD [OF untouched_auth same_system_refl auth] have same1: "same_system s s1" .
  show ?thesis
  proof (cases a)
    case (Inl e)
    with auth assms(1) have "r = err e \<and> s' = s1" by (auto simp: snapshot_route_def run_check)
    with same1 show ?thesis by auto
  next
    case (Inr claims)
    note live = TokenAuth_ok [OF auth [unfolded Inr] assms(2)]
    show ?thesis
    proof (cases "needs_config_write h")
      case True
      obtain c s2 where cap: "run_state (RequireCapability ActConfigWrite claims) s1 = (c, s2)" by force
      from hoareD [OF untouched_capability same1 cap] have same2: "same_system s s2" .
      show ?thesis
      proof (cases c)
        case (Inl e)
        with True auth Inr cap assms(1) have "r = err e \<and> s' = s2" by (auto simp: snapshot_route_def run_check)
        with same2 True show ?thesis by auto
      next
        case (Inr v)
        obtain u where u: "run_state (resolveCaller claims) s1 = (Some v, s2)" and can: "Can (v_role v) ActConfigWrite"
          using cap Inr by (cases "run_state (resolveCaller claims) s1") (auto simp: RequireCapability_def split: option.splits if_splits)
        from resolveCaller_ok [OF u] live have "caller_row claims v s" by (auto simp: caller_row_def same_tables_oam)
        moreover have "\<exists>reply. r = ok reply"
          using True auth \<open>a = ok claims\<close> cap Inr assms(1) by (auto simp: snapshot_route_def run_check split: prod.splits)
        ultimately show ?thesis using True live can by auto
      qed
    next
      case False
      obtain reply s2 where run: "run_state (snap_handle E D rnd hs h (c_username claims)) s1 = (reply, s2)" by force
      with False auth Inr assms(1) have "r = ok reply \<and> s' = s2" by (auto simp: snapshot_route_def run_check)
      with hoareD [OF read_handlers [OF False] same1 run] False live show ?thesis by (auto simp: plain_read_def)
    qed
  qed
qed

section \<open>Evaluation\<close>

definition demo_decoder :: restore_decoder where
  "demo_decoder = \<lparr>rd_request = (\<lambda>_. Some \<lparr>rr_Mode = [], rr_TargetInstanceID = None, rr_Components = None\<rparr>), rd_fields = (\<lambda>_. Some [''Components''])\<rparr>"

definition demo_web :: "unit snap_net oam_db" where
  "demo_web = demo_snap_db\<lparr>users := users demo_session_db, api_tokens := api_tokens demo_session_db\<rparr>"

lemma demo_web_auth:
  "\<exists>claims. run_state (TokenAuthMiddleware demo_jwt ''Bearer admin.1'') demo_web = (ok claims, demo_web)"
proof -
  have tok: "trim_prefix ''Bearer admin.1'' ''Bearer '' = ''admin.1''" by (simp add: string_eval)
  show ?thesis
    by (simp add: TokenAuthMiddleware_def tok run_time_now demo_jwt_def ValidateToken_def token_row_def demo_web_def demo_snap_db_def
        demo_session_db_def demo_db_def demo_admin_def demo_viewer_def new_user_def itoa_1 db_now_def duration_defs)
qed

theorem snapshot_routes_guarded_witness:
  "\<exists>reply s'. run_state (snapshot_route demo_jwt demo_snap_env demo_decoder demo_random [] ''Bearer admin.1'' (HGet ''a'')) demo_web = (ok reply, s') \<and>
     sy_status reply = 200 \<and> metadata_only (sy_body reply) \<and> same_system demo_web s'"
proof -
  obtain claims where auth: "run_state (TokenAuthMiddleware demo_jwt ''Bearer admin.1'') demo_web = (ok claims, demo_web)" using demo_web_auth by blast
  obtain r s' where run: "run_state (snapshot_route demo_jwt demo_snap_env demo_decoder demo_random [] ''Bearer admin.1'' (HGet ''a'')) demo_web = (r, s')" by force
  have "\<exists>reply. r = ok reply \<and> sy_status reply = 200"
    using run auth
    by (auto simp: snapshot_route_def run_check handle_GetSnapshot_def GetSnapshot_def demo_web_def demo_snap_db_def select_snapshot_def demo_snap_def answer_def snap_JSON_def)
  moreover have "tx_start demo_web = None" by (simp add: demo_web_def demo_snap_db_def)
  ultimately show ?thesis using snapshot_routes_guarded [OF run] run by auto
qed

section \<open>Limits\<close>

text \<open>
  Field names are decoded without regard to case but looked up exactly: a null under a differently written name passes for an omitted selection.
\<close>

lemma null_selection_accepted:
  "decodeRestoreRequest demo_decoder body = Some \<lparr>rr_Mode = [], rr_TargetInstanceID = None, rr_Components = None\<rparr>"
  by (simp add: decodeRestoreRequest_def demo_decoder_def)

text \<open>A body sent in chunks has no declared length and is not read: the request gets the defaults.\<close>

lemma chunked_body_ignored:
  "handle_RestoreSnapshot E D rnd hs sid (-1) (Some body) who = handle_RestoreSnapshot E D rnd hs sid (-1) None who"
  by (simp add: handle_RestoreSnapshot_def)

text \<open>The first page number whose offset does not fit 64 bits fails in the database.\<close>

lemma page_offset_overflows: "int64 ((2 ^ 63 - 1 - 1) * 20) < 0 \<and> page_rows 20 (int64 ((2 ^ 63 - 1 - 1) * 20)) rows = err DbFail"
  by (simp add: int64_def page_rows_def)

end
