(* ===== verification/Alerts.thy ===== *)
theory Alerts
  imports Snapshot_Handlers
begin

text \<open>
  Alerts and their acknowledgment (\<^verbatim>\<open>internal/services/alert_service.go\<close>, the alert handlers of \<^verbatim>\<open>internal/handlers/handler.go\<close>),
  the connection check (\<^verbatim>\<open>internal/middleware/db_check.go\<close>) and the polling of instances
  (\<^verbatim>\<open>internal/polling/polling_service.go\<close>) that raise them, and the integrity of the whole database under all components that write it.

  The order of rows with equal timestamps is the database's choice, so sorting is a parameter; RFC 3339 parsing and the HTTP probe are parameters too.
\<close>

section \<open>The service\<close>

definition AlertTypeDBDisconnect :: string where "AlertTypeDBDisconnect = ''DB_DISCONNECT''"
definition AlertTypeAPIUnreachable :: string where "AlertTypeAPIUnreachable = ''API_UNREACHABLE''"
definition AlertTypeHighCPU :: string where "AlertTypeHighCPU = ''HIGH_CPU''"
definition AlertTypeMemoryLeak :: string where "AlertTypeMemoryLeak = ''MEMORY_LEAK''"
definition SeverityInfo :: string where "SeverityInfo = ''INFO''"
definition SeverityWarning :: string where "SeverityWarning = ''WARNING''"
definition SeverityCritical :: string where "SeverityCritical = ''CRITICAL''"

definition validTypes :: "string list" where
  "validTypes = [AlertTypeDBDisconnect, AlertTypeAPIUnreachable, AlertTypeHighCPU, AlertTypeMemoryLeak]"

definition validSeverities :: "string list" where
  "validSeverities = [SeverityInfo, SeverityWarning, SeverityCritical]"

datatype alert_err = ErrInvalidAlert string | AlDb db_err

record CreateAlertRequest =
  al_InstanceID :: int
  al_Type :: string
  al_Severity :: string
  al_Message :: string

record alert_env =
  ae_newest :: "int \<Rightarrow> Alert list \<Rightarrow> Alert list"
  ae_parse_time :: "string \<Rightarrow> int option"

type_synonym ('w, 'x, 'a) alert_m = "(('w, 'x) oam_db_scheme, alert_err + 'a) state"

text \<open>\<^verbatim>\<open>InsertAlertQuery\<close> with the checks and the foreign key of the table.\<close>

definition insert_alert :: "CreateAlertRequest \<Rightarrow> ('w, 'x) oam_db_scheme \<Rightarrow> (db_err + int) \<times> ('w, 'x) oam_db_scheme" where
  "insert_alert req s =
     (let ident = seqs s ''alerts''; s' = take_seq ''alerts'' s in
      if al_Type req \<notin> set validTypes \<or> al_Severity req \<notin> set validSeverities then (err CheckViolation, s')
      else if \<not> (valid_utf8 (al_Message req) \<and> list_all (\<lambda>c. byte c \<noteq> 0) (al_Message req)) then (err DbFail, s')
      else if al_InstanceID req \<notin> set (map i_id (instances s)) then (err ForeignKeyViolation, s')
      else (ok ident, s'\<lparr>alerts := alerts s @ [\<lparr>a_id = ident, a_instance = al_InstanceID req, a_type = al_Type req, a_severity = al_Severity req,
             a_message = al_Message req, a_created = db_now s, a_resolved = None\<rparr>]\<rparr>))"

definition CreateAlert :: "CreateAlertRequest \<Rightarrow> ('w, 'x, int) alert_m" where
  "CreateAlert req =
     (if al_Type req \<notin> set validTypes then ret (err (ErrInvalidAlert ''invalid alert: invalid alert type''))
      else if al_Severity req \<notin> set validSeverities then ret (err (ErrInvalidAlert ''invalid alert: invalid severity level''))
      else check AlDb (retry 0 (db_stmt (insert_alert req))) (\<lambda>ident. ret (ok ident)))"

definition is_open :: "Alert \<Rightarrow> bool" where
  "is_open a \<longleftrightarrow> a_resolved a = None"

definition GetActiveAlerts :: "('w, 'x, Alert list) alert_m" where
  "GetActiveAlerts = check AlDb (retry [] (db_query (\<lambda>s. ok (filter is_open (alerts s))))) (\<lambda>rows. ret (ok rows))"

definition insert_ack :: "int \<Rightarrow> int \<Rightarrow> int \<Rightarrow> ('w, 'x) oam_db_scheme \<Rightarrow> (db_err + unit) \<times> ('w, 'x) oam_db_scheme" where
  "insert_ack alertID userID t s =
     (let ident = seqs s ''acknowledgments''; s' = take_seq ''acknowledgments'' s in
      if alertID \<notin> set (map a_id (alerts s)) \<or> userID \<notin> set (map u_id (users s)) then (err ForeignKeyViolation, s')
      else (ok (), s'\<lparr>acknowledgments := acknowledgments s @ [\<lparr>ack_id = ident, ack_alert = alertID, ack_user = userID, ack_time = t\<rparr>]\<rparr>))"

definition resolve_alert :: "int \<Rightarrow> int \<Rightarrow> ('w, 'x) oam_db_scheme \<Rightarrow> (db_err + unit) \<times> ('w, 'x) oam_db_scheme" where
  "resolve_alert t alertID s = (ok (), s\<lparr>alerts := upd_where (\<lambda>a. a_id a = alertID) (\<lambda>a. a\<lparr>a_resolved := Some t\<rparr>) (alerts s)\<rparr>)"

definition AcknowledgeAlert :: "int \<Rightarrow> int \<Rightarrow> ('w, 'x, int) alert_m" where
  "AcknowledgeAlert alertID userID = do {
     ackTime \<leftarrow> time_now;
     with_tx AlDb AlDb (
       check AlDb (db_stmt (insert_ack alertID userID ackTime)) (\<lambda>_.
       check AlDb (db_stmt (resolve_alert ackTime alertID)) (\<lambda>_. ret (ok ackTime)))) }"

text \<open>A zero time is \<open>None\<close>.\<close>

definition history_range :: "int option \<Rightarrow> int option \<Rightarrow> int \<Rightarrow> int \<times> int" where
  "history_range start stop now = (case start of None \<Rightarrow> 0 | Some t \<Rightarrow> t, case stop of None \<Rightarrow> now | Some t \<Rightarrow> t)"

definition within :: "int \<times> int \<Rightarrow> Alert \<Rightarrow> bool" where
  "within r a \<longleftrightarrow> fst r \<le> a_created a \<and> a_created a \<le> snd r"

definition DefaultLogLimit :: int where "DefaultLogLimit = 10"
definition DefaultLogOffset :: int where "DefaultLogOffset = 0"

definition GetAlertHistory :: "int option \<Rightarrow> int option \<Rightarrow> int \<Rightarrow> int \<Rightarrow> ('w, 'x, Alert list) alert_m" where
  "GetAlertHistory start stop limit offset = do {
     now \<leftarrow> time_now;
     check AlDb (retry [] (db_query (\<lambda>s. page_rows (if limit \<le> 0 then DefaultLogLimit else limit) (if offset < 0 then DefaultLogOffset else offset)
         (filter (within (history_range start stop now)) (alerts s))))) (\<lambda>rows. ret (ok rows)) }"

definition GetActiveAlertsPaginated :: "alert_env \<Rightarrow> int \<Rightarrow> int \<Rightarrow> ('w, 'x, Alert list \<times> int) alert_m" where
  "GetActiveAlertsPaginated E page limit =
     check AlDb (retry 0 (db_query (\<lambda>s. ok (int (count_where is_open (alerts s)))))) (\<lambda>total.
     check AlDb (retry [] (db_query (\<lambda>s. page_rows limit (int64 ((page - 1) * limit)) (ae_newest E (clock s) (filter is_open (alerts s)))))) (\<lambda>rows.
       ret (ok (rows, total))))"

definition GetAlertHistoryPaginated :: "alert_env \<Rightarrow> int option \<Rightarrow> int option \<Rightarrow> int \<Rightarrow> int \<Rightarrow> ('w, 'x, Alert list \<times> int) alert_m" where
  "GetAlertHistoryPaginated E start stop page limit = do {
     now \<leftarrow> time_now;
     let r = history_range start stop now;
     check AlDb (retry 0 (db_query (\<lambda>s. ok (int (count_where (within r) (alerts s)))))) (\<lambda>total.
     check AlDb (retry [] (db_query (\<lambda>s. page_rows limit (int64 ((page - 1) * limit)) (ae_newest E (clock s) (filter (within r) (alerts s)))))) (\<lambda>rows.
       ret (ok (rows, total)))) }"

section \<open>Handlers\<close>

datatype alert_body = LError string | LInvalid | LFailure alert_err | LCreated int | LAlerts "Alert list" int int int int bool bool | LAck int int

datatype alert_reply = LReply (lr_status: nat) (lr_body: alert_body)

text \<open>The binder refuses a missing or zero field.\<close>

definition bound_alert :: "CreateAlertRequest option \<Rightarrow> CreateAlertRequest option" where
  "bound_alert body = (case body of
      None \<Rightarrow> None
    | Some r \<Rightarrow> if al_InstanceID r = 0 \<or> al_Type r = [] \<or> al_Severity r = [] \<or> al_Message r = [] then None else Some r)"

definition handle_CreateAlert :: "CreateAlertRequest option \<Rightarrow> (('w, 'x) oam_db_scheme, alert_reply) state" where
  "handle_CreateAlert body = (case bound_alert body of
      None \<Rightarrow> ret (LReply 400 LInvalid)
    | Some req \<Rightarrow> do {
        r \<leftarrow> CreateAlert req;
        ret (case r of
            Inl (ErrInvalidAlert t) \<Rightarrow> LReply 400 (LFailure (ErrInvalidAlert t))
          | Inl e \<Rightarrow> LReply 500 (LFailure e)
          | Inr ident \<Rightarrow> LReply 201 (LCreated ident)) })"

definition DefaultAlertPageSize :: int where "DefaultAlertPageSize = 20"
definition MaxAlertPageSize :: int where "MaxAlertPageSize = 100"
definition DefaultAlertPage :: int where "DefaultAlertPage = 1"

text \<open>The query parameters with their defaults.\<close>

definition page_params :: "string option \<Rightarrow> string option \<Rightarrow> string + int \<times> int" where
  "page_params page limit = (case atoi (case page of None \<Rightarrow> itoa DefaultAlertPage | Some p \<Rightarrow> p) of
      None \<Rightarrow> err ''Invalid page parameter''
    | Some p \<Rightarrow> if p < 1 then err ''Invalid page parameter''
        else (case atoi (case limit of None \<Rightarrow> itoa DefaultAlertPageSize | Some l \<Rightarrow> l) of
            None \<Rightarrow> err ''Invalid limit parameter''
          | Some l \<Rightarrow> if l < 1 then err ''Invalid limit parameter'' else ok (p, min l MaxAlertPageSize)))"

definition paginated :: "int \<Rightarrow> int \<Rightarrow> alert_err + Alert list \<times> int \<Rightarrow> alert_reply" where
  "paginated page limit r = (case r of
      Inl e \<Rightarrow> LReply 500 (LFailure e)
    | Inr (rows, totalCount) \<Rightarrow>
        (let totalPages = (totalCount + limit - 1) div limit in LReply 200 (LAlerts rows page limit totalCount totalPages (page < totalPages) (page > 1))))"

definition handle_GetActiveAlerts :: "alert_env \<Rightarrow> string option \<Rightarrow> string option \<Rightarrow> (('w, 'x) oam_db_scheme, alert_reply) state" where
  "handle_GetActiveAlerts E page limit = (case page_params page limit of
      Inl e \<Rightarrow> ret (LReply 400 (LError e))
    | Inr (p, l) \<Rightarrow> do { r \<leftarrow> GetActiveAlertsPaginated E p l; ret (paginated p l r) })"

text \<open>The caller was resolved by the capability gate; \<open>body\<close> is the bound user id, which must not be zero.\<close>

definition handle_AcknowledgeAlert :: "string \<Rightarrow> int option \<Rightarrow> user_view option \<Rightarrow> (('w, 'x) oam_db_scheme, alert_reply) state" where
  "handle_AcknowledgeAlert idParam body caller = (case atoi idParam of
      None \<Rightarrow> ret (LReply 400 (LError ''Invalid alert ID''))
    | Some alertID \<Rightarrow> (case body of
        None \<Rightarrow> ret (LReply 400 LInvalid)
      | Some userID \<Rightarrow> if userID = 0 then ret (LReply 400 LInvalid)
          else (case caller of
              None \<Rightarrow> ret (LReply 401 (LError ''Unauthorized''))
            | Some u \<Rightarrow>
                if userID \<noteq> v_id u then ret (LReply 403 (LError ''Acknowledgement must identify the authenticated user''))
                else do {
                  r \<leftarrow> AcknowledgeAlert alertID (v_id u);
                  ret (case r of Inl e \<Rightarrow> LReply 500 (LFailure e) | Inr t \<Rightarrow> LReply 200 (LAck alertID t)) })))"

definition parse_bound :: "alert_env \<Rightarrow> string \<Rightarrow> string + int option" where
  "parse_bound E t = (if t = [] then ok None else (case ae_parse_time E t of None \<Rightarrow> err t | Some n \<Rightarrow> ok (Some n)))"

definition handle_GetAlertHistory :: "alert_env \<Rightarrow> string \<Rightarrow> string \<Rightarrow> string option \<Rightarrow> string option \<Rightarrow> (('w, 'x) oam_db_scheme, alert_reply) state" where
  "handle_GetAlertHistory E start stop page limit = (case parse_bound E start of
      Inl _ \<Rightarrow> ret (LReply 400 (LError ''Invalid start date format. Use RFC3339 format (e.g., 2023-01-01T00:00:00Z)''))
    | Inr startTime \<Rightarrow> (case parse_bound E stop of
        Inl _ \<Rightarrow> ret (LReply 400 (LError ''Invalid end date format. Use RFC3339 format (e.g., 2023-01-01T23:59:59Z)''))
      | Inr endTime \<Rightarrow> (case page_params page limit of
          Inl e \<Rightarrow> ret (LReply 400 (LError e))
        | Inr (p, l) \<Rightarrow> do { r \<leftarrow> GetAlertHistoryPaginated E startTime endTime p l; ret (paginated p l r) })))"

section \<open>What raises alerts\<close>

text \<open>\<open>DBCheckMiddleware\<close>: \<open>None\<close> lets the request pass.\<close>

definition DBCheckMiddleware :: "string \<Rightarrow> (('w, 'x) oam_db_scheme, alert_reply option) state" where
  "DBCheckMiddleware failure = do {
     r \<leftarrow> db_query (\<lambda>s. ok ());
     case r of
       Inr _ \<Rightarrow> ret None
     | Inl e \<Rightarrow> do {
         _ \<leftarrow> CreateAlert \<lparr>al_InstanceID = 0, al_Type = AlertTypeDBDisconnect, al_Severity = SeverityCritical, al_Message = ''Database connection lost: '' @ failure\<rparr>;
         ret (Some (LReply 503 (LError ''Database connection lost''))) } }"

text \<open>The probe of one instance: the status it answers with, or none.\<close>

definition checkInstanceHealth :: "(string \<Rightarrow> 'w \<Rightarrow> nat option \<times> 'w) \<Rightarrow> instance_view \<Rightarrow> (('w, 'x) oam_db_scheme, unit) state" where
  "checkInstanceHealth probe i = do {
     s \<leftarrow> State_Monad.get;
     let (r, w) = probe (m_ApiEndpoint i @ ''/version'') (outside s);
     _ \<leftarrow> State_Monad.set (s\<lparr>outside := w\<rparr>);
     if r \<noteq> Some 200 then do {
       _ \<leftarrow> CreateAlert \<lparr>al_InstanceID = m_ID i, al_Type = AlertTypeAPIUnreachable, al_Severity = SeverityCritical,
             al_Message = ''Instance '' @ m_Name i @ '' is unreachable.''\<rparr>;
       ret () }
     else ret () }"

datatype poll_event = PollTick | PollRefresh

fun check_all :: "(string \<Rightarrow> 'w \<Rightarrow> nat option \<times> 'w) \<Rightarrow> instance_view list \<Rightarrow> (('w, 'x) oam_db_scheme, unit) state" where
  "check_all probe [] = ret ()"
| "check_all probe (i # is) = do { _ \<leftarrow> checkInstanceHealth probe i; check_all probe is }"

definition refresh :: "(('w, 'x) oam_db_scheme, instance_view list) state" where
  "refresh = do { r \<leftarrow> FetchLoxiLBInstances; ret (case r of Inl e \<Rightarrow> [] | Inr is \<Rightarrow> is) }"

text \<open>The loop of \<open>StartPolling\<close> over the ticks it receives; it ends with the list it holds.\<close>

fun poll_loop :: "(string \<Rightarrow> 'w \<Rightarrow> nat option \<times> 'w) \<Rightarrow> instance_view list \<Rightarrow> poll_event list \<Rightarrow> (('w, 'x) oam_db_scheme, instance_view list) state" where
  "poll_loop probe is [] = ret is"
| "poll_loop probe is (PollTick # es) = do { _ \<leftarrow> check_all probe is; poll_loop probe is es }"
| "poll_loop probe is (PollRefresh # es) = do { is' \<leftarrow> refresh; poll_loop probe is' es }"

definition StartPolling :: "(string \<Rightarrow> 'w \<Rightarrow> nat option \<times> 'w) \<Rightarrow> poll_event list \<Rightarrow> (('w, 'x) oam_db_scheme, instance_view list) state" where
  "StartPolling probe es = do { is \<leftarrow> refresh; poll_loop probe is es }"

section \<open>Integrity of the database\<close>

text \<open>
  Alerts have their own ids and the types and severities of the table, and an acknowledged alert is resolved: the acknowledgment and the
  resolution appear together.
\<close>

definition alert_fine :: "int \<Rightarrow> Alert \<Rightarrow> bool" where
  "alert_fine nxt a \<longleftrightarrow> a_id a < nxt \<and> a_type a \<in> set validTypes \<and> a_severity a \<in> set validSeverities"

definition acked :: "Alert list \<Rightarrow> Acknowledgment \<Rightarrow> bool" where
  "acked als k \<longleftrightarrow> (\<exists>a \<in> set als. a_id a = ack_alert k \<and> a_resolved a \<noteq> None)"

definition alerts_ok :: "('w, 'x) oam_db_scheme \<Rightarrow> bool" where
  "alerts_ok s \<longleftrightarrow> unique_by a_id (alerts s) \<and> list_all (alert_fine (seqs s ''alerts'')) (alerts s) \<and> list_all (acked (alerts s)) (acknowledgments s)"

text \<open>Everything beside the rows of the registry: unique snapshot ids, one schedule per instance, sound alerts.\<close>

definition side_tables_ok :: "('w, 'x) oam_db_scheme \<Rightarrow> bool" where
  "side_tables_ok s \<longleftrightarrow> unique_by sn_id (snapshots s) \<and> unique_by sc_instance (schedules s) \<and> alerts_ok s"

definition oam_ok :: "(string \<Rightarrow> string) \<Rightarrow> ('w, 'x) oam_db_scheme \<Rightarrow> bool" where
  "oam_ok L s \<longleftrightarrow> registry_ok L s \<and> side_tables_ok s"

lemma alert_fine_mono: "n \<le> m \<Longrightarrow> alert_fine n a \<Longrightarrow> alert_fine m a"
  by (simp add: alert_fine_def)

lemma side_tables_same: "same_tables s s' \<Longrightarrow> side_tables_ok s \<Longrightarrow> side_tables_ok s'"
  using seqs_grow [of s s' "''alerts''"]
  by (auto simp: side_tables_ok_def alerts_ok_def same_tables_oam list_all_iff intro: alert_fine_mono)

interpretation side: table_invariant "side_tables_ok :: ('w, 'x) oam_db_scheme \<Rightarrow> bool"
  by (rule table_invariant.intro) (rule side_tables_same)

interpretation whole: table_invariant "oam_ok L :: ('w, 'x) oam_db_scheme \<Rightarrow> bool"
  by (rule table_invariant.intro) (auto simp: oam_ok_def intro: side_tables_same registry_ok_tables)

text \<open>
  The interface between the instance rows and the handlers over them: an invariant that survives the three statements survives every handler.
\<close>

locale instance_tables = table_invariant I
  for I :: "('w, 'x) oam_db_scheme \<Rightarrow> bool" +
  assumes insert_keeps: "I s \<Longrightarrow> I (snd (insert_instance row s))"
    and update_keeps: "I s \<Longrightarrow> I (snd (update_instance ident (write_instance v) s))"
    and delete_keeps: "I s \<Longrightarrow> I (snd (delete_instance ident s))"
begin

lemma preserves_Fetch: "preserves I (FetchLoxiLBInstanceByID ident)" "preserves I FetchLoxiLBInstances"
  unfolding FetchLoxiLBInstanceByID_def FetchLoxiLBInstances_def RetryOperation_once by (intro preserves_query)+

lemma preserves_Update: "preserves I (UpdateLoxiLBInstance v)"
  unfolding UpdateLoxiLBInstance_def RetryOperation_once by (intro hoare_rules preserves_query preserves_stmt update_keeps)

lemma preserves_invalidation: "preserves I (invalidateProxyConnections E)"
proof (rule hoareI)
  fix s r s'
  assume "I s" and "run_state (invalidateProxyConnections E) s = (r, s')"
  moreover from this(2) have "same_tables s s'" by (auto simp: invalidateProxyConnections_def same_tables_def split: option.splits)
  ultimately show "I s'" by (metis same_tables)
qed

lemma preserves_conflict: "preserves I (rejectInstanceConflict E flds x)"
  unfolding rejectInstanceConflict_def InstanceNameTaken_def InstanceEndpointTaken_def countInstances_def RetryOperation_once
  by (intro hoare_rules preserves_query)

lemma preserves_firmware: "preserves I (StartFirmware E i)" "preserves I (StopFirmware E i)" "preserves I (UpdateFirmware E i)"
  unfolding StartFirmware_def StopFirmware_def UpdateFirmware_def by (intro hoare_rules preserves_docker)+

lemma preserves_with_instance: "(\<And>v. preserves I (k v)) \<Longrightarrow> preserves I (with_instance p k)"
  unfolding with_instance_def by (intro hoare_rules preserves_Fetch)

lemma preserves_deferred: "preserves I m \<Longrightarrow> preserves I (deferred_invalidate E m)"
  unfolding deferred_invalidate_def by (intro hoare_rules preserves_invalidation)

lemmas preserves_parts = preserves_time_now preserves_Fetch preserves_Update preserves_invalidation preserves_conflict preserves_firmware preserves_with_instance preserves_deferred

lemma preserves_run_registry: "preserves I (run_registry E c)"
proof (cases c)
  case (RCreate b)
  then show ?thesis
    by (simp only: run_registry.simps CreateLoxiLBInstance_def AddLoxiLBInstanceWithArgs_def RetryOperation_once)
      (intro hoare_rules preserves_parts preserves_stmt insert_keeps)
next
  case (RUpdate p b)
  then show ?thesis
    by (simp only: run_registry.simps handle_UpdateLoxiLBInstance_def) (intro hoare_rules preserves_parts)
next
  case (RDelete p)
  then show ?thesis
    by (simp only: run_registry.simps handle_DeleteLoxiLBInstance_def DeleteLoxiLBInstance_def RetryOperation_once)
      (intro hoare_rules preserves_parts preserves_stmt delete_keeps)
next
  case (RFirmware p b)
  then show ?thesis
    by (simp only: run_registry.simps UpdateLoxiLBInstanceFirmware_def) (intro hoare_rules preserves_parts)
next
  case (RStart p)
  then show ?thesis
    by (simp only: run_registry.simps StartLoxiLBInstanceFirmware_def) (intro hoare_rules preserves_parts)
next
  case (RStop p)
  then show ?thesis
    by (simp only: run_registry.simps StoptLoxiLBInstanceFirmware_def) (intro hoare_rules preserves_parts)
qed (simp_all only: run_registry.simps GetLoxiLBInstances_def GetLoxiLBInstanceByID_def; intro hoare_rules preserves_parts)+

end

interpretation side: instance_tables "side_tables_ok :: ('w, 'x) oam_db_scheme \<Rightarrow> bool"
proof
  fix s :: "('w, 'x) oam_db_scheme" and row assume "side_tables_ok s"
  then show "side_tables_ok (snd (insert_instance row s))"
    by (simp add: insert_instance_def Let_def take_seq_def side_tables_ok_def alerts_ok_def)
next
  fix s :: "('w, 'x) oam_db_scheme" and ident v assume "side_tables_ok s"
  then show "side_tables_ok (snd (update_instance ident (write_instance v) s))"
    by (simp add: update_instance_def side_tables_ok_def alerts_ok_def)
next
  fix s :: "('w, 'x) oam_db_scheme" and ident assume ok: "side_tables_ok s"
  have still: "acked (del_where p (alerts s)) k" if "k \<in> set (acknowledgments s)" and out: "ack_alert k \<notin> set (map a_id (filter p (alerts s)))" for k p
  proof -
    from ok that(1) obtain a where a: "a \<in> set (alerts s)" "a_id a = ack_alert k" "a_resolved a \<noteq> None"
      by (auto simp: side_tables_ok_def alerts_ok_def list_all_iff acked_def)
    with out have "\<not> p a" by (auto simp: image_iff)
    with a show ?thesis by (auto simp: acked_def set_del_where)
  qed
  show "side_tables_ok (snd (delete_instance ident s))"
    unfolding delete_instance_def delete_instances_where_def Let_def snd_conv
    using ok still by (simp add: side_tables_ok_def alerts_ok_def unique_by_del_where) (simp add: list_all_iff set_del_where)
qed

text \<open>The snapshot operations leave the alerts alone.\<close>

interpretation whole_snap: snapshot_tables "oam_ok L :: ('w snap_net, 'x) oam_db_scheme \<Rightarrow> bool" "\<lambda>i. True"
proof -
  have split: "oam_ok L s \<longleftrightarrow> snapshots_ok L s \<and> alerts_ok s" for s :: "('w snap_net, 'x) oam_db_scheme"
    by (auto simp: oam_ok_def side_tables_ok_def snapshots_ok_def)
  show "snapshot_tables (oam_ok L :: ('w snap_net, 'x) oam_db_scheme \<Rightarrow> bool) (\<lambda>i. True)"
  proof
    fix s :: "('w snap_net, 'x) oam_db_scheme" and n assume "oam_ok L s"
    then show "oam_ok L (snd (insert_snapshot n s))"
      using stored.insert_keeps [of L s n] by (simp add: split alerts_ok_def insert_snapshot_def)
  next
    fix s :: "('w snap_net, 'x) oam_db_scheme" and f ident assume "oam_ok L s" and "keeps_doc f"
    then show "oam_ok L (snd (update_snapshot ident f s))"
      using stored.update_keeps [of L s f ident] by (simp add: split alerts_ok_def update_snapshot_def)
  next
    fix s :: "('w snap_net, 'x) oam_db_scheme" and ident assume "oam_ok L s"
    then show "oam_ok L (snd (delete_snapshot ident s))"
      using stored.delete_keeps [of L s ident] by (simp add: split alerts_ok_def delete_snapshot_def)
  next
    fix s :: "('w snap_net, 'x) oam_db_scheme" and i b h k assume "oam_ok L s"
    then show "oam_ok L (snd (upsert_schedule i b h k s))"
      using stored.schedule_keeps [of L s i b h k] by (simp add: split alerts_ok_def upsert_schedule_def)
  next
    fix s :: "('w snap_net, 'x) oam_db_scheme" and t i assume "oam_ok L s"
    then show "oam_ok L (snd (record_run t i s))"
      using stored.record_keeps [of L s t i] by (simp add: split alerts_ok_def record_run_def)
  qed
qed

section \<open>The alert operations\<close>

lemma insert_alert_keeps: "oam_ok L s \<Longrightarrow> oam_ok L (snd (insert_alert req s))"
proof -
  assume ok: "oam_ok L s"
  let ?i = "seqs s ''alerts''"
  have fresh: "a_id a \<noteq> ?i" if "a \<in> set (alerts s)" for a
    using ok that by (auto simp: oam_ok_def side_tables_ok_def alerts_ok_def alert_fine_def list_all_iff)
  have later: "alert_fine (?i + 1) a" if "a \<in> set (alerts s)" for a
    using ok that by (fastforce simp: oam_ok_def side_tables_ok_def alerts_ok_def alert_fine_def list_all_iff)
  show ?thesis
    using ok fresh later
    by (auto simp: insert_alert_def Let_def take_seq_def oam_ok_def side_tables_ok_def alerts_ok_def registry_ok_def rows_ok_def refs_ok_def list_all_iff
        unique_by_append1 alert_fine_def acked_def)
qed

lemma CreateAlert_ok: "preserves (oam_ok L) (CreateAlert req)"
  unfolding CreateAlert_def RetryOperation_once by (intro hoare_rules whole.preserves_stmt insert_alert_keeps)

text \<open>Between the two statements of an acknowledgment its alert may still be open; nobody sees that state.\<close>

definition acknowledging :: "(string \<Rightarrow> string) \<Rightarrow> int \<Rightarrow> ('w, 'x) oam_db_scheme \<Rightarrow> bool" where
  "acknowledging L alertID s \<longleftrightarrow> (\<exists>ks k. acknowledgments s = ks @ [k] \<and> ack_alert k = alertID \<and> alertID \<in> set (map a_id (alerts s)) \<and>
     oam_ok L (s\<lparr>acknowledgments := ks\<rparr>))"

lemma insert_ack_open:
  assumes "oam_ok L s"
  shows "case fst (insert_ack alertID userID t s) of Inl e \<Rightarrow> True | Inr a \<Rightarrow> acknowledging L alertID (snd (insert_ack alertID userID t s))"
proof -
  have "oam_ok L (take_seq ''acknowledgments'' s)" by (rule whole.same_tables [OF _ assms]) (simp add: take_seq_def same_tables_def)
  then show ?thesis by (auto simp: insert_ack_def Let_def acknowledging_def take_seq_def)
qed

lemma resolve_closes:
  assumes "acknowledging L alertID s"
  shows "oam_ok L (snd (resolve_alert t alertID s))"
proof -
  let ?f = "\<lambda>a. a\<lparr>a_resolved := Some t\<rparr>" and ?als = "upd_where (\<lambda>a. a_id a = alertID) (\<lambda>a. a\<lparr>a_resolved := Some t\<rparr>) (alerts s)"
  from assms obtain ks k where ks: "acknowledgments s = ks @ [k]" and k: "ack_alert k = alertID" and there: "alertID \<in> set (map a_id (alerts s))"
    and ok: "oam_ok L (s\<lparr>acknowledgments := ks\<rparr>)" by (auto simp: acknowledging_def)
  have ids: "map a_id ?als = map a_id (alerts s)" and inst: "map a_instance ?als = map a_instance (alerts s)"
    by (simp_all add: map_upd_where)
  have keep: "acked ?als x" if "acked (alerts s) x" for x
  proof -
    from that obtain a where a: "a \<in> set (alerts s)" "a_id a = ack_alert x" "a_resolved a \<noteq> None" by (auto simp: acked_def)
    then have "(if a_id a = alertID then ?f a else a) \<in> set ?als" by (auto simp: set_upd_where)
    with a show ?thesis unfolding acked_def by (rule_tac x = "if a_id a = alertID then ?f a else a" in bexI) auto
  qed
  from there obtain a where "a \<in> set (alerts s)" "a_id a = alertID" by auto
  then have "?f a \<in> set ?als" "a_id (?f a) = ack_alert k" "a_resolved (?f a) \<noteq> None" using k by (auto simp: set_upd_where)
  then have new: "acked ?als k" unfolding acked_def by blast
  have fine: "list_all (alert_fine n) ?als" if "list_all (alert_fine n) (alerts s)" for n
    using that by (auto simp: list_all_iff set_upd_where alert_fine_def)
  have refs: "refs_ok (map i_id (instances s)) ?als (acknowledgments s) (snapshots s) (schedules s)"
    using ok inst ids k there
    by (auto simp: oam_ok_def registry_ok_def refs_ok_def list_all_iff ks set_upd_where simp flip: set_map)
  show ?thesis
    using ok keep new fine refs
    by (auto simp: resolve_alert_def oam_ok_def side_tables_ok_def alerts_ok_def registry_ok_def ks unique_by_upd_where list_all_iff)
qed

interpretation acking: table_invariant "acknowledging L alertID :: ('w, 'x) oam_db_scheme \<Rightarrow> bool"
proof
  fix s s' :: "('w, 'x) oam_db_scheme" assume same: "same_tables s s'" and "acknowledging L alertID s"
  then obtain ks k where k: "acknowledgments s = ks @ [k]" "ack_alert k = alertID" "alertID \<in> set (map a_id (alerts s))" and ok: "oam_ok L (s\<lparr>acknowledgments := ks\<rparr>)"
    by (auto simp: acknowledging_def)
  from same have "same_tables (s\<lparr>acknowledgments := ks\<rparr>) (s'\<lparr>acknowledgments := ks\<rparr>)"
    by (cases s; cases s') (auto simp: same_tables_def)
  from whole.same_tables [OF this ok] k same show "acknowledging L alertID s'"
    unfolding acknowledging_def by (intro exI [of _ ks] exI [of _ k]) (auto simp: same_tables_oam)
qed

lemma AcknowledgeAlert_ok: "preserves (oam_ok L) (AcknowledgeAlert alertID userID)"
proof -
  have body: "hoare (oam_ok L) (check AlDb (db_stmt (insert_ack alertID userID t)) (\<lambda>_.
       check AlDb (db_stmt (resolve_alert t alertID)) (\<lambda>_. ret (ok t)))) (on_ok (oam_ok L))" for t
  proof (rule hoare_check_on_ok [where R = "\<lambda>_. acknowledging L alertID"])
    show "hoare (oam_ok L) (db_stmt (insert_ack alertID userID t)) (\<lambda>r s. case r of Inl e \<Rightarrow> True | Inr a \<Rightarrow> acknowledging L alertID s)"
      by (rule whole.sys.stmt_result) (rule insert_ack_open)
    show "hoare (acknowledging L alertID) (check AlDb (db_stmt (resolve_alert t alertID)) (\<lambda>_. ret (ok t))) (on_ok (oam_ok L))" for a :: unit
      by (rule hoare_check_on_ok [where R = "\<lambda>_. oam_ok L"], rule acking.sys.stmt_result)
        (auto simp: resolve_closes intro: hoare_return split: sum.splits)
  qed
  then show ?thesis
    unfolding AcknowledgeAlert_def
    by (intro preserves_bind whole.preserves_time_now) (rule whole.hoare_with_tx [OF body whole.table_invariant_axioms])
qed

lemma health_check_ok: "preserves (oam_ok L) (checkInstanceHealth probe i)"
proof (rule hoareI)
  fix s r s'
  assume ok: "oam_ok L s" and run: "run_state (checkInstanceHealth probe i) s = (r, s')"
  obtain st w where p: "probe (m_ApiEndpoint i @ ''/version'') (outside s) = (st, w)" by force
  have "same_tables s (s\<lparr>outside := w\<rparr>)" by (simp add: same_tables_def)
  from whole.same_tables [OF this ok] have ok1: "oam_ok L (s\<lparr>outside := w\<rparr>)" .
  show "oam_ok L s'"
  proof (cases "st = Some 200")
    case True
    with run p ok1 show ?thesis by (simp add: checkInstanceHealth_def)
  next
    case False
    let ?req = "\<lparr>al_InstanceID = m_ID i, al_Type = AlertTypeAPIUnreachable, al_Severity = SeverityCritical, al_Message = ''Instance '' @ m_Name i @ '' is unreachable.''\<rparr>"
    obtain q s2 where q: "run_state (CreateAlert ?req) (s\<lparr>outside := w\<rparr>) = (q, s2)" by force
    with False run p have "s' = s2" by (simp add: checkInstanceHealth_def)
    with hoareD [OF CreateAlert_ok ok1 q] show ?thesis by simp
  qed
qed

lemma check_all_ok: "preserves (oam_ok L) (check_all probe is)"
  by (induction "is") (auto intro!: hoare_rules health_check_ok)

lemma poll_ok: "preserves (oam_ok L) (poll_loop probe is es)"
  by (induction probe "is" es rule: poll_loop.induct)
    (auto simp: refresh_def FetchLoxiLBInstances_def intro!: hoare_rules check_all_ok whole.preserves_query)

section \<open>All writers together\<close>

datatype alert_call = LCreate "CreateAlertRequest option" | LActive "string option" "string option" | LAcknowledge string "int option" "user_view option"
  | LHistory string string "string option" "string option" | LCheck string | LPoll "poll_event list"

fun run_alert :: "alert_env \<Rightarrow> (string \<Rightarrow> 'w \<Rightarrow> nat option \<times> 'w) \<Rightarrow> alert_call \<Rightarrow> (('w, 'x) oam_db_scheme, unit) state" where
  "run_alert E probe (LCreate body) = do { _ \<leftarrow> handle_CreateAlert body; ret () }"
| "run_alert E probe (LActive page limit) = do { _ \<leftarrow> handle_GetActiveAlerts E page limit; ret () }"
| "run_alert E probe (LAcknowledge p body caller) = do { _ \<leftarrow> handle_AcknowledgeAlert p body caller; ret () }"
| "run_alert E probe (LHistory start stop page limit) = do { _ \<leftarrow> handle_GetAlertHistory E start stop page limit; ret () }"
| "run_alert E probe (LCheck failure) = do { _ \<leftarrow> DBCheckMiddleware failure; ret () }"
| "run_alert E probe (LPoll es) = do { _ \<leftarrow> StartPolling probe es; ret () }"

lemma run_alert_ok: "preserves (oam_ok L) (run_alert E probe c)"
proof (cases c)
  case (LCreate body)
  then show ?thesis by (simp only: run_alert.simps handle_CreateAlert_def) (intro hoare_rules CreateAlert_ok)
next
  case (LActive page limit)
  then show ?thesis
    by (simp only: run_alert.simps handle_GetActiveAlerts_def GetActiveAlertsPaginated_def RetryOperation_once) (intro hoare_rules whole.preserves_query)
next
  case (LAcknowledge p body caller)
  then show ?thesis by (simp only: run_alert.simps handle_AcknowledgeAlert_def) (intro hoare_rules AcknowledgeAlert_ok)
next
  case (LHistory start stop page limit)
  then show ?thesis
    by (simp only: run_alert.simps handle_GetAlertHistory_def GetAlertHistoryPaginated_def RetryOperation_once)
      (intro hoare_rules whole.preserves_query whole.preserves_time_now)
next
  case (LCheck failure)
  then show ?thesis by (simp only: run_alert.simps DBCheckMiddleware_def) (intro hoare_rules whole.preserves_query CreateAlert_ok)
next
  case (LPoll es)
  then show ?thesis
    by (simp only: run_alert.simps StartPolling_def refresh_def FetchLoxiLBInstances_def RetryOperation_once)
      (intro hoare_rules whole.preserves_query poll_ok)
qed

lemma run_registry_whole: "preserves (oam_ok (rg_lower E)) (run_registry E c)"
proof (rule hoareI)
  fix s r s'
  assume "oam_ok (rg_lower E) s" and run: "run_state (run_registry E c) s = (r, s')"
  then show "oam_ok (rg_lower E) s'"
    using hoareD [OF run_registry_ok _ run] hoareD [OF side.preserves_run_registry _ run] by (auto simp: oam_ok_def)
qed

section \<open>Limits\<close>

text \<open>The alert about a lost connection names no instance, so the foreign key refuses it.\<close>

lemma lost_connection_alert_never_stored:
  assumes "oam_ok L s" and "run_state (DBCheckMiddleware failure) s = (r, s')"
  shows "alerts s' = alerts s"
proof -
  have none: "i_id x \<noteq> 0" if "x \<in> set (instances s)" for x
    using assms(1) that by (auto simp: oam_ok_def registry_ok_def rows_ok_def list_all_iff row_derived_def)
  let ?I = "\<lambda>t. instances t = instances s \<and> alerts t = alerts s"
  have same: "table_invariant ?I" by unfold_locales (auto simp: same_tables_oam)
  have "preserves ?I (DBCheckMiddleware failure)"
    unfolding DBCheckMiddleware_def CreateAlert_def RetryOperation_once
    by (intro hoare_rules table_invariant.preserves_query [OF same] table_invariant.preserves_stmt [OF same])
      (auto simp: insert_alert_def Let_def take_seq_def dest: none)
  with assms(2) show ?thesis by (auto dest: hoareD)
qed

text \<open>A refresh that fails leaves the poller without instances until the next one.\<close>

lemma failed_refresh_stops_polling:
  assumes "script s = (Refused, d) # sc"
  shows "fst (run_state refresh s) = []"
  using assms by (auto simp: refresh_def FetchLoxiLBInstances_def run_db_query run_next_outcome split: prod.splits)

end
