(* ===== verification/Logs.thy ===== *)
theory Logs
  imports Go_Strings
begin

text \<open>
  The log handlers of \<^verbatim>\<open>internal/handlers/handler.go\<close> that read files: the next lines of the current log for a client, the list of archives and
  the download of one.  The file system is a parameter; a regular file gives a full buffer on every read until its end.  \<^verbatim>\<open>GetLogsFromDB\<close> is one
  query over a table that another program fills and is not modelled.
\<close>

section \<open>Reading lines\<close>

text \<open>\<^verbatim>\<open>string(b)\<close> of a byte is the UTF-8 encoding of the character with that number.\<close>

definition byte_string :: "char \<Rightarrow> string" where
  "byte_string c = (if byte c < 128 then [c] else [char_of (192 + byte c div 64), char_of (128 + byte c mod 64)])"

text \<open>The inner loop over one buffer: the lines, the unfinished line, and the index at which it stopped early.\<close>

fun scan_buffer :: "nat \<Rightarrow> nat \<Rightarrow> string list \<Rightarrow> string \<Rightarrow> string \<Rightarrow> string list \<times> string \<times> nat option" where
  "scan_buffer numLines i lines line [] = (lines, line, None)"
| "scan_buffer numLines i lines line (c # cs) =
     (if byte c = 10 then
        (let lines = lines @ [trim_space line] in
         if numLines \<le> length lines then (lines, [], Some i) else scan_buffer numLines (i + 1) lines [] cs)
      else scan_buffer numLines (i + 1) lines (line @ byte_string c) cs)"

definition bufferSize :: nat where "bufferSize = 4096"

function read_loop :: "nat \<Rightarrow> string list \<Rightarrow> string \<Rightarrow> nat \<Rightarrow> string \<Rightarrow> string list \<times> string \<times> nat" where
  "read_loop numLines lines line pos rest =
     (if numLines \<le> length lines \<or> rest = [] then (lines, line, pos)
      else (let buffer = take bufferSize rest in
            case scan_buffer numLines 0 lines line buffer of
              (lines, line, stopped) \<Rightarrow>
                read_loop numLines lines line (pos + (case stopped of None \<Rightarrow> 0 | Some i \<Rightarrow> i + 1) + length buffer) (drop bufferSize rest)))"
  by pat_completeness auto
termination
  by (relation "measure (\<lambda>(n, ls, l, p, rest). length rest)") (auto simp: bufferSize_def)

declare read_loop.simps [simp del]

text \<open>A count below one reads nothing.\<close>

definition readNextLines :: "string \<Rightarrow> nat \<Rightarrow> int \<Rightarrow> string list \<times> nat" where
  "readNextLines file startPos numLines =
     (case read_loop (nat numLines) [] [] startPos (drop startPos file) of
        (lines, line, pos) \<Rightarrow> (if line \<noteq> [] \<and> int (length lines) < numLines then lines @ [trim_space line] else lines, pos))"

definition filterLogs :: "string list \<Rightarrow> string \<Rightarrow> string \<Rightarrow> string list" where
  "filterLogs lines level keyword = filter (\<lambda>line. (level = [] \<or> contains line level) \<and> (keyword = [] \<or> contains line keyword)) lines"

definition derefString :: "string option \<Rightarrow> string" where
  "derefString p = (case p of None \<Rightarrow> [] | Some t \<Rightarrow> t)"

text \<open>The client a cursor belongs to: the first forwarded address, or the remote address up to its first colon.\<close>

definition getClientIP :: "string \<Rightarrow> string \<Rightarrow> string" where
  "getClientIP forwarded remoteAddr =
     (if forwarded \<noteq> [] then trim_space (hd (split_on CHR '','' forwarded))
      else if remoteAddr \<noteq> [] then (if contains remoteAddr '':'' then hd (split_on CHR '':'' remoteAddr) else remoteAddr)
      else [])"

section \<open>Handlers\<close>

definition DefaultLogFilePath :: string where "DefaultLogFilePath = ''/var/log/''"
definition DefaultLogArchivePath :: string where "DefaultLogArchivePath = ''/var/log/''"
definition DefaultOAMLogFile :: string where "DefaultOAMLogFile = ''loxioam''"

text \<open>The file system: a directory lists names with whether they are directories, a file opens to its bytes.\<close>

record log_files =
  lf_dir :: "string \<Rightarrow> (string \<times> bool) list option"
  lf_open :: "string \<Rightarrow> string option"
  lf_stat :: "string \<Rightarrow> nat option"

datatype log_reply = LogReply nat string | LogLines "string list" | LogArchives "string list" | LogFile string string

type_synonym cursors = "string \<rightharpoonup> nat"

text \<open>\<open>lines\<close> is the value \<^verbatim>\<open>strconv.Atoi\<close> gives for the parameter; the keyword is read from the parameter \<^verbatim>\<open>startTime\<close>.\<close>

definition GetLogs :: "log_files \<Rightarrow> int \<Rightarrow> string \<Rightarrow> string \<Rightarrow> string \<Rightarrow> cursors \<Rightarrow> log_reply \<times> cursors" where
  "GetLogs F lines level keyword client cs = (case lf_dir F DefaultLogFilePath of
      None \<Rightarrow> (LogReply 500 ''Failed to read log directory'', cs)
    | Some entries \<Rightarrow> (case filter (\<lambda>n. has_prefix n DefaultOAMLogFile \<and> has_suffix n ''.log'') (map fst entries) of
        [] \<Rightarrow> (LogReply 500 ''Log file not found'', cs)
      | logFile # _ \<Rightarrow> (case lf_open F (DefaultLogFilePath @ logFile) of
          None \<Rightarrow> (LogReply 500 ''Failed to open log file'', cs)
        | Some file \<Rightarrow>
            (let startPos = (case cs client of None \<Rightarrow> 0 | Some p \<Rightarrow> p);
                 (nextLines, nextCursor) = readNextLines file startPos lines in
             (LogLines (filterLogs nextLines (derefString (Some level)) (derefString (Some keyword))), cs(client \<mapsto> nextCursor))))))"

definition archive_name :: "string \<Rightarrow> bool" where
  "archive_name n \<longleftrightarrow> has_prefix n DefaultOAMLogFile \<and> (has_suffix n ''.log'' \<or> has_suffix n ''.log.gz'')"

definition GetLogArchives :: "log_files \<Rightarrow> log_reply" where
  "GetLogArchives F = (case lf_dir F DefaultLogArchivePath of
      None \<Rightarrow> LogReply 500 ''Failed to list log archives''
    | Some entries \<Rightarrow> LogArchives (map fst (filter (\<lambda>(n, dir). \<not> dir \<and> archive_name n) entries)))"

text \<open>\<^verbatim>\<open>filepath.Base\<close>: without trailing separators, what follows the last one.\<close>

definition filepath_Base :: "string \<Rightarrow> string" where
  "filepath_Base p =
     (if p = [] then ''.''
      else (let q = rev (dropWhile (\<lambda>c. c = CHR ''/'') (rev p)) in
            if q = [] then ''/'' else last (split_on CHR ''/'' q)))"

definition GetLogArchivesFilename :: "log_files \<Rightarrow> string \<Rightarrow> log_reply" where
  "GetLogArchivesFilename F filename =
     (if filename = [] then LogReply 400 ''Filename is required''
      else if filename \<noteq> filepath_Base filename \<or> \<not> archive_name filename then LogReply 400 ''Invalid filename''
      else (let path = DefaultLogArchivePath @ filename in
            case lf_open F path of
              None \<Rightarrow> LogReply 500 ''Failed to open log archive''
            | Some bytes \<Rightarrow> (case lf_stat F path of
                None \<Rightarrow> LogReply 500 ''Failed to get file info''
              | Some n \<Rightarrow> if n = 0 then LogReply 500 ''File is empty'' else LogFile path bytes)))"

section \<open>What the handlers do\<close>

text \<open>A download never leaves the archive directory.\<close>

lemma Base_no_separator:
  assumes "p = filepath_Base p" and "p \<noteq> ''/''"
  shows "CHR ''/'' \<notin> set p"
proof -
  let ?q = "rev (dropWhile (\<lambda>c. c = CHR ''/'') (rev p))"
  have sep: "CHR ''/'' \<notin> set (last (split_on CHR ''/'' ?q))"
    using split_on_no_sep [OF last_in_set [OF split_on_nonempty], of "CHR ''/''" ?q] by simp
  have "filepath_Base p = ''.'' \<or> filepath_Base p = ''/'' \<or> filepath_Base p = last (split_on CHR ''/'' ?q)" unfolding filepath_Base_def Let_def by presburger
  with assms have "p = ''.'' \<or> p = last (split_on CHR ''/'' ?q)" by argo
  then show ?thesis using sep by (elim disjE) (simp, argo)
qed

lemma archive_download_confined:
  assumes "GetLogArchivesFilename F filename = LogFile path bytes"
  shows "path = DefaultLogArchivePath @ filename \<and> CHR ''/'' \<notin> set filename \<and> archive_name filename \<and> lf_open F path = Some bytes"
proof -
  from assms have base: "filename = filepath_Base filename" and name: "archive_name filename" and path: "path = DefaultLogArchivePath @ filename" "lf_open F path = Some bytes"
    by (auto simp: GetLogArchivesFilename_def Let_def split: if_splits option.splits)
  from name have "filename \<noteq> ''/''" by (auto simp: archive_name_def has_prefix_def DefaultOAMLogFile_def)
  with Base_no_separator [OF base] name path show ?thesis by simp
qed

lemma filterLogs_subset: "set (filterLogs lines level keyword) \<subseteq> set lines"
  by (auto simp: filterLogs_def)

text \<open>As long as the wanted number of lines is not reached, the cursor ends at the end of the file.\<close>

lemma scan_buffer_all:
  assumes "length lines + length (filter (\<lambda>c. byte c = 10) cs) < n"
  shows "\<exists>ls l. scan_buffer n i lines line cs = (ls, l, None) \<and> length ls = length lines + length (filter (\<lambda>c. byte c = 10) cs)"
  using assms by (induction n i lines line cs rule: scan_buffer.induct) (auto simp: Let_def)

lemma read_loop_all:
  assumes "length lines + length (filter (\<lambda>c. byte c = 10) rest) < n"
  shows "\<exists>ls l. read_loop n lines line pos rest = (ls, l, pos + length rest) \<and> length ls = length lines + length (filter (\<lambda>c. byte c = 10) rest)"
  using assms
proof (induction n lines line pos rest rule: read_loop.induct)
  case (1 n lines line pos rest)
  show ?case
  proof (cases "rest = []")
    case True
    then show ?thesis by (simp add: read_loop.simps)
  next
    case False
    let ?b = "take bufferSize rest" and ?r = "drop bufferSize rest"
    have count: "length (filter (\<lambda>c. byte c = 10) rest) = length (filter (\<lambda>c. byte c = 10) ?b) + length (filter (\<lambda>c. byte c = 10) ?r)"
      by (metis append_take_drop_id filter_append length_append)
    with "1.prems" obtain ls l where sc: "scan_buffer n 0 lines line ?b = (ls, l, None)" and len: "length ls = length lines + length (filter (\<lambda>c. byte c = 10) ?b)"
      using scan_buffer_all [of lines ?b n 0 line] by auto
    have go: "\<not> (n \<le> length lines \<or> rest = [])" using "1.prems" False by simp
    from len count "1.prems" have "length ls + length (filter (\<lambda>c. byte c = 10) ?r) < n" by simp
    from "1.IH" [OF go refl sc [symmetric] refl this]
    obtain ks k where "read_loop n ls l (pos + length ?b) ?r = (ks, k, pos + length ?b + length ?r)"
      and "length ks = length ls + length (filter (\<lambda>c. byte c = 10) ?r)" by auto
    then show ?thesis using go sc len count by (subst read_loop.simps) (auto simp: Let_def)
  qed
qed

lemma cursor_reaches_end:
  assumes "int (length (filter (\<lambda>c. byte c = 10) (drop startPos file))) < numLines" and "startPos \<le> length file"
  shows "snd (readNextLines file startPos numLines) = length file"
proof -
  have "length [] + length (filter (\<lambda>c. byte c = 10) (drop startPos file)) < nat numLines" using assms(1) by simp
  from read_loop_all [OF this, of "[]" startPos] assms(2) show ?thesis by (auto simp: readNextLines_def)
qed

section \<open>Limits\<close>

text \<open>
  When the wanted number of lines is reached inside a buffer the cursor is advanced twice, over the lines and over the whole buffer: the next
  request starts after lines that were never returned.
\<close>

lemma lines_skipped:
  "readNextLines [CHR ''a'', CHR 10, CHR ''b'', CHR 10] 0 1 = ([''a''], 6) \<and> readNextLines [CHR ''a'', CHR 10, CHR ''b'', CHR 10] 6 1 = ([], 6)"
  by (simp add: readNextLines_def read_loop.simps bufferSize_def byte_def byte_string_def Let_def space_eval)

text \<open>Bytes above ASCII are encoded a second time.\<close>

lemma bytes_encoded_twice: "byte_string (CHR 0xC3) @ byte_string (CHR 0xA9) = [CHR 0xC3, CHR 0x83, CHR 0xC2, CHR 0xA9]"
  by code_simp

end
