(* ===== verification/Spec2Isabelle.thy ===== *)
theory Spec2Isabelle
  imports User_Handlers Appliance_Api Migrate Appliance_Handlers Alerts Logs
begin

text \<open>
  \<^bold>\<open>Verification of loxilb-oam.\<close>  The program is the management server of LoxiLB load balancers: a REST service in Go over a
  PostgreSQL database.  It keeps user accounts and sessions, a registry of gateway instances, stored configurations (snapshots) of them,
  and the lifecycle of whole-appliance operations that a privileged host adapter executes; it relays requests to the gateways.

  \<^bold>\<open>How the code is modelled.\<close>
  A Go function that talks to the database is a definition in the state monad of \<open>Prelude\<close>; a call that can fail returns a sum with the error on the
  left, and \<open>check\<close> is \<^verbatim>\<open>if err != nil { return wrap(err) }\<close>.  \<open>Db\<close> is what \<^verbatim>\<open>database/sql\<close> gives: tables as lists of rows, identity
  sequences, a clock, transactions, and a script that decides for each statement whether it is executed, refused, or executed with its answer lost.
  Theorems hold for every script unless they say that statements succeed.  What lies outside the database is the field \<open>outside\<close>, which no rollback undoes.
  Go strings are lists of bytes (\<open>Go_Strings\<close>: \<^verbatim>\<open>strings\<close>, \<^verbatim>\<open>strconv\<close>, UTF-8 decoding; \<open>Json\<close>: the encoder).  Integers of the
  code that cannot overflow in the modelled use are \<open>int\<close> or \<open>nat\<close>.
  Handlers return a status with a body; routes compose the middleware as \<^verbatim>\<open>internal/routes/routes.go\<close> does.

  \<^bold>\<open>Theories and sources.\<close>

  \<^item> \<open>Prelude\<close>, \<open>Go_Strings\<close>, \<open>Json\<close>, \<open>Db\<close>, \<open>Schema\<close>: the shared vocabulary, the program logic, the database and its rows
    (\<^verbatim>\<open>internal/models\<close>, \<^verbatim>\<open>database/init\<close>, \<^verbatim>\<open>internal/utils/retry.go\<close>).  \<open>table_invariant\<close> and \<open>system_invariant\<close> are the interfaces
    between a table and the operations over it: an invariant that looks only at tables survives every read and every atomic transaction.
  \<^item> \<open>Rbac\<close>, \<open>Gateway_Path\<close> (\<^verbatim>\<open>models/roles.go\<close>, \<^verbatim>\<open>middleware/rbac.go\<close>, \<^verbatim>\<open>services/gateway_path.go\<close>): the roles form a chain of rights;
    an accepted gateway path has one reading, and what is sent to the gateway is the path that was authorized.
  \<^item> \<open>Password\<close>, \<open>Password_Policy\<close>, \<open>Users\<close>, \<open>Sessions\<close>, \<open>Lockout\<close>, \<open>Accounts\<close> (\<^verbatim>\<open>pkg/utils/password.go\<close>, \<^verbatim>\<open>services/user_service.go\<close>,
    \<^verbatim>\<open>config/queries.go\<close>): hashing round trip, the policy as a specification, accounts that stay consistent with an administrator left, tokens
    that die with their password or account, and the rate of password guesses.
  \<^item> \<open>Middleware\<close>, \<open>User_Handlers\<close> (\<^verbatim>\<open>middleware/auth.go\<close>, \<^verbatim>\<open>rbac.go\<close>, \<^verbatim>\<open>cors.go\<close>, \<^verbatim>\<open>handlers/handler.go\<close>): who reaches a protected handler,
    what a login is earned by, and that nobody raises his own role.
  \<^item> \<open>Operation\<close>, \<open>Host\<close>, \<open>Host_Auth\<close>, \<open>Host_Fixture\<close>, \<open>Lifecycle\<close>, \<open>Submission\<close> (\<^verbatim>\<open>internal/appliance\<close>): operations, the host adapter as
    the locale \<open>host_adapter\<close>, the signed socket client and the fixture adapter that interprets it, and every transaction of the service.
    \<open>Appliance_System\<close> describes all interleavings of requests and reconciler rounds as an inductive step relation with its invariant,
    \<open>Appliance_Safety\<close> states what it means (authorized, once, never after a stop, one at a time), \<open>Appliance_Calls\<close> shows that every service
    call is a sequence of those steps, \<open>Appliance_Api\<close> the behaviour of single calls (idempotency keys, challenges, listing).
    \<open>Appliance_Status\<close> and \<open>Appliance_Handlers\<close> (\<^verbatim>\<open>appliance/service.go\<close>, \<^verbatim>\<open>handlers/appliance_handler.go\<close>): the capability report and the HTTP face.
  \<^item> \<open>Migrate\<close> (\<^verbatim>\<open>internal/migrate\<close>): under every sequence of starts and failures the schema is what a prefix of the migrations gives.
  \<^item> \<open>Instances\<close>, \<open>Docker\<close>, \<open>Registry\<close> (\<^verbatim>\<open>models/instance_validation.go\<close>, \<^verbatim>\<open>utils/docker_utils.go\<close>, \<^verbatim>\<open>services/loxilb_service.go\<close>, \<^verbatim>\<open>handler.go\<close>):
    field validation against what a URL parser reads back, and the consistency of the registry with everything that refers to it.
  \<^item> \<open>Gateway_Identity\<close>, \<open>Proxy\<close> (\<^verbatim>\<open>services/gateway_identity.go\<close>, \<^verbatim>\<open>config/reserved.go\<close>, \<^verbatim>\<open>services/proxy_service.go\<close>, \<^verbatim>\<open>handlers/proxy_error.go\<close>):
    no credential of a caller crosses to a gateway, no rule takes a reserved endpoint, and answers carry their true origin.
  \<^item> \<open>Snapshots\<close>, \<open>Snapshot_Scheduler\<close>, \<open>Snapshot_Safety\<close>, \<open>Snapshot_Handlers\<close> (\<^verbatim>\<open>services/snapshot_service.go\<close>, \<^verbatim>\<open>snapshot_scheduler.go\<close>,
    \<^verbatim>\<open>handlers/snapshot_handler.go\<close>): stored documents come back byte for byte, restores send only verified documents after a safety snapshot,
    retention keeps what it should, and only who may write configurations sees or changes a document.
  \<^item> \<open>Alerts\<close> (\<^verbatim>\<open>services/alert_service.go\<close>, \<^verbatim>\<open>polling\<close>, \<^verbatim>\<open>middleware/db_check.go\<close>), \<open>Logs\<close> (the log file handlers): alerts and their acknowledgment,
    what raises them, and reading log files.  The end of this theory puts the components that write the instance, snapshot, schedule
    and alert tables together and shows the integrity of the database under all of them.

  \<^bold>\<open>Parameters and what is assumed of them.\<close>
  PBKDF2, bcrypt, SHA-256, HMAC, AES-GCM and gzip are functions; where a theorem needs it, a hypothesis states the documented law (a key has
  the requested length, decompression inverts compression).  JWT signing and parsing, JSON binding, \<^verbatim>\<open>net/url\<close>, the HTTP transports and the
  Unicode tables above ASCII are parameters.  The host adapter is assumed to keep its journal unless a loss is recorded; the fixture shows
  that the assumptions can be met.  PostgreSQL executes transactions atomically, locks the rows a transaction has read for update, and refuses to commit
  after a failed statement.  The handlers of the registry and of the snapshots run one after the other; the interleavings of the appliance are explicit.

  \<^bold>\<open>Termination and bounds.\<close>  All definitions are total; loops are structural recursions or have a measure.  No fuel is used.
  The retry loop runs \<^verbatim>\<open>MaxRetries = 1\<close> times in this version, which the model reads from the constant.

  \<^bold>\<open>Not modelled.\<close>  The rate limiter (token buckets in floating point), the query over the log table that another program fills, the start-up of the server
  and the connection pool, tickers and goroutines (their bodies are modelled, with the ticks as arguments), the command line front ends, TLS settings, the
  generated API description, and log output.
\<close>

section \<open>All components on one database\<close>

text \<open>A request or a background activity of one of the components that write the instance, snapshot, schedule and alert tables.\<close>

datatype oam_call = OnRegistry registry_call | OnSnapshots snap_call | OnAlerts alert_call

fun run_oam :: "'w snap_net registry_env \<Rightarrow> 'w snap_env \<Rightarrow> alert_env \<Rightarrow> (string \<Rightarrow> 'w snap_net \<Rightarrow> nat option \<times> 'w snap_net) \<Rightarrow> oam_call list
    \<Rightarrow> (('w snap_net, 'x) oam_db_scheme, unit) state" where
  "run_oam R E A probe [] = State_Monad.return ()"
| "run_oam R E A probe (OnRegistry c # cs) = do { _ \<leftarrow> run_registry R c; run_oam R E A probe cs }"
| "run_oam R E A probe (OnSnapshots c # cs) = do { _ \<leftarrow> run_snap E c; run_oam R E A probe cs }"
| "run_oam R E A probe (OnAlerts c # cs) = do { _ \<leftarrow> run_alert A probe c; run_oam R E A probe cs }"

lemma run_oam_ok: "preserves (oam_ok (rg_lower R)) (run_oam R E A probe cs)"
  by (induction R E A probe cs rule: run_oam.induct)
    (auto intro!: hoare_rules run_registry_whole run_alert_ok whole_snap.preserves_run_snap)


definition demo_alert_env :: alert_env where
  "demo_alert_env = \<lparr>ae_newest = (\<lambda>t als. rev als), ae_parse_time = (\<lambda>t. None)\<rparr>"

definition demo_registry_env :: "unit snap_net registry_env" where
  "demo_registry_env = \<lparr>rg_docker = \<lparr>dk_env = \<lparr>OAM_DOCKER_TLS = [], OAM_DOCKER_PORT = []\<rparr>, dk_do = (\<lambda>verb u b w. (ok [], w)), dk_Id = (\<lambda>b. Some ''c1'')\<rparr>,
     rg_lower = map ascii_lower, rg_uni = id, rg_close_idle = None\<rparr>"

definition demo_alert :: CreateAlertRequest where
  "demo_alert = \<lparr>al_InstanceID = 1, al_Type = AlertTypeHighCPU, al_Severity = SeverityInfo, al_Message = ''m''\<rparr>"


end
